(* ===== verification/Ssh_Prelude.thy ===== *)
theory Ssh_Prelude
  imports Main "HOL-Library.Word"
begin

unbundle bit_operations_syntax

text \<open>
  Shared vocabulary of the development: Rust's machine integers as words, the result of a
  computation that can fail, panic or run forever, big-endian byte strings, and the list
  lemmas on which the component theories rest.
\<close>

section \<open>Machine integers and bytes\<close>

type_synonym u8 = "8 word"
type_synonym u16 = "16 word"
type_synonym u32 = "32 word"
type_synonym u64 = "64 word"
type_synonym bytes = "u8 list"

text \<open>
  The collections that carry the component proofs: \<open>outcome_simps\<close> for the plumbing of
  results, \<open>codec_simps\<close> for encoding and decoding, \<open>str_simps\<close> for string operations and
  \<open>frame_simps\<close> for what an operation leaves untouched.
\<close>

named_theorems outcome_simps
named_theorems codec_simps
named_theorems str_simps
named_theorems frame_simps

text \<open>A byte-string literal \<open>b"..."\<close> and the bytes of an ASCII string.\<close>

definition bs :: "string \<Rightarrow> bytes" where
  "bs s = map of_char s"

lemma unat_of_char_u8: "unat (of_char x :: u8) = (of_char x :: nat)"
proof -
  have "(of_char x :: u8) = of_nat (of_char x)" by (simp add: of_nat_of_char)
  moreover have "(of_char x :: nat) mod 256 = of_char x" by simp
  ultimately show ?thesis by (simp only: unat_of_nat) simp
qed

lemma of_char_u8_inj: "(of_char c :: u8) = of_char d \<longleftrightarrow> c = d"
  by (metis unat_of_char_u8 of_char_eq_iff)

lemma bs_inj [simp]: "bs a = bs b \<longleftrightarrow> a = b"
proof
  assume "bs a = bs b"
  moreover have "inj (of_char :: char \<Rightarrow> u8)" by (rule injI) (simp add: of_char_u8_inj)
  ultimately show "a = b" by (simp add: bs_def inj_map_eq_map)
qed simp

lemma length_bs [simp]: "length (bs s) = length s"
  by (simp add: bs_def)

lemma bs_append [simp]: "bs (a @ b) = bs a @ bs b"
  by (simp add: bs_def)

section \<open>Results\<close>

text \<open>
  What a Rust call can do: return, return an error, panic (an assertion, an index out of range,
  \<open>unreachable!\<close>) or never return. Arithmetic follows the release profile, in which it wraps.
\<close>

datatype ('e, 'a) outcome = Ok 'a | Err 'e | Panic | Diverge

text \<open>The \<open>?\<close> operator: the first result that is not \<open>Ok\<close> ends the computation.\<close>

fun obind :: "('e, 'a) outcome \<Rightarrow> ('a \<Rightarrow> ('e, 'b) outcome) \<Rightarrow> ('e, 'b) outcome" where
  "obind (Ok x) f = f x"
| "obind (Err e) f = Err e"
| "obind Panic f = Panic"
| "obind Diverge f = Diverge"

lemma obind_Ok_iff [outcome_simps]: "obind m f = Ok y \<longleftrightarrow> (\<exists>x. m = Ok x \<and> f x = Ok y)"
  by (cases m) auto

lemma obind_Err_iff [outcome_simps]:
  "obind m f = Err e \<longleftrightarrow> m = Err e \<or> (\<exists>x. m = Ok x \<and> f x = Err e)"
  by (cases m) auto

lemma obind_assoc [outcome_simps]: "obind (obind m f) g = obind m (\<lambda>x. obind (f x) g)"
  by (cases m) auto

lemma obind_right_Ok [simp]: "obind m Ok = m"
  by (cases m) auto

lemma obind_cong [fundef_cong]:
  "m = m' \<Longrightarrow> (\<And>x. m' = Ok x \<Longrightarrow> f x = g x) \<Longrightarrow> obind m f = obind m' g"
  by (cases m) auto

text \<open>\<open>ok_or\<close>: an absent value becomes an error.\<close>

definition ok_or :: "'e \<Rightarrow> 'a option \<Rightarrow> ('e, 'a) outcome" where
  "ok_or e x = (case x of None \<Rightarrow> Err e | Some v \<Rightarrow> Ok v)"

lemma ok_or_simps [simp]: "ok_or e None = Err e" "ok_or e (Some v) = Ok v"
  by (simp_all add: ok_or_def)

lemma ok_or_Ok_iff [outcome_simps]: "ok_or e x = Ok v \<longleftrightarrow> x = Some v"
  by (cases x) auto

text \<open>A loop that pushes the result of each element: the first failure ends it.\<close>

fun omap :: "('a \<Rightarrow> ('e, 'b) outcome) \<Rightarrow> 'a list \<Rightarrow> ('e, 'b list) outcome" where
  "omap f [] = Ok []"
| "omap f (x # xs) = obind (f x) (\<lambda>y. obind (omap f xs) (\<lambda>ys. Ok (y # ys)))"

lemma omap_append:
  "omap f (xs @ ys) = obind (omap f xs) (\<lambda>a. obind (omap f ys) (\<lambda>b. Ok (a @ b)))"
  by (induction xs) (auto simp: obind_assoc)

lemma omap_Ok_iff: "omap f xs = Ok ys \<longleftrightarrow> list_all2 (\<lambda>x y. f x = Ok y) xs ys"
proof (induction xs arbitrary: ys)
  case Nil
  then show ?case by auto
next
  case (Cons x xs)
  then show ?case by (cases ys) (auto simp: obind_Ok_iff)
qed

section \<open>Big-endian integers\<close>

text \<open>\<open>u16::to_be_bytes\<close>, \<open>u32::to_be_bytes\<close> and their inverses.\<close>

definition be16 :: "u16 \<Rightarrow> bytes" where
  "be16 w = [of_nat (unat w div 256), of_nat (unat w mod 256)]"

definition from_be16 :: "u8 \<Rightarrow> u8 \<Rightarrow> u16" where
  "from_be16 a b = of_nat (unat a * 256 + unat b)"

definition be32 :: "u32 \<Rightarrow> bytes" where
  "be32 w = [of_nat (unat w div 16777216), of_nat (unat w div 65536 mod 256),
             of_nat (unat w div 256 mod 256), of_nat (unat w mod 256)]"

definition from_be32 :: "u8 \<Rightarrow> u8 \<Rightarrow> u8 \<Rightarrow> u8 \<Rightarrow> u32" where
  "from_be32 a b c d = of_nat (unat a * 16777216 + unat b * 65536 + unat c * 256 + unat d)"

lemma length_be16 [simp]: "length (be16 w) = 2"
  by (simp add: be16_def)

lemma length_be32 [simp]: "length (be32 w) = 4"
  by (simp add: be32_def)

lemma unat_of_nat_u8 [simp]: "n < 256 \<Longrightarrow> unat (of_nat n :: u8) = n"
  by (simp add: unat_of_nat)

lemma unat_u8_lt: "unat (w :: u8) < 256"
  by (rule less_le_trans [OF unsigned_less]) simp

lemma unat_u16_lt: "unat (w :: u16) < 65536"
  by (rule less_le_trans [OF unsigned_less]) simp

lemma unat_u32_lt: "unat (w :: u32) < 4294967296"
  by (rule less_le_trans [OF unsigned_less]) simp

lemma unat_of_nat_u16: "n < 65536 \<Longrightarrow> unat (of_nat n :: u16) = n"
  by (simp add: unat_of_nat)

lemma unat_of_nat_u32: "n < 4294967296 \<Longrightarrow> unat (of_nat n :: u32) = n"
  by (simp add: unat_of_nat)

lemma be16_from_be16:
  obtains a b where "be16 w = [a, b]" "from_be16 a b = w"
proof -
  have *: "unat w div 256 < 256" using unat_u16_lt [of w] by simp
  have "from_be16 (of_nat (unat w div 256)) (of_nat (unat w mod 256)) = w"
    using * by (simp add: from_be16_def)
  with that show thesis by (simp add: be16_def)
qed

lemma base256_digits:
  "n = a * 256 + r0 \<Longrightarrow> a = b * 256 + r1 \<Longrightarrow> b = c * 256 + r2 \<Longrightarrow>
   c * 16777216 + r2 * 65536 + r1 * 256 + r0 = (n :: nat)"
  by simp

lemma be32_from_be32:
  obtains a b c d where "be32 w = [a, b, c, d]" "from_be32 a b c d = w"
proof -
  let ?n = "unat w"
  have n: "?n < 4294967296" by (rule unat_u32_lt)
  have b: "?n div 16777216 < 256" "?n div 65536 mod 256 < 256" "?n div 256 mod 256 < 256"
    "?n mod 256 < 256"
    by (rule less_mult_imp_div_less, use n in simp) simp_all
  have "?n div 65536 div 256 = ?n div 16777216" "?n div 256 div 256 = ?n div 65536"
    by (simp_all only: div_mult2_eq [symmetric]) simp_all
  then have "?n div 16777216 * 16777216 + ?n div 65536 mod 256 * 65536 + ?n div 256 mod 256 * 256
      + ?n mod 256 = ?n"
    using base256_digits [OF div_mult_mod_eq [of ?n 256, symmetric]
        div_mult_mod_eq [of "?n div 256" 256, symmetric]] div_mult_mod_eq [of "?n div 65536" 256]
    by metis
  then have "from_be32 (of_nat (?n div 16777216)) (of_nat (?n div 65536 mod 256))
      (of_nat (?n div 256 mod 256)) (of_nat (?n mod 256)) = w"
    unfolding from_be32_def unat_of_nat_u8 [OF b(1)] unat_of_nat_u8 [OF b(2)]
      unat_of_nat_u8 [OF b(3)] unat_of_nat_u8 [OF b(4)]
    by simp
  with that show thesis by (simp add: be32_def)
qed

section \<open>Lists\<close>

text \<open>The pieces of at most \<open>n\<close> elements into which a loop that takes \<open>n\<close> at a time cuts a list.\<close>

function chunks :: "nat \<Rightarrow> 'a list \<Rightarrow> 'a list list" where
  "chunks n xs = (if n = 0 \<or> xs = [] then [] else take n xs # chunks n (drop n xs))"
  by pat_completeness auto
termination
  by (relation "measure (\<lambda>(n, xs). length xs)") auto

declare chunks.simps [simp del]

lemma chunks_Nil [simp]: "chunks n [] = []"
  by (subst chunks.simps) simp

lemma concat_chunks: "0 < n \<Longrightarrow> concat (chunks n xs) = xs"
proof (induction n xs rule: chunks.induct)
  case (1 n xs)
  then show ?case by (subst chunks.simps) (cases "xs = []"; simp)
qed

lemma chunks_bounds: "c \<in> set (chunks n xs) \<Longrightarrow> c \<noteq> [] \<and> length c \<le> n"
proof (induction n xs rule: chunks.induct)
  case (1 n xs)
  then show ?case
    by (subst (asm) (2) chunks.simps) (auto split: if_splits)
qed

text \<open>Splitting at a separator, as \<open>split(',')\<close> does: always at least one piece.\<close>

fun split_at :: "'a \<Rightarrow> 'a list \<Rightarrow> 'a list list" where
  "split_at c [] = [[]]"
| "split_at c (x # xs) =
     (if x = c then [] # split_at c xs
      else (case split_at c xs of [] \<Rightarrow> [[x]] | p # ps \<Rightarrow> (x # p) # ps))"

fun join_with :: "'a list \<Rightarrow> 'a list list \<Rightarrow> 'a list" where
  "join_with sep [] = []"
| "join_with sep [x] = x"
| "join_with sep (x # y # ys) = x @ sep @ join_with sep (y # ys)"

lemma split_at_not_Nil [simp]: "split_at c xs \<noteq> []"
  by (induction xs) (auto split: list.splits)

lemma split_at_no_sep: "c \<notin> set xs \<Longrightarrow> split_at c xs = [xs]"
  by (induction xs) auto

lemma split_at_append_sep: "c \<notin> set xs \<Longrightarrow> split_at c (xs @ c # ys) = xs # split_at c ys"
  by (induction xs) auto

lemma split_at_pieces: "p \<in> set (split_at c xs) \<Longrightarrow> c \<notin> set p"
  by (induction xs arbitrary: p) (auto split: if_splits list.splits)

lemma join_split_at: "join_with [c] (split_at c xs) = xs"
proof (induction xs)
  case Nil
  then show ?case by simp
next
  case (Cons x xs)
  obtain p ps where s: "split_at c xs = p # ps" by (cases "split_at c xs") auto
  with Cons show ?case by (cases ps) auto
qed

lemma split_at_join:
  "xs \<noteq> [] \<Longrightarrow> (\<And>x. x \<in> set xs \<Longrightarrow> c \<notin> set x) \<Longrightarrow> split_at c (join_with [c] xs) = xs"
proof (induction "[c]" xs rule: join_with.induct)
  case 1
  then show ?case by simp
next
  case (2 x)
  then show ?case by (simp add: split_at_no_sep)
next
  case (3 x y ys)
  then show ?case by (simp add: split_at_append_sep)
qed

end
