(* ===== verification/Rust_Str.thy ===== *)
theory Rust_Str
  imports Ssh_Prelude
begin

text \<open>
  The part of Rust's \<open>str\<close> that \<^verbatim>\<open>src/src\<close> uses, on strings over the code points below 256:
  trimming and splitting at white space or at a character, prefixes, lower case, and the parsing
  and printing of unsigned integers.
\<close>

section \<open>White space\<close>

text \<open>\<open>char::is_whitespace\<close>: the Unicode property White\_Space below 256.\<close>

definition is_whitespace :: "char \<Rightarrow> bool" where
  "is_whitespace c \<longleftrightarrow> (of_char c :: nat) \<in> {9, 10, 11, 12, 13, 32, 133, 160}"

definition trim :: "string \<Rightarrow> string" where
  "trim s = rev (dropWhile is_whitespace (rev (dropWhile is_whitespace s)))"

text \<open>\<open>split_whitespace\<close>: the maximal runs without white space.\<close>

function split_whitespace :: "string \<Rightarrow> string list" where
  "split_whitespace s =
    (case dropWhile is_whitespace s of
       [] \<Rightarrow> []
     | c # r \<Rightarrow> (c # takeWhile (\<lambda>x. \<not> is_whitespace x) r)
               # split_whitespace (dropWhile (\<lambda>x. \<not> is_whitespace x) r))"
  by pat_completeness auto
termination
proof (relation "measure length")
  fix s c r assume "dropWhile is_whitespace s = c # r"
  then have "length (c # r) \<le> length s" by (metis length_dropWhile_le)
  then have "length (dropWhile (\<lambda>x. \<not> is_whitespace x) r) < length s"
    using length_dropWhile_le [of "\<lambda>x. \<not> is_whitespace x" r] by simp
  then show "(dropWhile (\<lambda>x. \<not> is_whitespace x) r, s) \<in> measure length" by simp
qed simp

declare split_whitespace.simps [simp del]

text \<open>A word: not empty and without white space.\<close>

definition is_word :: "string \<Rightarrow> bool" where
  "is_word s \<longleftrightarrow> s \<noteq> [] \<and> list_all (\<lambda>c. \<not> is_whitespace c) s"

lemma is_word_ws: "is_word s \<Longrightarrow> c \<in> set s \<Longrightarrow> \<not> is_whitespace c"
  by (simp add: is_word_def list_all_iff)

lemma split_whitespace_Nil [simp]: "split_whitespace [] = []"
  by (subst split_whitespace.simps) simp

lemma split_whitespace_word:
  assumes "is_word w" "rest = [] \<or> is_whitespace (hd rest)"
  shows "split_whitespace (w @ rest) = w # split_whitespace rest"
proof -
  obtain c r where w: "w = c # r" "\<not> is_whitespace c" "\<forall>x \<in> set r. \<not> is_whitespace x"
    using assms(1) by (cases w) (auto simp: is_word_def list_all_iff)
  have "takeWhile (\<lambda>x. \<not> is_whitespace x) (r @ rest) = r"
    "dropWhile (\<lambda>x. \<not> is_whitespace x) (r @ rest) = rest"
    using w(3) assms(2) by (cases rest; auto simp: takeWhile_append dropWhile_append)+
  with w show ?thesis by (subst split_whitespace.simps) simp
qed

lemma split_whitespace_skip:
  "is_whitespace c \<Longrightarrow> split_whitespace (c # s) = split_whitespace s"
  by (subst (1 2) split_whitespace.simps) simp

lemma is_whitespace_space [simp]: "is_whitespace CHR '' ''"
  by (simp add: is_whitespace_def)

text \<open>Words joined by single spaces are split into the same words.\<close>

lemma split_whitespace_join:
  "list_all is_word ws \<Longrightarrow> split_whitespace (join_with '' '' ws) = ws"
proof (induction "'' ''" ws rule: join_with.induct)
  case 1
  then show ?case by simp
next
  case (2 x)
  then show ?case using split_whitespace_word [of x "[]"] by simp
next
  case (3 x y ys)
  then show ?case
    using split_whitespace_word [of x "'' '' @ join_with '' '' (y # ys)"]
    by (simp add: split_whitespace_skip)
qed

lemma split_whitespace_words: "w \<in> set (split_whitespace s) \<Longrightarrow> is_word w"
proof (induction s rule: split_whitespace.induct)
  case (1 s)
  show ?case
  proof (cases "dropWhile is_whitespace s")
    case Nil
    then have "split_whitespace s = []"
      by (subst split_whitespace.simps) (simp only: list.case)
    then show ?thesis using 1(2) by simp
  next
    case (Cons c r)
    then have c: "\<not> is_whitespace c" by (metis hd_dropWhile list.distinct(1) list.sel(1))
    have "list_all (\<lambda>x. \<not> is_whitespace x) (takeWhile (\<lambda>x. \<not> is_whitespace x) r)"
      by (auto simp: list_all_iff dest: set_takeWhileD)
    then show ?thesis
      using 1 Cons c by (subst (asm) (2) split_whitespace.simps) (auto simp: is_word_def)
  qed
qed

lemma dropWhile_ws_word: "is_word s \<Longrightarrow> dropWhile is_whitespace s = s"
  by (cases s) (auto simp: is_word_def)

lemma is_word_rev: "is_word (rev s) = is_word s"
  by (auto simp: is_word_def list_all_iff)

lemma trim_word: "is_word s \<Longrightarrow> trim s = s"
  using dropWhile_ws_word [of "rev s"] by (simp add: trim_def dropWhile_ws_word is_word_rev)

lemma trim_ends:
  assumes "s = [] \<or> (\<not> is_whitespace (hd s) \<and> \<not> is_whitespace (last s))"
  shows "trim s = s"
proof (cases s rule: rev_cases)
  case (snoc t x)
  have "dropWhile is_whitespace s = s" using assms by (cases s) simp_all
  moreover have "dropWhile is_whitespace (rev s) = rev s" using assms snoc by auto
  ultimately show ?thesis by (simp add: trim_def)
qed (simp add: trim_def)

section \<open>Prefixes and characters\<close>

definition strip_prefix :: "string \<Rightarrow> string \<Rightarrow> string option" where
  "strip_prefix p s = (if take (length p) s = p then Some (drop (length p) s) else None)"

definition starts_with :: "string \<Rightarrow> string \<Rightarrow> bool" where
  "starts_with p s \<longleftrightarrow> take (length p) s = p"

lemma strip_prefix_append [simp]: "strip_prefix p (p @ s) = Some s"
  by (simp add: strip_prefix_def)

text \<open>\<open>find\<close> of a character, \<open>split_once\<close> and \<open>rsplit_once\<close>: at its first and last occurrence.\<close>

definition find_char :: "char \<Rightarrow> string \<Rightarrow> nat option" where
  "find_char c s = (if c \<in> set s then Some (length (takeWhile (\<lambda>x. x \<noteq> c) s)) else None)"

definition split_once :: "char \<Rightarrow> string \<Rightarrow> (string \<times> string) option" where
  "split_once c s =
    (case find_char c s of None \<Rightarrow> None | Some i \<Rightarrow> Some (take i s, drop (i + 1) s))"

definition rfind_char :: "char \<Rightarrow> string \<Rightarrow> nat option" where
  "rfind_char c s =
    (case find_char c (rev s) of None \<Rightarrow> None | Some i \<Rightarrow> Some (length s - 1 - i))"

definition rsplit_once :: "char \<Rightarrow> string \<Rightarrow> (string \<times> string) option" where
  "rsplit_once c s =
    (case rfind_char c s of None \<Rightarrow> None | Some i \<Rightarrow> Some (take i s, drop (i + 1) s))"

lemma find_char_append: "c \<notin> set a \<Longrightarrow> find_char c (a @ c # b) = Some (length a)"
  by (simp add: find_char_def takeWhile_tail) (metis (mono_tags, lifting) takeWhile_eq_all_conv)

lemma find_char_None [simp]: "find_char c s = None \<longleftrightarrow> c \<notin> set s"
  by (simp add: find_char_def)

lemma split_once_append: "c \<notin> set a \<Longrightarrow> split_once c (a @ c # b) = Some (a, b)"
  by (simp add: split_once_def find_char_append)

lemma rfind_char_append: "c \<notin> set b \<Longrightarrow> rfind_char c (a @ c # b) = Some (length a)"
  using find_char_append [of c "rev b" "rev a"] by (simp add: rfind_char_def)

lemma rfind_char_None: "c \<notin> set s \<Longrightarrow> rfind_char c s = None"
  using find_char_None [of c "rev s"] by (simp add: rfind_char_def del: find_char_None)

lemma rsplit_once_append: "c \<notin> set b \<Longrightarrow> rsplit_once c (a @ c # b) = Some (a, b)"
  by (simp add: rsplit_once_def rfind_char_append)

lemma rsplit_once_None: "c \<notin> set s \<Longrightarrow> rsplit_once c s = None"
  by (simp add: rsplit_once_def rfind_char_None)

text \<open>\<open>trim_matches\<close> and \<open>trim_start_matches\<close> with one character.\<close>

definition trim_start_matches :: "char \<Rightarrow> string \<Rightarrow> string" where
  "trim_start_matches c s = dropWhile (\<lambda>x. x = c) s"

definition trim_matches :: "char \<Rightarrow> string \<Rightarrow> string" where
  "trim_matches c s = rev (dropWhile (\<lambda>x. x = c) (rev (dropWhile (\<lambda>x. x = c) s)))"

text \<open>\<open>to_lowercase\<close> below 256: the ASCII letters and the Latin-1 capitals except the multiplication sign.\<close>

definition lower_char :: "char \<Rightarrow> char" where
  "lower_char c =
    (let n = (of_char c :: nat)
     in if (65 \<le> n \<and> n \<le> 90) \<or> (192 \<le> n \<and> n \<le> 222 \<and> n \<noteq> 215) then char_of (n + 32) else c)"

definition to_lowercase :: "string \<Rightarrow> string" where
  "to_lowercase s = map lower_char s"

text \<open>The lines of a text, as \<open>str::lines\<close> gives them: a final line end starts no line.\<close>

definition strip_cr :: "string \<Rightarrow> string" where
  "strip_cr l = (if l \<noteq> [] \<and> last l = CHR 0x0D then butlast l else l)"

definition str_lines :: "string \<Rightarrow> string list" where
  "str_lines s =
    (let ls = split_at CHR 0x0A s in map strip_cr (if last ls = [] then butlast ls else ls))"

section \<open>Integers\<close>

definition digit_char :: "nat \<Rightarrow> char" where
  "digit_char d = char_of (if d < 10 then 48 + d else 87 + d)"

lemma digit_char_lit [simp]:
  "digit_char 0 = CHR ''0''"
  "digit_char 1 = CHR ''1''"
  "digit_char 2 = CHR ''2''"
  "digit_char 3 = CHR ''3''"
  "digit_char 4 = CHR ''4''"
  "digit_char 5 = CHR ''5''"
  "digit_char 6 = CHR ''6''"
  "digit_char 7 = CHR ''7''"
  "digit_char 8 = CHR ''8''"
  "digit_char 9 = CHR ''9''"
  "digit_char 10 = CHR ''a''"
  "digit_char 11 = CHR ''b''"
  "digit_char 12 = CHR ''c''"
  "digit_char 13 = CHR ''d''"
  "digit_char 14 = CHR ''e''"
  "digit_char 15 = CHR ''f''" "digit_char (Suc 0) = CHR ''1''"
  by code_simp+

text \<open>\<open>char::to_digit\<close>.\<close>

definition to_digit :: "nat \<Rightarrow> char \<Rightarrow> nat option" where
  "to_digit radix c =
    (let n = (of_char c :: nat);
         d = (if 48 \<le> n \<and> n \<le> 57 then n - 48
              else if 97 \<le> n \<and> n \<le> 122 then n - 87
              else if 65 \<le> n \<and> n \<le> 90 then n - 55 else radix)
     in if d < radix then Some d else None)"

fun digits_value :: "nat \<Rightarrow> nat \<Rightarrow> string \<Rightarrow> nat option" where
  "digits_value radix acc [] = Some acc"
| "digits_value radix acc (c # cs) =
     (case to_digit radix c of None \<Rightarrow> None | Some d \<Rightarrow> digits_value radix (acc * radix + d) cs)"

text \<open>
  \<open>from_str_radix\<close> of an unsigned type with values below \<open>bound\<close>: an optional plus sign and at
  least one digit; a value that does not fit is an error.
\<close>

definition from_str_radix :: "nat \<Rightarrow> nat \<Rightarrow> string \<Rightarrow> nat option" where
  "from_str_radix bound radix s =
    (let ds = (case s of c # r \<Rightarrow> if c = CHR ''+'' then r else s | [] \<Rightarrow> [])
     in if ds = [] then None
        else case digits_value radix 0 ds of
          Some n \<Rightarrow> if n < bound then Some n else None
        | None \<Rightarrow> None)"

definition parse_u16 :: "string \<Rightarrow> u16 option" where
  "parse_u16 s = map_option of_nat (from_str_radix (2 ^ 16) 10 s)"

definition parse_u32_radix :: "nat \<Rightarrow> string \<Rightarrow> u32 option" where
  "parse_u32_radix radix s = map_option of_nat (from_str_radix (2 ^ 32) radix s)"

text \<open>Printing in a radix, as \<open>to_string\<close> (10) and the format \<open>{:x}\<close> (16) do.\<close>

function show_radix :: "nat \<Rightarrow> nat \<Rightarrow> string" where
  "show_radix radix n =
    (if n < radix \<or> radix < 2 then [digit_char n] else show_radix radix (n div radix) @ [digit_char (n mod radix)])"
  by pat_completeness auto
termination
  by (relation "measure snd") (auto intro: div_less_dividend)

declare show_radix.simps [simp del]

abbreviation show_nat :: "nat \<Rightarrow> string" where
  "show_nat \<equiv> show_radix 10"

definition digit_ok :: "nat \<Rightarrow> char \<Rightarrow> bool" where
  "digit_ok radix c \<longleftrightarrow> to_digit radix c \<noteq> None"

lemma of_digit_char:
  "d < 16 \<Longrightarrow> (of_char (digit_char d) :: nat) = (if d < 10 then 48 + d else 87 + d)"
  by (simp add: digit_char_def)

lemma to_digit_char: "d < radix \<Longrightarrow> radix \<le> 16 \<Longrightarrow> to_digit radix (digit_char d) = Some d"
  by (simp add: to_digit_def of_digit_char Let_def)

lemma digits_value_append:
  "digits_value radix acc (xs @ ys) =
     (case digits_value radix acc xs of None \<Rightarrow> None | Some v \<Rightarrow> digits_value radix v ys)"
  by (induction xs arbitrary: acc) (auto split: option.splits)

lemma digits_value_show:
  "2 \<le> radix \<Longrightarrow> radix \<le> 16 \<Longrightarrow> digits_value radix 0 (show_radix radix n) = Some n"
proof (induction radix n rule: show_radix.induct)
  case (1 radix n)
  show ?case
  proof (cases "n < radix")
    case True
    then show ?thesis using 1 by (subst show_radix.simps) (simp add: to_digit_char)
  next
    case False
    then show ?thesis
      using 1 by (subst show_radix.simps) (simp add: digits_value_append to_digit_char)
  qed
qed

lemma show_radix_digits:
  "2 \<le> radix \<Longrightarrow> radix \<le> 16 \<Longrightarrow> c \<in> set (show_radix radix n) \<Longrightarrow> \<exists>d < radix. c = digit_char d"
proof (induction radix n rule: show_radix.induct)
  case (1 radix n)
  have "show_radix radix n = (if n < radix then [digit_char n]
      else show_radix radix (n div radix) @ [digit_char (n mod radix)])"
    using 1(2) by (subst show_radix.simps) simp
  moreover have "\<exists>d < radix. digit_char (n mod radix) = digit_char d"
    using 1(2) by (intro exI [of _ "n mod radix"]) simp
  ultimately show ?case using 1 by (auto split: if_splits)
qed

lemma show_radix_not_Nil [simp]: "show_radix radix n \<noteq> []"
  by (subst show_radix.simps) simp

lemma digit_char_plain:
  "d < 16 \<Longrightarrow> digit_char d \<noteq> CHR '':'' \<and> digit_char d \<noteq> CHR ''+'' \<and> \<not> is_whitespace (digit_char d)
     \<and> digit_char d \<noteq> CHR ''.''"
proof -
  assume d: "d < 16"
  have "(of_char (digit_char d) :: nat) \<notin> {58, 43, 46, 9, 10, 11, 12, 13, 32, 133, 160}"
    using d by (simp add: of_digit_char)
  then show ?thesis by (auto simp: is_whitespace_def)
qed

lemma show_radix_plain:
  assumes "2 \<le> radix" "radix \<le> 16" "c \<in> set (show_radix radix n)"
  shows "c \<noteq> CHR '':''" "c \<noteq> CHR ''+''" "\<not> is_whitespace c" "c \<noteq> CHR ''.''"
  using show_radix_digits [OF assms] digit_char_plain assms(2) by (metis order_less_le_trans)+

lemma from_str_radix_show:
  assumes "2 \<le> radix" "radix \<le> 16" "n < bound"
  shows "from_str_radix bound radix (show_radix radix n) = Some n"
proof -
  obtain c r where s: "show_radix radix n = c # r" by (cases "show_radix radix n") auto
  then have "c \<noteq> CHR ''+''" using show_radix_plain(2) [OF assms(1,2), of c n] by simp
  with s show ?thesis
    using digits_value_show [OF assms(1,2), of n] assms(3) by (simp add: from_str_radix_def)
qed

lemma parse_show_u16: "parse_u16 (show_nat (unat (p :: u16))) = Some p"
  using from_str_radix_show [of 10 "unat p" "2 ^ 16"] unat_u16_lt [of p]
  by (simp add: parse_u16_def)

lemma is_word_show: "is_word (show_nat n)"
  using show_radix_plain(3) [of 10 _ n] by (auto simp: is_word_def list_all_iff)

text \<open>The UTF-8 bytes of a string over the code points below 256 (\<open>as_bytes\<close>).\<close>

definition char_utf8 :: "char \<Rightarrow> bytes" where
  "char_utf8 c =
    (let n = (of_char c :: nat)
     in if n < 128 then [of_nat n] else [of_nat (192 + n div 64), of_nat (128 + n mod 64)])"

definition as_bytes :: "string \<Rightarrow> bytes" where
  "as_bytes s = concat (map char_utf8 s)"

end
