(* ===== verification/Forward_Specs.thy ===== *)
theory Forward_Specs
  imports Rust_Str
begin

text \<open>
  The parsers of the command line's forwarding arguments, \<^verbatim>\<open>src/src/config.rs\<close>:
  \<open>parse_fwmark\<close>, \<open>parse_local_forward\<close>, \<open>parse_remote_forward\<close>, \<open>parse_dynamic_forward\<close> and
  \<open>parse_tun_forward\<close>, with the specifications they produce. Errors carry the text that the
  message quotes.
\<close>

section \<open>Data\<close>

datatype config_error =
  ParseIntError | InvalidHexFwmark string | InvalidFwmark string | TargetFormat string
| InvalidLocalForward string | InvalidRemoteForward string | InvalidDynamicForward string
| InvalidTunSpec string | InvalidAutoTunId string

record local_forward_spec =
  l_bind_addr :: string
  l_bind_port :: u16
  l_target_host :: string
  l_target_port :: u16

record remote_forward_spec =
  r_bind_addr :: string
  r_bind_port :: u16
  r_target_host :: string
  r_target_port :: u16

record dynamic_forward_spec =
  d_bind_addr :: string
  d_bind_port :: u16

record tun_forward_spec =
  local_tun :: string
  remote_tun :: string
  auto_id :: "u16 option"

section \<open>Parsers\<close>

abbreviation colon :: char where
  "colon \<equiv> CHR '':''"

definition parse_fwmark :: "string \<Rightarrow> (config_error, u32) outcome" where
  "parse_fwmark s0 =
    (let s = trim s0
     in case (case strip_prefix ''0x'' s of Some hex \<Rightarrow> Some hex | None \<Rightarrow> strip_prefix ''0X'' s) of
          Some hex \<Rightarrow> ok_or (InvalidHexFwmark s) (parse_u32_radix 16 hex)
        | None \<Rightarrow> ok_or (InvalidFwmark s) (parse_u32_radix 10 s))"

text \<open>\<open>p.parse()?\<close> at type \<open>u16\<close>.\<close>

definition parse_port :: "string \<Rightarrow> (config_error, u16) outcome" where
  "parse_port s = ok_or ParseIntError (parse_u16 s)"

definition parse_host_port_pair :: "string \<Rightarrow> string \<Rightarrow> (config_error, string \<times> u16) outcome" where
  "parse_host_port_pair s default_host =
    (case rsplit_once colon s of
       Some (h, p) \<Rightarrow> obind (parse_port p) (\<lambda>port. Ok (h, port))
     | None \<Rightarrow> obind (parse_port s) (\<lambda>port. Ok (default_host, port)))"

definition parse_target_pair :: "string \<Rightarrow> (config_error, string \<times> u16) outcome" where
  "parse_target_pair s =
    (case rsplit_once colon s of
       Some (h, p) \<Rightarrow> obind (parse_port p) (\<lambda>port. Ok (h, port))
     | None \<Rightarrow> Err (TargetFormat s))"

definition mk_local ::
  "string \<Rightarrow> string \<Rightarrow> string \<Rightarrow> string \<Rightarrow> (config_error, local_forward_spec) outcome" where
  "mk_local addr bind_port host target_port =
     obind (parse_port bind_port) (\<lambda>bp. obind (parse_port target_port) (\<lambda>tp.
     Ok \<lparr>l_bind_addr = addr, l_bind_port = bp, l_target_host = host, l_target_port = tp\<rparr>))"

definition parse_local_forward :: "string \<Rightarrow> (config_error, local_forward_spec) outcome" where
  "parse_local_forward spec =
    (case split_whitespace spec of
       [_] \<Rightarrow>
         (case split_at colon spec of
            [p0, p1, p2] \<Rightarrow> mk_local ''127.0.0.1'' p0 p1 p2
          | [p0, p1, p2, p3] \<Rightarrow> mk_local p0 p1 p2 p3
          | _ \<Rightarrow> Err (InvalidLocalForward spec))
     | [t0, t1] \<Rightarrow>
         obind (parse_host_port_pair t0 ''127.0.0.1'') (\<lambda>(bind_addr, bind_port).
         obind (parse_target_pair t1) (\<lambda>(target_host, target_port).
         Ok \<lparr>l_bind_addr = bind_addr, l_bind_port = bind_port, l_target_host = target_host,
             l_target_port = target_port\<rparr>))
     | [t0, t1, t2] \<Rightarrow> mk_local ''127.0.0.1'' t0 t1 t2
     | [t0, t1, t2, t3] \<Rightarrow> mk_local t0 t1 t2 t3
     | _ \<Rightarrow> Err (InvalidLocalForward spec))"

definition mk_remote ::
  "string \<Rightarrow> string \<Rightarrow> string \<Rightarrow> string \<Rightarrow> (config_error, remote_forward_spec) outcome" where
  "mk_remote addr bind_port host target_port =
     obind (parse_port bind_port) (\<lambda>bp. obind (parse_port target_port) (\<lambda>tp.
     Ok \<lparr>r_bind_addr = addr, r_bind_port = bp, r_target_host = host, r_target_port = tp\<rparr>))"

definition parse_remote_forward :: "string \<Rightarrow> (config_error, remote_forward_spec) outcome" where
  "parse_remote_forward spec =
    (case split_whitespace spec of
       [_] \<Rightarrow>
         (case split_at colon spec of
            [p0, p1, p2] \<Rightarrow> mk_remote ''0.0.0.0'' p0 p1 p2
          | [p0, p1, p2, p3] \<Rightarrow> mk_remote p0 p1 p2 p3
          | _ \<Rightarrow> Err (InvalidRemoteForward spec))
     | [t0, t1] \<Rightarrow>
         obind (parse_host_port_pair t0 ''0.0.0.0'') (\<lambda>(bind_addr, bind_port).
         obind (parse_target_pair t1) (\<lambda>(target_host, target_port).
         Ok \<lparr>r_bind_addr = bind_addr, r_bind_port = bind_port, r_target_host = target_host,
             r_target_port = target_port\<rparr>))
     | [t0, t1, t2] \<Rightarrow> mk_remote ''0.0.0.0'' t0 t1 t2
     | [t0, t1, t2, t3] \<Rightarrow> mk_remote t0 t1 t2 t3
     | _ \<Rightarrow> Err (InvalidRemoteForward spec))"

definition mk_dynamic :: "string \<Rightarrow> string \<Rightarrow> (config_error, dynamic_forward_spec) outcome" where
  "mk_dynamic addr port =
     obind (parse_port port) (\<lambda>p. Ok \<lparr>d_bind_addr = addr, d_bind_port = p\<rparr>)"

definition parse_dynamic_forward :: "string \<Rightarrow> (config_error, dynamic_forward_spec) outcome" where
  "parse_dynamic_forward spec =
    (case split_whitespace spec of
       [_] \<Rightarrow>
         (case split_at colon spec of
            [p0] \<Rightarrow> mk_dynamic ''127.0.0.1'' p0
          | [p0, p1] \<Rightarrow> mk_dynamic p0 p1
          | _ \<Rightarrow> Err (InvalidDynamicForward spec))
     | [t0, t1] \<Rightarrow> mk_dynamic t0 t1
     | _ \<Rightarrow> Err (InvalidDynamicForward spec))"

definition parse_tun_forward :: "string \<Rightarrow> (config_error, tun_forward_spec) outcome" where
  "parse_tun_forward spec =
    (let trimmed = trim spec
     in if trimmed = ''auto''
        then Ok \<lparr>local_tun = ''auto'', remote_tun = ''auto'', auto_id = None\<rparr>
        else case strip_prefix ''auto:'' trimmed of
          Some id_str \<Rightarrow>
            obind (ok_or (InvalidAutoTunId id_str) (parse_u16 (trim id_str))) (\<lambda>i.
            Ok \<lparr>local_tun = ''tun2222'' @ show_nat (unat i),
                remote_tun = ''tun2222'' @ show_nat (unat i), auto_id = Some i\<rparr>)
        | None \<Rightarrow>
            (case split_whitespace trimmed of
               [_] \<Rightarrow>
                 (case split_at colon trimmed of
                    [p0] \<Rightarrow> Ok \<lparr>local_tun = p0, remote_tun = p0, auto_id = None\<rparr>
                  | [p0, p1] \<Rightarrow> Ok \<lparr>local_tun = p0, remote_tun = p1, auto_id = None\<rparr>
                  | _ \<Rightarrow> Err (InvalidTunSpec spec))
             | [t0, t1] \<Rightarrow> Ok \<lparr>local_tun = t0, remote_tun = t1, auto_id = None\<rparr>
             | _ \<Rightarrow> Err (InvalidTunSpec spec)))"

section \<open>Round trips\<close>

text \<open>The texts of a forwarding: with colons, in two words, and in four words.\<close>

definition colon_text :: "string list \<Rightarrow> string" where
  "colon_text parts = join_with '':'' parts"

definition two_words :: "string \<Rightarrow> string \<Rightarrow> string \<Rightarrow> string \<Rightarrow> string" where
  "two_words a p h q = join_with '' '' [colon_text [a, p], colon_text [h, q]]"

abbreviation port_text :: "u16 \<Rightarrow> string" where
  "port_text p \<equiv> show_nat (unat p)"

definition plain :: "string \<Rightarrow> bool" where
  "plain s \<longleftrightarrow> is_word s \<and> colon \<notin> set s"

lemma plain_port [simp]: "plain (port_text p)"
  using is_word_show show_radix_plain(1) [of 10] by (auto simp: plain_def)

lemma colon_not_ws [simp]: "\<not> is_whitespace colon"
  by (simp add: is_whitespace_def)

lemma is_word_append [simp]: "is_word a \<Longrightarrow> is_word b \<Longrightarrow> is_word (a @ b)"
  by (auto simp: is_word_def)

lemma is_word_colon: "is_word a \<Longrightarrow> is_word b \<Longrightarrow> is_word (a @ colon # b)"
  by (auto simp: is_word_def)

lemma is_word_colon_text: "ps \<noteq> [] \<Longrightarrow> list_all is_word ps \<Longrightarrow> is_word (colon_text ps)"
  unfolding colon_text_def
  by (induction "'':''" ps rule: join_with.induct) (auto intro: is_word_colon)

lemma plain_word: "list_all plain ps \<Longrightarrow> list_all is_word ps"
  by (auto simp: list_all_iff plain_def)

lemma split_colon_text: "ps \<noteq> [] \<Longrightarrow> list_all plain ps \<Longrightarrow> split_at colon (colon_text ps) = ps"
  unfolding colon_text_def by (rule split_at_join) (auto simp: list_all_iff plain_def)

lemma words_colon_text:
  "ps \<noteq> [] \<Longrightarrow> list_all plain ps \<Longrightarrow> split_whitespace (colon_text ps) = [colon_text ps]"
  using split_whitespace_join [of "[colon_text ps]"]
  by (simp add: is_word_colon_text plain_word)

lemma parse_port_text [simp]: "parse_port (port_text p) = Ok p"
  by (simp add: parse_port_def parse_show_u16)

lemma rsplit_colon_text: "rsplit_once colon (colon_text [h, port_text p]) = Some (h, port_text p)"
  using rsplit_once_append [of colon "port_text p" h] plain_port [of p]
  by (simp add: colon_text_def plain_def)

lemma pair_colon_text [simp]:
  "parse_host_port_pair (colon_text [h, port_text p]) d = Ok (h, p)"
  "parse_target_pair (colon_text [h, port_text p]) = Ok (h, p)"
  by (simp_all add: parse_host_port_pair_def parse_target_pair_def rsplit_colon_text)

lemma words_two:
  assumes "is_word a" "is_word h"
  shows "split_whitespace (two_words a (port_text p) h (port_text q)) =
    [colon_text [a, port_text p], colon_text [h, port_text q]]"
  unfolding two_words_def
  by (rule split_whitespace_join) (use assms is_word_show in \<open>simp add: is_word_colon_text\<close>)

lemma rsplit_no_colon: "plain s \<Longrightarrow> rsplit_once colon s = None"
  by (simp add: rsplit_once_None plain_def)

lemma pair_port_text [simp]: "parse_host_port_pair (port_text p) d = Ok (d, p)"
  by (simp add: parse_host_port_pair_def rsplit_no_colon)

text \<open>
  C18: The six forms of a local or remote forwarding are read back as that forwarding. As one word: \<open>port:host:hostport\<close> and
  \<open>addr:port:host:hostport\<close>, where address and host have no colon. As two words: \<open>port host:hostport\<close> and
  \<open>addr:port host:hostport\<close>, where they may have colons. As three words \<open>port host hostport\<close> and as four words
  \<open>addr port host hostport\<close>. A form without address binds a local forwarding to 127.0.0.1 and a remote one to 0.0.0.0. Two words whose
  second has no colon are an error.
\<close>

theorem forward_spec_roundtrip:
  fixes bp tp :: u16
  assumes "is_word a" "is_word h"
  defines "p \<equiv> port_text bp" and "q \<equiv> port_text tp"
  defines "l \<equiv> \<lambda>addr. Ok \<lparr>l_bind_addr = addr, l_bind_port = bp, l_target_host = h, l_target_port = tp\<rparr>"
    and "r \<equiv> \<lambda>addr. Ok \<lparr>r_bind_addr = addr, r_bind_port = bp, r_target_host = h, r_target_port = tp\<rparr>"
  shows "(colon \<notin> set a \<longrightarrow> colon \<notin> set h \<longrightarrow>
        parse_local_forward (colon_text [p, h, q]) = l ''127.0.0.1'' \<and> parse_remote_forward (colon_text [p, h, q]) = r ''0.0.0.0''
        \<and> parse_local_forward (colon_text [a, p, h, q]) = l a \<and> parse_remote_forward (colon_text [a, p, h, q]) = r a)
    \<and> parse_local_forward (join_with '' '' [p, colon_text [h, q]]) = l ''127.0.0.1''
    \<and> parse_remote_forward (join_with '' '' [p, colon_text [h, q]]) = r ''0.0.0.0''
    \<and> parse_local_forward (two_words a p h q) = l a \<and> parse_remote_forward (two_words a p h q) = r a
    \<and> parse_local_forward (join_with '' '' [p, h, q]) = l ''127.0.0.1'' \<and> parse_remote_forward (join_with '' '' [p, h, q]) = r ''0.0.0.0''
    \<and> parse_local_forward (join_with '' '' [a, p, h, q]) = l a \<and> parse_remote_forward (join_with '' '' [a, p, h, q]) = r a
    \<and> (colon \<notin> set h \<longrightarrow> parse_local_forward (join_with '' '' [p, h]) = Err (TargetFormat h)
        \<and> parse_remote_forward (join_with '' '' [p, h]) = Err (TargetFormat h))"
proof -
  note defs = parse_local_forward_def parse_remote_forward_def mk_local_def mk_remote_def
  have pq: "is_word p" "is_word q" "is_word (colon_text [h, q])"
    using assms(2) is_word_show by (simp_all add: p_def q_def is_word_colon_text)
  have two: "split_whitespace (two_words a p h q) = [colon_text [a, p], colon_text [h, q]]"
    unfolding p_def q_def by (rule words_two [OF assms(1,2)])
  have words: "split_whitespace (join_with '' '' [p, colon_text [h, q]]) = [p, colon_text [h, q]]"
    "split_whitespace (join_with '' '' [p, h, q]) = [p, h, q]" "split_whitespace (join_with '' '' [a, p, h, q]) = [a, p, h, q]"
    "split_whitespace (join_with '' '' [p, h]) = [p, h]"
    by (rule split_whitespace_join; use assms(1,2) pq in simp)+
  have col: "split_at colon (colon_text ps) = ps" "split_whitespace (colon_text ps) = [colon_text ps]"
    if "colon \<notin> set a" "colon \<notin> set h" "ps = [a, p, h, q] \<or> ps = [p, h, q]" for ps
  proof -
    have "list_all plain ps" using that assms(1,2) plain_port by (auto simp: plain_def p_def q_def)
    moreover have "ps \<noteq> []" using that(3) by auto
    ultimately show "split_at colon (colon_text ps) = ps"
      "split_whitespace (colon_text ps) = [colon_text ps]"
      by (auto intro: split_colon_text words_colon_text)
  qed
  have none: "rsplit_once colon h = None" if "colon \<notin> set h" using that by (rule rsplit_once_None)
  show ?thesis
    using two words col none by (simp add: defs p_def q_def l_def r_def parse_target_pair_def [of h])
qed

theorem forward_spec_roundtrip_witness:
  "parse_local_forward ''8080:10.0.0.1:80'' = Ok \<lparr>l_bind_addr = ''127.0.0.1'', l_bind_port = 8080,
     l_target_host = ''10.0.0.1'', l_target_port = 80\<rparr>
   \<and> parse_remote_forward ''8080 10.0.0.1:80'' = Ok \<lparr>r_bind_addr = ''0.0.0.0'', r_bind_port = 8080,
     r_target_host = ''10.0.0.1'', r_target_port = 80\<rparr>"
proof -
  have "is_word ''*''" "is_word ''10.0.0.1''" by (simp_all add: is_word_def is_whitespace_def)
  from forward_spec_roundtrip [OF this, of 8080 80] show ?thesis
    by (simp add: colon_text_def show_radix.simps)
qed

section \<open>Marks, dynamic forwardings and TUN names\<close>

lemma trim_pad:
  assumes "list_all is_whitespace a" "list_all is_whitespace b" "is_word s"
  shows "trim (a @ s @ b) = s"
proof -
  obtain c r where s: "s = c # r" "\<not> is_whitespace c"
    using assms(3) by (cases s) (auto simp: is_word_def)
  obtain d t where t: "rev s = d # t" "\<not> is_whitespace d"
    using assms(3) is_word_rev [of s] by (cases "rev s") (auto simp: is_word_def)
  have "dropWhile is_whitespace (a @ s @ b) = s @ b"
    using assms(1) s by (simp add: dropWhile_append list_all_iff)
  moreover have "dropWhile is_whitespace (rev b @ rev s) = rev s"
    using assms(2) t by (simp add: dropWhile_append list_all_iff)
  ultimately show ?thesis by (simp add: trim_def)
qed

lemma from_str_radix_show_if:
  assumes "2 \<le> radix" "radix \<le> 16"
  shows "from_str_radix bound radix (show_radix radix n) = (if n < bound then Some n else None)"
proof -
  have "from_str_radix (Suc n) radix (show_radix radix n) = Some n"
    using assms by (simp add: from_str_radix_show)
  then show ?thesis by (auto simp: from_str_radix_def Let_def split: option.splits if_splits)
qed

lemma show_not_hex: "x \<notin> set (show_nat n) \<Longrightarrow> strip_prefix [c, x] (show_nat n) = None"
  by (auto simp: strip_prefix_def) (metis in_set_takeD list.set_intros(1,2))

lemma x_not_digit: "CHR ''x'' \<notin> set (show_nat n)" "CHR ''X'' \<notin> set (show_nat n)"
proof -
  have "of_char (digit_char d) \<noteq> (120 :: nat) \<and> of_char (digit_char d) \<noteq> (88 :: nat)"
    if "d < 10" for d
    using that by (simp add: of_digit_char)
  then have "digit_char d \<noteq> CHR ''x'' \<and> digit_char d \<noteq> CHR ''X''" if "d < 10" for d
    using that by force
  then show "CHR ''x'' \<notin> set (show_nat n)" "CHR ''X'' \<notin> set (show_nat n)"
    using show_radix_digits [of 10 _ n] by fastforce+
qed

lemma is_word_hex: "is_word (''0'' @ x # show_radix 16 n)" if "\<not> is_whitespace x"
  using show_radix_plain(3) [of 16 _ n] that
  by (auto simp: is_word_def list_all_iff) (auto simp: is_whitespace_def)

text \<open>
  a fwmark is read in decimal and, after 0x or 0X, in hexadecimal, with white space around
  it; every 32-bit value is accepted and every larger one is an error that quotes the text.
\<close>

theorem parse_fwmark_correct:
  assumes "list_all is_whitespace a" "list_all is_whitespace b"
  shows "parse_fwmark (a @ show_nat n @ b) =
      (if n < 2 ^ 32 then Ok (of_nat n) else Err (InvalidFwmark (show_nat n)))
    \<and> parse_fwmark (a @ (''0x'' @ show_radix 16 n) @ b) =
      (if n < 2 ^ 32 then Ok (of_nat n) else Err (InvalidHexFwmark (''0x'' @ show_radix 16 n)))
    \<and> parse_fwmark (a @ (''0X'' @ show_radix 16 n) @ b) =
      (if n < 2 ^ 32 then Ok (of_nat n) else Err (InvalidHexFwmark (''0X'' @ show_radix 16 n)))"
proof (intro conjI)
  have "trim (a @ show_nat n @ b) = show_nat n"
    by (rule trim_pad [OF assms is_word_show])
  then show "parse_fwmark (a @ show_nat n @ b) =
      (if n < 2 ^ 32 then Ok (of_nat n) else Err (InvalidFwmark (show_nat n)))"
    using x_not_digit [of n]
    by (simp add: parse_fwmark_def parse_u32_radix_def from_str_radix_show_if show_not_hex)
next
  have "is_word (''0x'' @ show_radix 16 n)" "is_word (''0X'' @ show_radix 16 n)"
    using is_word_hex [of "CHR ''x''" n] is_word_hex [of "CHR ''X''" n] by (simp_all add: is_whitespace_def)
  then have t: "trim (a @ (''0x'' @ show_radix 16 n) @ b) = ''0x'' @ show_radix 16 n"
    "trim (a @ (''0X'' @ show_radix 16 n) @ b) = ''0X'' @ show_radix 16 n"
    by (simp_all only: trim_pad [OF assms])
  show "parse_fwmark (a @ (''0x'' @ show_radix 16 n) @ b) =
      (if n < 2 ^ 32 then Ok (of_nat n) else Err (InvalidHexFwmark (''0x'' @ show_radix 16 n)))"
    unfolding parse_fwmark_def Let_def t
    by (simp add: strip_prefix_def parse_u32_radix_def from_str_radix_show_if)
  show "parse_fwmark (a @ (''0X'' @ show_radix 16 n) @ b) =
      (if n < 2 ^ 32 then Ok (of_nat n) else Err (InvalidHexFwmark (''0X'' @ show_radix 16 n)))"
    unfolding parse_fwmark_def Let_def t
    by (simp add: strip_prefix_def parse_u32_radix_def from_str_radix_show_if)
qed

theorem parse_fwmark_correct_witness:
  "parse_fwmark ''  0x1000 '' = Ok 4096
   \<and> parse_fwmark ''  4294967296 '' = Err (InvalidFwmark ''4294967296'')"
  using parse_fwmark_correct [of "''  ''" "'' ''" 4096]
    parse_fwmark_correct [of "''  ''" "'' ''" 4294967296]
  by (simp add: show_radix.simps)

text \<open>
  a dynamic forwarding is read back from its port alone (bound to the loopback address),
  from address and port with a colon, and from the two as words.
\<close>

theorem dynamic_spec_roundtrip:
  assumes "is_word a"
  shows "parse_dynamic_forward (join_with '' '' [a, port_text p]) =
      Ok \<lparr>d_bind_addr = a, d_bind_port = p\<rparr>
    \<and> parse_dynamic_forward (port_text p) = Ok \<lparr>d_bind_addr = ''127.0.0.1'', d_bind_port = p\<rparr>
    \<and> (colon \<notin> set a \<longrightarrow> parse_dynamic_forward (colon_text [a, port_text p]) =
      Ok \<lparr>d_bind_addr = a, d_bind_port = p\<rparr>)"
proof -
  note defs = parse_dynamic_forward_def mk_dynamic_def
  have "split_whitespace (join_with '' '' [a, port_text p]) = [a, port_text p]"
    by (rule split_whitespace_join) (use assms is_word_show in simp)
  moreover have "split_whitespace (port_text p) = [port_text p]" "split_at colon (port_text p) = [port_text p]"
    using words_colon_text [of "[port_text p]"] split_colon_text [of "[port_text p]"]
    by (simp_all add: colon_text_def)
  moreover have "split_at colon (colon_text [a, port_text p]) = [a, port_text p]"
    "split_whitespace (colon_text [a, port_text p]) = [colon_text [a, port_text p]]" if "colon \<notin> set a"
    using split_colon_text [of "[a, port_text p]"] words_colon_text [of "[a, port_text p]"] that assms
    by (simp_all add: plain_def [of a])
  ultimately show ?thesis by (simp add: defs)
qed

theorem dynamic_spec_roundtrip_witness:
  "parse_dynamic_forward ''0.0.0.0:1080'' = Ok \<lparr>d_bind_addr = ''0.0.0.0'', d_bind_port = 1080\<rparr>"
proof -
  have "is_word ''0.0.0.0''" by (simp add: is_word_def is_whitespace_def)
  from dynamic_spec_roundtrip [OF this, of 1080] show ?thesis
    by (simp add: colon_text_def show_radix.simps)
qed

lemma strip_prefix_Some: "strip_prefix p s = Some t \<Longrightarrow> s = p @ t"
  unfolding strip_prefix_def by (metis append_take_drop_id option.distinct(1) option.inject)

lemma auto_prefix_colon:
  assumes "strip_prefix ''auto:'' s = Some t"
  shows "\<exists>ps. split_at colon s = ''auto'' # ps"
proof -
  have "s = ''auto'' @ colon # t"
    using strip_prefix_Some [OF assms] by simp
  then show ?thesis using split_at_append_sep [of colon "''auto''" t] by simp
qed

lemma no_auto_prefix:
  "split_at colon s = p # ps \<Longrightarrow> p \<noteq> ''auto'' \<Longrightarrow> strip_prefix ''auto:'' s = None"
  using auto_prefix_colon [of s] by (cases "strip_prefix ''auto:'' s") auto

lemma trim_two_words: "is_word l \<Longrightarrow> is_word r \<Longrightarrow> trim (l @ CHR '' '' # r) = l @ CHR '' '' # r"
  by (rule trim_ends) (cases l; cases r rule: rev_cases; auto simp: is_word_def)

lemma tun_auto_id:
  "parse_tun_forward (''auto:'' @ show_nat n) =
    (if n < 2 ^ 16 then Ok \<lparr>local_tun = ''tun2222'' @ show_nat n, remote_tun = ''tun2222'' @ show_nat n,
       auto_id = Some (of_nat n)\<rparr> else Err (InvalidAutoTunId (show_nat n)))"
proof -
  have "is_word ''auto:''" by (simp add: is_word_def is_whitespace_def)
  then have t: "trim (''auto:'' @ show_nat n) = ''auto:'' @ show_nat n"
    by (intro trim_word is_word_append is_word_show)
  show ?thesis
    unfolding parse_tun_forward_def Let_def t strip_prefix_append
    by (simp add: trim_word is_word_show parse_u16_def from_str_radix_show_if unat_of_nat_u16)
qed

text \<open>
  a TUN argument \<open>auto:N\<close> names the device tun2222N on both sides and is an error when N
  does not fit 16 bits; two device names are taken as they stand, whether separated by a colon
  or by a space, and a single one names both sides, provided the first is not the word auto.
\<close>

theorem parse_tun_forward_correct:
  assumes "plain l" "plain r" "l \<noteq> ''auto''"
  shows "parse_tun_forward (''auto:'' @ show_nat n) =
      (if n < 2 ^ 16 then Ok \<lparr>local_tun = ''tun2222'' @ show_nat n, remote_tun = ''tun2222'' @ show_nat n,
         auto_id = Some (of_nat n)\<rparr> else Err (InvalidAutoTunId (show_nat n)))
    \<and> parse_tun_forward (colon_text [l, r]) = Ok \<lparr>local_tun = l, remote_tun = r, auto_id = None\<rparr>
    \<and> parse_tun_forward (join_with '' '' [l, r]) = Ok \<lparr>local_tun = l, remote_tun = r, auto_id = None\<rparr>
    \<and> parse_tun_forward l = Ok \<lparr>local_tun = l, remote_tun = l, auto_id = None\<rparr>"
proof (intro conjI)
  have w: "is_word l" "is_word r" "colon \<notin> set l" "colon \<notin> set r" using assms by (simp_all add: plain_def)
  have c: "split_at colon (colon_text [l, r]) = [l, r]"
    "split_whitespace (colon_text [l, r]) = [colon_text [l, r]]" "is_word (colon_text [l, r])"
    using assms w by (simp_all add: split_colon_text words_colon_text is_word_colon_text)
  have "colon_text [l, r] \<noteq> ''auto''" by (auto simp: colon_text_def append_eq_Cons_conv)
  then show "parse_tun_forward (colon_text [l, r]) = Ok \<lparr>local_tun = l, remote_tun = r, auto_id = None\<rparr>"
    using c no_auto_prefix [OF c(1) assms(3)] by (simp add: parse_tun_forward_def trim_word)
  have j: "split_whitespace (join_with '' '' [l, r]) = [l, r]"
    by (rule split_whitespace_join) (simp add: w)
  have jc: "split_at colon (l @ CHR '' '' # r) = [l @ CHR '' '' # r]"
    using w by (intro split_at_no_sep) simp
  have ne: "l @ CHR '' '' # r \<noteq> ''auto''" by (auto simp: append_eq_Cons_conv)
  show "parse_tun_forward (join_with '' '' [l, r]) = Ok \<lparr>local_tun = l, remote_tun = r, auto_id = None\<rparr>"
    using j ne no_auto_prefix [OF jc ne] trim_two_words [OF w(1,2)] by (simp add: parse_tun_forward_def)
  have lc: "split_at colon l = [l]" "split_whitespace l = [l]"
    using w split_whitespace_join [of "[l]"] by (simp_all add: split_at_no_sep)
  show "parse_tun_forward l = Ok \<lparr>local_tun = l, remote_tun = l, auto_id = None\<rparr>"
    using lc assms(3) no_auto_prefix [OF lc(1) assms(3)] by (simp add: parse_tun_forward_def trim_word w)
qed (rule tun_auto_id)

theorem parse_tun_forward_correct_witness:
  "parse_tun_forward ''tun0:tun1'' = Ok \<lparr>local_tun = ''tun0'', remote_tun = ''tun1'', auto_id = None\<rparr>
   \<and> parse_tun_forward ''auto:70000'' = Err (InvalidAutoTunId ''70000'')"
proof -
  have "plain ''tun0''" "plain ''tun1''" "''tun0'' \<noteq> ''auto''"
    by (simp_all add: plain_def is_word_def is_whitespace_def)
  from parse_tun_forward_correct [OF this, of 70000] show ?thesis
    by (simp add: colon_text_def show_radix.simps)
qed

end
