(* ===== verification/Tun_Auto.thy ===== *)
theory Tun_Auto
  imports Forward_Specs
begin

text \<open>
  The machine as the program sees it, and the automatic TUN addresses of
  \<^verbatim>\<open>src/src/config.rs\<close>: \<open>get_local_device_info\<close>, \<open>get_local_network_info\<close>,
  \<open>generate_auto_tun_id\<close> and \<open>derive_auto_tun_ipv6\<close>. The file system, the environment and the
  third-party functions (\<^verbatim>\<open>sha2\<close>, \<^verbatim>\<open>glob\<close>, \<^verbatim>\<open>dirs\<close>, \<^verbatim>\<open>ssh2_config\<close>) are fields of the
  record \<open>host_env\<close>.
\<close>

section \<open>The environment\<close>

text \<open>
  What opening a path gives: the lines of a file as \<open>BufRead::lines\<close> yields them (\<open>None\<close> is a line
  that is not UTF-8), or a directory, which can be opened but never read.
\<close>

datatype dir_entry = Text "string option list" | Directory

record host_env =
  files :: "(string \<times> dir_entry) list"
  path_exists :: "string \<Rightarrow> bool"
  canonicalize :: "string \<Rightarrow> string option"
  glob :: "string \<Rightarrow> string list option"
  host_clause_intersects :: "string \<Rightarrow> string \<Rightarrow> bool"
  home_dir :: "string option"
  env_var :: "string \<Rightarrow> string option"
  sha256 :: "bytes \<Rightarrow> bytes"

text \<open>\<open>std::fs::read_to_string\<close>: fails on what is not text.\<close>

definition read_to_string :: "host_env \<Rightarrow> string \<Rightarrow> string option" where
  "read_to_string env path =
    (case map_of (files env) path of
       Some (Text ls) \<Rightarrow>
         if list_all (\<lambda>l. l \<noteq> None) ls then Some (concat (map (\<lambda>l. the l @ [CHR 0x0A]) ls)) else None
     | _ \<Rightarrow> None)"

text \<open>\<open>Path::join\<close>: an absolute path replaces, a relative one is appended after one separator.\<close>

definition path_join :: "string \<Rightarrow> string \<Rightarrow> string" where
  "path_join p q =
    (if starts_with ''/'' q then q
     else if p = [] \<or> last p = CHR ''/'' then p @ q else p @ ''/'' @ q)"

section \<open>Identification of this machine\<close>

definition nonempty_trimmed :: "string option \<Rightarrow> string option" where
  "nonempty_trimmed content =
    (case content of Some s \<Rightarrow> if trim s \<noteq> [] then Some (trim s) else None | None \<Rightarrow> None)"

definition get_local_device_info :: "host_env \<Rightarrow> string" where
  "get_local_device_info env =
    (case nonempty_trimmed (read_to_string env ''/etc/machine-id'') of Some i \<Rightarrow> i | None \<Rightarrow>
     case nonempty_trimmed (read_to_string env ''/var/lib/dbus/machine-id'') of Some i \<Rightarrow> i | None \<Rightarrow>
     case nonempty_trimmed (read_to_string env ''/etc/hostname'') of Some h \<Rightarrow> h | None \<Rightarrow>
     case nonempty_trimmed (env_var env ''HOSTNAME'') of Some h \<Rightarrow> h | None \<Rightarrow>
     case env_var env ''USER'' of Some u \<Rightarrow> u | None \<Rightarrow> ''localhost'')"

text \<open>The loop over the routing table: the first default route with at least three fields.\<close>

fun default_route :: "host_env \<Rightarrow> string list \<Rightarrow> string" where
  "default_route env [] = []"
| "default_route env (line # ls) =
    (case split_whitespace line of
       iface # dest # gateway # _ \<Rightarrow>
         if dest = ''00000000''
         then iface @ '':'' @ gateway @ '':''
           @ trim (case read_to_string env (''/sys/class/net/'' @ iface @ ''/address'') of
                     Some mac \<Rightarrow> mac | None \<Rightarrow> [])
         else default_route env ls
     | _ \<Rightarrow> default_route env ls)"

definition get_local_network_info :: "host_env \<Rightarrow> string" where
  "get_local_network_info env =
    (case read_to_string env ''/proc/net/route'' of
       Some content \<Rightarrow> default_route env (drop 1 (str_lines content))
     | None \<Rightarrow> [])"

section \<open>Addresses from an identifier\<close>

text \<open>The format \<open>169.254.{}.{}\<close> of the two bytes of an identifier.\<close>

definition link_local :: "u16 \<Rightarrow> string" where
  "link_local i = ''169.254.'' @ show_nat (unat (drop_bit 8 i)) @ ''.'' @ show_nat (unat (i AND 0xff))"

definition auto_id_of_raw :: "u16 \<Rightarrow> u16" where
  "auto_id_of_raw raw_id =
    (let pair_idx = (ucast raw_id :: u32) mod (254 * 127);
         x = (ucast (pair_idx div 127 + 1) :: u16);
         y = (ucast ((pair_idx mod 127) * 2 + 1) :: u16)
     in push_bit 8 x OR y)"

definition generate_auto_tun_id :: "host_env \<Rightarrow> string \<Rightarrow> u16 \<Rightarrow> u16 \<times> string \<times> string" where
  "generate_auto_tun_id env host port =
    (let device_info = get_local_device_info env;
         network_info = get_local_network_info env;
         hash = sha256 env (as_bytes host @ as_bytes '':'' @ as_bytes (show_nat (unat port))
           @ as_bytes ''|'' @ as_bytes device_info @ as_bytes ''|'' @ as_bytes network_info);
         i = auto_id_of_raw (from_be16 (hash ! 0) (hash ! 1))
     in (i, link_local i, link_local (i + 1)))"

definition auto_ipv6_bytes :: "host_env \<Rightarrow> u16 \<Rightarrow> bytes \<times> bytes" where
  "auto_ipv6_bytes env i =
    (let hash = sha256 env (be16 i);
         local_bytes = 0xfd # take 14 hash @ [(hash ! 14) AND 0xfe]
     in (local_bytes, local_bytes[15 := local_bytes ! 15 OR 1]))"

text \<open>
  \<open>Display\<close> of an IPv6 address: an IPv4-mapped address shows its last four bytes; otherwise the
  first longest run of at least two zero segments is written as two colons.
\<close>

definition ipv4_display :: "bytes \<Rightarrow> string" where
  "ipv4_display ip = join_with ''.'' (map (\<lambda>b. show_nat (unat b)) ip)"

fun segments :: "bytes \<Rightarrow> u16 list" where
  "segments (a # b # r) = from_be16 a b # segments r"
| "segments _ = []"

fun zero_run :: "u16 list \<Rightarrow> nat \<Rightarrow> nat \<times> nat \<Rightarrow> nat \<times> nat \<Rightarrow> nat \<times> nat" where
  "zero_run [] i current longest = longest"
| "zero_run (s # ss) i (start, len) longest =
     (if s = 0 then
        (let cur = (if len = 0 then i else start, len + 1)
         in zero_run ss (i + 1) cur (if snd cur > snd longest then cur else longest))
      else zero_run ss (i + 1) (0, 0) longest)"

definition fmt_subslice :: "u16 list \<Rightarrow> string" where
  "fmt_subslice ss = join_with '':'' (map (\<lambda>s. show_radix 16 (unat s)) ss)"

definition ipv6_display :: "bytes \<Rightarrow> string" where
  "ipv6_display bytes =
    (let ss = segments bytes; (start, len) = zero_run ss 0 (0, 0) (0, 0)
     in if take 12 bytes = replicate 10 0 @ [0xff, 0xff]
        then ''::ffff:'' @ ipv4_display (drop 12 bytes)
        else if len > 1 then fmt_subslice (take start ss) @ ''::'' @ fmt_subslice (drop (start + len) ss)
        else fmt_subslice ss)"

definition derive_auto_tun_ipv6 :: "host_env \<Rightarrow> u16 \<Rightarrow> string \<times> string" where
  "derive_auto_tun_ipv6 env i =
    (case auto_ipv6_bytes env i of (l, r) \<Rightarrow> (ipv6_display l, ipv6_display r))"

section \<open>Properties\<close>

lemma u16_bytes:
  assumes "x < 256" "y < 256"
  shows "push_bit 8 (of_nat x) OR of_nat y = (of_nat (x * 256 + y) :: u16)"
proof -
  have "push_bit 8 (of_nat x) OR of_nat y = push_bit 8 (of_nat x) + (of_nat y :: u16)"
  proof (rule disjunctive_add [symmetric])
    fix n
    have "\<not> bit y n" if "8 \<le> n"
    proof -
      have "(2 :: nat) ^ 8 \<le> 2 ^ n" using that by (rule power_increasing) simp
      then have "y div 2 ^ n = 0" using assms(2) by simp
      then show ?thesis by (simp add: bit_iff_odd)
    qed
    then show "\<not> bit (push_bit 8 (of_nat x) :: u16) n \<or> \<not> bit (of_nat y :: u16) n"
      by (auto simp: bit_simps)
  qed
  then show ?thesis by (simp add: push_bit_eq_mult mult.commute)
qed

lemma link_local_bytes:
  assumes "x < 256" "y < 256"
  shows "link_local (of_nat (x * 256 + y)) = ''169.254.'' @ show_nat x @ ''.'' @ show_nat y"
proof -
  have n: "unat (of_nat (x * 256 + y) :: u16) = x * 256 + y"
    using assms by (intro unat_of_nat_u16) linarith
  have "unat (drop_bit 8 (of_nat (x * 256 + y)) :: u16) = x"
    unfolding unat_drop_bit_eq n using assms by (simp add: drop_bit_eq_div)
  moreover have "unat (of_nat (x * 256 + y) AND 0xff :: u16) = y"
  proof -
    have "of_nat (x * 256 + y) AND 0xff = (take_bit 8 (of_nat (x * 256 + y)) :: u16)"
      by (simp add: take_bit_eq_mask mask_eq_exp_minus_1)
    then have "unat (of_nat (x * 256 + y) AND 0xff :: u16) = take_bit 8 (x * 256 + y)"
      by (simp only: unsigned_take_bit_eq n)
    then show ?thesis using assms by (simp add: take_bit_eq_mod)
  qed
  ultimately show ?thesis by (simp only: link_local_def)
qed

lemma u32_of_unat: "unat (w :: u32) = n \<Longrightarrow> w = of_nat n"
  by (metis of_nat_unat ucast_id)

lemma auto_id_bytes:
  obtains x y where "1 \<le> x" "x \<le> 254" "odd y" "y \<le> 253"
    "x = (unat raw mod 32258) div 127 + 1" "y = ((unat raw mod 32258) mod 127) * 2 + 1"
    "auto_id_of_raw raw = of_nat (x * 256 + y)"
proof -
  let ?p = "unat raw mod 32258"
  let ?x = "?p div 127 + 1" and ?y = "(?p mod 127) * 2 + 1"
  have p: "?p < 254 * 127" by simp
  have x: "?x \<le> 254" using less_mult_imp_div_less [OF p] by simp
  have y: "?y \<le> 253" using mod_less_divisor [of 127 ?p] by simp
  have w: "(ucast raw :: u32) mod (254 * 127) = of_nat ?p"
    using unat_u16_lt [of raw]
    by (intro u32_of_unat) (simp add: unat_mod unsigned_ucast_eq take_bit_eq_mod)
  have c: "ucast (of_nat n :: u32) = (of_nat n :: u16)" if "n < 65536" for n
    using that of_nat_unat [of "of_nat n :: u32", where ?'a = u16] by (simp add: unat_of_nat_u32)
  have pn: "unat (of_nat ?p :: u32) = ?p" using p by (intro unat_of_nat_u32) simp
  have "(of_nat ?p :: u32) div 127 = of_nat (?p div 127)" "(of_nat ?p :: u32) mod 127 = of_nat (?p mod 127)"
    by (rule u32_of_unat, simp only: unat_div unat_mod pn, simp)+
  then have e: "(of_nat ?p :: u32) div 127 + 1 = of_nat ?x" "((of_nat ?p :: u32) mod 127) * 2 + 1 = of_nat ?y"
    by simp_all
  have cx: "ucast (of_nat ?x :: u32) = (of_nat ?x :: u16)" "ucast (of_nat ?y :: u32) = (of_nat ?y :: u16)"
    using x y by (intro c; simp)+
  have "auto_id_of_raw raw = push_bit 8 (of_nat ?x) OR of_nat ?y"
    unfolding auto_id_of_raw_def Let_def w e cx by (rule refl)
  also have "\<dots> = of_nat (?x * 256 + ?y)" using x y by (intro u16_bytes) simp_all
  finally show thesis using that [of ?x ?y] x y by simp
qed

text \<open>
  C19: an automatic identifier is made of a byte from 1 to 254 and an odd byte from 1 to 253, so
  neither address of the pair lies in the reserved first and last blocks of 169.254.0.0/16 or is
  the first or last of its block, and the two addresses are neighbours in one block.
\<close>

theorem auto_tun_addresses:
  "\<exists>x y. 1 \<le> x \<and> x \<le> 254 \<and> odd y \<and> y \<le> 253
      \<and> generate_auto_tun_id env host port = (of_nat (x * 256 + y),
          ''169.254.'' @ show_nat x @ ''.'' @ show_nat y,
          ''169.254.'' @ show_nat x @ ''.'' @ show_nat (y + 1))"
proof -
  define i where "i = fst (generate_auto_tun_id env host port)"
  have g: "generate_auto_tun_id env host port = (i, link_local i, link_local (i + 1))"
    by (simp add: i_def generate_auto_tun_id_def Let_def)
  obtain raw where "i = auto_id_of_raw raw" by (auto simp: i_def generate_auto_tun_id_def Let_def)
  then obtain x y where xy: "1 \<le> x" "x \<le> 254" "odd y" "y \<le> 253" "i = of_nat (x * 256 + y)"
    using auto_id_bytes [of raw] by metis
  have i1: "i + 1 = of_nat (x * 256 + (y + 1))" using xy(5) by simp
  have "link_local i = ''169.254.'' @ show_nat x @ ''.'' @ show_nat y"
    unfolding xy(5) using xy by (intro link_local_bytes) simp_all
  moreover have "link_local (i + 1) = ''169.254.'' @ show_nat x @ ''.'' @ show_nat (y + 1)"
    unfolding i1 using xy by (intro link_local_bytes) simp_all
  ultimately show ?thesis using g xy by (intro exI [of _ x] exI [of _ y]) simp
qed

text \<open>
  two targets get the same pair of automatic addresses or two disjoint pairs, whatever the
  hash values are.
\<close>

theorem auto_tun_pairs_disjoint:
  "auto_id_of_raw r = auto_id_of_raw r'
   \<or> {auto_id_of_raw r, auto_id_of_raw r + 1} \<inter> {auto_id_of_raw r', auto_id_of_raw r' + 1} = {}"
proof -
  have odd_id: "odd (unat (auto_id_of_raw r)) \<and> unat (auto_id_of_raw r) < 65535" for r
  proof -
    obtain x y where xy: "x \<le> 254" "odd y" "y \<le> 253" "auto_id_of_raw r = of_nat (x * 256 + y)"
      using auto_id_bytes [of r] by metis
    then have "unat (auto_id_of_raw r) = x * 256 + y"
      unfolding xy(4) by (intro unat_of_nat_u16) simp
    with xy show ?thesis by simp
  qed
  have neq: "auto_id_of_raw r + 1 \<noteq> auto_id_of_raw r'" for r r'
  proof -
    have "unat (auto_id_of_raw r + 1) = unat (auto_id_of_raw r) + 1"
      using odd_id [of r] by (simp add: unat_word_ariths)
    then show ?thesis using odd_id [of r] odd_id [of r'] by (metis even_add odd_one)
  qed
  show ?thesis using neq [of r r'] neq [of r' r] by auto
qed

text \<open>
  the two automatic IPv6 addresses are 16 bytes in fd00::/8 that agree in the first 127 bits;
  the last bit is 0 for the local and 1 for the remote side.
\<close>

theorem auto_ipv6_pair:
  assumes "length (sha256 env (be16 i)) = 32"
  shows "\<exists>pre l. auto_ipv6_bytes env i = (pre @ [l], pre @ [l OR 1])
    \<and> length pre = 15 \<and> pre ! 0 = 0xfd \<and> even l \<and> l OR 1 = l + 1"
proof -
  let ?h = "sha256 env (be16 i)"
  let ?l = "?h ! 14 AND 0xfe"
  let ?pre = "0xfd # take 14 ?h"
  have len: "length ?pre = 15" using assms by simp
  then have "(?pre @ [?l]) ! 15 = ?l" "(?pre @ [?l])[15 := ?l OR 1] = ?pre @ [?l OR 1]"
    by (simp_all add: nth_append list_update_append)
  then have "auto_ipv6_bytes env i = (?pre @ [?l], ?pre @ [?l OR 1])"
    by (simp add: auto_ipv6_bytes_def Let_def)
  moreover have "even ?l" by (simp add: even_and_iff)
  moreover have "?l OR 1 = ?l + 1" using calculation(2) by (simp add: or_one_eq)
  ultimately show ?thesis using len by (intro exI [of _ ?pre] exI [of _ ?l]) simp
qed

text \<open>A concrete machine on which the properties are exercised.\<close>

definition demo_env :: host_env where
  "demo_env = \<lparr>
     files = [(''/home/u/.ssh/config'', Text [Some ''Host web'', Some ''  HostName 10.0.0.5 # comment'',
                 Some ''  Port=2022'', None, Some ''Include extra'', Some ''Host *'', Some ''  User late'']),
              (''/home/u/.ssh/extra'', Text [Some ''User early'', Some ''Include config'']),
              (''/home/u/.ssh/conf.d'', Directory)],
     path_exists = (\<lambda>p. p = ''/home/u/.ssh/id_rsa''),
     canonicalize = Some,
     glob = (\<lambda>p. Some [p]),
     host_clause_intersects = (\<lambda>p h. p = ''*'' \<or> p = h),
     home_dir = Some ''/home/u'',
     env_var = (\<lambda>v. if v = ''USER'' then Some ''me'' else None),
     sha256 = (\<lambda>_. replicate 32 0x2b)\<rparr>"

theorem auto_ipv6_pair_witness:
  "\<exists>pre l. auto_ipv6_bytes demo_env 7 = (pre @ [l], pre @ [l OR 1])
    \<and> length pre = 15 \<and> pre ! 0 = 0xfd \<and> even l \<and> l OR 1 = l + 1"
  by (rule auto_ipv6_pair) (simp add: demo_env_def)

end
