(* ===== verification/Ssh_Config.thy ===== *)
theory Ssh_Config
  imports Tun_Auto
begin

text \<open>
  Reading the user's SSH configuration, \<^verbatim>\<open>src/src/config.rs\<close>: \<open>parse_ssh_config_file_rec\<close> with
  the Host, Match and Include directives. A file is read at most once, by its canonical path.
  The recursion through Include is bounded by fuel; \<open>parse_ssh_config_terminates\<close> shows that one
  more than the number of files is enough.
\<close>

section \<open>What is extracted\<close>

record extracted_ssh_config =
  e_hostname :: "string option"
  e_user :: "string option"
  e_port :: "u16 option"
  e_identity_files :: "string list"
  e_local_forwards :: "string list"
  e_remote_forwards :: "string list"
  e_dynamic_forwards :: "string list"
  e_tun_forward :: "string option"
  e_proxy_jump :: "string option"

definition ExtractedSshConfig_default :: extracted_ssh_config where
  "ExtractedSshConfig_default = \<lparr>e_hostname = None, e_user = None, e_port = None,
     e_identity_files = [], e_local_forwards = [], e_remote_forwards = [], e_dynamic_forwards = [],
     e_tun_forward = None, e_proxy_jump = None\<rparr>"

section \<open>Lines and sections\<close>

text \<open>A line as its keyword in lower case and its arguments; \<open>None\<close> when it is skipped.\<close>

definition config_line :: "string \<Rightarrow> (string \<times> string list) option" where
  "config_line line =
    (let trimmed = trim line
     in if trimmed = [] \<or> starts_with ''#'' trimmed then None
        else
          (let line_content =
                 (case find_char CHR ''#'' trimmed of
                    Some idx \<Rightarrow> trim (take idx trimmed) | None \<Rightarrow> trimmed);
               parts =
                 (case split_once CHR ''='' line_content of
                    Some (key, val) \<Rightarrow> trim key # map trim (split_whitespace val)
                  | None \<Rightarrow> map trim (split_whitespace line_content))
           in case parts of [] \<Rightarrow> None | key # args \<Rightarrow> Some (to_lowercase key, args)))"

text \<open>The loop over the patterns of a Host line.\<close>

fun host_patterns :: "host_env \<Rightarrow> string \<Rightarrow> string list \<Rightarrow> bool \<Rightarrow> bool" where
  "host_patterns env target_host [] matched = matched"
| "host_patterns env target_host (pat # pats) matched =
    (case (case strip_prefix ''!'' pat of Some stripped \<Rightarrow> (stripped, True) | None \<Rightarrow> (pat, False)) of
       (pattern, is_neg) \<Rightarrow>
         if host_clause_intersects env pattern target_host
         then (if is_neg then False else host_patterns env target_host pats True)
         else host_patterns env target_host pats matched)"

definition host_section :: "host_env \<Rightarrow> string \<Rightarrow> string list \<Rightarrow> bool" where
  "host_section env target_host args =
     (if args = [] then False else host_patterns env target_host args False)"

text \<open>The loop of \<open>parse_match_directive\<close>.\<close>

fun match_criteria :: "host_env \<Rightarrow> string \<Rightarrow> string list \<Rightarrow> bool \<Rightarrow> bool" where
  "match_criteria env target_host [] matched = matched"
| "match_criteria env target_host [a] matched = matched"
| "match_criteria env target_host (a # b # rest) matched =
    (if to_lowercase a = ''host''
     then match_criteria env target_host rest
            (if \<not> host_clause_intersects env b target_host then False else matched)
     else match_criteria env target_host (b # rest) matched)"

definition parse_match_directive :: "host_env \<Rightarrow> string list \<Rightarrow> string \<Rightarrow> bool" where
  "parse_match_directive env args target_host = match_criteria env target_host args True"

section \<open>Directives\<close>

type_synonym config_state = "extracted_ssh_config \<times> string set"

text \<open>The path of an IdentityFile argument, and the pattern of an Include argument.\<close>

definition identity_path :: "host_env \<Rightarrow> string \<Rightarrow> string" where
  "identity_path env arg =
    (let path_str = trim_matches CHR 0x22 arg
     in if starts_with ''~/'' path_str
        then (case home_dir env of Some h \<Rightarrow> path_join h (drop 2 path_str) | None \<Rightarrow> path_str)
        else path_str)"

definition include_pattern :: "host_env \<Rightarrow> string \<Rightarrow> string" where
  "include_pattern env arg =
    (let pattern = trim_matches CHR 0x22 arg
     in if starts_with ''~/'' pattern
        then (case home_dir env of Some h \<Rightarrow> path_join h (drop 2 pattern) | None \<Rightarrow> pattern)
        else if \<not> starts_with ''/'' pattern
        then (case home_dir env of
                Some h \<Rightarrow> path_join (path_join h ''.ssh'') pattern | None \<Rightarrow> pattern)
        else pattern)"

definition include_entries :: "host_env \<Rightarrow> string list \<Rightarrow> string list" where
  "include_entries env args =
     concat (map (\<lambda>arg. case glob env (include_pattern env arg) of Some es \<Rightarrow> es | None \<Rightarrow> []) args)"

text \<open>A loop over a state, ended by the first element that does not return normally.\<close>

fun ofold :: "('a \<Rightarrow> 's \<Rightarrow> ('e, 's) outcome) \<Rightarrow> 'a list \<Rightarrow> 's \<Rightarrow> ('e, 's) outcome" where
  "ofold f [] s = Ok s"
| "ofold f (x # xs) s = obind (f x s) (ofold f xs)"

text \<open>A directive that is not an Include.\<close>

definition plain_directive ::
  "host_env \<Rightarrow> string \<Rightarrow> string list \<Rightarrow> extracted_ssh_config \<Rightarrow> extracted_ssh_config" where
  "plain_directive env key args x =
    (if args = [] then x
     else if key = ''hostname''
     then (if e_hostname x = None then x\<lparr>e_hostname := Some (hd args)\<rparr> else x)
     else if key = ''user''
     then (if e_user x = None then x\<lparr>e_user := Some (hd args)\<rparr> else x)
     else if key = ''port''
     then (if e_port x = None
           then (case parse_u16 (hd args) of Some p \<Rightarrow> x\<lparr>e_port := Some p\<rparr> | None \<Rightarrow> x) else x)
     else if key = ''identityfile''
     then x\<lparr>e_identity_files := e_identity_files x @ map (identity_path env) args\<rparr>
     else if key = ''localforward''
     then x\<lparr>e_local_forwards := e_local_forwards x @ [join_with '' '' args]\<rparr>
     else if key = ''remoteforward''
     then x\<lparr>e_remote_forwards := e_remote_forwards x @ [join_with '' '' args]\<rparr>
     else if key = ''dynamicforward''
     then x\<lparr>e_dynamic_forwards := e_dynamic_forwards x @ [join_with '' '' args]\<rparr>
     else if key = ''tunneldevice'' \<or> key = ''tunnel''
     then (if e_tun_forward x = None then x\<lparr>e_tun_forward := Some (join_with '' '' args)\<rparr> else x)
     else if key = ''proxyjump''
     then (if e_proxy_jump x = None then x\<lparr>e_proxy_jump := Some (join_with '' '' args)\<rparr> else x)
     else x)"

definition config_directive ::
  "host_env \<Rightarrow> (string \<Rightarrow> config_state \<Rightarrow> ('e, config_state) outcome) \<Rightarrow> string \<Rightarrow> string list \<Rightarrow>
   config_state \<Rightarrow> ('e, config_state) outcome" where
  "config_directive env parse_file key args st =
    (if key = ''include'' then ofold parse_file (include_entries env args) st
     else (case st of (x, visited) \<Rightarrow> Ok (plain_directive env key args x, visited)))"

section \<open>Files\<close>

text \<open>The loop over the lines of a file, with the flag \<open>in_matching_section\<close>.\<close>

fun config_lines ::
  "host_env \<Rightarrow> string \<Rightarrow> (string \<Rightarrow> config_state \<Rightarrow> ('e, config_state) outcome) \<Rightarrow> string list \<Rightarrow> bool \<Rightarrow>
   config_state \<Rightarrow> ('e, config_state) outcome" where
  "config_lines env target_host parse_file [] in_matching st = Ok st"
| "config_lines env target_host parse_file (line # ls) in_matching st =
    (case config_line line of
       None \<Rightarrow> config_lines env target_host parse_file ls in_matching st
     | Some (key, args) \<Rightarrow>
         if key = ''host''
         then config_lines env target_host parse_file ls (host_section env target_host args) st
         else if key = ''match''
         then config_lines env target_host parse_file ls (parse_match_directive env args target_host) st
         else if \<not> in_matching
         then config_lines env target_host parse_file ls in_matching st
         else obind (config_directive env parse_file key args st)
                (config_lines env target_host parse_file ls in_matching))"

text \<open>
  A directory can be opened, and \<open>lines().flatten()\<close> then yields read errors, which \<open>flatten\<close>
  drops, without end.
\<close>

fun parse_ssh_config_file_rec ::
  "host_env \<Rightarrow> string \<Rightarrow> nat \<Rightarrow> string \<Rightarrow> config_state \<Rightarrow> ('e, config_state) outcome" where
  "parse_ssh_config_file_rec env target_host 0 path st = Diverge"
| "parse_ssh_config_file_rec env target_host (Suc fuel) path (extracted, visited) =
    (let canonical = (case canonicalize env path of Some p \<Rightarrow> p | None \<Rightarrow> path)
     in if canonical \<in> visited then Ok (extracted, visited)
        else case map_of (files env) path of
          None \<Rightarrow> Ok (extracted, insert canonical visited)
        | Some Directory \<Rightarrow> Diverge
        | Some (Text ls) \<Rightarrow>
            config_lines env target_host (\<lambda>p s. parse_ssh_config_file_rec env target_host fuel p s)
              (List.map_filter id ls) True (extracted, insert canonical visited))"

definition read_ssh_config :: "host_env \<Rightarrow> string \<Rightarrow> (config_error, extracted_ssh_config) outcome" where
  "read_ssh_config env target_host =
    (case home_dir env of
       None \<Rightarrow> Ok ExtractedSshConfig_default
     | Some home \<Rightarrow>
         obind (parse_ssh_config_file_rec env target_host (Suc (length (files env)))
                  (path_join (path_join home ''.ssh'') ''config'') (ExtractedSshConfig_default, {}))
           (\<lambda>(extracted, _). Ok extracted))"

section \<open>Termination\<close>

definition canon :: "host_env \<Rightarrow> string \<Rightarrow> string" where
  "canon env path = (case canonicalize env path of Some p \<Rightarrow> p | None \<Rightarrow> path)"

text \<open>The canonical paths of the files that can still be read.\<close>

definition unread :: "host_env \<Rightarrow> string set \<Rightarrow> string set" where
  "unread env visited = canon env ` fst ` set (files env) - visited"

lemma finite_unread [simp]: "finite (unread env visited)"
  by (simp add: unread_def)

lemma card_unread_mono: "v \<subseteq> v' \<Longrightarrow> card (unread env v') \<le> card (unread env v)"
  by (rule card_mono) (auto simp: unread_def)

lemma card_unread_insert:
  assumes "map_of (files env) path = Some e" "canon env path \<notin> v"
  shows "card (unread env (insert (canon env path) v)) < card (unread env v)"
proof (rule psubset_card_mono)
  have "path \<in> fst ` set (files env)" using map_of_SomeD [OF assms(1)] by force
  then have "canon env path \<in> unread env v" using assms(2) by (simp add: unread_def)
  then show "unread env (insert (canon env path) v) \<subset> unread env v" by (auto simp: unread_def)
qed simp

text \<open>
  What a reader of files keeps: it returns, the set of visited files only grows, and the relation
  \<open>R\<close> holds between what was extracted before and after.
\<close>

definition reads_well ::
  "(extracted_ssh_config \<Rightarrow> extracted_ssh_config \<Rightarrow> bool) \<Rightarrow> string set \<Rightarrow>
   (config_state \<Rightarrow> ('e, config_state) outcome) \<Rightarrow> bool" where
  "reads_well R V f \<longleftrightarrow> (\<forall>x v. V \<subseteq> v \<longrightarrow> (\<exists>x' v'. f (x, v) = Ok (x', v') \<and> v \<subseteq> v' \<and> R x x'))"

locale extraction_order =
  fixes R :: "extracted_ssh_config \<Rightarrow> extracted_ssh_config \<Rightarrow> bool"
  assumes refl: "R x x"
    and trans: "R x y \<Longrightarrow> R y z \<Longrightarrow> R x z"
    and directive: "R x (plain_directive env key args x)"
begin

lemma reads_wellE:
  assumes "reads_well R V f" "V \<subseteq> v"
  obtains x' v' where "f (x, v) = Ok (x', v')" "v \<subseteq> v'" "R x x'"
  using assms unfolding reads_well_def by blast

lemma reads_well_Ok: "reads_well R V Ok"
  by (simp add: reads_well_def refl)

lemma reads_well_seq:
  assumes "reads_well R V f" "reads_well R V g"
  shows "reads_well R V (\<lambda>st. obind (f st) g)"
  unfolding reads_well_def
proof (intro allI impI)
  fix x v assume V: "V \<subseteq> v"
  obtain x' v' where 1: "f (x, v) = Ok (x', v')" "v \<subseteq> v'" "R x x'"
    by (rule reads_wellE [OF assms(1) V])
  have V': "V \<subseteq> v'" using V 1(2) by (rule subset_trans)
  obtain x'' v'' where 2: "g (x', v') = Ok (x'', v'')" "v' \<subseteq> v''" "R x' x''"
    by (rule reads_wellE [OF assms(2) V'])
  show "\<exists>x' v'. obind (f (x, v)) g = Ok (x', v') \<and> v \<subseteq> v' \<and> R x x'"
    using 1 2 trans by (intro exI [of _ x''] exI [of _ v'']) auto
qed

lemma reads_well_ofold:
  assumes "\<And>p. reads_well R V (f p)"
  shows "reads_well R V (ofold f ps)"
proof (induction ps)
  case Nil
  have "ofold f [] = Ok" by (intro ext) simp
  then show ?case by (simp add: reads_well_Ok)
next
  case (Cons p ps)
  have "ofold f (p # ps) = (\<lambda>st. obind (f p st) (ofold f ps))" by (intro ext) simp
  with reads_well_seq [OF assms Cons] show ?case by simp
qed

lemma reads_well_directive:
  "(\<And>p. reads_well R V (f p)) \<Longrightarrow> reads_well R V (config_directive env f key args)"
  using reads_well_ofold [of V f "include_entries env args"] directive
  by (auto simp: reads_well_def config_directive_def)

lemma reads_well_lines:
  assumes "\<And>p. reads_well R V (f p)"
  shows "reads_well R V (config_lines env host f ls flag)"
proof (induction ls arbitrary: flag)
  case Nil
  then show ?case by (simp add: reads_well_def refl)
next
  case (Cons l ls)
  note step = reads_well_seq [OF reads_well_directive [OF assms] Cons]
  show ?case
  proof (cases "config_line l")
    case None
    then have "config_lines env host f (l # ls) flag = config_lines env host f ls flag" by (intro ext) simp
    with Cons show ?thesis by simp
  next
    case (Some ka)
    obtain key args where "ka = (key, args)" by (cases ka)
    with Some have "config_lines env host f (l # ls) flag =
        (if key = ''host'' then config_lines env host f ls (host_section env host args)
         else if key = ''match'' then config_lines env host f ls (parse_match_directive env args host)
         else if \<not> flag then config_lines env host f ls flag
         else (\<lambda>st. obind (config_directive env f key args st) (config_lines env host f ls flag)))"
      by (intro ext) simp
    with Cons step show ?thesis by simp
  qed
qed

theorem reads_well_file:
  assumes "list_all (\<lambda>(p, e). e \<noteq> Directory) (files env)" "card (unread env V) < fuel"
  shows "reads_well R V
    (parse_ssh_config_file_rec env host fuel path :: config_state \<Rightarrow> ('e, config_state) outcome)"
  using assms(2)
proof (induction fuel arbitrary: V path)
  case (Suc fuel)
  show ?case
    unfolding reads_well_def
  proof (intro allI impI)
    fix x v assume V: "V \<subseteq> v"
    let ?c = "canon env path"
    have c: "(case canonicalize env path of Some p \<Rightarrow> p | None \<Rightarrow> path) = ?c" by (simp add: canon_def)
    show "\<exists>x' v'. parse_ssh_config_file_rec env host (Suc fuel) path (x, v) =
        (Ok (x', v') :: ('e, config_state) outcome)
      \<and> v \<subseteq> v' \<and> R x x'"
    proof (cases "?c \<in> v \<or> map_of (files env) path = None")
      case True
      then show ?thesis using refl by (auto simp: c Let_def)
    next
      case False
      then obtain ls where ls: "map_of (files env) path = Some (Text ls)"
      proof -
        obtain e where e: "map_of (files env) path = Some e" using False by auto
        then have "e \<noteq> Directory" using assms(1) by (auto simp: list_all_iff dest: map_of_SomeD)
        then show thesis using that e by (cases e) simp_all
      qed
      have "card (unread env (insert ?c v)) < fuel"
        using card_unread_insert [OF ls, of v] card_unread_mono [OF V, of env] Suc.prems False by simp
      then have "reads_well R (insert ?c v)
          (parse_ssh_config_file_rec env host fuel p :: config_state \<Rightarrow> ('e, config_state) outcome)" for p
        by (rule Suc.IH)
      then have good: "reads_well R (insert ?c v) (config_lines env host
          (\<lambda>p s. parse_ssh_config_file_rec env host fuel p s :: ('e, config_state) outcome)
          (List.map_filter id ls) True)"
        by (intro reads_well_lines) simp
      show ?thesis
        by (rule reads_wellE [OF good subset_refl, of x]) (use False ls in \<open>auto simp: c Let_def\<close>)
    qed
  qed
qed simp

end

section \<open>First value wins\<close>

text \<open>
  The order in which extraction only grows: a value once set stays, and a list is only extended
  at its end.
\<close>

definition opt_le :: "'a option \<Rightarrow> 'a option \<Rightarrow> bool" where
  "opt_le a b \<longleftrightarrow> a \<noteq> None \<longrightarrow> b = a"

definition list_le :: "'a list \<Rightarrow> 'a list \<Rightarrow> bool" where
  "list_le a b \<longleftrightarrow> take (length a) b = a"

definition extends :: "extracted_ssh_config \<Rightarrow> extracted_ssh_config \<Rightarrow> bool" where
  "extends x y \<longleftrightarrow> opt_le (e_hostname x) (e_hostname y) \<and> opt_le (e_user x) (e_user y)
     \<and> opt_le (e_port x) (e_port y) \<and> list_le (e_identity_files x) (e_identity_files y)
     \<and> list_le (e_local_forwards x) (e_local_forwards y)
     \<and> list_le (e_remote_forwards x) (e_remote_forwards y)
     \<and> list_le (e_dynamic_forwards x) (e_dynamic_forwards y)
     \<and> opt_le (e_tun_forward x) (e_tun_forward y) \<and> opt_le (e_proxy_jump x) (e_proxy_jump y)"

lemma opt_le_refl [simp]: "opt_le a a" "opt_le None b"
  by (simp_all add: opt_le_def)

lemma opt_le_trans: "opt_le a b \<Longrightarrow> opt_le b c \<Longrightarrow> opt_le a c"
  by (auto simp: opt_le_def)

lemma list_le_append [simp]: "list_le a a" "list_le a (a @ b)"
  by (simp_all add: list_le_def)

lemma list_le_trans:
  assumes "list_le a b" "list_le b c" shows "list_le a c"
proof -
  obtain b' c' where "b = a @ b'" "c = b @ c'"
    using assms append_take_drop_id unfolding list_le_def by metis
  then show ?thesis by simp
qed

interpretation first_wins: extraction_order extends
proof unfold_locales
  show "extends x x" for x by (simp add: extends_def)
  show "extends x z" if "extends x y" "extends y z" for x y z
    using that unfolding extends_def by (meson opt_le_trans list_le_trans)
  show "extends x (plain_directive env key args x)" for x env key args
    unfolding plain_directive_def extends_def by (simp split: option.split)
qed

text \<open>
  C20: reading the configuration returns, with as many levels of Include as there are files and
  also when files include each other, provided no directory is read; what was extracted before a
  file is never overwritten by it, and lists only grow at their end.
\<close>

theorem parse_ssh_config_terminates:
  assumes "list_all (\<lambda>(p, e). e \<noteq> Directory) (files env)" "length (files env) < fuel"
  shows "\<exists>x' v'. parse_ssh_config_file_rec env host fuel path (x, v) = Ok (x', v')
    \<and> v \<subseteq> v' \<and> extends x x'"
proof -
  have "card (unread env v) \<le> card (fst ` set (files env))"
    unfolding unread_def by (meson card_image_le card_mono Diff_subset finite_imageI finite_set le_trans)
  also have "\<dots> \<le> length (files env)" by (meson card_image_le card_length finite_set le_trans)
  finally have "card (unread env v) < fuel" using assms(2) by simp
  from first_wins.reads_well_file [OF assms(1) this] show ?thesis
    unfolding reads_well_def by blast
qed

text \<open>
  an Include that names a directory makes the program hang: opening a directory succeeds and
  the loop drops its read errors for ever.
\<close>

theorem directory_diverges:
  assumes "map_of (files env) path = Some Directory" "canon env path \<notin> v"
  shows "parse_ssh_config_file_rec env host fuel path (x, v) = Diverge"
  using assms by (cases fuel) (simp_all add: canon_def Let_def)

theorem directory_diverges_witness:
  "parse_ssh_config_file_rec demo_env ''web'' 4 ''/home/u/.ssh/conf.d'' (ExtractedSshConfig_default, {})
   = Diverge"
  by (rule directory_diverges) (simp_all add: demo_env_def)

theorem parse_ssh_config_terminates_witness:
  "\<exists>x' v'. parse_ssh_config_file_rec (demo_env\<lparr>files := take 2 (files demo_env)\<rparr>) ''web'' 3
     ''/home/u/.ssh/config'' (ExtractedSshConfig_default, {}) = Ok (x', v')
    \<and> {} \<subseteq> v' \<and> extends ExtractedSshConfig_default x'"
  by (rule parse_ssh_config_terminates) (simp_all add: demo_env_def)

section \<open>Which value is extracted\<close>

text \<open>The directives of a file that are in effect for a host, in order.\<close>

fun active :: "host_env \<Rightarrow> string \<Rightarrow> bool \<Rightarrow> string list \<Rightarrow> (string \<times> string list) list" where
  "active env host flag [] = []"
| "active env host flag (l # ls) =
    (case config_line l of
       None \<Rightarrow> active env host flag ls
     | Some (key, args) \<Rightarrow>
         if key = ''host'' then active env host (host_section env host args) ls
         else if key = ''match'' then active env host (parse_match_directive env args host) ls
         else (if flag then [(key, args)] else []) @ active env host flag ls)"

lemma config_lines_active:
  "config_lines env host f ls flag st =
     ofold (\<lambda>(key, args). config_directive env f key args) (active env host flag ls) st"
proof (induction ls arbitrary: flag st)
  case (Cons l ls)
  have "config_lines env host f ls flag =
      ofold (\<lambda>(key, args). config_directive env f key args) (active env host flag ls)" for flag
    using Cons by (intro ext)
  then show ?case by (auto split: option.split)
qed simp

text \<open>
  The specification: for each keyword the first usable value, or all values in order.
\<close>

definition first :: "'a list \<Rightarrow> 'a option" where
  "first xs = (case xs of [] \<Rightarrow> None | x # _ \<Rightarrow> Some x)"

definition arguments :: "string list \<Rightarrow> (string \<times> string list) list \<Rightarrow> string list list" where
  "arguments keys ds = map snd (filter (\<lambda>(k, args). k \<in> set keys \<and> args \<noteq> []) ds)"

definition extract_spec :: "host_env \<Rightarrow> (string \<times> string list) list \<Rightarrow> extracted_ssh_config" where
  "extract_spec env ds = \<lparr>
     e_hostname = first (map hd (arguments [''hostname''] ds)),
     e_user = first (map hd (arguments [''user''] ds)),
     e_port = first (List.map_filter (\<lambda>args. parse_u16 (hd args)) (arguments [''port''] ds)),
     e_identity_files = concat (map (map (identity_path env)) (arguments [''identityfile''] ds)),
     e_local_forwards = map (join_with '' '') (arguments [''localforward''] ds),
     e_remote_forwards = map (join_with '' '') (arguments [''remoteforward''] ds),
     e_dynamic_forwards = map (join_with '' '') (arguments [''dynamicforward''] ds),
     e_tun_forward = first (map (join_with '' '') (arguments [''tunneldevice'', ''tunnel''] ds)),
     e_proxy_jump = first (map (join_with '' '') (arguments [''proxyjump''] ds))\<rparr>"

lemma first_append: "first (xs @ ys) = (case first xs of None \<Rightarrow> first ys | Some x \<Rightarrow> Some x)"
  by (cases xs) (simp_all add: first_def)

lemma first_simps [simp]: "first [] = None" "first (x # xs) = Some x"
  by (simp_all add: first_def)

lemma arguments_append [simp]: "arguments ks (ds @ es) = arguments ks ds @ arguments ks es"
  by (simp add: arguments_def)

lemma arguments_single:
  "arguments ks [(k, args)] = (if k \<in> set ks \<and> args \<noteq> [] then [args] else [])"
  by (simp add: arguments_def)

lemma map_filter_append: "List.map_filter f (xs @ ys) = List.map_filter f xs @ List.map_filter f ys"
  by (simp add: List.map_filter_def)

lemma extract_spec_snoc:
  "extract_spec env (ds @ [(k, args)]) = plain_directive env k args (extract_spec env ds)"
proof (cases "args = []")
  case True
  then show ?thesis by (simp add: extract_spec_def arguments_single plain_directive_def)
next
  case False
  note spec = extract_spec_def arguments_single first_append map_filter_append map_filter_simps
  let ?known = "[''hostname'', ''user'', ''port'', ''identityfile'', ''localforward'', ''remoteforward'',
    ''dynamicforward'', ''tunneldevice'', ''tunnel'', ''proxyjump'']"
  show ?thesis
  proof (cases "k \<in> set ?known")
    case True
    then have "k = ''hostname'' \<or> k = ''user'' \<or> k = ''port'' \<or> k = ''identityfile''
        \<or> k = ''localforward'' \<or> k = ''remoteforward'' \<or> k = ''dynamicforward''
        \<or> k = ''tunneldevice'' \<or> k = ''tunnel'' \<or> k = ''proxyjump''"
      by (simp only: set_simps insert_iff empty_iff simp_thms)
    then show ?thesis
      by (elim disjE; hypsubst; simp add: False plain_directive_def spec split: option.split)
  next
    case other: False
    then have "plain_directive env k args (extract_spec env ds) = extract_spec env ds"
      by (simp add: plain_directive_def)
    moreover have "arguments ks [(k, args)] = []" if "set ks \<subseteq> set ?known" for ks
    proof -
      have "k \<notin> set ks" using other that by (meson subsetD)
      then show ?thesis by (simp only: arguments_single simp_thms if_False)
    qed
    ultimately show ?thesis by (simp add: extract_spec_def map_filter_append map_filter_simps)
  qed
qed

lemma ofold_plain:
  "list_all (\<lambda>(k, _). k \<noteq> ''include'') ds \<Longrightarrow>
   ofold (\<lambda>(key, args). config_directive env f key args) ds (x, v) =
     Ok (fold (\<lambda>(k, args). plain_directive env k args) ds x, v)"
  by (induction ds arbitrary: x) (auto simp: config_directive_def)

lemma fold_plain_spec:
  "fold (\<lambda>(k, args). plain_directive env k args) ds ExtractedSshConfig_default = extract_spec env ds"
proof (induction ds rule: rev_induct)
  case Nil
  then show ?case by (simp add: extract_spec_def arguments_def ExtractedSshConfig_default_def map_filter_simps)
next
  case (snoc d ds)
  then show ?case by (cases d) (simp add: extract_spec_snoc)
qed

text \<open>
  C21: without Include, a configuration file gives for every keyword exactly the value that its
  specification says: for HostName, User, Port, the TUN device and ProxyJump the first usable value of the
  sections in effect for the host, for identities and forwardings all of them in file order.
\<close>

theorem config_lines_extracts:
  assumes "list_all (\<lambda>(k, _). k \<noteq> ''include'') (active env host True ls)"
  shows "config_lines env host f ls True (ExtractedSshConfig_default, v) =
    Ok (extract_spec env (active env host True ls), v)"
  using assms by (simp add: config_lines_active ofold_plain fold_plain_spec)

theorem config_lines_extracts_witness:
  "config_lines demo_env ''db'' (\<lambda>_ _. Panic) [''Host web'', ''User a'', ''Host *'', ''User b''] True
     (ExtractedSshConfig_default, {}) = Ok (extract_spec demo_env [(''user'', [''b''])], {})"
proof -
  have l: "config_line ''Host web'' = Some (''host'', [''web''])"
    "config_line ''User a'' = Some (''user'', [''a''])" "config_line ''Host *'' = Some (''host'', [''*''])"
    "config_line ''User b'' = Some (''user'', [''b''])"
    by code_simp+
  have a: "active demo_env ''db'' True [''Host web'', ''User a'', ''Host *'', ''User b''] = [(''user'', [''b''])]"
    by (simp add: l host_section_def strip_prefix_def demo_env_def)
  have "list_all (\<lambda>(k, _). k \<noteq> ''include'')
      (active demo_env ''db'' True [''Host web'', ''User a'', ''Host *'', ''User b''])"
    unfolding a by simp
  from config_lines_extracts [OF this] show ?thesis unfolding a .
qed

end
