(* ===== verification/Resolved_Config.thy ===== *)
theory Resolved_Config
  imports Ssh_Config
begin

text \<open>
  How command line, configuration file and environment are combined, \<^verbatim>\<open>src/src/config.rs\<close>:
  \<open>CliArgs\<close>, \<open>resolve_host_config\<close> and \<open>ResolvedConfig::from_args\<close>. Paths are strings.
\<close>

section \<open>Data\<close>

record cli_args =
  destination :: string
  arg_port :: "u16 option"
  arg_identity :: "string list"
  cli_local_forwards :: "string list"
  cli_remote_forwards :: "string list"
  cli_dynamic_forwards :: "string list"
  cli_tun_forward :: "string option"
  cli_jump_hosts :: "string list"
  cli_local_tun_addr :: "string option"
  cli_remote_tun_addr :: "string option"
  cli_local_tun_addr6 :: "string option"
  cli_remote_tun_addr6 :: "string option"
  cli_local_post_up :: "string option"
  cli_remote_post_up :: "string option"
  no_shell :: bool
  cli_reconnect_interval :: u64
  cli_keepalive_interval :: u64
  cli_keepalive_max :: u32
  cli_fwmark :: "u32 option"
  verbose :: u8

record host_connection_config =
  hc_host :: string
  hc_hostname :: string
  hc_port :: u16
  hc_user :: string
  hc_identity_files :: "string list"

record resolved_config =
  rc_host :: string
  rc_hostname :: string
  rc_port :: u16
  rc_user :: string
  rc_identity_files :: "string list"
  jump_hosts :: "host_connection_config list"
  local_forwards :: "local_forward_spec list"
  remote_forwards :: "remote_forward_spec list"
  dynamic_forwards :: "dynamic_forward_spec list"
  tun_forward :: "tun_forward_spec option"
  local_tun_addr :: "string option"
  remote_tun_addr :: "string option"
  local_tun_addr6 :: "string option"
  remote_tun_addr6 :: "string option"
  local_post_up :: "string option"
  remote_post_up :: "string option"
  reconnect_interval :: u64
  keepalive_interval :: u64
  keepalive_max :: u32
  fwmark :: "u32 option"

section \<open>One host\<close>

definition or_else :: "'a option \<Rightarrow> 'a option \<Rightarrow> 'a option" where
  "or_else a b = (case a of Some x \<Rightarrow> Some x | None \<Rightarrow> b)"

definition unwrap_or :: "'a option \<Rightarrow> 'a \<Rightarrow> 'a" where
  "unwrap_or a d = (case a of Some x \<Rightarrow> x | None \<Rightarrow> d)"

text \<open>User, host and port of a destination \<open>[user@]host[:port]\<close>.\<close>

definition split_user :: "string \<Rightarrow> string option \<times> string" where
  "split_user spec =
    (case find_char CHR ''@'' spec of
       Some at_idx \<Rightarrow> (Some (take at_idx spec), drop (at_idx + 1) spec)
     | None \<Rightarrow> (None, spec))"

definition split_port :: "string \<Rightarrow> u16 option \<Rightarrow> string \<times> u16 option" where
  "split_port target_host target_port =
    (case rfind_char colon target_host of
       Some colon_idx \<Rightarrow>
         (case parse_u16 (drop (colon_idx + 1) target_host) of
            Some p \<Rightarrow> (take colon_idx target_host, if target_port = None then Some p else target_port)
          | None \<Rightarrow> (target_host, target_port))
     | None \<Rightarrow> (target_host, target_port))"

text \<open>\<open>Path::strip_prefix("~")\<close>: the rest of the path when its first component is the tilde.\<close>

definition strip_tilde :: "string \<Rightarrow> string option" where
  "strip_tilde p = (if p = ''~'' then Some [] else strip_prefix ''~/'' p)"

text \<open>The identity files of the configuration that exist, a tilde expanded.\<close>

definition config_identity :: "host_env \<Rightarrow> string \<Rightarrow> string option" where
  "config_identity env p =
    (if path_exists env p then Some p
     else case strip_tilde p of
       None \<Rightarrow> None
     | Some stripped \<Rightarrow>
         (case home_dir env of
            None \<Rightarrow> None
          | Some home \<Rightarrow>
              (let expanded = path_join home (trim_start_matches CHR ''/'' stripped)
               in if path_exists env expanded then Some expanded else None)))"

definition default_identities :: "host_env \<Rightarrow> string list" where
  "default_identities env =
    (case home_dir env of
       None \<Rightarrow> []
     | Some home \<Rightarrow> filter (path_exists env)
         (map (path_join (path_join home ''.ssh'')) [''id_ed25519'', ''id_rsa'', ''id_ecdsa'', ''id_dsa'']))"

definition identity_choice :: "host_env \<Rightarrow> string list \<Rightarrow> string list \<Rightarrow> string list" where
  "identity_choice env cli_identities config_identities =
    (let ids = cli_identities;
         ids = (if ids = [] then List.map_filter (config_identity env) config_identities else ids)
     in if ids = [] then default_identities env else ids)"

definition resolve_host_config ::
  "host_env \<Rightarrow> string \<Rightarrow> u16 option \<Rightarrow> string list \<Rightarrow> (config_error, host_connection_config) outcome"
where
  "resolve_host_config env spec cli_port cli_identities =
    (let (target_user, host0) = split_user spec;
         (target_host, target_port) = split_port host0 cli_port
     in obind (read_ssh_config env target_host) (\<lambda>extracted.
        Ok \<lparr>hc_host = target_host,
            hc_hostname = unwrap_or (e_hostname extracted) target_host,
            hc_port = unwrap_or (or_else target_port (e_port extracted)) 22,
            hc_user = unwrap_or (or_else target_user (e_user extracted))
              (unwrap_or (env_var env ''USER'') ''root''),
            hc_identity_files = identity_choice env cli_identities (e_identity_files extracted)\<rparr>))"

section \<open>The whole configuration\<close>

definition cli_jump_specs :: "string list \<Rightarrow> string list" where
  "cli_jump_specs js =
     filter (\<lambda>s. s \<noteq> []) (map trim (concat (map (split_at CHR '','') js)))"

definition config_jump_specs :: "string \<Rightarrow> string list" where
  "config_jump_specs proxy_jump =
    (if to_lowercase (trim proxy_jump) \<noteq> ''none''
     then filter (\<lambda>t. t \<noteq> [] \<and> to_lowercase t \<noteq> ''none'')
            (map trim (concat (map split_whitespace (split_at CHR '','' proxy_jump))))
     else [])"

definition jump_specs :: "cli_args \<Rightarrow> extracted_ssh_config \<Rightarrow> string list" where
  "jump_specs args extracted =
    (if cli_jump_hosts args \<noteq> [] then cli_jump_specs (cli_jump_hosts args)
     else case e_proxy_jump extracted of Some pj \<Rightarrow> config_jump_specs pj | None \<Rightarrow> [])"

text \<open>The addresses of the TUN device: those given, else the automatic ones of the identifier.\<close>

record tun_plan =
  tp_forward :: "tun_forward_spec option"
  tp_local :: "string option"
  tp_remote :: "string option"
  tp_local6 :: "string option"
  tp_remote6 :: "string option"

definition fill_addresses :: "host_env \<Rightarrow> u16 \<Rightarrow> string \<Rightarrow> string \<Rightarrow> tun_plan \<Rightarrow> tun_plan" where
  "fill_addresses env i auto_local auto_remote t =
    (let t = t\<lparr>tp_local := or_else (tp_local t) (Some auto_local),
               tp_remote := or_else (tp_remote t) (Some auto_remote)\<rparr>
     in if tp_local6 t = None \<or> tp_remote6 t = None
        then (case derive_auto_tun_ipv6 env i of (l6, r6) \<Rightarrow>
                t\<lparr>tp_local6 := or_else (tp_local6 t) (Some l6),
                  tp_remote6 := or_else (tp_remote6 t) (Some r6)\<rparr>)
        else t)"

definition plan_tun :: "host_env \<Rightarrow> string \<Rightarrow> u16 \<Rightarrow> tun_plan \<Rightarrow> tun_plan" where
  "plan_tun env host port t =
    (case tp_forward t of
       None \<Rightarrow> t
     | Some tun \<Rightarrow>
         if local_tun tun = ''auto'' \<or> remote_tun tun = ''auto''
         then (case generate_auto_tun_id env host port of (i, auto_local_ip, auto_remote_ip) \<Rightarrow>
                 fill_addresses env i auto_local_ip auto_remote_ip
                   (t\<lparr>tp_forward := Some \<lparr>local_tun = ''tun2222'' @ show_nat (unat i),
                      remote_tun = ''tun2222'' @ show_nat (unat i), auto_id = Some i\<rparr>\<rparr>))
         else case auto_id tun of
           Some i \<Rightarrow> fill_addresses env i (link_local i) (link_local (i + 1)) t
         | None \<Rightarrow> t)"

text \<open>The value that \<open>from_args\<close> returns at its end.\<close>

definition mk_resolved ::
  "cli_args \<Rightarrow> host_connection_config \<Rightarrow> host_connection_config list \<Rightarrow> local_forward_spec list \<Rightarrow>
   remote_forward_spec list \<Rightarrow> dynamic_forward_spec list \<Rightarrow> tun_plan \<Rightarrow> resolved_config" where
  "mk_resolved args target_config jumps l r d t =
     \<lparr>rc_host = hc_host target_config, rc_hostname = hc_hostname target_config,
      rc_port = hc_port target_config, rc_user = hc_user target_config,
      rc_identity_files = hc_identity_files target_config, jump_hosts = jumps,
      local_forwards = l, remote_forwards = r, dynamic_forwards = d,
      tun_forward = tp_forward t, local_tun_addr = tp_local t, remote_tun_addr = tp_remote t,
      local_tun_addr6 = tp_local6 t, remote_tun_addr6 = tp_remote6 t,
      local_post_up = cli_local_post_up args, remote_post_up = cli_remote_post_up args,
      reconnect_interval = cli_reconnect_interval args,
      keepalive_interval = cli_keepalive_interval args,
      keepalive_max = cli_keepalive_max args, fwmark = cli_fwmark args\<rparr>"

definition from_args :: "host_env \<Rightarrow> cli_args \<Rightarrow> (config_error, resolved_config) outcome" where
  "from_args env args =
    obind (resolve_host_config env (destination args) (arg_port args) (arg_identity args)) (\<lambda>target_config.
    obind (read_ssh_config env (hc_host target_config)) (\<lambda>extracted.
    obind (omap (\<lambda>spec. resolve_host_config env spec None (arg_identity args)) (jump_specs args extracted)) (\<lambda>jumps.
    obind (omap parse_local_forward (e_local_forwards extracted)) (\<lambda>l1.
    obind (omap parse_local_forward (cli_local_forwards args)) (\<lambda>l2.
    obind (omap parse_remote_forward (e_remote_forwards extracted)) (\<lambda>r1.
    obind (omap parse_remote_forward (cli_remote_forwards args)) (\<lambda>r2.
    obind (omap parse_dynamic_forward (e_dynamic_forwards extracted)) (\<lambda>d1.
    obind (omap parse_dynamic_forward (cli_dynamic_forwards args)) (\<lambda>d2.
    obind (case or_else (cli_tun_forward args) (e_tun_forward extracted) of
             Some spec \<Rightarrow> obind (parse_tun_forward spec) (\<lambda>t. Ok (Some t))
           | None \<Rightarrow> Ok None) (\<lambda>tun.
    let t = plan_tun env (hc_host target_config) (hc_port target_config)
          \<lparr>tp_forward = tun, tp_local = cli_local_tun_addr args, tp_remote = cli_remote_tun_addr args,
           tp_local6 = cli_local_tun_addr6 args, tp_remote6 = cli_remote_tun_addr6 args\<rparr>
    in Ok (mk_resolved args target_config jumps (l1 @ l2) (r1 @ r2) (d1 @ d2) t)))))))))))"

section \<open>Properties\<close>

lemma or_else_simps [simp]: "or_else (Some x) b = Some x" "or_else None b = b" "or_else a None = a"
  by (simp_all add: or_else_def split: option.split)

lemma unwrap_or_simps [simp]: "unwrap_or (Some x) d = x" "unwrap_or None d = d"
  by (simp_all add: unwrap_or_def)

lemma colon_not_port: "colon \<notin> set (port_text p)"
  using plain_port [of p] by (simp add: plain_def)

lemma split_user_at: "CHR ''@'' \<notin> set u \<Longrightarrow> split_user (u @ CHR ''@'' # h) = (Some u, h)"
  by (simp add: split_user_def find_char_append)

lemma split_user_none: "CHR ''@'' \<notin> set h \<Longrightarrow> split_user h = (None, h)"
  using find_char_None [of "CHR ''@''" h] by (simp add: split_user_def del: find_char_None)

lemma split_port_colon:
  "split_port (h @ colon # port_text p) c = (h, or_else c (Some p))"
  using rfind_char_append [OF colon_not_port, of h p]
  by (cases c) (simp_all add: split_port_def parse_show_u16)

lemma split_port_none: "colon \<notin> set h \<Longrightarrow> split_port h c = (h, c)"
  using rfind_char_None [of colon h] by (simp add: split_port_def)

text \<open>
  C22: a destination is resolved with the documented precedence. The user and the port of
  \<open>user@host:port\<close> win over the configuration, the port of the command line wins over both; for
  a bare host name the configuration is next, then the environment's user (or root) and port 22.
  Identities of the command line replace those of the configuration.
\<close>

theorem resolve_host_config_precedence:
  assumes "read_ssh_config env h = Ok x" "CHR ''@'' \<notin> set u"
  shows "resolve_host_config env (u @ CHR ''@'' # h @ colon # port_text p) c ids =
      Ok \<lparr>hc_host = h, hc_hostname = unwrap_or (e_hostname x) h, hc_port = unwrap_or c p, hc_user = u,
          hc_identity_files = identity_choice env ids (e_identity_files x)\<rparr>
    \<and> (CHR ''@'' \<notin> set h \<longrightarrow> colon \<notin> set h \<longrightarrow> resolve_host_config env h c ids =
      Ok \<lparr>hc_host = h, hc_hostname = unwrap_or (e_hostname x) h,
          hc_port = unwrap_or c (unwrap_or (e_port x) 22),
          hc_user = unwrap_or (e_user x) (unwrap_or (env_var env ''USER'') ''root''),
          hc_identity_files = identity_choice env ids (e_identity_files x)\<rparr>)
    \<and> (ids \<noteq> [] \<longrightarrow> identity_choice env ids (e_identity_files x) = ids)"
proof (intro conjI impI)
  show "resolve_host_config env (u @ CHR ''@'' # h @ colon # port_text p) c ids =
      Ok \<lparr>hc_host = h, hc_hostname = unwrap_or (e_hostname x) h, hc_port = unwrap_or c p, hc_user = u,
          hc_identity_files = identity_choice env ids (e_identity_files x)\<rparr>"
    using split_user_at [OF assms(2)] assms(1)
    by (cases c) (simp_all add: resolve_host_config_def split_port_colon)
next
  assume "CHR ''@'' \<notin> set h" "colon \<notin> set h"
  then show "resolve_host_config env h c ids =
      Ok \<lparr>hc_host = h, hc_hostname = unwrap_or (e_hostname x) h,
          hc_port = unwrap_or c (unwrap_or (e_port x) 22),
          hc_user = unwrap_or (e_user x) (unwrap_or (env_var env ''USER'') ''root''),
          hc_identity_files = identity_choice env ids (e_identity_files x)\<rparr>"
    using assms(1) by (cases c) (simp_all add: resolve_host_config_def split_user_none split_port_none)
qed (simp add: identity_choice_def)

definition no_home :: host_env where
  "no_home = demo_env\<lparr>home_dir := None\<rparr>"

theorem resolve_host_config_precedence_witness:
  "resolve_host_config no_home ''bob@web:2022'' None [''k''] =
     Ok \<lparr>hc_host = ''web'', hc_hostname = ''web'', hc_port = 2022, hc_user = ''bob'', hc_identity_files = [''k'']\<rparr>"
proof -
  have "read_ssh_config no_home ''web'' = Ok ExtractedSshConfig_default" "CHR ''@'' \<notin> set ''bob''"
    by (simp_all add: read_ssh_config_def no_home_def)
  from resolve_host_config_precedence [OF this, of 2022 None "[''k'']"] show ?thesis
    by (simp add: show_radix.simps ExtractedSshConfig_default_def)
qed

lemma fill_addresses_keeps:
  "opt_le (tp_local t) (tp_local (fill_addresses env i a b t))
   \<and> opt_le (tp_remote t) (tp_remote (fill_addresses env i a b t))
   \<and> opt_le (tp_local6 t) (tp_local6 (fill_addresses env i a b t))
   \<and> opt_le (tp_remote6 t) (tp_remote6 (fill_addresses env i a b t))"
  by (auto simp: fill_addresses_def opt_le_def Let_def split: prod.splits)

lemma fill_addresses_auto:
  "tp_local t = None \<Longrightarrow> tp_local (fill_addresses env i a b t) = Some a"
  "tp_remote t = None \<Longrightarrow> tp_remote (fill_addresses env i a b t) = Some b"
  by (auto simp: fill_addresses_def Let_def split: prod.splits)

lemma plan_tun_keeps:
  "opt_le (tp_local t) (tp_local (plan_tun env h p t))
   \<and> opt_le (tp_remote t) (tp_remote (plan_tun env h p t))
   \<and> opt_le (tp_local6 t) (tp_local6 (plan_tun env h p t))
   \<and> opt_le (tp_remote6 t) (tp_remote6 (plan_tun env h p t))"
proof -
  have "tp_local (t\<lparr>tp_forward := f\<rparr>) = tp_local t" "tp_remote (t\<lparr>tp_forward := f\<rparr>) = tp_remote t"
    "tp_local6 (t\<lparr>tp_forward := f\<rparr>) = tp_local6 t" "tp_remote6 (t\<lparr>tp_forward := f\<rparr>) = tp_remote6 t" for f
    by simp_all
  then show ?thesis
    using fill_addresses_keeps [of t] fill_addresses_keeps [of "t\<lparr>tp_forward := f\<rparr>" for f]
    unfolding plan_tun_def by (auto split: option.split prod.split)
qed

text \<open>
  when the configuration is resolved, the forwardings are those of the configuration file
  followed by those of the command line, each parsed, and the TUN argument of the command line
  replaces that of the file; every address given on the command line is kept.
\<close>

theorem from_args_merges:
  assumes "from_args env args = Ok r"
  shows "\<exists>x. read_ssh_config env (rc_host r) = Ok x
    \<and> list_all2 (\<lambda>s f. parse_local_forward s = Ok f)
        (e_local_forwards x @ cli_local_forwards args) (local_forwards r)
    \<and> list_all2 (\<lambda>s f. parse_remote_forward s = Ok f)
        (e_remote_forwards x @ cli_remote_forwards args) (remote_forwards r)
    \<and> list_all2 (\<lambda>s f. parse_dynamic_forward s = Ok f)
        (e_dynamic_forwards x @ cli_dynamic_forwards args) (dynamic_forwards r)
    \<and> list_all2 (\<lambda>s j. resolve_host_config env s None (arg_identity args) = Ok j)
        (jump_specs args x) (jump_hosts r)
    \<and> opt_le (cli_local_tun_addr args) (local_tun_addr r)
    \<and> opt_le (cli_remote_tun_addr args) (remote_tun_addr r)
    \<and> opt_le (cli_local_tun_addr6 args) (local_tun_addr6 r)
    \<and> opt_le (cli_remote_tun_addr6 args) (remote_tun_addr6 r)"
proof -
  from assms obtain tc x jumps l1 l2 r1 r2 d1 d2 tun where
    x: "read_ssh_config env (hc_host tc) = Ok x"
    and lists: "omap (\<lambda>s. resolve_host_config env s None (arg_identity args)) (jump_specs args x) = Ok jumps"
      "omap parse_local_forward (e_local_forwards x) = Ok l1"
      "omap parse_local_forward (cli_local_forwards args) = Ok l2"
      "omap parse_remote_forward (e_remote_forwards x) = Ok r1"
      "omap parse_remote_forward (cli_remote_forwards args) = Ok r2"
      "omap parse_dynamic_forward (e_dynamic_forwards x) = Ok d1"
      "omap parse_dynamic_forward (cli_dynamic_forwards args) = Ok d2"
    and r: "r = mk_resolved args tc jumps (l1 @ l2) (r1 @ r2) (d1 @ d2) (plan_tun env (hc_host tc) (hc_port tc)
        \<lparr>tp_forward = tun, tp_local = cli_local_tun_addr args, tp_remote = cli_remote_tun_addr args,
         tp_local6 = cli_local_tun_addr6 args, tp_remote6 = cli_remote_tun_addr6 args\<rparr>)"
    unfolding from_args_def obind_Ok_iff Let_def outcome.inject by blast
  show ?thesis
    using x lists plan_tun_keeps [of "\<lparr>tp_forward = tun, tp_local = cli_local_tun_addr args,
      tp_remote = cli_remote_tun_addr args, tp_local6 = cli_local_tun_addr6 args,
      tp_remote6 = cli_remote_tun_addr6 args\<rparr>"]
    unfolding r mk_resolved_def omap_Ok_iff
    by (intro exI [of _ x]) (simp add: list_all2_appendI)
qed

text \<open>
  the identifier of \<open>auto:65535\<close> has no successor in 16 bits. The address of the remote side
  wraps to 169.254.0.0, the network address of the link-local block; in general the pair of an
  explicit identifier whose low byte is 255 straddles two blocks.
\<close>

theorem auto_id_wraps:
  assumes "tp_forward t = Some \<lparr>local_tun = ''tun222265535'', remote_tun = ''tun222265535'', auto_id = Some 65535\<rparr>"
    and "tp_local t = None" "tp_remote t = None"
  shows "tp_local (plan_tun env host p t) = Some ''169.254.255.255''
    \<and> tp_remote (plan_tun env host p t) = Some ''169.254.0.0''"
proof -
  have "link_local 65535 = ''169.254.255.255''" "link_local (65535 + 1) = ''169.254.0.0''"
    by (simp_all add: link_local_def show_radix.simps)
  then show ?thesis
    using assms fill_addresses_auto by (simp add: plan_tun_def)
qed

theorem auto_id_wraps_witness:
  "tp_remote (plan_tun demo_env ''web'' 22 \<lparr>tp_forward = Some \<lparr>local_tun = ''tun222265535'',
     remote_tun = ''tun222265535'', auto_id = Some 65535\<rparr>, tp_local = None, tp_remote = None,
     tp_local6 = None, tp_remote6 = None\<rparr>) = Some ''169.254.0.0''"
  by (rule auto_id_wraps [THEN conjunct2]) simp_all


definition demo_args :: cli_args where
  "demo_args = \<lparr>destination = ''web'', arg_port = None, arg_identity = [''k''],
     cli_local_forwards = [''1:h:2''], cli_remote_forwards = [], cli_dynamic_forwards = [],
     cli_tun_forward = None, cli_jump_hosts = [], cli_local_tun_addr = None,
     cli_remote_tun_addr = None, cli_local_tun_addr6 = None, cli_remote_tun_addr6 = None,
     cli_local_post_up = None, cli_remote_post_up = None, no_shell = True,
     cli_reconnect_interval = 5, cli_keepalive_interval = 10, cli_keepalive_max = 3,
     cli_fwmark = None, verbose = 0\<rparr>"

lemma from_args_demo: "\<exists>r. from_args no_home demo_args = Ok r"
proof -
  have p: "parse_local_forward ''1:h:2'' =
      Ok \<lparr>l_bind_addr = ''127.0.0.1'', l_bind_port = 1, l_target_host = ''h'', l_target_port = 2\<rparr>"
  proof -
    have "split_whitespace ''1:h:2'' = [''1:h:2'']"
      using split_whitespace_join [of "[''1:h:2'']"] by (simp add: is_word_def is_whitespace_def)
    then show ?thesis
      by (simp add: parse_local_forward_def mk_local_def parse_port_def parse_u16_def
          from_str_radix_def to_digit_def)
  qed
  have h: "read_ssh_config no_home h = Ok ExtractedSshConfig_default" for h
    by (simp add: read_ssh_config_def no_home_def)
  have u: "env_var no_home ''USER'' = Some ''me''" by (simp add: no_home_def demo_env_def)
  have "resolve_host_config no_home ''web'' None [''k''] = Ok \<lparr>hc_host = ''web'', hc_hostname = ''web'',
      hc_port = 22, hc_user = ''me'', hc_identity_files = [''k'']\<rparr>"
    by (simp add: resolve_host_config_def split_user_none split_port_none h ExtractedSshConfig_default_def
        identity_choice_def u)
  then show ?thesis
    by (simp add: from_args_def demo_args_def p h ExtractedSshConfig_default_def jump_specs_def Let_def)
qed

theorem from_args_merges_witness:
  "\<exists>r x. from_args no_home demo_args = Ok r \<and> read_ssh_config no_home (rc_host r) = Ok x
    \<and> list_all2 (\<lambda>s f. parse_local_forward s = Ok f)
        (e_local_forwards x @ cli_local_forwards demo_args) (local_forwards r)"
proof -
  obtain r where r: "from_args no_home demo_args = Ok r" using from_args_demo by blast
  from from_args_merges [OF r] r show ?thesis by blast
qed

end
