(* ===== verification/Ssh_Codec.thy ===== *)
theory Ssh_Codec
  imports Ssh_Prelude
begin

text \<open>
  The wire encoding. \<^verbatim>\<open>russh_keys::encoding\<close> (\<open>push_u32_be\<close>, \<open>extend_ssh_string\<close>,
  \<open>extend_list\<close>, the \<open>Position\<close> reader) and \<^verbatim>\<open>byteorder\<close> are separate packages, so they are a
  parameter of the model: a value of the record \<open>codec\<close>. The locale \<open>ssh_encoding\<close> states what
  the sources rely on (RFC 4251, section 5), and \<open>rfc4251\<close> is the encoding that RFC describes,
  on which the locale is interpreted. The macro \<open>push_packet!\<close> of \<^verbatim>\<open>crates/russh/src/lib.rs\<close>
  and the message numbers of \<^verbatim>\<open>msg.rs\<close> are defined here too. A \<open>CryptoVec\<close> is the list of the
  bytes it holds.
\<close>

section \<open>The encoding as a parameter\<close>

record codec =
  push_u32_be :: "u32 \<Rightarrow> bytes"
  extend_ssh_string :: "bytes \<Rightarrow> bytes"
  extend_list :: "bytes list \<Rightarrow> bytes"
  write_empty_list :: bytes
  be_write_u32 :: "u32 \<Rightarrow> bytes"
  be_read_u32 :: "bytes \<Rightarrow> u32"
  read_u32 :: "bytes \<Rightarrow> (u32 \<times> bytes) option"
  read_string :: "bytes \<Rightarrow> (bytes \<times> bytes) option"
  read_byte :: "bytes \<Rightarrow> (u8 \<times> bytes) option"

text \<open>
  A writer field gives the bytes that the method appends; a reader field takes the bytes from the
  position on and gives the value and the bytes after it, \<open>None\<close> being the error
  \<open>IndexOutOfBounds\<close>. A name list is written as its names, joined by commas.
\<close>

locale ssh_encoding =
  fixes E :: codec
  assumes read_push_u32: "read_u32 E (push_u32_be E w @ r) = Some (w, r)"
    and read_ssh_string:
      "length s < 2 ^ 32 \<Longrightarrow> read_string E (extend_ssh_string E s @ r) = Some (s, r)"
    and read_name_list:
      "length (join_with (bs '','') ns) < 2 ^ 32 \<Longrightarrow>
       read_string E (extend_list E ns @ r) = Some (join_with (bs '','') ns, r)"
    and read_empty_list: "read_string E (write_empty_list E @ r) = Some ([], r)"
    and read_byte_Cons: "read_byte E (b # r) = Some (b, r)"
    and be_read_write: "be_read_u32 E (be_write_u32 E w @ r) = w"
    and length_be_write: "length (be_write_u32 E w) = 4"
    and length_push_u32: "length (push_u32_be E w) = 4"
    and length_ssh_string: "length (extend_ssh_string E s) = 4 + length s"
begin

lemmas read_simps [codec_simps] =
  read_push_u32 read_ssh_string read_empty_list read_byte_Cons

end

section \<open>The encoding of RFC 4251\<close>

fun rfc_read_u32 :: "bytes \<Rightarrow> (u32 \<times> bytes) option" where
  "rfc_read_u32 (a # b # c # d # r) = Some (from_be32 a b c d, r)"
| "rfc_read_u32 _ = None"

definition rfc_read_string :: "bytes \<Rightarrow> (bytes \<times> bytes) option" where
  "rfc_read_string xs =
     (case rfc_read_u32 xs of None \<Rightarrow> None
      | Some (n, r) \<Rightarrow> if unat n \<le> length r then Some (take (unat n) r, drop (unat n) r) else None)"

definition rfc_string :: "bytes \<Rightarrow> bytes" where
  "rfc_string s = be32 (of_nat (length s)) @ s"

definition rfc4251 :: codec where
  "rfc4251 = \<lparr>push_u32_be = be32, extend_ssh_string = rfc_string,
     extend_list = (\<lambda>ns. rfc_string (join_with (bs '','') ns)),
     write_empty_list = be32 0, be_write_u32 = be32,
     be_read_u32 = (\<lambda>xs. case rfc_read_u32 xs of None \<Rightarrow> 0 | Some (n, _) \<Rightarrow> n),
     read_u32 = rfc_read_u32, read_string = rfc_read_string,
     read_byte = (\<lambda>xs. case xs of [] \<Rightarrow> None | x # r \<Rightarrow> Some (x, r))\<rparr>"

lemma rfc_read_be32 [simp]: "rfc_read_u32 (be32 w @ r) = Some (w, r)"
proof -
  obtain a b c d where "be32 w = [a, b, c, d]" "from_be32 a b c d = w"
    by (rule be32_from_be32)
  then show ?thesis by simp
qed

lemma rfc_read_string_inverse:
  "length s < 4294967296 \<Longrightarrow> rfc_read_string (rfc_string s @ r) = Some (s, r)"
  by (simp add: rfc_read_string_def rfc_string_def unat_of_nat_u32)

interpretation rfc: ssh_encoding rfc4251
proof unfold_locales
  show "read_string rfc4251 (write_empty_list rfc4251 @ r) = Some ([], r)" for r
    using rfc_read_string_inverse [of "[]" r] by (simp add: rfc4251_def rfc_string_def)
qed (simp_all add: rfc4251_def rfc_read_string_inverse, simp_all add: rfc_string_def)

section \<open>push\_packet! and message numbers\<close>

text \<open>
  The macro reserves four bytes, lets the body append, then writes the length of what was
  appended into the reserved bytes.
\<close>

definition push_packet :: "codec \<Rightarrow> bytes \<Rightarrow> bytes \<Rightarrow> bytes" where
  "push_packet E buffer x = buffer @ be_write_u32 E (of_nat (length x)) @ x"

definition DISCONNECT :: u8 where [simp]: "DISCONNECT = 1"
definition SERVICE_REQUEST :: u8 where [simp]: "SERVICE_REQUEST = 5"
definition SERVICE_ACCEPT :: u8 where [simp]: "SERVICE_ACCEPT = 6"
definition EXT_INFO :: u8 where [simp]: "EXT_INFO = 7"
definition KEXINIT :: u8 where [simp]: "KEXINIT = 20"
definition NEWKEYS :: u8 where [simp]: "NEWKEYS = 21"
definition KEX_ECDH_INIT :: u8 where [simp]: "KEX_ECDH_INIT = 30"
definition KEX_ECDH_REPLY :: u8 where [simp]: "KEX_ECDH_REPLY = 31"
definition GLOBAL_REQUEST :: u8 where [simp]: "GLOBAL_REQUEST = 80"
definition REQUEST_SUCCESS :: u8 where [simp]: "REQUEST_SUCCESS = 81"
definition REQUEST_FAILURE :: u8 where [simp]: "REQUEST_FAILURE = 82"
definition CHANNEL_OPEN :: u8 where [simp]: "CHANNEL_OPEN = 90"
definition CHANNEL_OPEN_CONFIRMATION :: u8 where [simp]: "CHANNEL_OPEN_CONFIRMATION = 91"
definition CHANNEL_OPEN_FAILURE :: u8 where [simp]: "CHANNEL_OPEN_FAILURE = 92"
definition CHANNEL_WINDOW_ADJUST :: u8 where [simp]: "CHANNEL_WINDOW_ADJUST = 93"
definition CHANNEL_DATA :: u8 where [simp]: "CHANNEL_DATA = 94"
definition CHANNEL_EXTENDED_DATA :: u8 where [simp]: "CHANNEL_EXTENDED_DATA = 95"
definition CHANNEL_EOF :: u8 where [simp]: "CHANNEL_EOF = 96"
definition CHANNEL_CLOSE :: u8 where [simp]: "CHANNEL_CLOSE = 97"
definition CHANNEL_REQUEST :: u8 where [simp]: "CHANNEL_REQUEST = 98"
definition CHANNEL_SUCCESS :: u8 where [simp]: "CHANNEL_SUCCESS = 99"
definition CHANNEL_FAILURE :: u8 where [simp]: "CHANNEL_FAILURE = 100"
definition SSH_OPEN_UNKNOWN_CHANNEL_TYPE :: u8 where [simp]: "SSH_OPEN_UNKNOWN_CHANNEL_TYPE = 3"

text \<open>The sequence of packets in a buffer: each body, framed in order.\<close>

definition framed :: "codec \<Rightarrow> bytes list \<Rightarrow> bytes" where
  "framed E ps = concat (map (push_packet E []) ps)"

lemma framed_Nil [simp]: "framed E [] = []"
  by (simp add: framed_def)

lemma framed_append: "framed E (ps @ qs) = framed E ps @ framed E qs"
  by (simp add: framed_def)

lemma framed_Cons:
  "framed E (p # ps) = be_write_u32 E (of_nat (length p)) @ p @ framed E ps"
  by (simp add: framed_def push_packet_def)

lemma push_packet_framed: "push_packet E buf x = buf @ framed E [x]"
  by (simp add: framed_def push_packet_def)

section \<open>UTF-8\<close>

text \<open>
  \<open>std::str::from_utf8\<close>: the well-formed byte sequences of the Unicode standard. A \<open>String\<close> of
  the protocol layer is the list of its bytes.
\<close>

definition in_range :: "nat \<Rightarrow> nat \<Rightarrow> u8 \<Rightarrow> bool" where
  "in_range lo hi b \<longleftrightarrow> lo \<le> unat b \<and> unat b \<le> hi"

fun utf8_valid :: "bytes \<Rightarrow> bool" where
  "utf8_valid [] = True"
| "utf8_valid (a # r) =
     (if in_range 0 127 a then utf8_valid r
      else case r of [] \<Rightarrow> False | b # r1 \<Rightarrow>
        if in_range 194 223 a then in_range 128 191 b \<and> utf8_valid r1
        else case r1 of [] \<Rightarrow> False | c # r2 \<Rightarrow>
          if in_range 224 239 a then
            in_range (if a = 224 then 160 else 128) (if a = 237 then 159 else 191) b
            \<and> in_range 128 191 c \<and> utf8_valid r2
          else case r2 of [] \<Rightarrow> False | d # r3 \<Rightarrow>
            in_range 240 244 a
            \<and> in_range (if a = 240 then 144 else 128) (if a = 244 then 143 else 191) b
            \<and> in_range 128 191 c \<and> in_range 128 191 d \<and> utf8_valid r3)"

definition from_utf8 :: "bytes \<Rightarrow> bytes option" where
  "from_utf8 b = (if utf8_valid b then Some b else None)"

lemma utf8_valid_ascii: "(\<And>b. b \<in> set xs \<Longrightarrow> unat b < 128) \<Longrightarrow> utf8_valid xs"
proof (induction xs)
  case (Cons a xs)
  then have "unat a < 128" "utf8_valid xs" by simp_all
  then have "in_range 0 127 a" "utf8_valid xs" by (simp_all add: in_range_def)
  then show ?case by simp
qed simp

text \<open>\<open>String::from_utf8_lossy\<close>: each maximal part that is not UTF-8 becomes U+FFFD.\<close>

fun lossy_step :: "bytes \<Rightarrow> bytes \<times> bytes" where
  "lossy_step [] = ([], [])"
| "lossy_step (a # r) =
    (let bad = [0xef, 0xbf, 0xbd]
     in if in_range 0 127 a then ([a], r)
        else if in_range 194 223 a then
          (case r of b # r1 \<Rightarrow> if in_range 128 191 b then ([a, b], r1) else (bad, r) | [] \<Rightarrow> (bad, r))
        else if in_range 224 239 a then
          (case r of
             b # r1 \<Rightarrow>
               if in_range (if a = 224 then 160 else 128) (if a = 237 then 159 else 191) b
               then (case r1 of
                       c # r2 \<Rightarrow> if in_range 128 191 c then ([a, b, c], r2) else (bad, r1)
                     | [] \<Rightarrow> (bad, r1))
               else (bad, r)
           | [] \<Rightarrow> (bad, r))
        else if in_range 240 244 a then
          (case r of
             b # r1 \<Rightarrow>
               if in_range (if a = 240 then 144 else 128) (if a = 244 then 143 else 191) b
               then (case r1 of
                       c # r2 \<Rightarrow>
                         if in_range 128 191 c
                         then (case r2 of
                                 d # r3 \<Rightarrow> if in_range 128 191 d then ([a, b, c, d], r3) else (bad, r2)
                               | [] \<Rightarrow> (bad, r2))
                         else (bad, r1)
                     | [] \<Rightarrow> (bad, r1))
               else (bad, r)
           | [] \<Rightarrow> (bad, r))
        else (bad, r))"

lemma lossy_step_shorter: "xs \<noteq> [] \<Longrightarrow> length (snd (lossy_step xs)) < length xs"
  by (cases xs) (auto simp: Let_def split: list.split)

function from_utf8_lossy :: "bytes \<Rightarrow> bytes" where
  "from_utf8_lossy xs =
    (if xs = [] then [] else fst (lossy_step xs) @ from_utf8_lossy (snd (lossy_step xs)))"
  by pat_completeness auto
termination
  by (relation "measure length") (simp_all add: lossy_step_shorter)

declare from_utf8_lossy.simps [simp del]

lemma lossy_valid_step:
  assumes "utf8_valid xs" "xs \<noteq> []"
  shows "fst (lossy_step xs) @ snd (lossy_step xs) = xs \<and> utf8_valid (snd (lossy_step xs))"
proof -
  obtain a r where xs: "xs = a # r" using assms(2) by (cases xs) auto
  consider (1) "in_range 0 127 a" | (2) "\<not> in_range 0 127 a" "in_range 194 223 a"
    | (3) "\<not> in_range 0 127 a" "\<not> in_range 194 223 a" "in_range 224 239 a"
    | (4) "\<not> in_range 0 127 a" "\<not> in_range 194 223 a" "\<not> in_range 224 239 a"
    by blast
  then show ?thesis
  proof cases
    case 1
    then show ?thesis using assms(1) by (simp add: xs)
  next
    case 2
    then show ?thesis using assms(1) unfolding xs by (cases r) simp_all
  next
    case 3
    obtain b c r2 where "r = b # c # r2"
      using assms(1) 3 unfolding xs by (cases r; cases "tl r") simp_all
    then show ?thesis using assms(1) 3 unfolding xs by (simp add: Let_def)
  next
    case 4
    obtain b c d r3 where "r = b # c # d # r3"
      using assms(1) 4 unfolding xs by (cases r; cases "tl r"; cases "tl (tl r)") simp_all
    then show ?thesis using assms(1) 4 unfolding xs by (simp add: Let_def)
  qed
qed

lemma from_utf8_lossy_valid: "utf8_valid xs \<Longrightarrow> from_utf8_lossy xs = xs"
proof (induction xs rule: from_utf8_lossy.induct)
  case (1 xs)
  then show ?case
    using lossy_valid_step [of xs] by (cases "xs = []") (subst from_utf8_lossy.simps, simp)+
qed

end
