(* ===== verification/Tunnels.thy ===== *)
theory Tunnels
  imports Resolved_Config Ssh_Codec
begin

text \<open>
  The tunnels of \<^verbatim>\<open>src/src/tunnels\<close>: the TUN frames and the set-up of the TUN device
  (\<^verbatim>\<open>tun_forward.rs\<close>), the SOCKS5 proxy (\<^verbatim>\<open>dynamic_forward.rs\<close>), the dispatch of remote
  forwardings (\<^verbatim>\<open>remote_forward.rs\<close>), the local forwardings (\<^verbatim>\<open>local_forward.rs\<close>) and the
  tunnel manager (\<^verbatim>\<open>mod.rs\<close>). A socket or channel is the list of bytes that arrive on it; what
  the SSH server and the \<open>ip\<close> command answer are arguments.
\<close>

section \<open>TUN frames\<close>

text \<open>
  One round of the task from the TUN device to the channel: the packet that was read, at most
  65532 bytes, behind the four bytes of its address family.
\<close>

definition tun_family :: "bytes \<Rightarrow> u32" where
  "tun_family packet =
    (let version = drop_bit 4 (hd packet)
     in if version = 4 then 2 else if version = 6 then 10 else 2)"

definition tun_frame :: "bytes \<Rightarrow> bytes" where
  "tun_frame packet = be32 (tun_family packet) @ packet"

text \<open>
  One round of each task over what its read gives (\<open>None\<close> for an error) and whether its write
  succeeds: \<open>None\<close> when the task breaks out of its loop. The reads are bounded by the buffers, 65532
  bytes from the device and 65536 from the channel; a short read from the channel is skipped.
\<close>

definition tun_read_step :: "bytes option \<Rightarrow> bool \<Rightarrow> bytes option" where
  "tun_read_step r written =
    (case r of
       None \<Rightarrow> None
     | Some packet \<Rightarrow>
         if packet = [] then None
         else if written then Some (tun_frame (take 65532 packet)) else None)"

definition ssh_read_step :: "bytes option \<Rightarrow> bool \<Rightarrow> bytes list option" where
  "ssh_read_step r written =
    (case r of
       None \<Rightarrow> None
     | Some chunk \<Rightarrow>
         if chunk = [] then None
         else if length chunk \<le> 4 then Some []
         else if written then Some [drop 4 (take 65536 chunk)] else None)"

text \<open>The two loops on their own: what is written to the channel, and to the device.\<close>

fun tun_to_ssh :: "(bytes option \<times> bool) list \<Rightarrow> bytes list" where
  "tun_to_ssh [] = []"
| "tun_to_ssh ((r, w) # reads) =
    (case tun_read_step r w of None \<Rightarrow> [] | Some frame \<Rightarrow> frame # tun_to_ssh reads)"

fun ssh_to_tun :: "(bytes option \<times> bool) list \<Rightarrow> bytes list" where
  "ssh_to_tun [] = []"
| "ssh_to_tun ((r, w) # reads) =
    (case ssh_read_step r w of None \<Rightarrow> [] | Some out \<Rightarrow> out @ ssh_to_tun reads)"

text \<open>
  The session runs both tasks until the first of them ends, aborts the other and returns an error.
  The rounds of the tasks interleave in any order; the result is \<open>None\<close> while both run, with what
  went to the channel and to the device.
\<close>

datatype tun_event = TunRead "bytes option" bool | SshRead "bytes option" bool

fun run_tun_forward_loop ::
  "tun_event list \<Rightarrow> (string, unit) outcome option \<times> bytes list \<times> bytes list" where
  "run_tun_forward_loop [] = (None, [], [])"
| "run_tun_forward_loop (TunRead r w # es) =
    (case tun_read_step r w of
       None \<Rightarrow> (Some (Err ''TUN forwarding session terminated''), [], [])
     | Some frame \<Rightarrow> (case run_tun_forward_loop es of (res, ch, dev) \<Rightarrow> (res, frame # ch, dev)))"
| "run_tun_forward_loop (SshRead r w # es) =
    (case ssh_read_step r w of
       None \<Rightarrow> (Some (Err ''TUN forwarding session terminated''), [], [])
     | Some out \<Rightarrow> (case run_tun_forward_loop es of (res, ch, dev) \<Rightarrow> (res, ch, out @ dev)))"

section \<open>Setting up the TUN device\<close>

text \<open>\<open>trim_end_matches\<close> and \<open>trim_start_matches\<close> with a string: remove it as often as it occurs.\<close>

definition strip_suffix :: "string \<Rightarrow> string \<Rightarrow> string option" where
  "strip_suffix p s =
     (if length p \<le> length s \<and> drop (length s - length p) s = p
      then Some (take (length s - length p) s) else None)"

function trim_end_str :: "string \<Rightarrow> string \<Rightarrow> string" where
  "trim_end_str p s =
    (if p = [] then s
     else case strip_suffix p s of Some r \<Rightarrow> trim_end_str p r | None \<Rightarrow> s)"
  by pat_completeness auto
termination
proof (relation "measure (length \<circ> snd)")
  fix p s r :: string assume "p \<noteq> []" "strip_suffix p s = Some r"
  then have "length r = length s - length p" "length p \<le> length s" "0 < length p"
    by (auto simp: strip_suffix_def split: if_splits)
  then have "length r < length s" by linarith
  then show "((p, r), (p, s)) \<in> measure (length \<circ> snd)" by simp
qed simp

function trim_start_str :: "string \<Rightarrow> string \<Rightarrow> string" where
  "trim_start_str p s =
    (if p = [] then s
     else case strip_prefix p s of Some r \<Rightarrow> trim_start_str p r | None \<Rightarrow> s)"
  by pat_completeness auto
termination
proof (relation "measure (length \<circ> snd)")
  fix p s r :: string assume "p \<noteq> []" "strip_prefix p s = Some r"
  then show "((p, r), (p, s)) \<in> measure (length \<circ> snd)"
    using strip_prefix_Some [of p s r] by simp
qed simp

declare trim_end_str.simps [simp del] trim_start_str.simps [simp del]

text \<open>The name of a TUN device, on either side.\<close>

definition tun_dev_name :: "string \<Rightarrow> string" where
  "tun_dev_name tun =
    (if tun = ''any'' then ''tun0''
     else if starts_with ''tun'' tun then tun else ''tun'' @ tun)"

definition remote_tun_num :: "string \<Rightarrow> u32" where
  "remote_tun_num name =
    (if name = ''any'' then 0x7fffffff
     else unwrap_or (parse_u32_radix 10 (trim_start_str ''tun'' name)) 0x7fffffff)"

text \<open>
  The commands that configure an address: \<open>replace\<close>, then \<open>add\<close> when that did not succeed, then the
  link is set up. \<open>status\<close> tells whether a command succeeds.
\<close>

definition ip_addr_args :: "string \<Rightarrow> string \<Rightarrow> string \<Rightarrow> string \<Rightarrow> string list" where
  "ip_addr_args verb local_ip remote_ip dev =
     [''ip'', ''addr'', verb, local_ip, ''peer'', remote_ip, ''dev'', dev]"

definition configure_address ::
  "(string list \<Rightarrow> bool) \<Rightarrow> string \<Rightarrow> string \<Rightarrow> string \<Rightarrow> string list list" where
  "configure_address status local_ip remote_ip dev =
    ip_addr_args ''replace'' local_ip remote_ip dev
    # (if status (ip_addr_args ''replace'' local_ip remote_ip dev) then []
       else [ip_addr_args ''add'' local_ip remote_ip dev])
    @ [[''ip'', ''link'', ''set'', dev, ''up'']]"

definition clean4 :: "string \<Rightarrow> string" where
  "clean4 ip = trim_end_str ''/32'' ip"

definition clean6 :: "string \<Rightarrow> string" where
  "clean6 ip = trim_end_str ''/128'' (trim_end_str ''/127'' ip)"

definition tun_commands ::
  "(string list \<Rightarrow> bool) \<Rightarrow> string \<Rightarrow> string option \<Rightarrow> string option \<Rightarrow> string option \<Rightarrow> string option \<Rightarrow>
   string list list" where
  "tun_commands status dev local_ip remote_ip local_ip6 remote_ip6 =
    (case (local_ip, remote_ip) of
       (Some l, Some r) \<Rightarrow> configure_address status (clean4 l @ ''/32'') (clean4 r) dev
     | _ \<Rightarrow> [])
    @ (case (local_ip6, remote_ip6) of
         (Some l, Some r) \<Rightarrow> configure_address status (clean6 l @ ''/127'') (clean6 r) dev
       | _ \<Rightarrow> [])"

text \<open>
  The loop of at most five attempts to open the channel; the answers of the server in order. The
  result is the channel or the last error, and the number of attempts made.
\<close>

fun open_attempts :: "nat \<Rightarrow> (nat \<Rightarrow> ('err, 'ch) outcome) \<Rightarrow> nat \<Rightarrow> ('err, 'ch) outcome \<times> nat" where
  "open_attempts 0 answer attempt = (answer (attempt - 1), attempt - 1)"
| "open_attempts (Suc left) answer attempt =
    (case answer attempt of
       Ok ch \<Rightarrow> (Ok ch, attempt)
     | _ \<Rightarrow> open_attempts left answer (attempt + 1))"

text \<open>
  \<open>setup_tun_forward\<close>: create the device, once more after deleting it when that fails, configure it,
  and open the channel. \<open>build n\<close> is the result of the n-th creation, the name of the device.
\<close>

definition setup_tun_forward ::
  "(nat \<Rightarrow> string option) \<Rightarrow> (string list \<Rightarrow> bool) \<Rightarrow> (nat \<Rightarrow> ('err, 'ch) outcome) \<Rightarrow> tun_forward_spec \<Rightarrow>
   string option \<Rightarrow> string option \<Rightarrow> string option \<Rightarrow> string option \<Rightarrow>
   (string, 'ch \<times> string) outcome \<times> string list list" where
  "setup_tun_forward build status answer spec la ra la6 ra6 =
    (let dev_name = tun_dev_name (local_tun spec);
         (created, log) =
           (case build 1 of
              Some name \<Rightarrow> (Some name, [])
            | None \<Rightarrow> (build 2, [[''ip'', ''link'', ''delete'', dev_name]]))
     in case created of
          None \<Rightarrow> (Err ''Failed to create local TUN device'', log)
        | Some dev \<Rightarrow>
            (let log = log @ tun_commands status dev la ra la6 ra6
             in case fst (open_attempts 5 answer 1) of
                  Ok ch \<Rightarrow> (Ok (ch, dev), log)
                | _ \<Rightarrow> (Err ''Failed to open tun@openssh.com SSH channel after 5 attempts'', log)))"

section \<open>The SOCKS5 proxy\<close>

definition recv_exact :: "nat \<Rightarrow> bytes \<Rightarrow> (bytes \<times> bytes) option" where
  "recv_exact n input = (if n \<le> length input then Some (take n input, drop n input) else None)"

text \<open>The target of the request, by its address type.\<close>

definition socks_address :: "u8 \<Rightarrow> bytes \<Rightarrow> (bytes \<times> bytes) option" where
  "socks_address atyp input =
    (if atyp = 1 then
       (case recv_exact 4 input of Some (ip, r) \<Rightarrow> Some (bs (ipv4_display ip), r) | None \<Rightarrow> None)
     else if atyp = 3 then
       (case recv_exact 1 input of
          Some (len, r) \<Rightarrow>
            (case recv_exact (unat (len ! 0)) r of
               Some (domain, r) \<Rightarrow> Some (from_utf8_lossy domain, r) | None \<Rightarrow> None)
        | None \<Rightarrow> None)
     else if atyp = 4 then
       (case recv_exact 16 input of Some (ip, r) \<Rightarrow> Some (bs (ipv6_display ip), r) | None \<Rightarrow> None)
     else None)"

text \<open>How a connection ends: dropped, refused by the server, or relayed with what was not read yet.\<close>

datatype socks_end = Dropped | Refused bytes u16 | Relayed bytes u16 bytes

definition socks_reply :: "u8 \<Rightarrow> bytes" where
  "socks_reply code = [0x05, code, 0x00, 0x01, 0, 0, 0, 0, 0, 0]"

text \<open>
  A connection of the proxy over everything the client sends; \<open>open_ok\<close> is whether the server opens
  the direct-tcpip channel, \<open>write_ok\<close> whether the client takes the n-th message. The first
  component is what the proxy writes to the client.
\<close>

definition socks5 ::
  "(bytes \<Rightarrow> u16 \<Rightarrow> bool) \<Rightarrow> (nat \<Rightarrow> bool) \<Rightarrow> bytes \<Rightarrow> bytes \<times> socks_end" where
  "socks5 open_ok write_ok input =
    (case recv_exact 2 input of
       None \<Rightarrow> ([], Dropped)
     | Some (buf, r) \<Rightarrow>
         if buf ! 0 \<noteq> 5 then ([], Dropped)
         else case recv_exact (unat (buf ! 1)) r of
           None \<Rightarrow> ([], Dropped)
         | Some (_, r) \<Rightarrow>
             if \<not> write_ok 0 then ([0x05, 0x00], Dropped)
             else case recv_exact 4 r of
                None \<Rightarrow> ([0x05, 0x00], Dropped)
              | Some (req_hdr, r) \<Rightarrow>
                  if req_hdr ! 0 \<noteq> 5 \<or> req_hdr ! 1 \<noteq> 1
                  then ([0x05, 0x00] @ socks_reply 0x07, Dropped)
                  else case socks_address (req_hdr ! 3) r of
                    None \<Rightarrow> ([0x05, 0x00], Dropped)
                  | Some (target_host, r) \<Rightarrow>
                      (case recv_exact 2 r of
                         None \<Rightarrow> ([0x05, 0x00], Dropped)
                       | Some (port_buf, r) \<Rightarrow>
                           (let target_port = from_be16 (port_buf ! 0) (port_buf ! 1)
                            in if open_ok target_host target_port
                               then ([0x05, 0x00] @ socks_reply 0x00,
                                     if write_ok 1 then Relayed target_host target_port r else Dropped)
                               else ([0x05, 0x00] @ socks_reply 0x05, Refused target_host target_port))))"

section \<open>Relaying a connection\<close>

text \<open>
  The three kinds of TCP forwarding relay in the same way: two copies run side by side, each until
  its source ends or one of its operations fails, and only when both are done the socket and the
  channel are dropped.
\<close>

datatype relay_event = FromSocket bytes | FromChannel bytes | SocketDone | ChannelDone

record relay =
  to_channel :: bytes
  to_socket :: bytes
  socket_done :: bool
  channel_done :: bool

definition relay_start :: relay where
  "relay_start = \<lparr>to_channel = [], to_socket = [], socket_done = False, channel_done = False\<rparr>"

fun relay_step :: "relay_event \<Rightarrow> relay \<Rightarrow> relay" where
  "relay_step (FromSocket d) r = (if socket_done r then r else r\<lparr>to_channel := to_channel r @ d\<rparr>)"
| "relay_step (FromChannel d) r = (if channel_done r then r else r\<lparr>to_socket := to_socket r @ d\<rparr>)"
| "relay_step SocketDone r = r\<lparr>socket_done := True\<rparr>"
| "relay_step ChannelDone r = r\<lparr>channel_done := True\<rparr>"

definition relay_closed :: "relay \<Rightarrow> bool" where
  "relay_closed r \<longleftrightarrow> socket_done r \<and> channel_done r"

section \<open>Listening\<close>

text \<open>
  The accept loop: an error (\<open>None\<close>) is skipped after a pause, an accepted connection gets a task
  of its own, and the loop does not end. Binding the listener may fail.
\<close>

type_synonym direct_tcpip = "bytes \<times> u32 \<times> string \<times> u32"

fun accept_loop :: "('conn \<Rightarrow> 'task) \<Rightarrow> 'conn option list \<Rightarrow> 'task list" where
  "accept_loop spawn [] = []"
| "accept_loop spawn (None # cs) = accept_loop spawn cs"
| "accept_loop spawn (Some c # cs) = spawn c # accept_loop spawn cs"

definition bind_text :: "string \<Rightarrow> u16 \<Rightarrow> string" where
  "bind_text addr p = addr @ '':'' @ show_nat (unat p)"

text \<open>The tasks of a listener so far, or the error of the binding.\<close>

definition run_local_forward ::
  "(string \<Rightarrow> bool) \<Rightarrow> (direct_tcpip \<Rightarrow> bool) \<Rightarrow> local_forward_spec \<Rightarrow> (string \<times> u16) option list \<Rightarrow>
   (string, (direct_tcpip \<times> bool) list) outcome" where
  "run_local_forward bind_ok open_ok spec conns =
    (if bind_ok (bind_text (l_bind_addr spec) (l_bind_port spec))
     then Ok (accept_loop
       (\<lambda>(peer_ip, peer_port).
          let req = (as_bytes (l_target_host spec), ucast (l_target_port spec), peer_ip, ucast peer_port)
          in (req, open_ok req)) conns)
     else Err (bind_text (l_bind_addr spec) (l_bind_port spec)))"

definition run_dynamic_forward ::
  "(string \<Rightarrow> bool) \<Rightarrow> (direct_tcpip \<Rightarrow> bool) \<Rightarrow> (nat \<Rightarrow> bool) \<Rightarrow> dynamic_forward_spec \<Rightarrow>
   (string \<times> u16 \<times> bytes) option list \<Rightarrow> (string, (bytes \<times> socks_end) list) outcome" where
  "run_dynamic_forward bind_ok open_ok write_ok spec conns =
    (if bind_ok (bind_text (d_bind_addr spec) (d_bind_port spec))
     then Ok (accept_loop
       (\<lambda>(peer_ip, peer_port, input).
          socks5 (\<lambda>host p. open_ok (host, ucast p, peer_ip, ucast peer_port)) write_ok input) conns)
     else Err (bind_text (d_bind_addr spec) (d_bind_port spec)))"

section \<open>Remote and local forwardings\<close>

record incoming_forwarded_tcp =
  connected_address :: bytes
  connected_port :: u32
  originator_address :: bytes
  originator_port :: u32

text \<open>The specification that serves an incoming connection, and the local target it names.\<close>

definition find_remote_spec ::
  "incoming_forwarded_tcp \<Rightarrow> remote_forward_spec list \<Rightarrow> remote_forward_spec option" where
  "find_remote_spec req specs = List.find (\<lambda>s. ucast (r_bind_port s) = connected_port req) specs"

definition handle_incoming_remote_forward ::
  "(string \<Rightarrow> bool) \<Rightarrow> incoming_forwarded_tcp \<Rightarrow> remote_forward_spec list \<Rightarrow> string option" where
  "handle_incoming_remote_forward connect_ok req specs =
    (case find_remote_spec req specs of
       None \<Rightarrow> None
     | Some spec \<Rightarrow>
         (let target = r_target_host spec @ '':'' @ show_nat (unat (r_target_port spec))
          in if connect_ok target then Some target else None))"

definition register_remote_forward ::
  "(string \<Rightarrow> u32 \<Rightarrow> u32 option) \<Rightarrow> remote_forward_spec \<Rightarrow> (string, unit) outcome" where
  "register_remote_forward tcpip_forward spec =
    (case tcpip_forward (r_bind_addr spec) (ucast (r_bind_port spec)) of
       Some _ \<Rightarrow> Ok ()
     | None \<Rightarrow> Err (''Remote forward request failed for port '' @ show_nat (unat (r_bind_port spec))))"

section \<open>The tunnel manager\<close>

datatype tunnel_task =
  LocalTask local_forward_spec | DynamicTask dynamic_forward_spec
| RemoteTask "remote_forward_spec list" | TunTask string

text \<open>
  \<open>TunnelManager::start\<close>: the second component is the tasks that were spawned, whether or not the
  first is an error. Registration of the remote forwardings stops at the first that fails.
\<close>

definition TunnelManager_start ::
  "(remote_forward_spec \<Rightarrow> (string, unit) outcome) \<Rightarrow> (tun_forward_spec \<Rightarrow> (string, string) outcome) \<Rightarrow>
   resolved_config \<Rightarrow> (string, tunnel_task list) outcome \<times> tunnel_task list" where
  "TunnelManager_start register setup_tun config =
    (let tasks = map LocalTask (local_forwards config) @ map DynamicTask (dynamic_forwards config)
     in case omap register (remote_forwards config) of
          Ok _ \<Rightarrow>
            (let tasks = (if remote_forwards config \<noteq> [] then tasks @ [RemoteTask (remote_forwards config)]
                          else tasks)
             in case tun_forward config of
                  None \<Rightarrow> (Ok tasks, tasks)
                | Some tun_spec \<Rightarrow>
                    (case setup_tun tun_spec of
                       Ok dev \<Rightarrow> (Ok (tasks @ [TunTask dev]), tasks @ [TunTask dev])
                     | Err e \<Rightarrow> (Err e, tasks)
                     | Panic \<Rightarrow> (Panic, tasks)
                     | Diverge \<Rightarrow> (Diverge, tasks)))
        | Err e \<Rightarrow> (Err e, tasks)
        | Panic \<Rightarrow> (Panic, tasks)
        | Diverge \<Rightarrow> (Diverge, tasks))"

section \<open>Properties\<close>

lemma take_frame [simp]: "length p \<le> 65532 \<Longrightarrow> take 65536 (tun_frame p) = tun_frame p"
  by (simp add: tun_frame_def be32_def)

lemma drop_frame [simp]: "drop 4 (tun_frame p) = p"
  by (simp add: tun_frame_def be32_def)

lemma length_frame [simp]: "length (tun_frame p) = length p + 4"
  by (simp add: tun_frame_def be32_def)

abbreviation good :: "bytes \<Rightarrow> bytes option \<times> bool" where
  "good d \<equiv> (Some d, True)"

text \<open>
  C23: what one side reads from its TUN device arrives at the other side's device packet for
  packet, as long as every frame is received as one read of the channel: headers are added and
  removed, and the header names the address family of the packet.
\<close>

theorem tun_frames_roundtrip:
  assumes "list_all (\<lambda>p. p \<noteq> [] \<and> length p \<le> 65532) packets"
  shows "ssh_to_tun (map good (tun_to_ssh (map good packets))) = packets
    \<and> tun_to_ssh (map good packets) = map (\<lambda>p. be32 (tun_family p) @ p) packets
    \<and> list_all (\<lambda>p. (drop_bit 4 (hd p) = 6 \<longrightarrow> take 4 (tun_frame p) = [0, 0, 0, 10])
        \<and> (drop_bit 4 (hd p) = 4 \<longrightarrow> take 4 (tun_frame p) = [0, 0, 0, 2])) packets"
proof (intro conjI)
  have frames: "tun_to_ssh (map good packets) = map tun_frame packets"
    using assms by (induction packets) (simp_all add: tun_read_step_def)
  then show "tun_to_ssh (map good packets) = map (\<lambda>p. be32 (tun_family p) @ p) packets"
    by (simp add: tun_frame_def)
  have "tun_frame p \<noteq> []" for p by (simp add: tun_frame_def be32_def)
  then have "ssh_to_tun (map (\<lambda>p. good (tun_frame p)) packets) = packets"
    using assms by (induction packets) (simp_all add: ssh_read_step_def)
  then show "ssh_to_tun (map good (tun_to_ssh (map good packets))) = packets"
    unfolding frames by (simp add: comp_def)
  show "list_all (\<lambda>p. (drop_bit 4 (hd p) = 6 \<longrightarrow> take 4 (tun_frame p) = [0, 0, 0, 10])
        \<and> (drop_bit 4 (hd p) = 4 \<longrightarrow> take 4 (tun_frame p) = [0, 0, 0, 2])) packets"
    by (simp add: list_all_iff tun_frame_def tun_family_def be32_def)
qed

theorem tun_frames_roundtrip_witness:
  "ssh_to_tun (map good (tun_to_ssh (map good [[0x45, 1, 2], [0x60, 7]]))) = [[0x45, 1, 2], [0x60, 7]]"
  by (rule tun_frames_roundtrip [THEN conjunct1]) simp

text \<open>
  the receiving loop takes every read for one whole frame. When the channel delivers a frame
  in two parts, the first of more than four bytes, both parts lose four bytes as if they had a
  header: the device gets two broken packets, or one when the second part is short.
\<close>

theorem split_frame_corrupts:
  assumes "tun_frame p = a @ b" "4 < length a" "b \<noteq> []" "length p \<le> 65532"
  shows "ssh_to_tun [good a, good b] = (if length b \<le> 4 then [drop 4 a] else [drop 4 a, drop 4 b])
    \<and> concat (ssh_to_tun [good a, good b]) \<noteq> p"
proof
  have a: "a \<noteq> []" using assms(2) by auto
  have l: "length a + length b = length p + 4"
    using arg_cong [OF assms(1), of length] by simp
  then have "length a \<le> 65536" "length b \<le> 65536" using assms(4) by linarith+
  then show eq: "ssh_to_tun [good a, good b] = (if length b \<le> 4 then [drop 4 a] else [drop 4 a, drop 4 b])"
    using a assms(2,3) by (simp add: ssh_read_step_def)
  have "length (concat (ssh_to_tun [good a, good b])) < length p"
    using assms(2,3) l unfolding eq by (cases b) auto
  then show "concat (ssh_to_tun [good a, good b]) \<noteq> p" by auto
qed

theorem split_frame_corrupts_witness:
  "concat (ssh_to_tun [good [0, 0, 0, 2, 0x45, 1], good [2, 3]]) \<noteq> [0x45, 1, 2, 3]"
  using split_frame_corrupts [of "[0x45, 1, 2, 3]" "[0, 0, 0, 2, 0x45, 1]" "[2, 3]"]
  by (simp add: tun_frame_def tun_family_def be32_def)

text \<open>The reads of each task in a session, and how a session ends.\<close>

fun tun_reads :: "tun_event list \<Rightarrow> (bytes option \<times> bool) list" where
  "tun_reads [] = []"
| "tun_reads (TunRead r w # es) = (r, w) # tun_reads es"
| "tun_reads (SshRead r w # es) = tun_reads es"

fun ssh_reads :: "tun_event list \<Rightarrow> (bytes option \<times> bool) list" where
  "ssh_reads [] = []"
| "ssh_reads (TunRead r w # es) = ssh_reads es"
| "ssh_reads (SshRead r w # es) = (r, w) # ssh_reads es"

fun breaks :: "tun_event \<Rightarrow> bool" where
  "breaks (TunRead r w) \<longleftrightarrow> tun_read_step r w = None"
| "breaks (SshRead r w) \<longleftrightarrow> ssh_read_step r w = None"

text \<open>
  C24: the two directions of a TUN session do not disturb each other: however their rounds
  interleave, the channel and the device get what the two loops write on their own, up to the
  first round that breaks out of its loop. The session ends with an error exactly when there is
  such a round, and never otherwise.
\<close>

theorem tun_session_interleaves:
  "run_tun_forward_loop es =
    (let alive = takeWhile (\<lambda>e. \<not> breaks e) es
     in (if alive = es then None else Some (Err ''TUN forwarding session terminated''),
         tun_to_ssh (tun_reads alive), ssh_to_tun (ssh_reads alive)))"
proof (induction es)
  case (Cons e es)
  then show ?case by (cases e) (simp_all add: Let_def del: takeWhile_eq_all_conv split: option.split)
qed simp

text \<open>The bytes that a relay takes from each side.\<close>

fun socket_data :: "relay_event list \<Rightarrow> bytes" where
  "socket_data [] = []"
| "socket_data (SocketDone # es) = []"
| "socket_data (FromSocket d # es) = d @ socket_data es"
| "socket_data (_ # es) = socket_data es"

fun channel_data :: "relay_event list \<Rightarrow> bytes" where
  "channel_data [] = []"
| "channel_data (ChannelDone # es) = []"
| "channel_data (FromChannel d # es) = d @ channel_data es"
| "channel_data (_ # es) = channel_data es"

lemma relay_fold:
  "fold relay_step es r =
    \<lparr>to_channel = to_channel r @ (if socket_done r then [] else socket_data es),
     to_socket = to_socket r @ (if channel_done r then [] else channel_data es),
     socket_done = (socket_done r \<or> SocketDone \<in> set es),
     channel_done = (channel_done r \<or> ChannelDone \<in> set es)\<rparr>"
proof (induction es arbitrary: r)
  case (Cons e es)
  then show ?case by (cases e) simp_all
qed simp

text \<open>
  a relay carries the bytes of both directions unchanged and in order, each direction up to
  its own end and whatever the other does. The end of one direction is not passed on: the channel
  and the socket stay open until both have ended, so a peer that waits for the end of its input
  before it answers is never told.
\<close>

theorem relay_transparent:
  "to_channel (fold relay_step es relay_start) = socket_data es
   \<and> to_socket (fold relay_step es relay_start) = channel_data es
   \<and> (relay_closed (fold relay_step es relay_start) \<longleftrightarrow> SocketDone \<in> set es \<and> ChannelDone \<in> set es)"
  by (simp add: relay_fold relay_start_def relay_closed_def)

lemma accept_loop_map: "accept_loop f cs = map f (map the (filter (\<lambda>c. c \<noteq> None) cs))"
proof (induction cs)
  case (Cons c cs)
  then show ?case by (cases c) simp_all
qed simp

text \<open>
  a local forwarding survives every accept error and opens, for each connection it accepts
  and in the order of the connections, a channel to its own target on behalf of that peer; only
  the binding of its address can end it.
\<close>

theorem local_forward_serves_all:
  "run_local_forward bind_ok open_ok spec conns =
    (if bind_ok (l_bind_addr spec @ '':'' @ port_text (l_bind_port spec))
     then Ok (map (\<lambda>(ip, p). let req = (as_bytes (l_target_host spec), ucast (l_target_port spec), ip, ucast p)
                    in (req, open_ok req))
               (map the (filter (\<lambda>c. c \<noteq> None) conns)))
     else Err (l_bind_addr spec @ '':'' @ port_text (l_bind_port spec)))"
  unfolding run_local_forward_def bind_text_def accept_loop_map by (rule refl)

lemma open_attempts_find:
  "open_attempts left answer k =
    (case List.find (\<lambda>n. \<exists>c. answer n = Ok c) [k..<k + left] of
       Some n \<Rightarrow> (answer n, n) | None \<Rightarrow> (answer (k + left - 1), k + left - 1))"
proof (induction left arbitrary: k)
  case (Suc left)
  have u: "[k..<k + Suc left] = k # [k + 1..<k + Suc left]" by (subst upt_conv_Cons) simp_all
  have "open_attempts left answer (k + 1) =
      (case List.find (\<lambda>n. \<exists>c. answer n = Ok c) [k + 1..<k + Suc left] of
         Some n \<Rightarrow> (answer n, n) | None \<Rightarrow> (answer (k + Suc left - 1), k + Suc left - 1))"
    using Suc [of "k + 1"] unfolding add.assoc [of k 1] plus_1_eq_Suc .
  then show ?case unfolding u by (cases "answer k") (simp_all del: upt_Suc)
qed simp

text \<open>
  the TUN channel is the one of the first of at most five attempts that the server accepts.
  When the device was created and all five are refused, the set-up fails after configuring the
  device, with the commands for exactly those address families of which both sides are known.
\<close>

theorem setup_tun_five_attempts:
  assumes "build 1 = Some dev"
  shows "setup_tun_forward build status answer spec la ra la6 ra6 =
    ((case List.find (\<lambda>n. \<exists>c. answer n = Ok c) [1, 2, 3, 4, 5] of
        Some n \<Rightarrow> (case answer n of Ok ch \<Rightarrow> Ok (ch, dev) | _ \<Rightarrow> Panic)
      | None \<Rightarrow> Err ''Failed to open tun@openssh.com SSH channel after 5 attempts''),
     tun_commands status dev la ra la6 ra6)
    \<and> (tun_commands status dev la ra la6 ra6 = [] \<longleftrightarrow>
        (la = None \<or> ra = None) \<and> (la6 = None \<or> ra6 = None))"
proof
  let ?f = "List.find (\<lambda>n. \<exists>c. answer n = Ok c) [1, 2, 3, 4, 5]"
  have u: "[1..<1 + 5] = [1, 2, 3, 4, 5 :: nat]" by (simp add: upt_rec)
  have ok: "\<exists>c. answer n = Ok c" if "?f = Some n" for n
    using that unfolding find_Some_iff by blast
  have "\<nexists>c. answer 5 = Ok c" if "?f = None" using that unfolding find_None_iff by force
  then have fst: "fst (open_attempts 5 answer 1) = (case ?f of Some n \<Rightarrow> answer n | None \<Rightarrow> answer 5)"
    unfolding open_attempts_find u by (cases ?f) (simp_all del: find.simps)
  show "setup_tun_forward build status answer spec la ra la6 ra6 =
    ((case ?f of Some n \<Rightarrow> (case answer n of Ok ch \<Rightarrow> Ok (ch, dev) | _ \<Rightarrow> Panic)
      | None \<Rightarrow> Err ''Failed to open tun@openssh.com SSH channel after 5 attempts''),
     tun_commands status dev la ra la6 ra6)"
  proof (cases ?f)
    case None
    then have "\<nexists>c. answer 5 = Ok c" unfolding find_None_iff by force
    then show ?thesis
      using None assms fst
      by (cases "answer 5") (simp_all add: setup_tun_forward_def Let_def del: find.simps)
  next
    case (Some n)
    then show ?thesis
      using ok [OF Some] assms fst
      by (cases "answer n") (simp_all add: setup_tun_forward_def Let_def del: find.simps)
  qed
qed (auto simp: tun_commands_def configure_address_def split: option.split)

theorem setup_tun_five_attempts_witness:
  "fst (setup_tun_forward (\<lambda>_. Some ''tun5'') (\<lambda>_. True) (\<lambda>n. if n = 3 then Ok ''ch'' else Err ''refused'')
     \<lparr>local_tun = ''tun5'', remote_tun = ''any'', auto_id = None\<rparr> None None None None) = Ok (''ch'', ''tun5'')"
  using setup_tun_five_attempts [of "\<lambda>_. Some ''tun5''" "''tun5''" "\<lambda>_. True"
      "\<lambda>n. if n = 3 then Ok ''ch'' else Err ''refused''"
      "\<lparr>local_tun = ''tun5'', remote_tun = ''any'', auto_id = None\<rparr>" None None None None]
  by simp

lemma recv_exact_append: "length a = n \<Longrightarrow> recv_exact n (a @ r) = Some (a, r)"
  by (auto simp: recv_exact_def)

lemma be16_bytes: "length (be16 p) = 2" "from_be16 (be16 p ! 0) (be16 p ! Suc 0) = p"
proof -
  obtain a b where "be16 p = [a, b]" "from_be16 a b = p" by (rule be16_from_be16)
  then show "length (be16 p) = 2" "from_be16 (be16 p ! 0) (be16 p ! Suc 0) = p" by simp_all
qed

text \<open>The answer to a complete request.\<close>

definition socks_answer ::
  "(bytes \<Rightarrow> u16 \<Rightarrow> bool) \<Rightarrow> (nat \<Rightarrow> bool) \<Rightarrow> bytes \<Rightarrow> u16 \<Rightarrow> bytes \<Rightarrow> bytes \<times> socks_end" where
  "socks_answer open_ok write_ok host p rest =
    (if open_ok host p then ([5, 0] @ socks_reply 0, if write_ok 1 then Relayed host p rest else Dropped)
     else ([5, 0] @ socks_reply 5, Refused host p))"

lemma socks5_request:
  assumes "length ms < 256" "write_ok 0" "socks_address atyp (addr @ be16 p @ rest) = Some (host, be16 p @ rest)"
  shows "socks5 open_ok write_ok ([5, of_nat (length ms)] @ ms @ [5, 1, 0, atyp] @ addr @ be16 p @ rest) =
    socks_answer open_ok write_ok host p rest"
proof -
  have 1: "recv_exact 2 ([5, of_nat (length ms)] @ r) = Some ([5, of_nat (length ms)], r)" for r
    by (rule recv_exact_append) simp
  have 2: "recv_exact (unat (of_nat (length ms) :: u8)) (ms @ r) = Some (ms, r)" for r
    using assms(1) by (intro recv_exact_append) (simp add: unat_of_nat_u8)
  have 3: "recv_exact 4 ([5, 1, 0, atyp] @ r) = Some ([5, 1, 0, atyp], r)" for r
    by (rule recv_exact_append) simp
  have 4: "recv_exact 2 (be16 p @ rest) = Some (be16 p, rest)"
    by (rule recv_exact_append) (rule be16_bytes)
  show ?thesis
    unfolding socks5_def 1 option.case prod.case by (simp add: 2 3 [simplified] assms(2,3) 4 be16_bytes socks_answer_def)
qed

text \<open>
  C25: a SOCKS5 client that sends a greeting and a CONNECT request for a domain name, an IPv4 or
  an IPv6 address is connected to exactly that target, is answered with the method NO AUTH and a
  success or refusal reply, and whatever it sent after the request is relayed, unless it is gone
  when the reply is written.
\<close>

theorem socks5_connects:
  assumes "length ms < 256" "write_ok 0" "utf8_valid d" "length d < 256" "length v4 = 4" "length v6 = 16"
  shows "socks5 open_ok write_ok ([5, of_nat (length ms)] @ ms @ [5, 1, 0, 3] @ (of_nat (length d) # d) @ be16 p @ rest)
      = socks_answer open_ok write_ok d p rest
    \<and> socks5 open_ok write_ok ([5, of_nat (length ms)] @ ms @ [5, 1, 0, 1] @ v4 @ be16 p @ rest)
      = socks_answer open_ok write_ok (bs (ipv4_display v4)) p rest
    \<and> socks5 open_ok write_ok ([5, of_nat (length ms)] @ ms @ [5, 1, 0, 4] @ v6 @ be16 p @ rest)
      = socks_answer open_ok write_ok (bs (ipv6_display v6)) p rest"
proof -
  have "recv_exact 1 ((of_nat (length d) # d) @ be16 p @ rest) = Some ([of_nat (length d)], d @ be16 p @ rest)"
    by (simp add: recv_exact_def)
  moreover have "recv_exact (unat (of_nat (length d) :: u8)) (d @ be16 p @ rest) = Some (d, be16 p @ rest)"
    using assms(4) by (intro recv_exact_append) (simp add: unat_of_nat_u8)
  ultimately have d: "socks_address 3 ((of_nat (length d) # d) @ be16 p @ rest) = Some (d, be16 p @ rest)"
    using from_utf8_lossy_valid [OF assms(3)] by (simp add: socks_address_def)
  have v: "socks_address 1 (v4 @ be16 p @ rest) = Some (bs (ipv4_display v4), be16 p @ rest)"
    "socks_address 4 (v6 @ be16 p @ rest) = Some (bs (ipv6_display v6), be16 p @ rest)"
    using recv_exact_append [OF assms(5)] recv_exact_append [OF assms(6)] by (simp_all add: socks_address_def)
  show ?thesis
    using socks5_request [where write_ok = write_ok, OF assms(1,2) d] socks5_request [where write_ok = write_ok, OF assms(1,2) v(1)] socks5_request [where write_ok = write_ok, OF assms(1,2) v(2)]
    by blast
qed

theorem socks5_connects_witness:
  "socks5 (\<lambda>h p. p = 443) (\<lambda>_. True) [5, 1, 0, 5, 1, 0, 3, 2, 104, 105, 1, 187, 9] =
     ([5, 0, 5, 0, 0, 1, 0, 0, 0, 0, 0, 0], Relayed [104, 105] 443 [9])"
proof -
  have "utf8_valid [104, 105]" by (simp add: in_range_def)
  from socks5_connects [of "[0]" "\<lambda>_. True" "[104, 105]" "[1, 2, 3, 4]" "replicate 16 1" "\<lambda>h p. p = 443" 443 "[9]", OF _ _ this]
  show ?thesis by (simp add: be16_def socks_reply_def socks_answer_def)
qed

text \<open>
  the proxy answers NO AUTH whatever the client offered: two greetings with the same number
  of methods are treated alike, also when NO AUTH is in neither or only in one of them.
\<close>

theorem socks5_ignores_methods:
  assumes "length ms = length ms'" "length ms < 256"
  shows "socks5 open_ok write_ok ([5, of_nat (length ms)] @ ms @ req) = socks5 open_ok write_ok ([5, of_nat (length ms')] @ ms' @ req)"
proof -
  have "recv_exact 2 ([5, n] @ r) = Some ([5, n], r)" for n r by (rule recv_exact_append) simp
  then show ?thesis
    using assms unfolding socks5_def by (simp add: recv_exact_append unat_of_nat_u8)
qed

theorem socks5_ignores_methods_witness:
  "socks5 (\<lambda>_ _. True) (\<lambda>_. True) ([5, of_nat (length [2 :: u8])] @ [2] @ [5]) =
   socks5 (\<lambda>_ _. True) (\<lambda>_. True) ([5, of_nat (length [0 :: u8])] @ [0] @ [5])"
  by (rule socks5_ignores_methods) simp_all

text \<open>
  an incoming connection goes to the target of the first forwarding with its port. A
  forwarding of port 0, for which the server chooses the port, is registered but never served:
  no connection to the chosen port finds it.
\<close>

theorem remote_forward_dispatch:
  "(find_remote_spec req specs = Some s \<longrightarrow>
      ucast (r_bind_port s) = connected_port req \<and> s \<in> set specs)
   \<and> (find_remote_spec req specs = None \<longleftrightarrow> (\<forall>s \<in> set specs. ucast (r_bind_port s) \<noteq> connected_port req))
   \<and> (connected_port req \<noteq> 0 \<longrightarrow> r_bind_port s = 0 \<longrightarrow> find_remote_spec req specs \<noteq> Some s)
   \<and> (tcpip_forward (r_bind_addr s) (ucast (r_bind_port s)) \<noteq> None \<longrightarrow>
      register_remote_forward tcpip_forward s = Ok ())"
proof (intro conjI impI)
  show "ucast (r_bind_port s) = connected_port req" "s \<in> set specs" if "find_remote_spec req specs = Some s"
    using that by (auto simp: find_remote_spec_def find_Some_iff)
  then show "find_remote_spec req specs \<noteq> Some s" if "connected_port req \<noteq> 0" "r_bind_port s = 0"
    using that by fastforce
  show "find_remote_spec req specs = None \<longleftrightarrow> (\<forall>s \<in> set specs. ucast (r_bind_port s) \<noteq> connected_port req)"
    by (auto simp: find_remote_spec_def find_None_iff)
  show "register_remote_forward tcpip_forward s = Ok ()"
    if "tcpip_forward (r_bind_addr s) (ucast (r_bind_port s)) \<noteq> None"
    using that by (auto simp: register_remote_forward_def)
qed

definition demo_remote :: "u16 \<Rightarrow> remote_forward_spec" where
  "demo_remote p = \<lparr>r_bind_addr = ''0.0.0.0'', r_bind_port = p, r_target_host = ''h'', r_target_port = 22\<rparr>"

theorem remote_forward_dispatch_witness:
  "find_remote_spec \<lparr>connected_address = [], connected_port = 41000, originator_address = [], originator_port = 1\<rparr>
     [demo_remote 0] \<noteq> Some (demo_remote 0)
   \<and> register_remote_forward (\<lambda>_ _. Some 41000) (demo_remote 0) = Ok ()"
  using remote_forward_dispatch [of "\<lparr>connected_address = [], connected_port = 41000,
      originator_address = [], originator_port = 1\<rparr>" "[demo_remote 0]" "demo_remote 0" "\<lambda>_ _. Some 41000"]
  by (simp add: demo_remote_def)

text \<open>
  the tunnel manager has one task for every local and dynamic forwarding, one for all remote
  ones and one for the TUN device, in that order. When a registration or the TUN set-up fails it
  returns an error, but the tasks of the local and dynamic forwardings are running and nobody
  holds them: their listeners stay bound.
\<close>

theorem tunnel_manager_tasks:
  "(fst (TunnelManager_start register setup_tun config) = Ok ts \<longrightarrow>
      snd (TunnelManager_start register setup_tun config) = ts
      \<and> ts = map LocalTask (local_forwards config) @ map DynamicTask (dynamic_forwards config)
          @ (if remote_forwards config = [] then [] else [RemoteTask (remote_forwards config)])
          @ (case tun_forward config of None \<Rightarrow> []
             | Some t \<Rightarrow> (case setup_tun t of Ok dev \<Rightarrow> [TunTask dev] | _ \<Rightarrow> [])))
   \<and> (\<exists>rest. snd (TunnelManager_start register setup_tun config) =
        map LocalTask (local_forwards config) @ map DynamicTask (dynamic_forwards config) @ rest)"
  by (cases "omap register (remote_forwards config)"; cases "tun_forward config";
      cases "setup_tun (the (tun_forward config))")
    (auto simp: TunnelManager_start_def Let_def)

definition demo_config :: resolved_config where
  "demo_config = mk_resolved demo_args
     \<lparr>hc_host = ''web'', hc_hostname = ''10.0.0.5'', hc_port = 22, hc_user = ''me'', hc_identity_files = []\<rparr>
     [] [\<lparr>l_bind_addr = ''127.0.0.1'', l_bind_port = 1, l_target_host = ''h'', l_target_port = 2\<rparr>]
     [demo_remote 2222] []
     \<lparr>tp_forward = Some \<lparr>local_tun = ''tun22227'', remote_tun = ''tun22227'', auto_id = Some 7\<rparr>,
      tp_local = Some ''169.254.0.7'', tp_remote = Some ''169.254.0.8'', tp_local6 = None, tp_remote6 = None\<rparr>"

theorem tunnel_manager_tasks_witness:
  "fst (TunnelManager_start (\<lambda>_. Err ''refused'') (\<lambda>_. Ok ''tun0'') demo_config) = Err ''refused''
   \<and> (\<exists>rest. snd (TunnelManager_start (\<lambda>_. Err ''refused'') (\<lambda>_. Ok ''tun0'') demo_config) =
        LocalTask \<lparr>l_bind_addr = ''127.0.0.1'', l_bind_port = 1, l_target_host = ''h'', l_target_port = 2\<rparr> # rest)"
proof -
  have "\<exists>rest. snd (TunnelManager_start (\<lambda>_. Err ''refused'') (\<lambda>_. Ok ''tun0'') demo_config) =
      map LocalTask (local_forwards demo_config) @ map DynamicTask (dynamic_forwards demo_config) @ rest"
    by (rule tunnel_manager_tasks [THEN conjunct2])
  then show ?thesis
    by (auto simp: TunnelManager_start_def demo_config_def mk_resolved_def Let_def)
qed

end
