(* ===== verification/Russh_Lib.thy ===== *)
theory Russh_Lib
  imports Ssh_Codec
begin

text \<open>
  The types of \<^verbatim>\<open>crates/russh/src/lib.rs\<close> that the protocol engine shares: errors, rekey limits,
  disconnect reasons, signals, channel-open failures and the parameters of a channel.
\<close>

section \<open>Errors\<close>

datatype channel_open_failure =
  AdministrativelyProhibited | ConnectFailed | UnknownChannelType | ResourceShortage | Unknown

datatype error =
  CouldNotReadKey | KexInitError | UnknownAlgo | NoCommonKexAlgo | NoCommonKeyAlgo | NoCommonCipher
| NoCommonCompression | NoCommonMac | Version | KexError | PacketAuth | Inconsistent
| NotAuthenticated | IndexOutOfBounds | UnknownKey | WrongServerSig | PacketSize nat | WrongChannel
| ChannelOpenFailure channel_open_failure | Disconnect | NoHomeDir | KeyChanged nat | HUP
| ConnectionTimeout | KeepaliveTimeout | InactivityTimeout | NoAuthMethod | SendError | Pending
| DecryptionError | RequestDenied | Keys | IO | Utf8 | Compress | Decompress | Join | Elapsed
| StrictKeyExchangeViolation u8 nat

text \<open>
  \<open>Keys\<close>, \<open>IO\<close>, \<open>Utf8\<close>, \<open>Compress\<close>, \<open>Decompress\<close>, \<open>Join\<close> and \<open>Elapsed\<close> wrap an error of another package,
  whose details the model drops. A failed read of the position reader is \<open>Keys\<close>.
\<close>

definition strict_kex_violation :: "u8 \<Rightarrow> nat \<Rightarrow> error" where
  "strict_kex_violation message_type sequence_number =
     StrictKeyExchangeViolation message_type sequence_number"

abbreviation read_or :: "'a option \<Rightarrow> (error, 'a) outcome" where
  "read_or x \<equiv> ok_or Keys x"

definition from_utf8_or :: "bytes \<Rightarrow> (error, bytes) outcome" where
  "from_utf8_or b = ok_or Utf8 (from_utf8 b)"

section \<open>Limits\<close>

record limits =
  rekey_write_limit :: nat
  rekey_read_limit :: nat
  rekey_time_limit :: nat

definition Limits_new :: "nat \<Rightarrow> nat \<Rightarrow> nat \<Rightarrow> (error, limits) outcome" where
  "Limits_new write_limit read_limit time_limit =
     (if write_limit \<le> 2 ^ 30 \<and> read_limit \<le> 2 ^ 30
      then Ok \<lparr>rekey_write_limit = write_limit, rekey_read_limit = read_limit,
               rekey_time_limit = time_limit\<rparr>
      else Panic)"

definition Limits_default :: limits where
  "Limits_default =
     \<lparr>rekey_write_limit = 2 ^ 30, rekey_read_limit = 2 ^ 30, rekey_time_limit = 3600\<rparr>"

section \<open>Disconnect reasons, signals, channel-open failures\<close>

datatype disconnect =
  HostNotAllowedToConnect | ProtocolError | KeyExchangeFailed | Reserved | MACError
| CompressionError | ServiceNotAvailable | ProtocolVersionNotSupported | HostKeyNotVerifiable
| ConnectionLost | ByApplication | TooManyConnections | AuthCancelledByUser
| NoMoreAuthMethodsAvailable | IllegalUserName

text \<open>\<open>reason as u32\<close>: the discriminants of the enum.\<close>

fun disconnect_code :: "disconnect \<Rightarrow> u32" where
  "disconnect_code HostNotAllowedToConnect = 1"
| "disconnect_code ProtocolError = 2"
| "disconnect_code KeyExchangeFailed = 3"
| "disconnect_code Reserved = 4"
| "disconnect_code MACError = 5"
| "disconnect_code CompressionError = 6"
| "disconnect_code ServiceNotAvailable = 7"
| "disconnect_code ProtocolVersionNotSupported = 8"
| "disconnect_code HostKeyNotVerifiable = 9"
| "disconnect_code ConnectionLost = 10"
| "disconnect_code ByApplication = 11"
| "disconnect_code TooManyConnections = 12"
| "disconnect_code AuthCancelledByUser = 13"
| "disconnect_code NoMoreAuthMethodsAvailable = 14"
| "disconnect_code IllegalUserName = 15"

definition disconnect_try_from :: "u32 \<Rightarrow> (error, disconnect) outcome" where
  "disconnect_try_from value =
     (if value = 1 then Ok HostNotAllowedToConnect
      else if value = 2 then Ok ProtocolError
      else if value = 3 then Ok KeyExchangeFailed
      else if value = 4 then Ok Reserved
      else if value = 5 then Ok MACError
      else if value = 6 then Ok CompressionError
      else if value = 7 then Ok ServiceNotAvailable
      else if value = 8 then Ok ProtocolVersionNotSupported
      else if value = 9 then Ok HostKeyNotVerifiable
      else if value = 10 then Ok ConnectionLost
      else if value = 11 then Ok ByApplication
      else if value = 12 then Ok TooManyConnections
      else if value = 13 then Ok AuthCancelledByUser
      else if value = 14 then Ok NoMoreAuthMethodsAvailable
      else if value = 15 then Ok IllegalUserName
      else Err Inconsistent)"

datatype sig =
  SigABRT | SigALRM | SigFPE | SigHUP | SigILL | SigINT | SigKILL | SigPIPE | SigQUIT | SigSEGV | SigTERM | SigUSR1 | Custom bytes

fun Sig_name :: "sig \<Rightarrow> bytes" where
  "Sig_name SigABRT = bs ''ABRT''"
| "Sig_name SigALRM = bs ''ALRM''"
| "Sig_name SigFPE = bs ''FPE''"
| "Sig_name SigHUP = bs ''HUP''"
| "Sig_name SigILL = bs ''ILL''"
| "Sig_name SigINT = bs ''INT''"
| "Sig_name SigKILL = bs ''KILL''"
| "Sig_name SigPIPE = bs ''PIPE''"
| "Sig_name SigQUIT = bs ''QUIT''"
| "Sig_name SigSEGV = bs ''SEGV''"
| "Sig_name SigTERM = bs ''TERM''"
| "Sig_name SigUSR1 = bs ''USR1''"
| "Sig_name (Custom c) = c"

definition Sig_from_name :: "bytes \<Rightarrow> (error, sig) outcome" where
  "Sig_from_name name =
     (if name = bs ''ABRT'' then Ok SigABRT
      else if name = bs ''ALRM'' then Ok SigALRM
      else if name = bs ''FPE'' then Ok SigFPE
      else if name = bs ''HUP'' then Ok SigHUP
      else if name = bs ''ILL'' then Ok SigILL
      else if name = bs ''INT'' then Ok SigINT
      else if name = bs ''KILL'' then Ok SigKILL
      else if name = bs ''PIPE'' then Ok SigPIPE
      else if name = bs ''QUIT'' then Ok SigQUIT
      else if name = bs ''SEGV'' then Ok SigSEGV
      else if name = bs ''TERM'' then Ok SigTERM
      else if name = bs ''USR1'' then Ok SigUSR1
      else obind (from_utf8_or name) (\<lambda>c. Ok (Custom c)))"

definition ChannelOpenFailure_from_u32 :: "u32 \<Rightarrow> channel_open_failure option" where
  "ChannelOpenFailure_from_u32 x =
     (if x = 1 then Some AdministrativelyProhibited
      else if x = 2 then Some ConnectFailed
      else if x = 3 then Some UnknownChannelType
      else if x = 4 then Some ResourceShortage
      else None)"

lemma disconnect_code_inverse: "disconnect_try_from (disconnect_code d) = Ok d"
  by (cases d) (simp_all add: disconnect_try_from_def)

lemma disconnect_try_from_Ok: "disconnect_try_from w = Ok d \<Longrightarrow> disconnect_code d = w"
  by (auto simp: disconnect_try_from_def split: if_splits)

lemma Sig_from_name_inverse: "(\<And>c. s \<noteq> Custom c) \<Longrightarrow> Sig_from_name (Sig_name s) = Ok s"
  by (cases s) (auto simp: Sig_from_name_def)

section \<open>Channel parameters\<close>

type_synonym channel_id = u32

record channel_open_confirmation =
  coc_recipient_channel :: u32
  coc_sender_channel :: u32
  initial_window_size :: u32
  maximum_packet_size :: u32

record channel_params =
  recipient_channel :: u32
  sender_channel :: channel_id
  recipient_window_size :: u32
  sender_window_size :: u32
  recipient_maximum_packet_size :: u32
  sender_maximum_packet_size :: u32
  confirmed :: bool
  wants_reply :: bool
  pending_data :: "(bytes \<times> u32 option \<times> nat) list"
  pending_eof :: bool
  pending_close :: bool

definition ChannelParams_confirm ::
  "channel_params \<Rightarrow> channel_open_confirmation \<Rightarrow> channel_params" where
  "ChannelParams_confirm self c = self\<lparr>recipient_channel := coc_sender_channel c,
     recipient_window_size := initial_window_size c,
     recipient_maximum_packet_size := maximum_packet_size c, confirmed := True\<rparr>"

end
