(* ===== verification/Packet_Cipher.thy ===== *)
theory Packet_Cipher
  imports Russh_Lib
begin

text \<open>
  The binary packet protocol: \<^verbatim>\<open>crates/russh/src/sshbuffer.rs\<close> (the buffer with its sequence
  number), \<open>SealingKey::write\<close> and \<open>read\<close> of \<^verbatim>\<open>cipher/mod.rs\<close>, and the \<open>clear\<close> cipher of
  \<^verbatim>\<open>cipher/clear.rs\<close>. The traits \<open>SealingKey\<close> and \<open>OpeningKey\<close> are records of their
  methods, each taking the key's state first. The locale \<open>packet_cipher\<close> is the contract between a
  sealing key and the opening key of the other side; the round trip of a packet is proved there
  once and holds for the clear cipher by interpretation.
\<close>

section \<open>SSHBuffer\<close>

record sshbuffer =
  buffer :: bytes
  buf_len :: nat
  buf_bytes :: nat
  seqn :: u32

definition SSHBuffer_new :: sshbuffer where
  "SSHBuffer_new = \<lparr>buffer = [], buf_len = 0, buf_bytes = 0, seqn = 0\<rparr>"

section \<open>The traits\<close>

record 's sealing_key =
  padding_length :: "'s \<Rightarrow> bytes \<Rightarrow> nat"
  fill_padding :: "'s \<Rightarrow> nat \<Rightarrow> bytes"
  seal_tag_len :: "'s \<Rightarrow> nat"
  seal :: "'s \<Rightarrow> u32 \<Rightarrow> bytes \<Rightarrow> bytes \<times> bytes \<times> 's"

record 'o opening_key =
  packet_length_to_read_for_block_length :: "'o \<Rightarrow> nat"
  decrypt_packet_length :: "'o \<Rightarrow> u32 \<Rightarrow> bytes \<Rightarrow> bytes"
  open_tag_len :: "'o \<Rightarrow> nat"
  open_packet :: "'o \<Rightarrow> u32 \<Rightarrow> bytes \<Rightarrow> bytes \<Rightarrow> (error, bytes \<times> bytes \<times> 'o) outcome"

text \<open>
  \<open>seal\<close> gives the ciphertext that replaces the plaintext, the tag and the new key state. \<open>open_packet\<close>
  gives the buffer after decryption in place, the plaintext slice of it, and the new key state.
\<close>

definition PACKET_LENGTH_LEN :: nat where [simp]: "PACKET_LENGTH_LEN = 4"
definition MAXIMUM_PACKET_LEN :: nat where [simp]: "MAXIMUM_PACKET_LEN = 256 * 1024"
definition PADDING_LENGTH_LEN :: nat where [simp]: "PADDING_LENGTH_LEN = 1"

section \<open>Writing and reading a packet\<close>

definition SealingKey_write ::
  "codec \<Rightarrow> 's sealing_key \<Rightarrow> 's \<Rightarrow> bytes \<Rightarrow> sshbuffer \<Rightarrow> (error, 's \<times> sshbuffer) outcome" where
  "SealingKey_write E K self payload b =
    (let pad = padding_length K self payload;
         packet_length = PADDING_LENGTH_LEN + length payload + pad
     in if packet_length > 4294967295 then Panic
        else if pad > 255 then Panic
        else
          (let plaintext = push_u32_be E (of_nat packet_length) @ [of_nat pad] @ payload
                 @ fill_padding K self pad;
               (ciphertext, tag, self') = seal K self (seqn b) plaintext
           in Ok (self', b\<lparr>buffer := buffer b @ ciphertext @ tag,
                          buf_bytes := buf_bytes b + length payload,
                          seqn := seqn b + 1\<rparr>)))"

text \<open>\<open>read_exact\<close> on the bytes that the peer has sent: an error when they end too early.\<close>

definition read_exact :: "nat \<Rightarrow> bytes \<Rightarrow> (error, bytes \<times> bytes) outcome" where
  "read_exact n stream = (if n \<le> length stream then Ok (take n stream, drop n stream) else Err IO)"

text \<open>\<open>CryptoVec::resize\<close>: truncate, or extend with zeros.\<close>

definition resize :: "nat \<Rightarrow> bytes \<Rightarrow> bytes" where
  "resize n xs = take n xs @ replicate (n - length xs) 0"

lemma length_resize [simp]: "length (resize n xs) = n"
  by (simp add: resize_def)

lemma take_resize: "k \<le> length xs \<Longrightarrow> k \<le> n \<Longrightarrow> take k (resize n xs) = take k xs"
  by (simp add: resize_def min_def)

lemma resize_prefix: "resize (length xs) (xs @ ys) = xs"
  by (simp add: resize_def)

text \<open>The first half of \<open>read\<close>: find the length of the packet, unless it is known already.\<close>

definition cipher_read_len ::
  "codec \<Rightarrow> 'o opening_key \<Rightarrow> 'o \<Rightarrow> bytes \<Rightarrow> sshbuffer \<Rightarrow> (error, bytes \<times> sshbuffer) outcome" where
  "cipher_read_len E C cipher stream b =
    (if buf_len b = 0 then
       obind (read_exact (packet_length_to_read_for_block_length C cipher) stream) (\<lambda>(len, stream).
       let n = unat (be_read_u32 E (decrypt_packet_length C cipher (seqn b) len))
       in if n > MAXIMUM_PACKET_LEN then Err (PacketSize n)
          else Ok (stream, b\<lparr>buffer := len, buf_len := n + open_tag_len C cipher\<rparr>))
     else Ok (stream, b))"

text \<open>The last part: open the packet in place, check the padding and cut it off.\<close>

definition cipher_open ::
  "'o opening_key \<Rightarrow> 'o \<Rightarrow> bytes \<Rightarrow> bytes \<Rightarrow> sshbuffer \<Rightarrow>
     (error, nat \<times> bytes \<times> 'o \<times> sshbuffer) outcome" where
  "cipher_open C cipher whole stream b =
    (let ciphertext_len = length whole - open_tag_len C cipher
     in if length whole < open_tag_len C cipher then Panic
     else obind (open_packet C cipher (seqn b) (take ciphertext_len whole) (drop ciphertext_len whole))
      (\<lambda>(decrypted, plaintext, cipher').
    let padding = (case plaintext of [] \<Rightarrow> 0 | p # _ \<Rightarrow> unat p)
    in if length plaintext < padding then Err IndexOutOfBounds
       else
         (let plaintext_end = length plaintext - padding
          in Ok (plaintext_end + 4, stream, cipher',
                 b\<lparr>buffer := resize (plaintext_end + 4) (decrypted @ drop ciphertext_len whole),
                   seqn := seqn b + 1, buf_len := 0\<rparr>))))"

definition cipher_read ::
  "codec \<Rightarrow> 'o opening_key \<Rightarrow> 'o \<Rightarrow> bytes \<Rightarrow> sshbuffer \<Rightarrow>
     (error, nat \<times> bytes \<times> 'o \<times> sshbuffer) outcome" where
  "cipher_read E C cipher stream b =
    obind (cipher_read_len E C cipher stream b) (\<lambda>(stream, b).
    let k = packet_length_to_read_for_block_length C cipher;
        whole = resize (buf_len b + 4) (buffer b)
    in if k > length whole then Panic
    else obind (read_exact (length whole - k) stream) (\<lambda>(body, stream).
      cipher_open C cipher (take k whole @ body) stream b))"

section \<open>The clear cipher\<close>

definition clear_padding_length :: "bytes \<Rightarrow> nat" where
  "clear_padding_length payload =
     (let block_size = 8; padding_len = block_size - (5 + length payload) mod block_size
      in if padding_len < 4 then padding_len + block_size else padding_len)"

definition clear_sealing :: "unit sealing_key" where
  "clear_sealing = \<lparr>padding_length = (\<lambda>_. clear_padding_length),
     fill_padding = (\<lambda>_ n. replicate n 0), seal_tag_len = (\<lambda>_. 0),
     seal = (\<lambda>_ _ plaintext. (plaintext, [], ()))\<rparr>"

definition clear_opening :: "unit opening_key" where
  "clear_opening = \<lparr>packet_length_to_read_for_block_length = (\<lambda>_. 4),
     decrypt_packet_length = (\<lambda>_ _ packet_length. packet_length), open_tag_len = (\<lambda>_. 0),
     open_packet = (\<lambda>_ _ text tag. if length text < 4 then Panic else Ok (text, drop 4 text, ()))\<rparr>"

text \<open>
  Sequences of packets: what a side writes, and what the reading loop gets when it starts each read
  with an empty buffer.
\<close>

fun write_packets ::
  "codec \<Rightarrow> 's sealing_key \<Rightarrow> 's \<Rightarrow> bytes list \<Rightarrow> sshbuffer \<Rightarrow> (error, 's \<times> sshbuffer) outcome" where
  "write_packets E K s [] b = Ok (s, b)"
| "write_packets E K s (p # ps) b = obind (SealingKey_write E K s p b) (\<lambda>(s, b). write_packets E K s ps b)"

definition start_reading ::
  "codec \<Rightarrow> 'o opening_key \<Rightarrow> 'o \<Rightarrow> bytes \<Rightarrow> sshbuffer \<Rightarrow> (error, nat \<times> bytes \<times> 'o \<times> sshbuffer) outcome" where
  "start_reading E C cipher stream b = cipher_read E C cipher stream (b\<lparr>buffer := []\<rparr>)"

fun read_packets ::
  "codec \<Rightarrow> 'o opening_key \<Rightarrow> nat \<Rightarrow> 'o \<Rightarrow> bytes \<Rightarrow> sshbuffer \<Rightarrow>
     (error, bytes list \<times> bytes \<times> 'o \<times> sshbuffer) outcome" where
  "read_packets E C 0 c stream b = Ok ([], stream, c, b)"
| "read_packets E C (Suc n) c stream b =
     obind (start_reading E C c stream b) (\<lambda>(_, stream, c, b).
     obind (read_packets E C n c stream b) (\<lambda>(ps, rest). Ok (drop 5 (buffer b) # ps, rest)))"

lemma write_appends:
  "SealingKey_write E K s p b = Ok (s', b') \<Longrightarrow> \<exists>more. buffer b' = buffer b @ more"
  by (auto simp: SealingKey_write_def Let_def split: if_splits prod.splits)

lemma write_packets_appends:
  "write_packets E K s ps b = Ok (s', b') \<Longrightarrow> \<exists>more. buffer b' = buffer b @ more"
proof (induction ps arbitrary: s b)
  case (Cons p ps)
  then obtain s1 b1 where w: "SealingKey_write E K s p b = Ok (s1, b1)" "write_packets E K s1 ps b1 = Ok (s', b')"
    by (auto simp: obind_Ok_iff)
  from write_appends [OF w(1)] Cons.IH [OF w(2)] show ?case by auto
qed simp

section \<open>The contract of a cipher\<close>

text \<open>
  \<open>paired s o\<close>: the opening key \<open>o\<close> is in step with the sealing key \<open>s\<close>. Sealing keeps the length
  and adds a tag; the opening key reads at most the sealed packet to learn its length, recovers
  the length field from it, and opens what was sealed, after which the keys are still in step.
\<close>

locale packet_cipher = ssh_encoding E for E :: codec +
  fixes K :: "'s sealing_key" and C :: "'o opening_key" and paired :: "'s \<Rightarrow> 'o \<Rightarrow> bool"
  assumes padding_small: "padding_length K s payload \<le> 255"
    and fill_padding_length: "length (fill_padding K s m) = m"
    and seal_length: "paired s c \<Longrightarrow> seal K s n pt = (ct, tag, s') \<Longrightarrow> 4 \<le> length pt \<Longrightarrow> length ct = length pt"
    and seal_tag: "paired s c \<Longrightarrow> seal K s n pt = (ct, tag, s') \<Longrightarrow> 4 \<le> length pt \<Longrightarrow>
      length tag = open_tag_len C c"
    and prefix_read: "paired s c \<Longrightarrow>
      packet_length_to_read_for_block_length C c \<le> 5 + length payload + padding_length K s payload"
    and length_recovered: "paired s c \<Longrightarrow> seal K s n (push_u32_be E w @ pt) = (ct, tag, s') \<Longrightarrow>
      packet_length_to_read_for_block_length C c \<le> length ct \<Longrightarrow>
      \<exists>r. decrypt_packet_length C c n (take (packet_length_to_read_for_block_length C c) ct)
            = be_write_u32 E w @ r"
    and open_sealed: "paired s c \<Longrightarrow> seal K s n pt = (ct, tag, s') \<Longrightarrow> 4 \<le> length pt \<Longrightarrow>
      \<exists>hd4 c'. open_packet C c n ct tag = Ok (hd4 @ drop 4 pt, drop 4 pt, c') \<and> length hd4 = 4 \<and> paired s' c'"
begin

text \<open>The bytes a write appends are read back as one packet.\<close>

theorem write_read:
  assumes pair: "paired s c" and small: "1 + length payload + padding_length K s payload \<le> 262144"
    and w: "SealingKey_write E K s payload b = Ok (s', b')"
    and seq: "seqn rb = seqn b" and idle: "buf_len rb = 0"
  shows "\<exists>sealed c' rb'. buffer b' = buffer b @ sealed \<and> seqn b' = seqn b + 1 \<and>
    cipher_read E C c (sealed @ rest) rb = Ok (5 + length payload, rest, c', rb') \<and>
    drop 5 (buffer rb') = payload \<and> seqn rb' = seqn b' \<and> buf_len rb' = 0 \<and> paired s' c'"
proof -
  let ?pad = "padding_length K s payload"
  define n where "n = 1 + length payload + ?pad"
  define pt where "pt = push_u32_be E (of_nat n) @ of_nat ?pad # payload @ fill_padding K s ?pad"
  define k where "k = packet_length_to_read_for_block_length C c"
  define t where "t = open_tag_len C c"
  obtain ct tag s1 where seal: "seal K s (seqn b) pt = (ct, tag, s1)" by (metis prod_cases3)
  have b': "s' = s1" "b' = b\<lparr>buffer := buffer b @ ct @ tag,
      buf_bytes := buf_bytes b + length payload, seqn := seqn b + 1\<rparr>"
    using w seal padding_small [of s payload] unfolding pt_def n_def
    by (auto simp: SealingKey_write_def Let_def split: if_splits)
  have len_pt: "length pt = n + 4" by (simp add: pt_def n_def length_push_u32 fill_padding_length)
  then have len_ct: "length ct = n + 4" using seal_length [OF pair seal] by simp
  have k: "k \<le> n + 4" using prefix_read [OF pair, of payload] by (simp add: k_def n_def)
  have len_tag: "length tag = t" unfolding t_def by (rule seal_tag [OF pair seal]) (simp add: len_pt)
  obtain r where "decrypt_packet_length C c (seqn b) (take k ct) = be_write_u32 E (of_nat n) @ r"
    using length_recovered [OF pair seal [unfolded pt_def]] k len_ct unfolding k_def by auto
  then have dec: "unat (be_read_u32 E (decrypt_packet_length C c (seqn b) (take k ct))) = n"
    using small by (simp only: be_read_write) (simp only: n_def unat_of_nat_u32)
  have tl: "drop 4 pt = of_nat ?pad # payload @ fill_padding K s ?pad"
    by (simp add: pt_def length_push_u32)
  obtain h c' where opened: "open_packet C c (seqn b) ct tag =
        Ok (h @ of_nat ?pad # payload @ fill_padding K s ?pad,
            of_nat ?pad # payload @ fill_padding K s ?pad, c')"
      and h: "length h = 4" and pair': "paired s1 c'"
    using open_sealed [OF pair seal] len_pt unfolding tl by auto
  have upad: "unat (of_nat ?pad :: u8) = ?pad" using padding_small [of s payload] by simp
  define rb1 where "rb1 = rb\<lparr>buffer := take k ct, buf_len := n + t\<rparr>"
  have l1: "cipher_read_len E C c ((ct @ tag) @ rest) rb = Ok (drop k (ct @ tag) @ rest, rb1)"
    using idle k small dec len_ct
    by (simp add: cipher_read_len_def read_exact_def seq n_def rb1_def k_def t_def)
  define rb' where "rb' = rb1\<lparr>buffer := h @ of_nat ?pad # payload, seqn := seqn b + 1, buf_len := 0\<rparr>"
  have whole: "take k (resize (n + t + 4) (take k ct)) @ drop k (ct @ tag) = ct @ tag"
    using k len_ct by (simp add: take_resize)
  have body: "read_exact (n + t + 4 - k) (drop k (ct @ tag) @ rest) = Ok (drop k (ct @ tag), rest)"
    using k len_ct len_tag by (simp add: read_exact_def)
  have cut: "take (length (ct @ tag) - t) (ct @ tag) = ct" "drop (length (ct @ tag) - t) (ct @ tag) = tag"
    using len_tag by simp_all
  have fin: "resize (length payload + 5)
      ((h @ of_nat ?pad # payload @ fill_padding K s ?pad) @ tag) = h @ of_nat ?pad # payload"
    using resize_prefix [of "h @ of_nat ?pad # payload" "fill_padding K s ?pad @ tag"] h
    by (simp add: add.commute)
  have "cipher_read E C c ((ct @ tag) @ rest) rb = cipher_open C c (ct @ tag) rest rb1"
    unfolding cipher_read_def l1 obind.simps prod.case Let_def k_def [symmetric]
    using k body whole by (simp add: rb1_def)
  also have "\<dots> = Ok (5 + length payload, rest, c', rb')"
    unfolding cipher_open_def Let_def t_def [symmetric] cut
    using opened upad fin len_tag
    by (simp add: rb1_def rb'_def seq fill_padding_length add.commute)
  finally have "cipher_read E C c ((ct @ tag) @ rest) rb = Ok (5 + length payload, rest, c', rb')" .
  then show ?thesis
    using b' h pair' by (intro exI [of _ "ct @ tag"] exI [of _ c'] exI [of _ rb'])
      (simp add: rb'_def)
qed

text \<open>A sequence of packets is read back packet by packet.\<close>

lemma write_packets_Ok:
  "\<forall>p \<in> set ps. length p \<le> 261000 \<Longrightarrow> \<exists>s' b'. write_packets E K s ps b = Ok (s', b')"
proof (induction ps arbitrary: s b)
  case (Cons p ps)
  then have "1 + length p + padding_length K s p \<le> 262144" using padding_small [of s p] by simp
  then obtain s1 b1 where "SealingKey_write E K s p b = Ok (s1, b1)"
    using padding_small [of s p] by (auto simp: SealingKey_write_def Let_def split_beta)
  then show ?case using Cons by simp
qed simp

lemma write_read_all:
  assumes "paired s c" "\<forall>p \<in> set ps. length p \<le> 261000" "write_packets E K s ps b = Ok (s', b')"
    "seqn rb = seqn b" "buf_len rb = 0"
  shows "\<exists>sealed c' rb'. buffer b' = buffer b @ sealed \<and>
    read_packets E C (length ps) c (sealed @ rest) rb = Ok (ps, rest, c', rb') \<and> seqn rb' = seqn b' \<and>
    buf_len rb' = 0 \<and> paired s' c'"
  using assms
proof (induction ps arbitrary: s c b rb)
  case (Cons p ps)
  then obtain s1 b1 where w: "SealingKey_write E K s p b = Ok (s1, b1)" "write_packets E K s1 ps b1 = Ok (s', b')"
    by (auto simp: obind_Ok_iff)
  obtain more where more: "buffer b' = buffer b1 @ more" using write_packets_appends [OF w(2)] by blast
  have small: "1 + length p + padding_length K s p \<le> 262144" using Cons.prems(2) padding_small [of s p] by simp
  obtain sealed c1 rb1 where r: "buffer b1 = buffer b @ sealed"
    "start_reading E C c (sealed @ more @ rest) rb = Ok (5 + length p, more @ rest, c1, rb1)"
    "drop 5 (buffer rb1) = p" "seqn rb1 = seqn b1" "buf_len rb1 = 0" "paired s1 c1"
    using write_read [OF Cons.prems(1) small w(1), of "rb\<lparr>buffer := []\<rparr>" "more @ rest"] Cons.prems(4,5)
    unfolding start_reading_def by auto
  obtain c' rb' where "read_packets E C (length ps) c1 (more @ rest) rb1 = Ok (ps, rest, c', rb')"
    "seqn rb' = seqn b'" "buf_len rb' = 0" "paired s' c'"
    using Cons.IH [OF r(6) _ w(2) r(4,5)] Cons.prems(2) more by auto
  with r more show ?case by (intro exI [of _ "sealed @ more"] exI [of _ c'] exI [of _ rb']) simp
qed simp

end

section \<open>The clear cipher meets the contract\<close>

lemma clear_padding_bounds: "4 \<le> clear_padding_length p \<and> clear_padding_length p \<le> 11"
  by (auto simp: clear_padding_length_def Let_def)

lemma clear_padding_aligns: "(5 + length p + clear_padding_length p) mod 8 = 0"
  unfolding clear_padding_length_def Let_def by presburger

interpretation clear: packet_cipher rfc4251 clear_sealing clear_opening "\<lambda>_ _. True"
proof unfold_locales
  fix s c n pt ct tag s'
  show "padding_length clear_sealing s p \<le> 255" for p
    using clear_padding_bounds [of p] by (simp add: clear_sealing_def)
  show "\<exists>hd4 c'. open_packet clear_opening c n ct tag = Ok (hd4 @ drop 4 pt, drop 4 pt, c') \<and>
      length hd4 = 4 \<and> True"
    if "seal clear_sealing s n pt = (ct, tag, s')" "4 \<le> length pt"
    using that by (intro exI [of _ "take 4 pt"]) (auto simp: clear_sealing_def clear_opening_def)
  show "\<exists>r. decrypt_packet_length clear_opening c n
      (take (packet_length_to_read_for_block_length clear_opening c) ct) = be_write_u32 rfc4251 w @ r"
    if "seal clear_sealing s n (push_u32_be rfc4251 w @ pt) = (ct, tag, s')" for w
    using that by (auto simp: clear_sealing_def clear_opening_def rfc4251_def)
qed (auto simp: clear_sealing_def clear_opening_def)

section \<open>Properties\<close>

text \<open>a payload written with the clear cipher is read back by the peer: from the bytes appended to
  the buffer, whatever follows them, \<open>read\<close> returns exactly one packet, leaves the rest of the
  stream, holds the payload from offset 5 on, and both sequence numbers have advanced by one
  (and wrap at 32 bits). The length is within \<open>MAXIMUM_PACKET_LEN\<close>.\<close>

theorem clear_packet_roundtrip:
  assumes "length payload \<le> 262000" and "seqn rb = seqn b" and "buf_len rb = 0"
  shows "\<exists>sealed b' rb'. SealingKey_write rfc4251 clear_sealing () payload b = Ok ((), b')
    \<and> buffer b' = buffer b @ sealed \<and> length sealed mod 8 = 0 \<and> seqn b' = seqn b + 1
    \<and> cipher_read rfc4251 clear_opening () (sealed @ rest) rb
        = Ok (5 + length payload, rest, (), rb')
    \<and> drop 5 (buffer rb') = payload \<and> seqn rb' = seqn b'"
proof -
  let ?pad = "clear_padding_length payload"
  have pad: "padding_length clear_sealing () payload = ?pad" by (simp add: clear_sealing_def)
  have small: "1 + length payload + padding_length clear_sealing () payload \<le> 262144"
    using assms(1) clear_padding_bounds [of payload] by (simp add: pad)
  then obtain b' where w: "SealingKey_write rfc4251 clear_sealing () payload b = Ok ((), b')"
    and len: "length (buffer b') = length (buffer b) + (5 + length payload + ?pad)"
    using clear_padding_bounds [of payload]
    by (simp add: SealingKey_write_def clear_sealing_def Let_def rfc4251_def)
  obtain sealed c' rb' where r: "buffer b' = buffer b @ sealed" "seqn b' = seqn b + 1"
    "cipher_read rfc4251 clear_opening () (sealed @ rest) rb = Ok (5 + length payload, rest, c', rb')"
    "drop 5 (buffer rb') = payload" "seqn rb' = seqn b'"
    using clear.write_read [OF _ small w assms(2,3), of "()" rest] by blast
  have "length sealed = 5 + length payload + ?pad" using r(1) len by simp
  then have "length sealed mod 8 = 0" using clear_padding_aligns [of payload] by (simp only:)
  with w r show ?thesis by (intro exI [of _ sealed] exI [of _ b'] exI [of _ rb']) simp
qed

theorem clear_packet_roundtrip_witness:
  "\<exists>sealed b' rb'. SealingKey_write rfc4251 clear_sealing () [21] SSHBuffer_new = Ok ((), b')
    \<and> buffer b' = [] @ sealed \<and> length sealed mod 8 = 0 \<and> seqn b' = 0 + 1
    \<and> cipher_read rfc4251 clear_opening () (sealed @ [1, 2, 3]) SSHBuffer_new
        = Ok (5 + length [21 :: u8], [1, 2, 3], (), rb')
    \<and> drop 5 (buffer rb') = [21] \<and> seqn rb' = seqn b'"
  using clear_packet_roundtrip [of "[21]" SSHBuffer_new SSHBuffer_new "[1, 2, 3]"]
  by (simp add: SSHBuffer_new_def)

text \<open>an announced packet length above 256 KiB is refused with \<open>PacketSize\<close> before any of the
  packet's body is read or buffered, for every cipher.\<close>

theorem oversized_packet_rejected:
  assumes "buf_len b = 0" and "packet_length_to_read_for_block_length C c \<le> length stream"
    and "n = unat (be_read_u32 E (decrypt_packet_length C c (seqn b)
           (take (packet_length_to_read_for_block_length C c) stream)))"
    and "n > 256 * 1024"
  shows "cipher_read E C c stream b = Err (PacketSize n)"
  using assms by (simp add: cipher_read_def cipher_read_len_def read_exact_def)

theorem oversized_packet_rejected_witness:
  "cipher_read rfc4251 clear_opening () [255, 0, 0, 0, 7] SSHBuffer_new = Err (PacketSize 4278190080)"
  by (rule oversized_packet_rejected)
    (simp_all add: SSHBuffer_new_def clear_opening_def rfc4251_def from_be32_def)

text \<open>a packet that \<open>read\<close> accepts leaves exactly the announced number of bytes in the buffer, at
  least the four of the length field, whatever padding length the peer put into it; the sequence
  number has advanced by one and the buffer is ready for the next packet. (It can be shorter than
  five bytes, as the instance below shows, which is why the event loop tests for that.)\<close>

theorem padding_checked:
  assumes "cipher_read E C c stream b = Ok (n, stream', c', b')"
  shows "4 \<le> n \<and> length (buffer b') = n \<and> seqn b' = seqn b + 1 \<and> buf_len b' = 0"
proof -
  obtain st b1 where 1: "cipher_read_len E C c stream b = Ok (st, b1)"
    using assms by (auto simp: cipher_read_def obind_Ok_iff)
  then have "seqn b1 = seqn b"
    by (auto simp: cipher_read_len_def obind_Ok_iff Let_def split: if_splits)
  with assms show ?thesis
    unfolding cipher_read_def 1
    by (auto simp: cipher_open_def obind_Ok_iff Let_def split: if_splits)
qed

theorem padding_checked_witness:
  "\<exists>b'. cipher_read rfc4251 clear_opening () [0, 0, 0, 4, 4, 0, 0, 0] SSHBuffer_new
     = Ok (4, [], (), b') \<and> length (buffer b') = 4 \<and> seqn b' = seqn SSHBuffer_new + 1"
proof -
  have "cipher_read rfc4251 clear_opening () [0, 0, 0, 4, 4, 0, 0, 0] SSHBuffer_new
     = Ok (4, [], (), \<lparr>buffer = [0, 0, 0, 4], buf_len = 0, buf_bytes = 0, seqn = 1\<rparr>)"
    by (simp add: SSHBuffer_new_def clear_opening_def rfc4251_def from_be32_def cipher_read_def
        cipher_read_len_def cipher_open_def read_exact_def resize_def)
  from this padding_checked [OF this] show ?thesis by blast
qed

end
