(* ===== verification/Ssh_Ident.thy ===== *)
theory Ssh_Ident
  imports Packet_Cipher
begin

text \<open>
  The identification line: \<open>SshId\<close> of \<^verbatim>\<open>sshbuffer.rs\<close>, which is written first, and \<open>SshRead\<close> of
  \<^verbatim>\<open>ssh_read.rs\<close>, which reads the peer's line into a buffer of 256 bytes and hands the bytes after it to the reader of
  packets. The network is the list of the pieces in which the peer's bytes arrive.
\<close>

section \<open>SshId\<close>

datatype ssh_id = Standard bytes | Raw bytes

fun as_kex_hash_bytes :: "ssh_id \<Rightarrow> bytes" where
  "as_kex_hash_bytes (Standard s) = s"
| "as_kex_hash_bytes (Raw s) = rev (dropWhile (\<lambda>c. c = 10 \<or> c = 13) (rev s))"

fun SshId_write :: "ssh_id \<Rightarrow> bytes \<Rightarrow> bytes" where
  "SshId_write (Standard s) buf = buf @ s @ [13, 10]"
| "SshId_write (Raw s) buf = buf @ s"

definition send_ssh_id :: "ssh_id \<Rightarrow> sshbuffer \<Rightarrow> sshbuffer" where
  "send_ssh_id i self = self\<lparr>buffer := SshId_write i (buffer self)\<rparr>"

section \<open>SshRead\<close>

record read_ssh_id_buffer =
  id_buf :: bytes
  id_total :: nat
  id_bytes_read :: nat
  sshid_len :: nat

definition ReadSshIdBuffer_new :: read_ssh_id_buffer where
  "ReadSshIdBuffer_new = \<lparr>id_buf = replicate 256 0, id_total = 0, id_bytes_read = 0, sshid_len = 0\<rparr>"

definition ReadSshIdBuffer_id :: "read_ssh_id_buffer \<Rightarrow> bytes" where
  "ReadSshIdBuffer_id self = take (sshid_len self) (id_buf self)"

record ssh_read =
  read_id :: "read_ssh_id_buffer option"
  network :: "bytes list"

definition SshRead_new :: "bytes list \<Rightarrow> ssh_read" where
  "SshRead_new pieces = \<lparr>read_id = Some ReadSshIdBuffer_new, network = pieces\<rparr>"

text \<open>
  A read into a slice of \<open>space\<close> bytes gives at most what has arrived; no bytes are the end of the
  stream, and also the result of a read into an empty slice.
\<close>

fun read_piece :: "nat \<Rightarrow> bytes list \<Rightarrow> bytes \<times> bytes list" where
  "read_piece space [] = ([], [])"
| "read_piece space (p # ps) =
     (take space p, if length p \<le> space then ps else drop space p # ps)"

text \<open>The inner loop looks for the end of the line; it gives \<open>i\<close> and \<open>bytes_read\<close>, 0 when there is none.\<close>

function find_line_end :: "bytes \<Rightarrow> nat \<Rightarrow> nat \<Rightarrow> nat \<Rightarrow> nat \<times> nat" where
  "find_line_end buf tot bytes_read i =
    (if tot - 1 \<le> i then (i, bytes_read)
     else if buf ! i = 13 \<and> buf ! (i + 1) = 10 then (i, i + 2)
     else if buf ! (i + 1) = 10 then (i + 1, i + 2)
     else find_line_end buf tot bytes_read (i + 1))"
  by pat_completeness auto
termination
  by (relation "measure (\<lambda>(buf, tot, b, i). tot - i)") auto

declare find_line_end.simps [simp del]

lemma read_piece_shrinks: "(got, ps') = read_piece n ps \<Longrightarrow> got \<noteq> [] \<Longrightarrow> sum_list (map length ps') < sum_list (map length ps)"
  by (cases ps) (auto split: if_splits)

text \<open>
  The outer loop; every turn consumes bytes of the network, so it ends. The buffer keeps its length.
\<close>

function read_ssh_id :: "read_ssh_id_buffer \<Rightarrow> bytes list \<Rightarrow> (error, read_ssh_id_buffer \<times> bytes list) outcome" where
  "read_ssh_id self pieces =
    (let (got, pieces') = read_piece (length (id_buf self) - id_total self) pieces;
         tot = id_total self + length got;
         buf = take (id_total self) (id_buf self) @ got @ drop tot (id_buf self);
         self1 = self\<lparr>id_buf := buf, id_total := tot\<rparr>
     in if got = [] then Err Disconnect
        else
          (let (i, bytes_read) = find_line_end buf tot (id_bytes_read self) 0
           in if 0 < bytes_read then
                if 8 \<le> i \<and> take 8 buf = bs ''SSH-2.0-''
                then Ok (self1\<lparr>id_bytes_read := bytes_read, sshid_len := i\<rparr>, pieces')
                else read_ssh_id (self1\<lparr>id_total := 0, id_bytes_read := 0\<rparr>) pieces'
              else read_ssh_id (self1\<lparr>id_bytes_read := bytes_read\<rparr>) pieces'))"
  by pat_completeness auto

termination
  by (relation "measure (\<lambda>(self, pieces). sum_list (map length pieces))") (auto dest: read_piece_shrinks)

declare read_ssh_id.simps [simp del]

text \<open>\<open>poll_read\<close> serves the rest of the buffer before it reads from the network.\<close>

definition poll_read :: "nat \<Rightarrow> ssh_read \<Rightarrow> bytes \<times> ssh_read" where
  "poll_read remaining self =
    (let from_network = (let (got, ps) = read_piece remaining (network self) in (got, \<lparr>read_id = None, network = ps\<rparr>))
     in case read_id self of
       Some i \<Rightarrow>
         if id_bytes_read i < id_total i then
           (let tot = min (id_total i) (id_bytes_read i + remaining)
            in (drop (id_bytes_read i) (take tot (id_buf i)), self\<lparr>read_id := Some (i\<lparr>id_bytes_read := tot\<rparr>)\<rparr>))
         else from_network
     | None \<Rightarrow> from_network)"

text \<open>The bytes that the reader of packets will see.\<close>

definition after_id :: "read_ssh_id_buffer \<Rightarrow> bytes list \<Rightarrow> bytes" where
  "after_id self pieces = drop (id_bytes_read self) (take (id_total self) (id_buf self)) @ concat pieces"

definition unread_bytes :: "ssh_read \<Rightarrow> bytes" where
  "unread_bytes self = (case read_id self of Some i \<Rightarrow> after_id i (network self) | None \<Rightarrow> concat (network self))"

section \<open>Lemmas\<close>

lemma read_piece_concat: "read_piece n ps = (got, ps') \<Longrightarrow> got @ concat ps' = concat ps"
  by (cases ps) (auto split: if_splits)

lemma read_piece_nonempty:
  "read_piece n ps = (got, ps') \<Longrightarrow> [] \<notin> set ps \<Longrightarrow> ps \<noteq> [] \<Longrightarrow> 0 < n \<Longrightarrow> got \<noteq> [] \<and> length got \<le> n \<and> [] \<notin> set ps'"
  by (cases ps) (auto split: if_splits)

lemma find_line_end_none:
  "(\<And>j. i < j \<Longrightarrow> j < tot \<Longrightarrow> buf ! j \<noteq> 10) \<Longrightarrow> snd (find_line_end buf tot b i) = b"
proof (induction buf tot b i rule: find_line_end.induct)
  case (1 buf tot b i)
  then show ?case by (subst find_line_end.simps) auto
qed

lemma find_line_end_crlf:
  "i \<le> n \<Longrightarrow> n + 1 < tot \<Longrightarrow> buf ! n = 13 \<Longrightarrow> buf ! (n + 1) = 10 \<Longrightarrow>
   (\<And>j. i < j \<Longrightarrow> j \<le> n \<Longrightarrow> buf ! j \<noteq> 10) \<Longrightarrow> find_line_end buf tot b i = (n, n + 2)"
proof (induction buf tot b i rule: find_line_end.induct)
  case (1 buf tot b i)
  show ?case
  proof (cases "i = n")
    case False
    then have "buf ! (i + 1) \<noteq> 10" using 1 by auto
    with False 1 show ?thesis by (subst find_line_end.simps) auto
  qed (use 1 in \<open>subst find_line_end.simps, auto\<close>)
qed

text \<open>The bytes of the buffer and of the network are the line and what follows; the line is not complete yet.\<close>

lemma read_ssh_id_line:
  assumes "line = bs ''SSH-2.0-'' @ v" "10 \<notin> set v" "length line + 2 \<le> 256"
    and "length (id_buf self) = 256" "id_bytes_read self = 0" "id_total self < length line + 2"
    and "take (id_total self) (id_buf self) @ concat pieces = line @ [13, 10] @ rest" "[] \<notin> set pieces"
  shows "\<exists>self' ps'. read_ssh_id self pieces = Ok (self', ps') \<and> ReadSshIdBuffer_id self' = line \<and> after_id self' ps' = rest"
  using assms(4-)
proof (induction "sum_list (map length pieces)" arbitrary: self pieces rule: less_induct)
  case less
  let ?t = "id_total self" and ?n = "length line"
  obtain got ps where r: "read_piece (256 - ?t) pieces = (got, ps)" by (cases "read_piece (256 - ?t) pieces")
  define tot where "tot = ?t + length got"
  define buf where "buf = take ?t (id_buf self) @ got @ drop tot (id_buf self)"
  have "pieces \<noteq> []"
  proof
    assume "pieces = []"
    then have "length (take ?t (id_buf self)) = ?n + 2 + length rest" using less.prems(4) by simp
    then show False using less.prems(3) by simp
  qed
  then have got: "got \<noteq> []" "length got \<le> 256 - ?t" "[] \<notin> set ps"
    using read_piece_nonempty [OF r less.prems(5)] less.prems(3) assms(3) by auto
  have whole: "take tot buf @ concat ps = line @ [13, 10] @ rest"
    using read_piece_concat [OF r] less.prems(4) got(2) less.prems(1,3) assms(3) by (simp add: buf_def tot_def)
  have lb: "length buf = 256" using got(2) less.prems(1,3) assms(3) by (simp add: buf_def tot_def)
  have step: "read_ssh_id self pieces =
      (let self1 = self\<lparr>id_buf := buf, id_total := tot\<rparr>; (i, br) = find_line_end buf tot 0 0
       in if 0 < br then
            if 8 \<le> i \<and> take 8 buf = bs ''SSH-2.0-'' then Ok (self1\<lparr>id_bytes_read := br, sshid_len := i\<rparr>, ps)
            else read_ssh_id (self1\<lparr>id_total := 0, id_bytes_read := 0\<rparr>) ps
          else read_ssh_id (self1\<lparr>id_bytes_read := br\<rparr>) ps)"
    using got(1) less.prems(1,2) r unfolding buf_def tot_def by (subst read_ssh_id.simps) (simp add: Let_def)
  have at: "buf ! j = (line @ [13, 10]) ! j" if "j < tot" "j < ?n + 2" for j
  proof -
    have "buf ! j = (take tot buf @ concat ps) ! j" using that(1) lb got(2) less.prems(3) assms(3) by (simp add: nth_append tot_def)
    then show ?thesis using that(2) whole by (auto simp: nth_append nth_Cons' not_less)
  qed
  have no_nl: "(line @ [13, 10]) ! j \<noteq> 10" if "j \<le> ?n" for j
  proof -
    have "10 \<notin> set (line @ [13])" using assms(1,2) by (simp add: bs_def)
    moreover have "(line @ [13, 10]) ! j \<in> set (line @ [13])" using that by (cases "j = ?n") (auto simp: nth_append)
    ultimately show ?thesis by auto
  qed
  show ?case
  proof (cases "?n + 2 \<le> tot")
    case True
    have fl: "find_line_end buf tot 0 0 = (?n, ?n + 2)"
      using True at [of ?n] at [of "?n + 1"] at no_nl by (intro find_line_end_crlf) (simp_all add: nth_append)
    have pre: "take (?n + 2) buf = line @ [13, 10]"
      using arg_cong [OF whole, of "take (?n + 2)"] True lb assms(3) by (auto simp: min_def split: if_splits)
    have n8: "8 \<le> ?n" "take 8 line = bs ''SSH-2.0-''" using assms(1) by (simp_all add: bs_def)
    have "take ?n buf = line" using arg_cong [OF pre, of "take ?n"] by (simp only: take_take) simp
    moreover have "take 8 buf = bs ''SSH-2.0-''"
      using arg_cong [OF calculation, of "take 8"] n8 by (simp only: take_take min.absorb1)
    moreover have "drop (?n + 2) (take tot buf) @ concat ps = rest"
      using arg_cong [OF whole, of "drop (?n + 2)"] True lb got(2) less.prems(3) assms(3) by (simp add: tot_def)
    ultimately show ?thesis using n8(1) by (simp add: step fl ReadSshIdBuffer_id_def after_id_def)
  next
    case False
    have "snd (find_line_end buf tot 0 0) = 0"
      using at no_nl False by (intro find_line_end_none) simp
    then have "read_ssh_id self pieces = read_ssh_id (self\<lparr>id_buf := buf, id_total := tot, id_bytes_read := 0\<rparr>) ps"
      by (simp add: step split_beta)
    moreover have "sum_list (map length ps) < sum_list (map length pieces)" using read_piece_shrinks r got(1) by metis
    ultimately show ?thesis using less.hyps lb whole False got(3) by simp
  qed
qed

section \<open>Properties\<close>

lemma ssh_id_read:
  assumes "concat pieces = bs ''SSH-2.0-'' @ v @ [13, 10] @ rest" "10 \<notin> set v" "length v \<le> 246" "[] \<notin> set pieces"
  shows "\<exists>self ps. read_ssh_id ReadSshIdBuffer_new pieces = Ok (self, ps)
    \<and> ReadSshIdBuffer_id self = bs ''SSH-2.0-'' @ v \<and> unread_bytes \<lparr>read_id = Some self, network = ps\<rparr> = rest"
proof -
  have "\<exists>self ps. read_ssh_id ReadSshIdBuffer_new pieces = Ok (self, ps)
      \<and> ReadSshIdBuffer_id self = bs ''SSH-2.0-'' @ v \<and> after_id self ps = rest"
    by (rule read_ssh_id_line) (use assms in \<open>auto simp: ReadSshIdBuffer_new_def bs_def\<close>)
  then show ?thesis by (simp add: unread_bytes_def)
qed

text \<open>
  C32: the identification line is read whole, in whatever pieces it arrives: for a line that starts with
  the version, has no newline inside and fits the buffer, \<open>read_ssh_id\<close> returns exactly the line without
  its end, and the bytes after it, up to what arrived together with it, are left for the reader of packets.
\<close>

theorem ssh_id_any_pieces:
  assumes "concat pieces = bs ''SSH-2.0-'' @ v @ [13, 10] @ rest" "10 \<notin> set v" "length v \<le> 246" "[] \<notin> set pieces"
  shows "\<exists>self ps. read_ssh_id ReadSshIdBuffer_new pieces = Ok (self, ps)
    \<and> ReadSshIdBuffer_id self = bs ''SSH-2.0-'' @ v \<and> unread_bytes \<lparr>read_id = Some self, network = ps\<rparr> = rest"
  using assms by (rule ssh_id_read)

theorem ssh_id_any_pieces_witness:
  "\<exists>self ps. read_ssh_id ReadSshIdBuffer_new [bs ''SS'', bs ''H-2.0-x'' @ [13], [10, 20], [1]] = Ok (self, ps)
    \<and> ReadSshIdBuffer_id self = bs ''SSH-2.0-'' @ [120] \<and> unread_bytes \<lparr>read_id = Some self, network = ps\<rparr> = [20, 1]"
  by (rule ssh_id_any_pieces) (simp_all add: bs_def)

lemma drop_take_join: "a \<le> m \<Longrightarrow> drop a (take m xs) @ drop m xs = drop a xs"
  by (induction xs arbitrary: a m) (auto simp: take_Cons' drop_Cons')

lemma poll_read_unread:
  assumes "poll_read n self = (out, self')"
  shows "out @ unread_bytes self' = unread_bytes self"
proof (cases "read_id self")
  case None
  then show ?thesis
    using assms read_piece_concat [of n "network self"]
    by (auto simp: poll_read_def unread_bytes_def Let_def split: prod.splits)
next
  case (Some i)
  let ?a = "id_bytes_read i" and ?t = "id_total i"
  let ?m = "min ?t (?a + n)"
  have "drop ?a (take ?m (id_buf i)) @ drop ?m (take ?t (id_buf i)) = drop ?a (take ?t (id_buf i))" if "?a < ?t"
    using drop_take_join [of ?a ?m "take ?t (id_buf i)"] that by (cases "?t \<le> ?a + n") (simp_all add: min_def)
  then show ?thesis
    using assms Some read_piece_concat [of n "network self"]
    by (auto simp: poll_read_def unread_bytes_def after_id_def Let_def split: prod.splits if_splits)
qed

text \<open>
  a server may send other lines before its identification (RFC 4253, section 4.2), but when such a line
  and the identification arrive in the same read, the identification is lost: reading goes on as if
  the rest of the read had never arrived, whatever it was.
\<close>

theorem preliminary_line_drops_rest:
  assumes "10 \<notin> set line" "take 8 line \<noteq> bs ''SSH-2.0-''" "length (line @ [13, 10] @ rest) \<le> 256"
  shows "\<exists>self. read_ssh_id ReadSshIdBuffer_new ((line @ [13, 10] @ rest) # pieces) = read_ssh_id self pieces
    \<and> id_total self = 0 \<and> id_bytes_read self = 0 \<and> length (id_buf self) = 256"
proof -
  let ?n = "length line"
  let ?got = "line @ [13, 10] @ rest"
  define buf where "buf = ?got @ replicate (256 - length ?got) 0"
  have at: "buf ! ?n = 13" "buf ! (?n + 1) = 10" by (simp_all add: buf_def nth_append)
  have no: "buf ! j \<noteq> 10" if "j \<le> ?n" for j
    using that at(1) assms(1) by (cases "j = ?n") (auto simp: buf_def nth_append in_set_conv_nth)
  have fl: "find_line_end buf (length ?got) 0 0 = (?n, ?n + 2)"
    using at no by (intro find_line_end_crlf) simp_all
  have "\<not> (8 \<le> ?n \<and> take 8 buf = bs ''SSH-2.0-'')" using assms(2) by (auto simp: buf_def)
  with assms(3) fl show ?thesis
    by (subst read_ssh_id.simps) (auto simp: ReadSshIdBuffer_new_def buf_def Let_def)
qed

theorem preliminary_line_drops_rest_witness:
  "\<exists>self. read_ssh_id ReadSshIdBuffer_new ((bs ''hello'' @ [13, 10] @ bs ''SSH-2.0-x'' @ [13, 10]) # []) = read_ssh_id self []
    \<and> id_total self = 0 \<and> id_bytes_read self = 0 \<and> length (id_buf self) = 256"
  by (rule preliminary_line_drops_rest) (simp_all add: bs_def)

end
