(* ===== verification/Negotiation.thy ===== *)
theory Negotiation
  imports Russh_Lib
begin

text \<open>
  Algorithm negotiation, \<^verbatim>\<open>crates/russh/src/negotiation.rs\<close>, with the algorithm names of
  \<^verbatim>\<open>kex/mod.rs\<close>, \<^verbatim>\<open>cipher/mod.rs\<close>, \<^verbatim>\<open>mac/mod.rs\<close> and \<^verbatim>\<open>compression.rs\<close>: the two \<open>select\<close> loops, the
  reading of a peer's KEXINIT and the writing of one's own. A host key enters through its
  algorithm name (\<open>KeyPair::name\<close>), since the key types belong to \<^verbatim>\<open>russh_keys\<close>; the
  cookie that \<open>write_kex\<close> draws at random is an argument.
\<close>

section \<open>Algorithm names\<close>

type_synonym name = string

definition CURVE25519 :: name where "CURVE25519 = ''curve25519-sha256''"
definition CURVE25519_PRE_RFC_8731 :: name where
  "CURVE25519_PRE_RFC_8731 = ''curve25519-sha256@libssh.org''"
definition DH_G14_SHA256 :: name where "DH_G14_SHA256 = ''diffie-hellman-group14-sha256''"
definition DH_G16_SHA512 :: name where "DH_G16_SHA512 = ''diffie-hellman-group16-sha512''"
definition EXTENSION_SUPPORT_AS_CLIENT :: name where
  "EXTENSION_SUPPORT_AS_CLIENT = ''ext-info-c''"
definition EXTENSION_SUPPORT_AS_SERVER :: name where
  "EXTENSION_SUPPORT_AS_SERVER = ''ext-info-s''"
definition EXTENSION_OPENSSH_STRICT_KEX_AS_CLIENT :: name where
  "EXTENSION_OPENSSH_STRICT_KEX_AS_CLIENT = ''kex-strict-c-v00@openssh.com''"
definition EXTENSION_OPENSSH_STRICT_KEX_AS_SERVER :: name where
  "EXTENSION_OPENSSH_STRICT_KEX_AS_SERVER = ''kex-strict-s-v00@openssh.com''"
definition mac_NONE :: name where "mac_NONE = ''none''"
definition ZLIB :: name where "ZLIB = ''zlib''"
definition ZLIB_LEGACY :: name where "ZLIB_LEGACY = ''zlib@openssh.com''"

lemmas kex_name_defs = CURVE25519_def CURVE25519_PRE_RFC_8731_def DH_G14_SHA256_def
  DH_G16_SHA512_def EXTENSION_SUPPORT_AS_CLIENT_def EXTENSION_SUPPORT_AS_SERVER_def
  EXTENSION_OPENSSH_STRICT_KEX_AS_CLIENT_def EXTENSION_OPENSSH_STRICT_KEX_AS_SERVER_def

text \<open>\<open>SAFE_KEX_ORDER\<close>, the key exchange list of both \<open>DEFAULT\<close> and \<open>COMPRESSED\<close>.\<close>

definition SAFE_KEX_ORDER :: "name list" where
  "SAFE_KEX_ORDER = [CURVE25519, CURVE25519_PRE_RFC_8731, DH_G16_SHA512, DH_G14_SHA256,
     EXTENSION_SUPPORT_AS_CLIENT, EXTENSION_SUPPORT_AS_SERVER,
     EXTENSION_OPENSSH_STRICT_KEX_AS_CLIENT, EXTENSION_OPENSSH_STRICT_KEX_AS_SERVER]"

text \<open>
  The table \<open>CIPHERS\<close> as far as negotiation reads it: whether the cipher of a name needs a MAC.
  The block ciphers do; \<open>clear\<close>, GCM and ChaCha20-Poly1305 do not.
\<close>

definition ciphers_needs_mac :: "name \<rightharpoonup> bool" where
  "ciphers_needs_mac = map_of [(''clear'', False), (''none'', False), (''3des-cbc'', True),
     (''aes128-ctr'', True), (''aes192-ctr'', True), (''aes256-ctr'', True),
     (''aes256-gcm@openssh.com'', False), (''aes128-cbc'', True), (''aes192-cbc'', True),
     (''aes256-cbc'', True), (''chacha20-poly1305@openssh.com'', False)]"

datatype compression = Compression_None | Compression_Zlib

definition Compression_new :: "name \<Rightarrow> compression" where
  "Compression_new n = (if n = ZLIB \<or> n = ZLIB_LEGACY then Compression_Zlib else Compression_None)"

section \<open>State\<close>

record names =
  names_kex :: name
  names_key :: name
  names_cipher :: name
  client_mac :: name
  server_mac :: name
  server_compression :: compression
  client_compression :: compression
  ignore_guessed :: bool
  strict_kex :: bool

record preferred =
  pref_kex :: "name list"
  pref_key :: "name list"
  pref_cipher :: "name list"
  pref_mac :: "name list"
  pref_compression :: "name list"

definition possible_host_key_algos_for_keys :: "preferred \<Rightarrow> name list \<Rightarrow> name list" where
  "possible_host_key_algos_for_keys self available_host_keys =
     filter (\<lambda>n. \<exists>k \<in> set available_host_keys. k = n) (pref_key self)"

section \<open>The select loops\<close>

text \<open>
  Each side runs two nested loops with the flag \<open>both_first_choice\<close>, cleared after the first
  comparison that fails. The inner loop gives the selection, if any, and the flag.
\<close>

fun client_inner :: "name \<Rightarrow> bytes list \<Rightarrow> bool \<Rightarrow> (bool \<times> name) option \<times> bool" where
  "client_inner c [] both_first = (None, both_first)"
| "client_inner c (s # ss) both_first =
     (if s = bs c then (Some (both_first, c), both_first) else client_inner c ss False)"

fun client_outer :: "name list \<Rightarrow> bytes list \<Rightarrow> bool \<Rightarrow> (bool \<times> name) option" where
  "client_outer [] ss both_first = None"
| "client_outer (c # cs) ss both_first =
     (case client_inner c ss both_first of
        (Some r, _) \<Rightarrow> Some r
      | (None, b) \<Rightarrow> client_outer cs ss b)"

definition Client_select :: "name list \<Rightarrow> bytes \<Rightarrow> (bool \<times> name) option" where
  "Client_select client_list server_list = client_outer client_list (split_at 44 server_list) True"

fun server_inner :: "bytes \<Rightarrow> name list \<Rightarrow> bool \<Rightarrow> (bool \<times> name) option \<times> bool" where
  "server_inner c [] both_first = (None, both_first)"
| "server_inner c (s # ss) both_first =
     (if c = bs s then (Some (both_first, s), both_first) else server_inner c ss False)"

fun server_outer :: "bytes list \<Rightarrow> name list \<Rightarrow> bool \<Rightarrow> (bool \<times> name) option" where
  "server_outer [] ss both_first = None"
| "server_outer (c # cs) ss both_first =
     (case server_inner c ss both_first of
        (Some r, _) \<Rightarrow> Some r
      | (None, b) \<Rightarrow> server_outer cs ss b)"

definition Server_select :: "name list \<Rightarrow> bytes \<Rightarrow> (bool \<times> name) option" where
  "Server_select server_list client_list = server_outer (split_at 44 client_list) server_list True"

text \<open>The trait \<open>Select\<close>: the implementation by role.\<close>

definition select :: "bool \<Rightarrow> name list \<Rightarrow> bytes \<Rightarrow> (bool \<times> name) option" where
  "select is_server a b = (if is_server then Server_select a b else Client_select a b)"

section \<open>Reading and writing KEXINIT\<close>

definition select_mac ::
  "bool \<Rightarrow> bool \<Rightarrow> name list \<Rightarrow> bytes \<Rightarrow> (error, name) outcome" where
  "select_mac is_server need_mac pref s =
     (case select is_server pref s of
        Some (_, m) \<Rightarrow> Ok m
      | None \<Rightarrow> if need_mac then Err NoCommonMac else Ok mac_NONE)"

definition select_compression ::
  "bool \<Rightarrow> name list \<Rightarrow> bytes \<Rightarrow> (error, compression) outcome" where
  "select_compression is_server pref s =
     (case select is_server pref s of
        Some (_, c) \<Rightarrow> Ok (Compression_new c)
      | None \<Rightarrow> Err NoCommonCompression)"

definition read_kex ::
  "codec \<Rightarrow> bool \<Rightarrow> bytes \<Rightarrow> preferred \<Rightarrow> name list option \<Rightarrow> (error, names) outcome" where
  "read_kex E is_server buffer pref available_host_keys =
    obind (read_or (read_string E (drop 17 buffer))) (\<lambda>(kex_string, r).
    obind (ok_or NoCommonKexAlgo (select is_server (pref_kex pref) kex_string))
      (\<lambda>(kex_both_first, kex_algorithm).
    let strict_kex_requested = (if is_server then EXTENSION_OPENSSH_STRICT_KEX_AS_SERVER
          else EXTENSION_OPENSSH_STRICT_KEX_AS_CLIENT) \<in> set (pref_kex pref);
        strict_kex_provided = select is_server
          [if is_server then EXTENSION_OPENSSH_STRICT_KEX_AS_CLIENT
           else EXTENSION_OPENSSH_STRICT_KEX_AS_SERVER] kex_string \<noteq> None
    in obind (read_or (read_string E r)) (\<lambda>(key_string, r).
    obind (ok_or NoCommonKeyAlgo (select is_server
        (case available_host_keys of
           Some ks \<Rightarrow> possible_host_key_algos_for_keys pref ks
         | None \<Rightarrow> pref_key pref) key_string)) (\<lambda>(key_both_first, key_algorithm).
    obind (read_or (read_string E r)) (\<lambda>(cipher_string, r).
    obind (ok_or NoCommonCipher (select is_server (pref_cipher pref) cipher_string))
      (\<lambda>(_, cipher).
    obind (read_or (read_string E r)) (\<lambda>(_, r).
    let need_mac = (case ciphers_needs_mac cipher of Some b \<Rightarrow> b | None \<Rightarrow> False)
    in obind (read_or (read_string E r)) (\<lambda>(client_mac_string, r).
    obind (select_mac is_server need_mac (pref_mac pref) client_mac_string) (\<lambda>cmac.
    obind (read_or (read_string E r)) (\<lambda>(server_mac_string, r).
    obind (select_mac is_server need_mac (pref_mac pref) server_mac_string) (\<lambda>smac.
    obind (read_or (read_string E r)) (\<lambda>(client_comp_string, r).
    obind (select_compression is_server (pref_compression pref) client_comp_string) (\<lambda>ccomp.
    obind (read_or (read_string E r)) (\<lambda>(server_comp_string, r).
    obind (select_compression is_server (pref_compression pref) server_comp_string) (\<lambda>scomp.
    obind (read_or (read_string E r)) (\<lambda>(_, r).
    obind (read_or (read_string E r)) (\<lambda>(_, r).
    obind (read_or (read_byte E r)) (\<lambda>(follows, r).
    Ok \<lparr>names_kex = kex_algorithm, names_key = key_algorithm, names_cipher = cipher,
        client_mac = cmac, server_mac = smac, server_compression = scomp,
        client_compression = ccomp,
        ignore_guessed = (follows \<noteq> 0 \<and> \<not> (kex_both_first \<and> key_both_first)),
        strict_kex = (strict_kex_requested \<and> strict_kex_provided)\<rparr>))))))))))))))))))"

text \<open>
  \<open>server_config\<close> is present on the server, and then carries the names of its host keys.
\<close>

definition kex_offer :: "preferred \<Rightarrow> name list option \<Rightarrow> name list" where
  "kex_offer prefs server_keys = filter (\<lambda>k. k \<notin> set
     (if server_keys \<noteq> None
      then [EXTENSION_SUPPORT_AS_CLIENT, EXTENSION_OPENSSH_STRICT_KEX_AS_CLIENT]
      else [EXTENSION_SUPPORT_AS_SERVER, EXTENSION_OPENSSH_STRICT_KEX_AS_SERVER]))
     (pref_kex prefs)"

definition key_offer :: "preferred \<Rightarrow> name list option \<Rightarrow> name list" where
  "key_offer prefs server_keys =
     (case server_keys of
        Some ks \<Rightarrow> filter (\<lambda>n. \<exists>k \<in> set ks. k = n) (pref_key prefs)
      | None \<Rightarrow> pref_key prefs)"

definition write_kex :: "codec \<Rightarrow> preferred \<Rightarrow> bytes \<Rightarrow> bytes \<Rightarrow> name list option \<Rightarrow> bytes" where
  "write_kex E prefs buf cookie server_keys =
     buf @ [KEXINIT] @ cookie
     @ extend_list E (map bs (kex_offer prefs server_keys))
     @ extend_list E (map bs (key_offer prefs server_keys))
     @ extend_list E (map bs (pref_cipher prefs))
     @ extend_list E (map bs (pref_cipher prefs))
     @ extend_list E (map bs (pref_mac prefs))
     @ extend_list E (map bs (pref_mac prefs))
     @ extend_list E (map bs (pref_compression prefs))
     @ extend_list E (map bs (pref_compression prefs))
     @ write_empty_list E
     @ write_empty_list E
     @ [0]
     @ [0, 0, 0, 0]"

section \<open>What selection means\<close>

text \<open>
  The contract of RFC 4253, section 7.1: the first algorithm of the client's list that the server
  also has. The first component tells whether both sides name the same algorithm first.
\<close>

definition name_ok :: "name \<Rightarrow> bool" where
  "name_ok n \<longleftrightarrow> n \<noteq> [] \<and> 44 \<notin> set (bs n)"

definition wire :: "name list \<Rightarrow> bytes" where
  "wire ns = join_with (bs '','') (map bs ns)"

abbreviation names_ok :: "name list \<Rightarrow> bool" where
  "names_ok ns \<equiv> list_all name_ok ns"

locale algo_choice =
  fixes pick :: "name list \<Rightarrow> name list \<Rightarrow> (bool \<times> name) option"
  assumes pick_spec:
    "names_ok cl \<Longrightarrow> names_ok sl \<Longrightarrow>
     pick cl sl = map_option (Pair (hd cl = hd sl)) (find (\<lambda>c. c \<in> set sl) cl)"
begin

lemma pick_common:
  "names_ok cl \<Longrightarrow> names_ok sl \<Longrightarrow> pick cl sl = Some (b, n) \<Longrightarrow> n \<in> set cl \<and> n \<in> set sl"
  by (auto simp: pick_spec find_Some_iff)

lemma pick_None:
  "names_ok cl \<Longrightarrow> names_ok sl \<Longrightarrow> pick cl sl = None \<longleftrightarrow> set cl \<inter> set sl = {}"
  by (auto simp: pick_spec find_None_iff)

lemma pick_singleton:
  "name_ok n \<Longrightarrow> names_ok sl \<Longrightarrow> pick [n] sl \<noteq> None \<longleftrightarrow> n \<in> set sl"
  by (simp add: pick_spec)

end

lemma find_append: "find P (us @ vs) = (case find P us of None \<Rightarrow> find P vs | r \<Rightarrow> r)"
  by (induction us) auto

text \<open>Both loops meet it.\<close>

lemma bs_comma [simp]: "bs '','' = [44]"
  by (simp add: bs_def)

lemma bs_Nil_iff [simp]: "bs x = [] \<longleftrightarrow> x = []" "[] = bs x \<longleftrightarrow> x = []"
  by (auto simp: bs_def)

lemma pieces_wire:
  assumes "names_ok ns"
  shows "split_at 44 (wire ns) = (if ns = [] then [[]] else map bs ns)"
  using assms by (auto simp: wire_def name_ok_def list_all_iff intro!: split_at_join)

lemma client_inner_hit:
  "bs c \<in> set ss \<Longrightarrow> fst (client_inner c ss bf) = Some (bf \<and> hd ss = bs c, c)"
  by (induction ss arbitrary: bf) auto

lemma client_inner_miss:
  "bs c \<notin> set ss \<Longrightarrow> client_inner c ss bf = (None, bf \<and> ss = [])"
  by (induction ss arbitrary: bf) auto

lemma client_outer_eq:
  "ss \<noteq> [] \<Longrightarrow> client_outer cs ss bf =
     map_option (Pair (bf \<and> bs (hd cs) = hd ss)) (find (\<lambda>c. bs c \<in> set ss) cs)"
proof (induction cs arbitrary: bf)
  case (Cons c cs)
  show ?case
  proof (cases "bs c \<in> set ss")
    case True
    then show ?thesis
      using client_inner_hit [OF True, of bf] by (auto split: prod.splits)
  next
    case False
    then have "bs c \<noteq> hd ss" using Cons.prems by (cases ss) auto
    then show ?thesis
      using False Cons by (simp add: client_inner_miss)
  qed
qed simp

lemma server_inner_hit:
  "c \<in> set ss \<Longrightarrow> fst (server_inner (bs c) ss bf) = Some (bf \<and> hd ss = c, c)"
  by (induction ss arbitrary: bf) auto

lemma server_inner_miss:
  "c \<notin> set ss \<Longrightarrow> server_inner (bs c) ss bf = (None, bf \<and> ss = [])"
  by (induction ss arbitrary: bf) auto

lemma server_outer_eq:
  "ss \<noteq> [] \<Longrightarrow> server_outer (map bs cs) ss bf =
     map_option (Pair (bf \<and> hd cs = hd ss)) (find (\<lambda>c. c \<in> set ss) cs)"
proof (induction cs arbitrary: bf)
  case (Cons c cs)
  show ?case
  proof (cases "c \<in> set ss")
    case True
    then show ?thesis
      using server_inner_hit [OF True, of bf] by (auto split: prod.splits)
  next
    case False
    then have "c \<noteq> hd ss" using Cons.prems by (cases ss) auto
    then show ?thesis
      using False Cons by (simp add: server_inner_miss)
  qed
qed simp

lemma server_outer_Nil [simp]: "server_outer cs [] bf = None"
  by (induction cs) auto

lemma find_False [simp]: "find (\<lambda>c. False) cs = None"
  by (induction cs) auto

lemma names_ok_no_empty: "names_ok ns \<Longrightarrow> [] \<notin> set ns"
  by (auto simp: list_all_iff name_ok_def)

interpretation client_side: algo_choice "\<lambda>cl sl. Client_select cl (wire sl)"
proof
  fix cl sl
  assume ok: "names_ok cl" "names_ok sl"
  show "Client_select cl (wire sl) =
      map_option (Pair (hd cl = hd sl)) (find (\<lambda>c. c \<in> set sl) cl)"
  proof (cases "sl = []")
    case True
    have "find (\<lambda>c. c = []) cl = None" using names_ok_no_empty [OF ok(1)] by (auto simp: find_None_iff)
    with True ok show ?thesis by (simp add: Client_select_def pieces_wire client_outer_eq)
  next
    case False
    have "(\<lambda>c. bs c \<in> bs ` set sl) = (\<lambda>c. c \<in> set sl)" by (auto simp: fun_eq_iff)
    with False ok show ?thesis
      by (cases "cl = []") (simp_all add: Client_select_def pieces_wire client_outer_eq hd_map)
  qed
qed

interpretation server_side: algo_choice "\<lambda>cl sl. Server_select sl (wire cl)"
proof
  fix cl sl
  assume ok: "names_ok cl" "names_ok sl"
  show "Server_select sl (wire cl) =
      map_option (Pair (hd cl = hd sl)) (find (\<lambda>c. c \<in> set sl) cl)"
  proof (cases "cl = []")
    case True
    have "server_outer (map bs [[]]) sl True = None"
      using names_ok_no_empty [OF ok(2)]
      by (cases "sl = []") (simp_all add: server_outer_eq del: list.map)
    moreover have "split_at 44 (wire cl) = map bs [[]]"
      using True by (simp add: pieces_wire bs_def)
    ultimately show ?thesis using True by (simp only: Server_select_def) simp
  next
    case False
    then show ?thesis
      using ok by (cases "sl = []") (simp_all add: Server_select_def pieces_wire server_outer_eq)
  qed
qed

section \<open>Two peers reading each other\<close>

definition extension_names :: "name list" where
  "extension_names = [EXTENSION_SUPPORT_AS_CLIENT, EXTENSION_SUPPORT_AS_SERVER,
     EXTENSION_OPENSSH_STRICT_KEX_AS_CLIENT, EXTENSION_OPENSSH_STRICT_KEX_AS_SERVER]"

text \<open>
  Preferences that fit on the wire, with the extension markers after the algorithms, as in
  \<open>SAFE_KEX_ORDER\<close>: \<open>algos\<close> is the part of the list before the first marker.
\<close>

definition list_fits :: "name list \<Rightarrow> bool" where
  "list_fits ns \<longleftrightarrow> names_ok ns \<and> (\<Sum>n\<leftarrow>ns. length n + 1) < 2 ^ 32"

definition pref_ok :: "preferred \<Rightarrow> bool" where
  "pref_ok p \<longleftrightarrow> list_fits (pref_kex p) \<and> list_fits (pref_key p) \<and> list_fits (pref_cipher p)
     \<and> list_fits (pref_mac p) \<and> list_fits (pref_compression p)"

definition algos :: "preferred \<Rightarrow> name list" where
  "algos p = takeWhile (\<lambda>n. n \<notin> set extension_names) (pref_kex p)"

lemma length_join_with: "length (join_with [c] xs) \<le> (\<Sum>x\<leftarrow>xs. length x + 1)"
  by (induction "[c]" xs rule: join_with.induct) auto

lemma list_fits_wire: "list_fits ns \<Longrightarrow> length (wire ns) < 4294967296"
  using length_join_with [of 44 "map bs ns"]
  by (simp add: list_fits_def wire_def comp_def)

lemma list_fits_filter: "list_fits ns \<Longrightarrow> list_fits (filter P ns)"
  using sum_list_filter_le_nat [of "\<lambda>n. length n + 1" P ns]
  by (auto simp: list_fits_def list_all_iff)

lemma list_fits_names_ok: "list_fits ns \<Longrightarrow> names_ok ns"
  by (simp add: list_fits_def)

lemma kex_offer_fits: "pref_ok p \<Longrightarrow> list_fits (kex_offer p ks)"
  by (simp add: kex_offer_def pref_ok_def list_fits_filter)

lemma key_offer_fits: "pref_ok p \<Longrightarrow> list_fits (key_offer p ks)"
  by (cases ks) (simp_all add: key_offer_def pref_ok_def list_fits_filter)

lemma wire_fold: "join_with [44] (map bs ns) = wire ns"
  by (simp add: wire_def)

context ssh_encoding
begin

lemma read_wire: "list_fits ns \<Longrightarrow> read_string E (extend_list E (map bs ns) @ r) = Some (wire ns, r)"
  using read_name_list [of "map bs ns" r] list_fits_wire [of ns] by (simp add: wire_fold)

text \<open>What reading a written KEXINIT amounts to: the selections, on the offered lists.\<close>

lemma read_write_kex:
  assumes "pref_ok q" and "length cookie = 16"
  shows "read_kex E srv (write_kex E q [] cookie ks) p hk =
    obind (ok_or NoCommonKexAlgo (select srv (pref_kex p) (wire (kex_offer q ks)))) (\<lambda>(kf, kex).
    obind (ok_or NoCommonKeyAlgo (select srv
        (case hk of Some hks \<Rightarrow> possible_host_key_algos_for_keys p hks | None \<Rightarrow> pref_key p)
        (wire (key_offer q ks)))) (\<lambda>(hf, key).
    obind (ok_or NoCommonCipher (select srv (pref_cipher p) (wire (pref_cipher q)))) (\<lambda>(_, ci).
    let need = (case ciphers_needs_mac ci of Some b \<Rightarrow> b | None \<Rightarrow> False) in
    obind (select_mac srv need (pref_mac p) (wire (pref_mac q))) (\<lambda>m.
    obind (select_compression srv (pref_compression p) (wire (pref_compression q))) (\<lambda>co.
    Ok \<lparr>names_kex = kex, names_key = key, names_cipher = ci, client_mac = m, server_mac = m,
        server_compression = co, client_compression = co, ignore_guessed = False,
        strict_kex = ((if srv then EXTENSION_OPENSSH_STRICT_KEX_AS_SERVER
            else EXTENSION_OPENSSH_STRICT_KEX_AS_CLIENT) \<in> set (pref_kex p)
          \<and> select srv [if srv then EXTENSION_OPENSSH_STRICT_KEX_AS_CLIENT
              else EXTENSION_OPENSSH_STRICT_KEX_AS_SERVER] (wire (kex_offer q ks)) \<noteq> None)\<rparr>)))))"
proof -
  note fits = kex_offer_fits [OF assms(1), of ks] key_offer_fits [OF assms(1), of ks]
  have more: "list_fits (pref_cipher q)" "list_fits (pref_mac q)" "list_fits (pref_compression q)"
    using assms(1) by (simp_all add: pref_ok_def)
  have same: "obind x (\<lambda>m. obind x (\<lambda>m'. f m m')) = obind x (\<lambda>m. f m m)"
    for x :: "(error, 'x) outcome" and f :: "'x \<Rightarrow> 'x \<Rightarrow> (error, names) outcome"
    by (cases x) auto
  show ?thesis
    using assms(2)
    by (simp add: read_kex_def write_kex_def read_wire fits more read_empty_list read_byte_Cons
        obind_assoc same Let_def case_prod_beta)
qed

end

lemma select_wire:
  assumes "names_ok a" "names_ok b"
  shows "select srv a (wire b) =
    (if srv then map_option (Pair (hd b = hd a)) (find (\<lambda>c. c \<in> set a) b)
     else map_option (Pair (hd a = hd b)) (find (\<lambda>c. c \<in> set b) a))"
  using assms by (simp add: select_def client_side.pick_spec server_side.pick_spec)

lemma algos_no_extension: "c \<in> set (algos p) \<Longrightarrow> c \<notin> set extension_names"
  by (auto simp: algos_def dest: set_takeWhileD)

lemma pref_kex_split: "\<exists>rest. pref_kex p = algos p @ rest"
  unfolding algos_def by (metis takeWhile_dropWhile_id)

lemma kex_offer_algos: "c \<in> set (algos p) \<Longrightarrow> c \<in> set (kex_offer q ks) \<longleftrightarrow> c \<in> set (pref_kex q)"
  using algos_no_extension [of c p] by (auto simp: kex_offer_def extension_names_def)

lemma find_common_client:
  assumes "set (algos pc) \<inter> set (pref_kex ps) \<noteq> {}"
  shows "find (\<lambda>c. c \<in> set (kex_offer ps ks)) (pref_kex pc) =
    find (\<lambda>c. c \<in> set (pref_kex ps)) (algos pc)"
proof -
  obtain rest where r: "pref_kex pc = algos pc @ rest" using pref_kex_split by blast
  have eq: "find (\<lambda>c. c \<in> set (kex_offer ps ks)) (algos pc) =
      find (\<lambda>c. c \<in> set (pref_kex ps)) (algos pc)"
    by (rule find_cong) (simp_all add: kex_offer_algos)
  have "find (\<lambda>c. c \<in> set (pref_kex ps)) (algos pc) \<noteq> None"
    using assms by (auto simp: find_None_iff)
  then show ?thesis by (subst r) (auto simp: find_append eq)
qed

lemma find_common_server:
  assumes "set (algos pc) \<inter> set (pref_kex ps) \<noteq> {}"
  shows "find (\<lambda>c. c \<in> set (pref_kex ps)) (kex_offer pc None) =
    find (\<lambda>c. c \<in> set (pref_kex ps)) (algos pc)"
proof -
  obtain rest where r: "pref_kex pc = algos pc @ rest" using pref_kex_split by blast
  have "filter (\<lambda>k. k \<notin> set [EXTENSION_SUPPORT_AS_SERVER, EXTENSION_OPENSSH_STRICT_KEX_AS_SERVER])
      (algos pc) = algos pc"
    by (rule filter_True) (use algos_no_extension in \<open>auto simp: extension_names_def\<close>)
  then have "\<exists>rest'. kex_offer pc None = algos pc @ rest'"
    by (simp add: kex_offer_def r)
  moreover have "find (\<lambda>c. c \<in> set (pref_kex ps)) (algos pc) \<noteq> None"
    using assms by (auto simp: find_None_iff)
  ultimately show ?thesis by (auto simp: find_append)
qed

lemma strict_names_offered:
  "EXTENSION_OPENSSH_STRICT_KEX_AS_SERVER \<in> set (kex_offer p (Some hk)) \<longleftrightarrow>
     EXTENSION_OPENSSH_STRICT_KEX_AS_SERVER \<in> set (pref_kex p)"
  "EXTENSION_OPENSSH_STRICT_KEX_AS_CLIENT \<in> set (kex_offer p None) \<longleftrightarrow>
     EXTENSION_OPENSSH_STRICT_KEX_AS_CLIENT \<in> set (pref_kex p)"
  by (auto simp: kex_offer_def kex_name_defs)

lemma strict_names_ok:
  "name_ok EXTENSION_OPENSSH_STRICT_KEX_AS_SERVER" "name_ok EXTENSION_OPENSSH_STRICT_KEX_AS_CLIENT"
  by (simp_all add: name_ok_def kex_name_defs bs_def)

lemmas select_read = select_wire [OF list_fits_names_ok list_fits_names_ok]

lemma kexinit_names_agree:
  assumes enc: "ssh_encoding E" and ok: "pref_ok pc" "pref_ok ps"
    and cookies: "length cookie_c = 16" "length cookie_s = 16"
    and common: "set (algos pc) \<inter> set (pref_kex ps) \<noteq> {}"
  shows "read_kex E False (write_kex E ps [] cookie_s (Some hk)) pc None =
         read_kex E True (write_kex E pc [] cookie_c None) ps (Some hk)"
proof -
  note rw = ssh_encoding.read_write_kex [OF enc]
  have key: "possible_host_key_algos_for_keys ps hk = key_offer ps (Some hk)"
    by (simp add: possible_host_key_algos_for_keys_def key_offer_def)
  have own: "key_offer pc None = pref_key pc" by (simp add: key_offer_def)
  have fits: "list_fits (pref_kex p)" "list_fits (pref_key p)" "list_fits (pref_cipher p)"
    "list_fits (pref_mac p)" "list_fits (pref_compression p)" if "pref_ok p" for p
    using that by (simp_all add: pref_ok_def)
  note f = fits [OF ok(1)] fits [OF ok(2)] kex_offer_fits [OF ok(1)] kex_offer_fits [OF ok(2)]
    key_offer_fits [OF ok(1)] key_offer_fits [OF ok(2)]
  have strict: "select False [EXTENSION_OPENSSH_STRICT_KEX_AS_SERVER]
        (wire (kex_offer ps (Some hk))) \<noteq> None \<longleftrightarrow>
      EXTENSION_OPENSSH_STRICT_KEX_AS_SERVER \<in> set (pref_kex ps)"
    "select True [EXTENSION_OPENSSH_STRICT_KEX_AS_CLIENT] (wire (kex_offer pc None)) \<noteq> None \<longleftrightarrow>
      EXTENSION_OPENSSH_STRICT_KEX_AS_CLIENT \<in> set (pref_kex pc)"
    using f by (auto simp: select_wire list_fits_names_ok strict_names_ok strict_names_offered
        find_None_iff split: option.splits)
  have drop_flag: "obind (ok_or e (map_option (Pair b) x)) (\<lambda>(_, n). g n) = obind (ok_or e x) g"
    for e :: error and b :: bool and x and g :: "name \<Rightarrow> (error, names) outcome"
    by (cases x) auto
  have mac: "select_mac False need (pref_mac pc) (wire (pref_mac ps)) =
      select_mac True need (pref_mac ps) (wire (pref_mac pc))" for need
    using f by (auto simp: select_mac_def select_read split: option.splits)
  have comp: "select_compression False (pref_compression pc) (wire (pref_compression ps)) =
      select_compression True (pref_compression ps) (wire (pref_compression pc))"
    using f by (auto simp: select_compression_def select_read split: option.splits)
  show ?thesis
    using f by (simp add: rw ok cookies strict key select_read find_common_client [OF common]
        find_common_server [OF common] drop_flag mac comp own conj_commute del: not_None_eq)
qed

text \<open>C9: two russh peers that exchange KEXINIT packets reach the same outcome. Each side reads what
  the other wrote, the client through its own loop and the server through its own, and both get
  the same algorithms, the same strict-kex flag, or the same error, provided the lists fit on the
  wire and some key exchange algorithm (not an extension marker) is common to both.\<close>

theorem kexinit_agreement:
  assumes enc: "ssh_encoding E" and ok: "pref_ok pc" "pref_ok ps"
    and cookies: "length cookie_c = 16" "length cookie_s = 16"
    and common: "set (algos pc) \<inter> set (pref_kex ps) \<noteq> {}"
  shows "read_kex E False (write_kex E ps [] cookie_s (Some hk)) pc None =
         read_kex E True (write_kex E pc [] cookie_c None) ps (Some hk)"
  using assms by (rule kexinit_names_agree)

lemma default_pref_ok:
  "pref_ok \<lparr>pref_kex = SAFE_KEX_ORDER, pref_key = [''ssh-ed25519''],
     pref_cipher = [''aes256-ctr''], pref_mac = [''hmac-sha2-256''], pref_compression = [''none'']\<rparr>"
  by (simp add: pref_ok_def list_fits_def name_ok_def SAFE_KEX_ORDER_def kex_name_defs bs_def)

theorem kexinit_agreement_witness:
  "let p = \<lparr>pref_kex = SAFE_KEX_ORDER, pref_key = [''ssh-ed25519''],
     pref_cipher = [''aes256-ctr''], pref_mac = [''hmac-sha2-256''], pref_compression = [''none'']\<rparr>
   in read_kex rfc4251 False (write_kex rfc4251 p [] (replicate 16 7) (Some [''ssh-ed25519''])) p None
      = read_kex rfc4251 True (write_kex rfc4251 p [] (replicate 16 9) None) p (Some [''ssh-ed25519''])"
  unfolding Let_def
  by (rule kexinit_agreement [OF rfc.ssh_encoding_axioms default_pref_ok default_pref_ok])
    (simp_all add: algos_def SAFE_KEX_ORDER_def kex_name_defs extension_names_def)

text \<open>when the only names two peers have in common are extension markers, the client does not
  report that there is no common key exchange algorithm: if its own list and the server's both
  hold the server's extension marker, any names it reads carry an extension marker as the key
  exchange algorithm.\<close>

theorem extension_marker_selected:
  assumes enc: "ssh_encoding E" and ok: "pref_ok pc" "pref_ok ps"
    and cookie: "length cookie = 16"
    and only: "set (pref_kex pc) \<inter> set (pref_kex ps) \<subseteq> set extension_names"
    and marker: "EXTENSION_SUPPORT_AS_SERVER \<in> set (pref_kex pc) \<inter> set (pref_kex ps)"
  shows "read_kex E False (write_kex E ps [] cookie (Some hk)) pc None \<noteq> Err NoCommonKexAlgo
    \<and> (\<forall>n. read_kex E False (write_kex E ps [] cookie (Some hk)) pc None = Ok n \<longrightarrow>
          names_kex n \<in> set extension_names)"
proof -
  let ?sel = "select False (pref_kex pc) (wire (kex_offer ps (Some hk)))"
  have sel: "?sel = map_option (Pair (hd (pref_kex pc) = hd (kex_offer ps (Some hk))))
      (find (\<lambda>c. c \<in> set (kex_offer ps (Some hk))) (pref_kex pc))"
    using ok kex_offer_fits [OF ok(2)] by (simp add: select_read pref_ok_def)
  have "EXTENSION_SUPPORT_AS_SERVER \<in> set (kex_offer ps (Some hk))"
    using marker by (simp add: kex_offer_def kex_name_defs)
  then have "?sel \<noteq> None" using marker by (auto simp: sel find_None_iff)
  then obtain b n where n: "?sel = Some (b, n)" by auto
  then have "n \<in> set (pref_kex pc)" "n \<in> set (kex_offer ps (Some hk))"
    by (auto simp: sel find_Some_iff)
  then have "n \<in> set extension_names" using only by (auto simp: kex_offer_def)
  then show ?thesis
    by (auto simp: ssh_encoding.read_write_kex [OF enc ok(2) cookie] n obind_Err_iff obind_Ok_iff
        ok_or_def Let_def select_mac_def select_compression_def split: option.splits if_splits)
qed

theorem extension_marker_selected_witness:
  "let p = \<lparr>pref_kex = [DH_G14_SHA256, EXTENSION_SUPPORT_AS_SERVER], pref_key = [''ssh-ed25519''],
       pref_cipher = [''aes256-ctr''], pref_mac = [''hmac-sha2-256''], pref_compression = [''none'']\<rparr>;
     q = p\<lparr>pref_kex := [CURVE25519, EXTENSION_SUPPORT_AS_SERVER]\<rparr>
   in read_kex rfc4251 False (write_kex rfc4251 q [] (replicate 16 7) (Some [''ssh-ed25519''])) p None
      \<noteq> Err NoCommonKexAlgo"
  unfolding Let_def
  by (rule extension_marker_selected [OF rfc.ssh_encoding_axioms, THEN conjunct1])
    (simp_all add: pref_ok_def list_fits_def name_ok_def kex_name_defs bs_def extension_names_def)

end
