(* ===== verification/Channel_Session.thy ===== *)
theory Channel_Session
  imports Negotiation Packet_Cipher
begin

text \<open>
  The session core of \<^verbatim>\<open>crates/russh/src/session.rs\<close>: the key-exchange states, the encrypted session
  with its channels, and the flow control of a channel (the window, the queue of data that did
  not fit, deferred EOF and CLOSE). A boxed \<open>KexAlgorithm\<close> is a type parameter \<open>'k\<close>, the cipher pair a
  type parameter \<open>'c\<close>, a zlib stream \<open>'z\<close>; the iteration order of a \<open>HashMap\<close> is an argument.
\<close>

section \<open>Key exchange states\<close>

record exchange =
  client_id :: bytes
  server_id :: bytes
  client_kex_init :: bytes
  server_kex_init :: bytes
  client_ephemeral :: bytes
  server_ephemeral :: bytes

definition Exchange_new :: exchange where
  "Exchange_new = \<lparr>client_id = [], server_id = [], client_kex_init = [], server_kex_init = [],
     client_ephemeral = [], server_ephemeral = []\<rparr>"

record kex_init =
  ki_algo :: "names option"
  ki_exchange :: exchange
  ki_session_id :: "bytes option"
  ki_sent :: bool

definition clear_exchange :: "exchange \<Rightarrow> exchange" where
  "clear_exchange ex = ex\<lparr>client_kex_init := [], server_kex_init := [], client_ephemeral := [],
     server_ephemeral := []\<rparr>"

definition KexInit_received_rekey :: "exchange \<Rightarrow> names \<Rightarrow> bytes \<Rightarrow> kex_init" where
  "KexInit_received_rekey ex algo session_id = \<lparr>ki_algo = Some algo, ki_exchange = clear_exchange ex,
     ki_session_id = Some session_id, ki_sent = False\<rparr>"

definition KexInit_initiate_rekey :: "exchange \<Rightarrow> bytes \<Rightarrow> kex_init" where
  "KexInit_initiate_rekey ex session_id = \<lparr>ki_algo = None, ki_exchange = clear_exchange ex,
     ki_session_id = Some session_id, ki_sent = True\<rparr>"

record kex_dh =
  dh_exchange :: exchange
  dh_names :: names
  dh_key :: nat
  dh_session_id :: "bytes option"

record 'k kex_dh_done =
  done_exchange :: exchange
  done_kex :: 'k
  done_key :: nat
  done_session_id :: "bytes option"
  done_names :: names

record ('k, 'c) new_keys =
  nk_exchange :: exchange
  nk_names :: names
  nk_kex :: 'k
  nk_key :: nat
  nk_cipher :: 'c
  nk_session_id :: bytes
  nk_sent :: bool

datatype ('k, 'c) kex =
  Init kex_init | Dh kex_dh | DhDone "'k kex_dh_done" | KexKeys "('k, 'c) new_keys"

text \<open>
  \<open>KexDhDone::compute_keys\<close>: the session identifier is the first exchange hash and stays. The
  method \<open>KexAlgorithm::compute_keys\<close> of the boxed algorithm is an argument.
\<close>

definition KexDhDone_compute_keys ::
  "('k \<Rightarrow> bytes \<Rightarrow> bytes \<Rightarrow> name \<Rightarrow> name \<Rightarrow> name \<Rightarrow> bool \<Rightarrow> (error, 'c) outcome) \<Rightarrow>
   'k kex_dh_done \<Rightarrow> bytes \<Rightarrow> bool \<Rightarrow> (error, ('k, 'c) new_keys) outcome" where
  "KexDhDone_compute_keys alg_compute_keys self hash is_server =
    (let session_id = (case done_session_id self of Some s \<Rightarrow> s | None \<Rightarrow> hash);
         n = done_names self
     in obind (alg_compute_keys (done_kex self) session_id hash (names_cipher n)
            (if is_server then client_mac n else server_mac n)
            (if is_server then server_mac n else client_mac n) is_server) (\<lambda>c.
        Ok \<lparr>nk_exchange = done_exchange self, nk_names = n, nk_kex = done_kex self,
            nk_key = done_key self, nk_cipher = c, nk_session_id = session_id, nk_sent = False\<rparr>))"

section \<open>The encrypted session\<close>

datatype current_request =
  CurrentPublicKey bytes bytes bool | CurrentKeyboardInteractive bytes

record auth_request =
  methods :: u32
  partial_success :: bool
  current :: "current_request option"
  rejection_count :: nat

datatype encrypted_state =
  WaitingAuthServiceRequest bool bool | WaitingAuthRequest auth_request | InitCompression
| Authenticated

record ('k, 'c, 'z) encrypted =
  state :: encrypted_state
  exchange_of :: "exchange option"
  kex_alg :: 'k
  kex_key :: nat
  enc_client_mac :: name
  enc_server_mac :: name
  session_id :: bytes
  rekey :: "('k, 'c) kex option"
  channels :: "channel_id \<rightharpoonup> channel_params"
  last_channel_id :: u32
  "write" :: bytes
  write_cursor :: nat
  last_rekey :: nat
  enc_server_compression :: compression
  enc_client_compression :: compression
  compress :: "'z option"
  decompress :: "'z option"

record ('cfg, 'k, 'c, 'z, 'm) common_session =
  auth_user :: bytes
  remote_sshid :: bytes
  config :: 'cfg
  encrypted_of :: "('k, 'c, 'z) encrypted option"
  auth_method :: "'m option"
  auth_attempts :: nat
  write_buffer :: sshbuffer
  kex_of :: "('k, 'c) kex option"
  cipher :: 'c
  common_wants_reply :: bool
  disconnected :: bool
  common_buffer :: bytes
  common_strict_kex :: bool
  alive_timeouts :: nat
  received_data :: bool

definition CommonSession_newkeys ::
  "('cfg, 'k, 'c, 'z, 'm) common_session \<Rightarrow> ('k, 'c) new_keys \<Rightarrow> ('cfg, 'k, 'c, 'z, 'm) common_session"
where
  "CommonSession_newkeys self nk =
    (case encrypted_of self of
       None \<Rightarrow> self
     | Some enc \<Rightarrow> self\<lparr>encrypted_of := Some (enc\<lparr>exchange_of := Some (nk_exchange nk),
           kex_alg := nk_kex nk, kex_key := nk_key nk, enc_client_mac := client_mac (nk_names nk),
           enc_server_mac := server_mac (nk_names nk)\<rparr>),
         cipher := nk_cipher nk,
         common_strict_kex := (common_strict_kex self \<or> strict_kex (nk_names nk))\<rparr>)"

definition CommonSession_encrypted ::
  "('cfg, 'k, 'c, 'z, 'm) common_session \<Rightarrow> encrypted_state \<Rightarrow> ('k, 'c) new_keys \<Rightarrow> nat \<Rightarrow>
   ('cfg, 'k, 'c, 'z, 'm) common_session" where
  "CommonSession_encrypted self st nk now = self\<lparr>
     encrypted_of := Some \<lparr>state = st, exchange_of = Some (nk_exchange nk), kex_alg = nk_kex nk,
       kex_key = nk_key nk, enc_client_mac = client_mac (nk_names nk),
       enc_server_mac = server_mac (nk_names nk), session_id = nk_session_id nk, rekey = None,
       channels = Map.empty, last_channel_id = 1, write = [], write_cursor = 0, last_rekey = now,
       enc_server_compression = server_compression (nk_names nk),
       enc_client_compression = client_compression (nk_names nk),
       compress = None, decompress = None\<rparr>,
     cipher := nk_cipher nk, common_strict_kex := strict_kex (nk_names nk)\<rparr>"

definition CommonSession_disconnect ::
  "codec \<Rightarrow> ('cfg, 'k, 'c, 'z, 'm) common_session \<Rightarrow> disconnect \<Rightarrow> bytes \<Rightarrow> bytes \<Rightarrow>
   ('cfg, 'k, 'c, 'z, 'm) common_session" where
  "CommonSession_disconnect E self reason description language_tag =
    (let packet = DISCONNECT # push_u32_be E (disconnect_code reason)
           @ extend_ssh_string E description @ extend_ssh_string E language_tag
     in if disconnected self then self
        else case encrypted_of self of
          Some enc \<Rightarrow> self\<lparr>disconnected := True,
            encrypted_of := Some (enc\<lparr>write := push_packet E (write enc) packet\<rparr>)\<rparr>
        | None \<Rightarrow> self\<lparr>disconnected := True,
            write_buffer := (write_buffer self)\<lparr>buffer :=
              push_packet E (buffer (write_buffer self)) packet\<rparr>\<rparr>)"

definition CommonSession_maybe_reset_seqn ::
  "('cfg, 'k, 'c, 'z, 'm) common_session \<Rightarrow> ('cfg, 'k, 'c, 'z, 'm) common_session" where
  "CommonSession_maybe_reset_seqn self =
    (if common_strict_kex self then self\<lparr>write_buffer := (write_buffer self)\<lparr>seqn := 0\<rparr>\<rparr> else self)"

section \<open>Channel control messages\<close>

definition Encrypted_byte ::
  "codec \<Rightarrow> ('k, 'c, 'z) encrypted \<Rightarrow> channel_id \<Rightarrow> u8 \<Rightarrow> ('k, 'c, 'z) encrypted" where
  "Encrypted_byte E self channel msg =
    (case channels self channel of
       Some c \<Rightarrow> self\<lparr>write := push_packet E (write self) (msg # push_u32_be E (recipient_channel c))\<rparr>
     | None \<Rightarrow> self)"

definition has_pending_data_mut ::
  "('k, 'c, 'z) encrypted \<Rightarrow> channel_id \<Rightarrow> channel_params option" where
  "has_pending_data_mut self channel =
    (case channels self channel of
       Some c \<Rightarrow> if pending_data c \<noteq> [] then Some c else None
     | None \<Rightarrow> None)"

definition has_pending_data :: "('k, 'c, 'z) encrypted \<Rightarrow> channel_id \<Rightarrow> bool" where
  "has_pending_data self channel =
    (case channels self channel of Some c \<Rightarrow> pending_data c \<noteq> [] | None \<Rightarrow> False)"

definition Encrypted_eof ::
  "codec \<Rightarrow> ('k, 'c, 'z) encrypted \<Rightarrow> channel_id \<Rightarrow> ('k, 'c, 'z) encrypted" where
  "Encrypted_eof E self channel =
    (case has_pending_data_mut self channel of
       Some c \<Rightarrow> self\<lparr>channels := (channels self)(channel \<mapsto> c\<lparr>pending_eof := True\<rparr>)\<rparr>
     | None \<Rightarrow> Encrypted_byte E self channel CHANNEL_EOF)"

definition Encrypted_close ::
  "codec \<Rightarrow> ('k, 'c, 'z) encrypted \<Rightarrow> channel_id \<Rightarrow> ('k, 'c, 'z) encrypted" where
  "Encrypted_close E self channel =
    (case has_pending_data_mut self channel of
       Some c \<Rightarrow> self\<lparr>channels := (channels self)(channel \<mapsto> c\<lparr>pending_close := True\<rparr>)\<rparr>
     | None \<Rightarrow>
         (let self' = Encrypted_byte E self channel CHANNEL_CLOSE
          in self'\<lparr>channels := (channels self')(channel := None)\<rparr>))"

definition Encrypted_sender_window_size :: "('k, 'c, 'z) encrypted \<Rightarrow> channel_id \<Rightarrow> nat" where
  "Encrypted_sender_window_size self channel =
    (case channels self channel of Some c \<Rightarrow> unat (sender_window_size c) | None \<Rightarrow> 0)"

definition adjust_window_size ::
  "codec \<Rightarrow> ('k, 'c, 'z) encrypted \<Rightarrow> channel_id \<Rightarrow> bytes \<Rightarrow> u32 \<Rightarrow> bool \<times> ('k, 'c, 'z) encrypted"
where
  "adjust_window_size E self channel data target =
    (case channels self channel of
       None \<Rightarrow> (False, self)
     | Some c \<Rightarrow>
       (let len = (of_nat (length data) :: u32);
            c1 = (if len \<le> sender_window_size c
                  then c\<lparr>sender_window_size := sender_window_size c - len\<rparr> else c)
        in if sender_window_size c1 < target div 2
           then (True, self\<lparr>write := push_packet E (write self)
                   (CHANNEL_WINDOW_ADJUST # push_u32_be E (recipient_channel c1)
                    @ push_u32_be E (target - sender_window_size c1)),
                 channels := (channels self)(channel \<mapsto> c1\<lparr>sender_window_size := target\<rparr>)\<rparr>)
           else (False, self\<lparr>channels := (channels self)(channel \<mapsto> c1)\<rparr>)))"

section \<open>Sending data\<close>

text \<open>The body of a CHANNEL\_DATA or CHANNEL\_EXTENDED\_DATA packet.\<close>

definition data_body :: "codec \<Rightarrow> u32 \<Rightarrow> u32 option \<times> bytes \<Rightarrow> bytes" where
  "data_body E recipient p =
    (case p of
       (None, d) \<Rightarrow> CHANNEL_DATA # push_u32_be E recipient @ extend_ssh_string E d
     | (Some ext, d) \<Rightarrow> CHANNEL_EXTENDED_DATA # push_u32_be E recipient @ push_u32_be E ext
         @ extend_ssh_string E d)"

text \<open>The loop of \<open>data_noqueue\<close>. It need not end, so \<open>None\<close> is "does not return".\<close>

partial_function (option) send_loop ::
  "codec \<Rightarrow> u32 option \<Rightarrow> bytes \<Rightarrow> channel_params \<Rightarrow> bytes \<Rightarrow> (bytes \<times> channel_params) option"
where
  "send_loop E a wr channel buf =
    (if buf = [] then Some (wr, channel)
     else
       (let off = min (length buf) (unat (recipient_maximum_packet_size channel))
        in send_loop E a
             (push_packet E wr (data_body E (recipient_channel channel) (a, take off buf)))
             (channel\<lparr>recipient_window_size := recipient_window_size channel - of_nat off\<rparr>)
             (drop off buf)))"

definition data_noqueue ::
  "codec \<Rightarrow> bytes \<Rightarrow> channel_params \<Rightarrow> bytes \<Rightarrow> u32 option \<Rightarrow> nat \<Rightarrow>
   (error, nat \<times> bytes \<times> channel_params) outcome" where
  "data_noqueue E wr channel buf0 a from =
    (if from \<ge> length buf0 then Ok (0, wr, channel)
     else
       (let window = recipient_window_size channel;
            clamped = ((of_nat (length buf0) :: u32) > of_nat from + window)
        in if clamped \<and> from + unat window > length buf0 then Panic
           else
             (let buf = (if clamped then take (unat window) (drop from buf0) else drop from buf0)
              in case send_loop E a wr channel buf of
                   None \<Rightarrow> Diverge
                 | Some (wr', channel') \<Rightarrow> Ok (length buf, wr', channel'))))"

datatype channel_flush_result = Incomplete nat | Complete nat bool bool

fun flush_result_wrote :: "channel_flush_result \<Rightarrow> nat" where
  "flush_result_wrote (Incomplete wrote) = wrote"
| "flush_result_wrote (Complete wrote _ _) = wrote"

definition flush_result_complete :: "nat \<Rightarrow> channel_params \<Rightarrow> channel_flush_result" where
  "flush_result_complete wrote channel =
     Complete wrote (pending_eof channel) (pending_close channel)"

text \<open>The loop of \<open>flush_channel\<close> over the queue, popped from the front.\<close>

fun flush_loop ::
  "codec \<Rightarrow> (bytes \<times> u32 option \<times> nat) list \<Rightarrow> nat \<Rightarrow> bytes \<Rightarrow> channel_params \<Rightarrow>
   (error, channel_flush_result \<times> bytes \<times> channel_params) outcome" where
  "flush_loop E [] pending_size wr channel =
     Ok (flush_result_complete pending_size channel, wr, channel\<lparr>pending_data := []\<rparr>)"
| "flush_loop E ((buf, a, from) # queue) pending_size wr channel =
     obind (data_noqueue E wr channel buf a from) (\<lambda>(size, wr', channel').
     if from + size < length buf
     then Ok (Incomplete (pending_size + size), wr',
              channel'\<lparr>pending_data := (buf, a, from + size) # queue\<rparr>)
     else flush_loop E queue (pending_size + size) wr' channel')"

definition flush_channel ::
  "codec \<Rightarrow> bytes \<Rightarrow> channel_params \<Rightarrow>
   (error, channel_flush_result \<times> bytes \<times> channel_params) outcome" where
  "flush_channel E wr channel = flush_loop E (pending_data channel) 0 wr channel"

definition handle_flushed_channel ::
  "codec \<Rightarrow> ('k, 'c, 'z) encrypted \<Rightarrow> channel_id \<Rightarrow> channel_flush_result \<Rightarrow> ('k, 'c, 'z) encrypted"
where
  "handle_flushed_channel E self channel flush_result =
    (case flush_result of
       Complete _ eof close \<Rightarrow>
         (let self1 = (if eof then Encrypted_eof E self channel else self)
          in if close then Encrypted_close E self1 channel else self1)
     | Incomplete _ \<Rightarrow> self)"

definition flush_pending ::
  "codec \<Rightarrow> ('k, 'c, 'z) encrypted \<Rightarrow> channel_id \<Rightarrow> (error, nat \<times> ('k, 'c, 'z) encrypted) outcome"
where
  "flush_pending E self channel =
    (case channels self channel of
       None \<Rightarrow> Ok (0, self)
     | Some c \<Rightarrow>
       obind (flush_channel E (write self) c) (\<lambda>(flush_result, wr, c').
       Ok (flush_result_wrote flush_result,
           handle_flushed_channel E
             (self\<lparr>write := wr, channels := (channels self)(channel \<mapsto> c')\<rparr>) channel flush_result)))"

text \<open>\<open>values_mut()\<close> visits the channels in an order of its own, given here as the list \<open>order\<close>.\<close>

fun flush_all_pending ::
  "codec \<Rightarrow> channel_id list \<Rightarrow> ('k, 'c, 'z) encrypted \<Rightarrow> (error, ('k, 'c, 'z) encrypted) outcome" where
  "flush_all_pending E [] self = Ok self"
| "flush_all_pending E (channel # order) self =
    (case channels self channel of
       None \<Rightarrow> flush_all_pending E order self
     | Some c \<Rightarrow>
       obind (flush_channel E (write self) c) (\<lambda>(_, wr, c').
       flush_all_pending E order
         (self\<lparr>write := wr, channels := (channels self)(channel \<mapsto> c')\<rparr>)))"

definition Encrypted_data ::
  "codec \<Rightarrow> ('k, 'c, 'z) encrypted \<Rightarrow> channel_id \<Rightarrow> bytes \<Rightarrow> (error, ('k, 'c, 'z) encrypted) outcome"
where
  "Encrypted_data E self channel buf0 =
    (case channels self channel of
       None \<Rightarrow> Ok self
     | Some c \<Rightarrow>
       if \<not> confirmed c then Panic
       else if pending_data c \<noteq> [] \<or> rekey self \<noteq> None
       then Ok (self\<lparr>channels := (channels self)
              (channel \<mapsto> c\<lparr>pending_data := pending_data c @ [(buf0, None, 0)]\<rparr>)\<rparr>)
       else obind (data_noqueue E (write self) c buf0 None 0) (\<lambda>(buf_len, wr, c').
         Ok (self\<lparr>write := wr, channels := (channels self)(channel \<mapsto>
           (if buf_len < length buf0
            then c'\<lparr>pending_data := pending_data c' @ [(buf0, None, buf_len)]\<rparr> else c'))\<rparr>)))"

definition Encrypted_extended_data ::
  "codec \<Rightarrow> ('k, 'c, 'z) encrypted \<Rightarrow> channel_id \<Rightarrow> u32 \<Rightarrow> bytes \<Rightarrow>
   (error, ('k, 'c, 'z) encrypted) outcome" where
  "Encrypted_extended_data E self channel ext buf0 =
    (case channels self channel of
       None \<Rightarrow> Ok self
     | Some c \<Rightarrow>
       if \<not> confirmed c then Panic
       else if pending_data c \<noteq> []
       then Ok (self\<lparr>channels := (channels self)
              (channel \<mapsto> c\<lparr>pending_data := pending_data c @ [(buf0, Some ext, 0)]\<rparr>)\<rparr>)
       else obind (data_noqueue E (write self) c buf0 (Some ext) 0) (\<lambda>(buf_len, wr, c').
         Ok (self\<lparr>write := wr, channels := (channels self)(channel \<mapsto>
           (if buf_len < length buf0
            then c'\<lparr>pending_data := pending_data c' @ [(buf0, Some ext, buf_len)]\<rparr> else c'))\<rparr>)))"

section \<open>Encrypting what was written\<close>

text \<open>
  \<open>Compress::compress\<close>: the identity without compression, otherwise the zlib stream, an argument.
\<close>

definition Compress_compress ::
  "('z \<Rightarrow> bytes \<Rightarrow> (error, bytes \<times> 'z) outcome) \<Rightarrow> 'z option \<Rightarrow> bytes \<Rightarrow>
   (error, bytes \<times> 'z option) outcome" where
  "Compress_compress zlib self input =
    (case self of
       None \<Rightarrow> Ok (input, None)
     | Some z \<Rightarrow> obind (zlib z input) (\<lambda>(out, z'). Ok (out, Some z')))"

function flush_packets ::
  "codec \<Rightarrow> ('z \<Rightarrow> bytes \<Rightarrow> (error, bytes \<times> 'z) outcome) \<Rightarrow> 's sealing_key \<Rightarrow> bytes \<Rightarrow> nat \<Rightarrow>
   'z option \<Rightarrow> 's \<Rightarrow> sshbuffer \<Rightarrow> (error, nat \<times> 'z option \<times> 's \<times> sshbuffer) outcome" where
  "flush_packets E zlib K wr cursor z s wb =
    (if cursor < length wr then
       if length wr < cursor + 4 then Panic
       else
         (let len = unat (be_read_u32 E (drop cursor wr))
          in if length wr < cursor + 4 + len then Panic
             else obind (Compress_compress zlib z (take len (drop (cursor + 4) wr))) (\<lambda>(packet, z').
               obind (SealingKey_write E K s packet wb) (\<lambda>(s', wb').
               flush_packets E zlib K wr (cursor + (4 + len)) z' s' wb')))
     else Ok (cursor, z, s, wb))"
  by pat_completeness auto
termination
  by (relation "measure (\<lambda>(E, zlib, K, wr, cursor, z, s, wb). length wr - cursor)") auto

declare flush_packets.simps [simp del]

definition Encrypted_flush ::
  "codec \<Rightarrow> ('z \<Rightarrow> bytes \<Rightarrow> (error, bytes \<times> 'z) outcome) \<Rightarrow> ('k \<Rightarrow> bool) \<Rightarrow> nat \<Rightarrow> limits \<Rightarrow>
   's sealing_key \<Rightarrow> ('k, 'c, 'z) encrypted \<Rightarrow> 's \<Rightarrow> sshbuffer \<Rightarrow>
   (error, bool \<times> ('k, 'c, 'z) encrypted \<times> 's \<times> sshbuffer) outcome" where
  "Encrypted_flush E zlib skip_exchange now lim K self s wb =
    obind (flush_packets E zlib K (write self) (write_cursor self) (compress self) s wb)
      (\<lambda>(cursor, z, s', wb').
    let self' = (if cursor \<ge> length (write self)
                 then self\<lparr>write := [], write_cursor := 0, compress := z\<rparr>
                 else self\<lparr>write_cursor := cursor, compress := z\<rparr>)
    in if skip_exchange (kex_alg self) then Ok (False, self', s', wb')
       else Ok (buf_bytes wb' \<ge> rekey_write_limit lim
                \<or> now - last_rekey self \<ge> rekey_time_limit lim, self', s', wb'))"

section \<open>New channels\<close>

text \<open>The loop of \<open>new_channel_id\<close> and \<open>new_channel\<close>: count up until an identifier is free.\<close>

partial_function (option) next_free_id :: "(channel_id \<rightharpoonup> channel_params) \<Rightarrow> u32 \<Rightarrow> u32 option" where
  "next_free_id chans i = (if chans i \<noteq> None then next_free_id chans (i + 1) else Some i)"

definition Encrypted_new_channel_id ::
  "('k, 'c, 'z) encrypted \<Rightarrow> (error, channel_id \<times> ('k, 'c, 'z) encrypted) outcome" where
  "Encrypted_new_channel_id self =
    (case next_free_id (channels self) (last_channel_id self + 1) of
       None \<Rightarrow> Diverge
     | Some i \<Rightarrow> Ok (i, self\<lparr>last_channel_id := i\<rparr>))"

definition fresh_channel :: "channel_id \<Rightarrow> u32 \<Rightarrow> u32 \<Rightarrow> channel_params" where
  "fresh_channel i window_size maxpacket = \<lparr>recipient_channel = 0, sender_channel = i,
     recipient_window_size = 0, sender_window_size = window_size,
     recipient_maximum_packet_size = 0, sender_maximum_packet_size = maxpacket,
     confirmed = False, wants_reply = False, pending_data = [], pending_eof = False,
     pending_close = False\<rparr>"

definition Encrypted_new_channel ::
  "('k, 'c, 'z) encrypted \<Rightarrow> u32 \<Rightarrow> u32 \<Rightarrow> (error, channel_id \<times> ('k, 'c, 'z) encrypted) outcome" where
  "Encrypted_new_channel self window_size maxpacket =
    (case next_free_id (channels self) (last_channel_id self + 1) of
       None \<Rightarrow> Diverge
     | Some i \<Rightarrow> Ok (i, self\<lparr>last_channel_id := i,
         channels := (channels self)(i \<mapsto> fresh_channel i window_size maxpacket)\<rparr>))"

section \<open>The send loop\<close>

lemma send_loop_Some:
  "recipient_maximum_packet_size ch \<noteq> 0 \<Longrightarrow>
   send_loop E a wr ch buf =
     Some (wr @ framed E (map (\<lambda>d. data_body E (recipient_channel ch) (a, d))
             (chunks (unat (recipient_maximum_packet_size ch)) buf)),
           ch\<lparr>recipient_window_size := recipient_window_size ch - of_nat (length buf)\<rparr>)"
proof (induction "unat (recipient_maximum_packet_size ch)" buf arbitrary: wr ch rule: chunks.induct)
  case (1 buf)
  let ?m = "unat (recipient_maximum_packet_size ch)"
  have m: "?m \<noteq> 0" using 1(2) by (simp add: unat_eq_0)
  show ?case
  proof (cases "buf = []")
    case True
    then show ?thesis by (simp add: send_loop.simps)
  next
    case False
    let ?off = "min (length buf) ?m"
    let ?ch = "ch\<lparr>recipient_window_size := recipient_window_size ch - of_nat ?off\<rparr>"
    have td: "take ?off buf = take ?m buf" "drop ?off buf = drop ?m buf"
      by (simp_all add: min_def)
    have len: "(of_nat ?off + of_nat (length (drop ?m buf)) :: u32) = of_nat (length buf)"
    proof -
      have "?off + length (drop ?m buf) = length buf" by simp
      then show ?thesis by (metis of_nat_add)
    qed
    have "send_loop E a wr ch buf = send_loop E a
        (push_packet E wr (data_body E (recipient_channel ch) (a, take ?m buf))) ?ch (drop ?m buf)"
      using False by (subst send_loop.simps) (simp add: Let_def td)
    also have "\<dots> = Some (push_packet E wr (data_body E (recipient_channel ch) (a, take ?m buf))
          @ framed E (map (\<lambda>d. data_body E (recipient_channel ch) (a, d)) (chunks ?m (drop ?m buf))),
        ch\<lparr>recipient_window_size := recipient_window_size ch - of_nat (length buf)\<rparr>)"
      using 1(1) [of ?ch] m False 1(2) len by (simp add: algebra_simps)
    finally show ?thesis
      using False m by (subst chunks.simps) (simp add: push_packet_framed framed_append [symmetric])
  qed
qed

text \<open>With a maximum packet size of zero the loop writes empty packets for ever.\<close>

lemma send_loop_returns:
  assumes "send_loop E a wr ch buf = Some r"
  shows "buf = [] \<or> recipient_maximum_packet_size ch \<noteq> 0"
proof (rule send_loop.raw_induct [where
      P = "\<lambda>E a wr ch buf r. buf = [] \<or> recipient_maximum_packet_size ch \<noteq> 0", OF _ assms])
  fix f E a wr ch buf and r :: "bytes \<times> channel_params"
  assume IH: "\<And>E a wr ch buf r. f E a wr ch buf = Some r \<Longrightarrow>
      buf = [] \<or> recipient_maximum_packet_size ch \<noteq> 0"
    and eq: "(if buf = [] then Some (wr, ch)
      else let off = min (length buf) (unat (recipient_maximum_packet_size ch))
           in f E a (push_packet E wr (data_body E (recipient_channel ch) (a, take off buf)))
                (ch\<lparr>recipient_window_size := recipient_window_size ch - of_nat off\<rparr>) (drop off buf))
      = Some r"
  show "buf = [] \<or> recipient_maximum_packet_size ch \<noteq> 0"
  proof (rule ccontr)
    assume "\<not> ?thesis"
    then have b: "buf \<noteq> []" and m: "recipient_maximum_packet_size ch = 0" by auto
    then have "f E a (push_packet E wr (data_body E (recipient_channel ch) (a, [])))
        (ch\<lparr>recipient_window_size := recipient_window_size ch\<rparr>) buf = Some r"
      using eq by (simp add: Let_def)
    from IH [OF this] b m show False by simp
  qed
qed

section \<open>Flow control of one channel\<close>

text \<open>
  The condition under which the flow-control code runs without panic or endless loop: the peer
  accepts packets of at least one byte, and no queued buffer can make the sum of its offset and
  the window pass 32 bits.
\<close>

definition entry_ok :: "nat \<Rightarrow> bytes \<times> u32 option \<times> nat \<Rightarrow> bool" where
  "entry_ok window e =
     (case e of (buf, a, from) \<Rightarrow> length buf < 2 ^ 32 \<and> from \<le> length buf \<and> from + window < 2 ^ 32)"

definition flow_ok :: "channel_params \<Rightarrow> bool" where
  "flow_ok c \<longleftrightarrow> recipient_maximum_packet_size c \<noteq> 0
     \<and> list_all (entry_ok (unat (recipient_window_size c))) (pending_data c)"

text \<open>The stream of a channel: every byte with the stream (plain or extended) that it belongs to.\<close>

definition entry_stream :: "bytes \<times> u32 option \<times> nat \<Rightarrow> (u32 option \<times> u8) list" where
  "entry_stream e = (case e of (buf, a, from) \<Rightarrow> map (Pair a) (drop from buf))"

definition queue_stream :: "(bytes \<times> u32 option \<times> nat) list \<Rightarrow> (u32 option \<times> u8) list" where
  "queue_stream q = concat (map entry_stream q)"

definition packets_stream :: "(u32 option \<times> bytes) list \<Rightarrow> (u32 option \<times> u8) list" where
  "packets_stream ps = concat (map (\<lambda>(a, d). map (Pair a) d) ps)"

definition packets_fit :: "channel_params \<Rightarrow> (u32 option \<times> bytes) list \<Rightarrow> bool" where
  "packets_fit c ps \<longleftrightarrow>
     (\<forall>(a, d) \<in> set ps. d \<noteq> [] \<and> length d \<le> unat (recipient_maximum_packet_size c))"

lemma queue_stream_simps [simp]:
  "queue_stream [] = []" "queue_stream (e # q) = entry_stream e @ queue_stream q"
  "queue_stream (p @ q) = queue_stream p @ queue_stream q"
  by (simp_all add: queue_stream_def)

lemma packets_stream_simps [simp]:
  "packets_stream [] = []" "packets_stream (p @ q) = packets_stream p @ packets_stream q"
  by (simp_all add: packets_stream_def)

lemma packets_stream_chunks:
  "0 < m \<Longrightarrow> packets_stream (map (Pair a) (chunks m d)) = map (Pair a) d"
  using concat_chunks [of m d] by (simp add: packets_stream_def comp_def) (metis map_concat)

lemma packets_fit_chunks:
  "packets_fit c (map (Pair a) (chunks (unat (recipient_maximum_packet_size c)) d))"
  by (auto simp: packets_fit_def dest: chunks_bounds)

lemma unat_sub_of_nat: "n \<le> unat (w :: u32) \<Longrightarrow> unat (w - of_nat n) = unat w - n"
proof -
  assume n: "n \<le> unat w"
  then have "unat (of_nat n :: u32) = n"
    using unat_u32_lt [of w] by (intro unat_of_nat_u32) simp
  with n show ?thesis by (simp add: unat_sub word_le_nat_alt)
qed

lemma unat_add_of_nat: "n + unat (w :: u32) < 4294967296 \<Longrightarrow> unat (of_nat n + w) = n + unat w"
proof -
  assume n: "n + unat w < 4294967296"
  then have "unat (of_nat (n + unat w) :: u32) = n + unat w" by (rule unat_of_nat_u32)
  then show ?thesis by simp
qed

text \<open>One buffer: exactly what fits the window is sent, in packets that fit the maximum size.\<close>

lemma data_noqueue_Ok:
  assumes m: "recipient_maximum_packet_size c \<noteq> 0"
    and e: "entry_ok (unat (recipient_window_size c)) (buf0, a, from)"
    and n: "n = min (length buf0 - from) (unat (recipient_window_size c))"
  shows "data_noqueue E wr c buf0 a from =
    Ok (n, wr @ framed E (map (data_body E (recipient_channel c)) (map (Pair a)
             (chunks (unat (recipient_maximum_packet_size c)) (take n (drop from buf0))))),
        c\<lparr>recipient_window_size := recipient_window_size c - of_nat n\<rparr>)"
proof (cases "from \<ge> length buf0")
  case True
  then show ?thesis using n by (simp add: data_noqueue_def)
next
  case False
  let ?w = "recipient_window_size c"
  have b: "length buf0 < 4294967296" "from + unat ?w < 4294967296"
    using e by (simp_all add: entry_ok_def)
  have cl: "(of_nat (length buf0) :: u32) > of_nat from + ?w \<longleftrightarrow> length buf0 > from + unat ?w"
    by (simp only: word_less_nat_alt unat_of_nat_u32 [OF b(1)] unat_add_of_nat [OF b(2)])
  have buf: "(if length buf0 > from + unat ?w then take (unat ?w) (drop from buf0)
      else drop from buf0) = take n (drop from buf0)"
    using n False by (auto simp: min_def)
  have len: "length (take n (drop from buf0)) = n" using n by simp
  show ?thesis
    using False len unfolding data_noqueue_def Let_def cl buf
    by (simp add: send_loop_Some [OF m] comp_def)
qed

text \<open>The same, in the terms that the callers use.\<close>

lemma data_noqueue_step:
  assumes "recipient_maximum_packet_size c \<noteq> 0"
    and e: "entry_ok (unat (recipient_window_size c)) (buf, a, start)"
  obtains n ps w where
    "data_noqueue E wr c buf a start = Ok (n,
       wr @ framed E (map (data_body E (recipient_channel c)) ps), c\<lparr>recipient_window_size := w\<rparr>)"
    "packets_fit c ps" "packets_stream ps = map (Pair a) (take n (drop start buf))"
    "start + n \<le> length buf" "unat (recipient_window_size c) = unat w + n"
    "start + n < length buf \<longrightarrow> w = 0"
proof (rule that)
  let ?w = "unat (recipient_window_size c)"
  let ?n = "min (length buf - start) ?w"
  have m: "0 < unat (recipient_maximum_packet_size c)" using assms(1) by (simp add: unat_gt_0)
  show "data_noqueue E wr c buf a start = Ok (?n, wr @ framed E (map (data_body E (recipient_channel c))
      (map (Pair a) (chunks (unat (recipient_maximum_packet_size c)) (take ?n (drop start buf))))),
      c\<lparr>recipient_window_size := recipient_window_size c - of_nat ?n\<rparr>)"
    by (rule data_noqueue_Ok [OF assms refl])
  show "packets_stream (map (Pair a) (chunks (unat (recipient_maximum_packet_size c))
      (take ?n (drop start buf)))) = map (Pair a) (take ?n (drop start buf))"
    using m by (rule packets_stream_chunks)
  have w: "unat (recipient_window_size c - of_nat ?n) = ?w - ?n" by (rule unat_sub_of_nat) simp
  then show "?w = unat (recipient_window_size c - of_nat ?n) + ?n" by simp
  show "start + ?n \<le> length buf" using e by (auto simp: entry_ok_def min_def)
  show "start + ?n < length buf \<longrightarrow> recipient_window_size c - of_nat ?n = 0"
    using w by (auto simp: min_def unat_eq_0 split: if_splits)
qed (rule packets_fit_chunks)

text \<open>
  A step of the sender: packets \<open>ps\<close> were sent, each with at least one byte and at most the peer's
  maximum; the bytes sent and the bytes still queued are, in order, those of the stream \<open>inp\<close>;
  and the window went down by exactly what was sent.
\<close>

definition transmits ::
  "channel_params \<Rightarrow> (u32 option \<times> u8) list \<Rightarrow> (u32 option \<times> bytes) list \<Rightarrow> channel_params \<Rightarrow> bool"
where
  "transmits c inp ps c' \<longleftrightarrow>
     packets_fit c ps
     \<and> packets_stream ps @ queue_stream (pending_data c') = inp
     \<and> unat (recipient_window_size c) = unat (recipient_window_size c') + length (packets_stream ps)
     \<and> (\<exists>w q. c' = c\<lparr>recipient_window_size := w, pending_data := q\<rparr>)"

lemma flow_okD [simp]: "flow_ok c \<Longrightarrow> recipient_maximum_packet_size c \<noteq> 0"
  by (simp add: flow_ok_def)

lemma entry_ok_mono: "entry_ok w e \<Longrightarrow> w' \<le> w \<Longrightarrow> entry_ok w' e"
  by (auto simp: entry_ok_def split: prod.splits)

lemma packets_fit_append [simp]:
  "packets_fit c (ps @ qs) \<longleftrightarrow> packets_fit c ps \<and> packets_fit c qs"
  by (auto simp: packets_fit_def)

lemma packets_fit_window [simp]:
  "packets_fit (c\<lparr>recipient_window_size := w\<rparr>) ps = packets_fit c ps"
  by (simp add: packets_fit_def)

lemma entry_stream_split:
  "entry_stream (buf, a, start) =
     map (Pair a) (take n (drop start buf)) @ entry_stream (buf, a, start + n)"
proof -
  have "drop start buf = take n (drop start buf) @ drop (start + n) buf"
    by (simp add: add.commute [of start] drop_drop [symmetric] del: drop_drop)
  then show ?thesis unfolding entry_stream_def prod.case map_append [symmetric] by simp
qed

lemma transmits_nothing: "transmits c [] [] (c\<lparr>pending_data := []\<rparr>)"
  unfolding transmits_def packets_fit_def
  by simp (rule exI [of _ "recipient_window_size c"], rule exI [of _ "[]"], simp)

lemma transmits_stop:
  assumes "packets_fit c ps" "packets_stream ps = map (Pair a) (take n (drop start buf))"
    "start + n \<le> length buf" "unat (recipient_window_size c) = unat w + n" "w = 0"
  shows "transmits c (queue_stream ((buf, a, start) # q)) ps
     (c\<lparr>recipient_window_size := w, pending_data := (buf, a, start + n) # q\<rparr>)"
  using assms entry_stream_split [of buf a start n] by (auto simp: transmits_def)

lemma transmits_more:
  assumes "packets_fit c ps" "packets_stream ps = map (Pair a) (drop start buf)"
    "unat (recipient_window_size c) = unat w + length (packets_stream ps)"
    "transmits (c\<lparr>recipient_window_size := w\<rparr>) (queue_stream q) ps' c'"
  shows "transmits c (queue_stream ((buf, a, start) # q)) (ps @ ps') c'"
  using assms by (auto simp: transmits_def entry_stream_def)

lemma flush_result_window [simp]:
  "flush_result_complete k (c\<lparr>recipient_window_size := w\<rparr>) = flush_result_complete k c"
  by (simp add: flush_result_complete_def)

lemma flush_loop_Ok:
  assumes "recipient_maximum_packet_size c \<noteq> 0"
    and "list_all (entry_ok (unat (recipient_window_size c))) q"
  shows "\<exists>res ps c'. flush_loop E q k wr c =
      Ok (res, wr @ framed E (map (data_body E (recipient_channel c)) ps), c')
    \<and> transmits c (queue_stream q) ps c' \<and> flow_ok c'
    \<and> (pending_data c' \<noteq> [] \<longrightarrow> recipient_window_size c' = 0)
    \<and> res = (if pending_data c' = [] then flush_result_complete (k + length (packets_stream ps)) c
        else Incomplete (k + length (packets_stream ps)))"
  using assms
proof (induction q arbitrary: k wr c)
  case Nil
  then show ?case
    by (intro exI [of _ "flush_result_complete k c"] exI [of _ "[]"] exI [of _ "c\<lparr>pending_data := []\<rparr>"])
      (simp add: packets_fit_def flow_ok_def transmits_nothing)
next
  case (Cons e q)
  obtain buf a start where e: "e = (buf, a, start)" by (cases e)
  have ok: "entry_ok (unat (recipient_window_size c)) (buf, a, start)" using Cons.prems(2) e by simp
  obtain n p1 w where run: "data_noqueue E wr c buf a start = Ok (n,
        wr @ framed E (map (data_body E (recipient_channel c)) p1), c\<lparr>recipient_window_size := w\<rparr>)"
    and p1: "packets_fit c p1" "packets_stream p1 = map (Pair a) (take n (drop start buf))"
      "start + n \<le> length buf" "unat (recipient_window_size c) = unat w + n"
    and w0: "start + n < length buf \<longrightarrow> w = 0"
    by (rule data_noqueue_step [OF Cons.prems(1) ok, of E wr])
  have rest: "list_all (entry_ok (unat w)) q"
    using Cons.prems(2) p1(4) by (auto simp: list_all_iff intro: entry_ok_mono)
  show ?case
  proof (cases "start + n < length buf")
    case True
    let ?c = "c\<lparr>recipient_window_size := w, pending_data := (buf, a, start + n) # q\<rparr>"
    have "flow_ok ?c" using ok rest w0 True Cons.prems(1) by (simp add: flow_ok_def entry_ok_def)
    with transmits_stop [OF p1 w0 [rule_format, OF True], of q] show ?thesis
      using True run p1(2,3) w0
      by (intro exI [of _ "Incomplete (k + n)"] exI [of _ p1] exI [of _ ?c]) (simp add: e)
  next
    case False
    then have n: "start + n = length buf" using p1(3) by simp
    let ?wr = "wr @ framed E (map (data_body E (recipient_channel c)) p1)"
    obtain res ps c' where IH: "flush_loop E q (k + n) ?wr (c\<lparr>recipient_window_size := w\<rparr>)
        = Ok (res, ?wr @ framed E (map (data_body E (recipient_channel c)) ps), c')"
      "transmits (c\<lparr>recipient_window_size := w\<rparr>) (queue_stream q) ps c'" "flow_ok c'"
      "pending_data c' \<noteq> [] \<longrightarrow> recipient_window_size c' = 0"
      "res = (if pending_data c' = [] then flush_result_complete (k + n + length (packets_stream ps)) c
        else Incomplete (k + n + length (packets_stream ps)))"
    proof -
      have "recipient_maximum_packet_size (c\<lparr>recipient_window_size := w\<rparr>) \<noteq> 0"
        "list_all (entry_ok (unat (recipient_window_size (c\<lparr>recipient_window_size := w\<rparr>)))) q"
        using Cons.prems(1) rest by simp_all
      from Cons.IH [OF this, of "k + n" ?wr] that show thesis by (simp cong: if_cong) blast
    qed
    have d: "packets_stream p1 = map (Pair a) (drop start buf)" "length (packets_stream p1) = n"
      using p1(2) n by simp_all
    from transmits_more [OF p1(1) d(1) _ IH(2)] p1(4) d(2)
    have "transmits c (queue_stream (e # q)) (p1 @ ps) c'" by (simp add: e)
    then show ?thesis
      using False run IH(1,3,4,5) d(2)
      by (intro exI [of _ res] exI [of _ "p1 @ ps"] exI [of _ c']) (simp add: e framed_append add.assoc)
  qed
qed

lemma flush_channel_Ok:
  assumes "flow_ok c"
  obtains ps c' where
    "flush_channel E wr c = Ok (if pending_data c' = []
         then Complete (length (packets_stream ps)) (pending_eof c) (pending_close c)
         else Incomplete (length (packets_stream ps)),
       wr @ framed E (map (data_body E (recipient_channel c)) ps), c')"
    "transmits c (queue_stream (pending_data c)) ps c'" "flow_ok c'"
    "pending_data c' \<noteq> [] \<longrightarrow> recipient_window_size c' = 0"
proof -
  have "recipient_maximum_packet_size c \<noteq> 0"
    "list_all (entry_ok (unat (recipient_window_size c))) (pending_data c)"
    using assms by (simp_all add: flow_ok_def)
  from flush_loop_Ok [OF this, of E 0 wr] that show thesis
    unfolding flush_channel_def flush_result_complete_def by (simp cong: if_cong) blast
qed

section \<open>Properties of the sender\<close>

text \<open>The packets that end a channel's stream once the queue is empty.\<close>

definition closing_packets :: "codec \<Rightarrow> channel_params \<Rightarrow> bytes list" where
  "closing_packets E c =
     (if pending_eof c then [CHANNEL_EOF # push_u32_be E (recipient_channel c)] else [])
     @ (if pending_close c then [CHANNEL_CLOSE # push_u32_be E (recipient_channel c)] else [])"

lemma handle_flushed_complete:
  assumes "channels self ch = Some c" "pending_data c = []"
  shows "handle_flushed_channel E self ch (Complete n (pending_eof c) (pending_close c)) =
    self\<lparr>write := write self @ framed E (closing_packets E c),
      channels := (if pending_close c then (channels self)(ch := None) else channels self)\<rparr>"
  using assms
  by (simp add: handle_flushed_channel_def Encrypted_eof_def Encrypted_close_def Encrypted_byte_def
      has_pending_data_mut_def closing_packets_def push_packet_framed framed_append [symmetric])

lemma flush_pending_sends:
  assumes "channels self ch = Some c" "flow_ok c"
  shows "\<exists>ps c' self'. flush_pending E self ch = Ok (length (packets_stream ps), self')
    \<and> transmits c (queue_stream (pending_data c)) ps c' \<and> flow_ok c'
    \<and> (pending_data c' \<noteq> [] \<longrightarrow> recipient_window_size c' = 0)
    \<and> write self' = write self @ framed E (map (data_body E (recipient_channel c)) ps
         @ (if pending_data c' = [] then closing_packets E c else []))
    \<and> channels self' = (if pending_data c' = [] \<and> pending_close c then (channels self)(ch := None)
         else (channels self)(ch \<mapsto> c'))"
proof -
  obtain ps c' where f: "flush_channel E (write self) c = Ok (if pending_data c' = []
         then Complete (length (packets_stream ps)) (pending_eof c) (pending_close c)
         else Incomplete (length (packets_stream ps)),
       write self @ framed E (map (data_body E (recipient_channel c)) ps), c')"
    and t: "transmits c (queue_stream (pending_data c)) ps c'" "flow_ok c'"
      "pending_data c' \<noteq> [] \<longrightarrow> recipient_window_size c' = 0"
    using flush_channel_Ok [OF assms(2), of E "write self"] by blast
  let ?self = "self\<lparr>write := write self @ framed E (map (data_body E (recipient_channel c)) ps),
    channels := (channels self)(ch \<mapsto> c')\<rparr>"
  have eq: "pending_eof c' = pending_eof c" "pending_close c' = pending_close c"
    "closing_packets E c' = closing_packets E c"
    using t(1) by (auto simp: transmits_def closing_packets_def)
  show ?thesis
  proof (cases "pending_data c' = []")
    case True
    then show ?thesis
      using f t assms(1) handle_flushed_complete [of ?self ch c' E "length (packets_stream ps)"] eq
      by (intro exI [of _ ps] exI [of _ c']) (simp add: flush_pending_def framed_append)
  next
    case False
    then show ?thesis
      using f t assms(1)
      by (intro exI [of _ ps] exI [of _ c'])
        (simp add: flush_pending_def handle_flushed_channel_def)
  qed
qed

text \<open>
  C6: flushing a channel returns when the arithmetic of its flow control is in range (\<open>flow_ok\<close>): the peer's maximum packet size is not 0,
  and every queued buffer is shorter than 2 to the power 32, as is its offset plus the window. Outside of it flushing may panic
  (\<open>wrapped_window_panics\<close>) or, like \<open>data\<close> with a packet size of 0 (\<open>zero_packet_size_diverges\<close>), never return. Within, it sends a prefix
  of the queued bytes, in order and in packets that fit the peer's maximum, reduces the window by
  exactly the number of bytes it reports, keeps something queued only when the window is used up,
  sends a deferred EOF and then a deferred CLOSE after the last data packet, exactly when the
  queue is empty, and leaves a channel that is in range again.
\<close>

theorem flush_pending_delivers:
  assumes "channels self ch = Some c" "flow_ok c"
  shows "\<exists>ps c' self'. flush_pending E self ch = Ok (length (packets_stream ps), self')
    \<and> transmits c (queue_stream (pending_data c)) ps c' \<and> flow_ok c'
    \<and> (pending_data c' \<noteq> [] \<longrightarrow> recipient_window_size c' = 0)
    \<and> write self' = write self @ framed E (map (data_body E (recipient_channel c)) ps
         @ (if pending_data c' = [] then closing_packets E c else []))
    \<and> channels self' = (if pending_data c' = [] \<and> pending_close c then (channels self)(ch := None)
         else (channels self)(ch \<mapsto> c'))"
  using assms by (rule flush_pending_sends)

text \<open>A concrete channel and session on which the properties are exercised.\<close>

definition demo_channel :: channel_params where
  "demo_channel = \<lparr>recipient_channel = 7, sender_channel = 3, recipient_window_size = 4,
     sender_window_size = 100, recipient_maximum_packet_size = 3, sender_maximum_packet_size = 64,
     confirmed = True, wants_reply = False, pending_data = [([1, 2, 3, 4], None, 1), ([5], Some 1, 0)],
     pending_eof = True, pending_close = False\<rparr>"

definition demo_session :: "(unit, unit, unit) encrypted" where
  "demo_session = \<lparr>state = Authenticated, exchange_of = None, kex_alg = (), kex_key = 0,
     enc_client_mac = [], enc_server_mac = [], session_id = [], rekey = None,
     channels = [3 \<mapsto> demo_channel], last_channel_id = 3, write = [], write_cursor = 0,
     last_rekey = 0, enc_server_compression = Compression_None, enc_client_compression = Compression_None,
     compress = None, decompress = None\<rparr>"

lemma flow_ok_demo: "flow_ok demo_channel"
  by (simp add: flow_ok_def entry_ok_def demo_channel_def)

lemma channels_demo [simp]: "channels demo_session 3 = Some demo_channel"
  by (simp add: demo_session_def)

theorem flush_pending_delivers_witness:
  "\<exists>ps c' self'. flush_pending rfc4251 demo_session 3 = Ok (length (packets_stream ps), self')
    \<and> transmits demo_channel (queue_stream (pending_data demo_channel)) ps c' \<and> flow_ok c'"
  using flush_pending_delivers [OF channels_demo flow_ok_demo, of rfc4251] by blast

text \<open>What \<open>data\<close> and \<open>extended_data\<close> do with a buffer that is not queued behind another.\<close>

lemma send_or_queue:
  assumes "flow_ok c" "length buf < 2 ^ 32" "pending_data c = []"
  obtains n ps c' where
    "data_noqueue E wr c buf a 0 =
       Ok (n, wr @ framed E (map (data_body E (recipient_channel c)) ps), c')"
    "let c2 = (if n < length buf then c'\<lparr>pending_data := pending_data c' @ [(buf, a, n)]\<rparr> else c')
     in transmits c (map (Pair a) buf) ps c2 \<and> flow_ok c2"
proof -
  have m: "recipient_maximum_packet_size c \<noteq> 0" using assms(1) by simp
  have e: "entry_ok (unat (recipient_window_size c)) (buf, a, 0)"
    using assms(2) unat_u32_lt [of "recipient_window_size c"] by (simp add: entry_ok_def)
  obtain n ps w where d: "data_noqueue E wr c buf a 0 = Ok (n,
       wr @ framed E (map (data_body E (recipient_channel c)) ps), c\<lparr>recipient_window_size := w\<rparr>)"
    and p: "packets_fit c ps" "packets_stream ps = map (Pair a) (take n (drop 0 buf))"
      "0 + n \<le> length buf" "unat (recipient_window_size c) = unat w + n"
    and w0: "0 + n < length buf \<longrightarrow> w = 0"
    by (rule data_noqueue_step [OF m e, of E wr])
  have pd: "\<exists>w' q. c\<lparr>recipient_window_size := w\<rparr> = c\<lparr>recipient_window_size := w', pending_data := q\<rparr>"
    using assms(3) by (intro exI [of _ w] exI [of _ "[]"]) simp
  have "flow_ok (c\<lparr>recipient_window_size := w\<rparr>)" using m assms(3) by (simp add: flow_ok_def)
  moreover have "n < length buf \<Longrightarrow>
      flow_ok (c\<lparr>recipient_window_size := w, pending_data := [(buf, a, n)]\<rparr>)"
    using m assms(2) w0 by (simp add: flow_ok_def entry_ok_def)
  moreover have "n < length buf \<Longrightarrow> transmits c (map (Pair a) buf) ps
      (c\<lparr>recipient_window_size := w, pending_data := [(buf, a, n)]\<rparr>)"
    using transmits_stop [OF p, of "[]"] w0 by (simp add: entry_stream_def)
  moreover have "\<not> n < length buf \<Longrightarrow>
      transmits c (map (Pair a) buf) ps (c\<lparr>recipient_window_size := w\<rparr>)"
    using p pd assms(3) by (simp add: transmits_def)
  ultimately show thesis using that [OF d] assms(3) by (simp add: Let_def)
qed

lemma queued_transmits:
  assumes "flow_ok c" "length buf < 2 ^ 32"
  shows "transmits c (queue_stream (pending_data c) @ map (Pair a) buf) []
       (c\<lparr>pending_data := pending_data c @ [(buf, a, 0)]\<rparr>)"
    "flow_ok (c\<lparr>pending_data := pending_data c @ [(buf, a, 0)]\<rparr>)"
  using assms unat_u32_lt [of "recipient_window_size c"]
  by (simp_all add: transmits_def packets_fit_def entry_stream_def flow_ok_def entry_ok_def)
    (rule exI [of _ "recipient_window_size c"], rule exI, simp)

lemma data_sends:
  assumes "channels self ch = Some c" "confirmed c" "flow_ok c" "length buf < 2 ^ 32"
  shows "\<exists>ps c' self'.
      (case ext of None \<Rightarrow> Encrypted_data E self ch buf
       | Some x \<Rightarrow> Encrypted_extended_data E self ch x buf) = Ok self'
    \<and> write self' = write self @ framed E (map (data_body E (recipient_channel c)) ps)
    \<and> channels self' = (channels self)(ch \<mapsto> c')
    \<and> transmits c (queue_stream (pending_data c) @ map (Pair ext) buf) ps c' \<and> flow_ok c'
    \<and> (pending_data c \<noteq> [] \<or> (ext = None \<and> rekey self \<noteq> None) \<longrightarrow> ps = [])"
proof (cases "pending_data c \<noteq> [] \<or> (ext = None \<and> rekey self \<noteq> None)")
  case True
  then show ?thesis
    using queued_transmits [OF assms(3,4), of ext] assms(1,2)
    by (intro exI [of _ "[]"] exI [of _ "c\<lparr>pending_data := pending_data c @ [(buf, ext, 0)]\<rparr>"])
      (cases ext; auto simp: Encrypted_data_def Encrypted_extended_data_def)
next
  case False
  then have q: "pending_data c = []" by simp
  obtain n ps c' where d: "data_noqueue E (write self) c buf ext 0 =
       Ok (n, write self @ framed E (map (data_body E (recipient_channel c)) ps), c')"
    and t: "let c2 = (if n < length buf then c'\<lparr>pending_data := pending_data c' @ [(buf, ext, n)]\<rparr>
          else c') in transmits c (map (Pair ext) buf) ps c2 \<and> flow_ok c2"
    by (rule send_or_queue [OF assms(3,4) q, of E "write self" ext])
  show ?thesis
    using False q d t assms(1,2)
    by (intro exI [of _ ps] exI [of _ "if n < length buf
        then c'\<lparr>pending_data := pending_data c' @ [(buf, ext, n)]\<rparr> else c'"])
      (cases ext; simp add: Encrypted_data_def Encrypted_extended_data_def Let_def)
qed

text \<open>
  C17: \<open>data\<close> and \<open>extended_data\<close> on a confirmed channel always return. What was sent and what is
  still queued are the old queue followed by the new buffer, in order, never past the window, and
  the invariant of the channel is kept. A buffer is sent at once only when nothing is queued, and
  plain data only outside a key re-exchange.
\<close>

theorem data_preserves_stream:
  assumes "channels self ch = Some c" "confirmed c" "flow_ok c" "length buf < 2 ^ 32"
  shows "\<exists>ps c' self'.
      (case ext of None \<Rightarrow> Encrypted_data E self ch buf
       | Some x \<Rightarrow> Encrypted_extended_data E self ch x buf) = Ok self'
    \<and> write self' = write self @ framed E (map (data_body E (recipient_channel c)) ps)
    \<and> channels self' = (channels self)(ch \<mapsto> c')
    \<and> transmits c (queue_stream (pending_data c) @ map (Pair ext) buf) ps c' \<and> flow_ok c'
    \<and> (pending_data c \<noteq> [] \<or> (ext = None \<and> rekey self \<noteq> None) \<longrightarrow> ps = [])"
  using assms by (rule data_sends)

theorem data_preserves_stream_witness:
  "\<exists>ps c' self'. (case None of None \<Rightarrow> Encrypted_data rfc4251 demo_session 3 [9, 9]
       | Some x \<Rightarrow> Encrypted_extended_data rfc4251 demo_session 3 x [9, 9]) = Ok self'
    \<and> transmits demo_channel (queue_stream (pending_data demo_channel) @ map (Pair None) [9, 9]) ps c'"
proof -
  have "confirmed demo_channel" "length [9, 9 :: u8] < 2 ^ 32" by (simp_all add: demo_channel_def)
  from data_preserves_stream [OF channels_demo this(1) flow_ok_demo this(2), where ext = None and E = rfc4251]
  show ?thesis by blast
qed

text \<open>
  a peer that confirms a channel with a maximum packet size of zero and a non-zero window
  makes the sender loop for ever on its first data: the loop writes empty packets.
\<close>

theorem zero_packet_size_diverges:
  assumes "channels self ch = Some c" "confirmed c" "pending_data c = []" "rekey self = None"
    and "recipient_maximum_packet_size c = 0" "recipient_window_size c \<noteq> 0"
    and "buf \<noteq> []" "length buf < 2 ^ 32"
  shows "Encrypted_data E self ch buf = Diverge"
proof -
  let ?w = "recipient_window_size c"
  have w: "0 < unat ?w" using assms(6) by (simp add: unat_gt_0)
  have "(of_nat (length buf) > ?w) = (length buf > unat ?w)"
    using assms(8) by (simp add: word_less_nat_alt unat_of_nat_u32)
  then have ne: "(if of_nat (length buf) > ?w then take (unat ?w) buf else buf) \<noteq> []"
    "\<not> (of_nat (length buf) > ?w \<and> unat ?w > length buf)"
    using assms(7) w by auto
  then have "send_loop E None (write self) c
      (if of_nat (length buf) > ?w then take (unat ?w) buf else buf) = None"
    using send_loop_returns [of E None "write self" c] assms(5) by fastforce
  then have "data_noqueue E (write self) c buf None 0 = Diverge"
    using assms(7) ne(2) by (auto simp: data_noqueue_def Let_def split: if_splits)
  then show ?thesis using assms(1-4) by (simp add: Encrypted_data_def)
qed

definition zero_channel :: channel_params where
  "zero_channel = demo_channel\<lparr>recipient_maximum_packet_size := 0, pending_data := []\<rparr>"

theorem zero_packet_size_diverges_witness:
  "Encrypted_data rfc4251 (demo_session\<lparr>channels := [3 \<mapsto> zero_channel]\<rparr>) 3 [1, 2] = Diverge"
  by (rule zero_packet_size_diverges [where c = zero_channel])
    (simp_all add: zero_channel_def demo_channel_def demo_session_def)

text \<open>
  the window arithmetic of \<open>data_noqueue\<close> is done in 32 bits. When the offset of a queued
  buffer plus the window passes 2 to the power 32 and the wrapped sum is below the length of the
  buffer, the slice is out of range and the sender panics.
\<close>

theorem wrapped_window_panics:
  assumes "channels self ch = Some c" "pending_data c = (buf, a, start) # q"
    and "start < length buf" "length buf < 2 ^ 32"
    and "2 ^ 32 \<le> start + unat (recipient_window_size c)"
    and "start + unat (recipient_window_size c) - 2 ^ 32 < length buf"
  shows "flush_pending E self ch = Panic"
proof -
  let ?w = "recipient_window_size c"
  have s: "start < 4294967296" using assms(3,4) by simp
  have "unat (of_nat start + ?w) = start + unat ?w - 4294967296"
  proof -
    have "unat (of_nat start + ?w) = (start + unat ?w) mod 4294967296"
      using s by (simp add: unat_word_ariths unat_of_nat_u32)
    then show ?thesis
      using assms(5) s unat_u32_lt [of ?w] by (simp add: mod_if)
  qed
  then have "(of_nat (length buf) :: u32) > of_nat start + ?w"
    using assms(4,6) by (simp add: word_less_nat_alt unat_of_nat_u32)
  moreover have "start + unat ?w > length buf" using assms(4,5) by simp
  ultimately have "data_noqueue E (write self) c buf a start = Panic"
    using assms(3) by (simp add: data_noqueue_def Let_def)
  then show ?thesis using assms(1,2) by (simp add: flush_pending_def flush_channel_def)
qed

theorem wrapped_window_panics_witness:
  "flush_pending rfc4251 (demo_session\<lparr>channels := [3 \<mapsto>
     demo_channel\<lparr>recipient_window_size := 4294967295\<rparr>]\<rparr>) 3 = Panic"
  by (rule wrapped_window_panics [where c = "demo_channel\<lparr>recipient_window_size := 4294967295\<rparr>"
        and buf = "[1, 2, 3, 4]" and start = 1])
    (simp_all add: demo_channel_def)

text \<open>
  the flag of a deferred EOF is never cleared: every later flush of the idle channel sends
  another EOF.
\<close>

theorem deferred_eof_sent_again:
  assumes "channels self ch = Some c" "pending_data c = []" "pending_eof c" "\<not> pending_close c"
  shows "flush_pending E self ch = Ok (0, self\<lparr>write := push_packet E (write self)
    (CHANNEL_EOF # push_u32_be E (recipient_channel c))\<rparr>)"
proof -
  have "(channels self)(ch \<mapsto> c\<lparr>pending_data := []\<rparr>) = channels self"
    using assms(1,2) by (auto intro!: ext)
  then show ?thesis
    using assms by (simp add: flush_pending_def flush_channel_def flush_result_complete_def
        handle_flushed_channel_def Encrypted_eof_def Encrypted_byte_def has_pending_data_mut_def)
qed

theorem deferred_eof_sent_again_witness:
  "flush_pending rfc4251 (demo_session\<lparr>channels := [3 \<mapsto> demo_channel\<lparr>pending_data := []\<rparr>]\<rparr>) 3
   = Ok (0, demo_session\<lparr>channels := [3 \<mapsto> demo_channel\<lparr>pending_data := []\<rparr>],
        write := [0, 0, 0, 5, 96, 0, 0, 0, 7]\<rparr>)"
  using deferred_eof_sent_again [of "demo_session\<lparr>channels := [3 \<mapsto> demo_channel\<lparr>pending_data := []\<rparr>]\<rparr>"
      3 "demo_channel\<lparr>pending_data := []\<rparr>" rfc4251]
  by (simp add: demo_channel_def demo_session_def push_packet_def rfc4251_def be32_def)

text \<open>
  \<open>flush_all_pending\<close>, which runs at the end of a key re-exchange, sends the queued data of
  the channels but never a deferred EOF or CLOSE, not even of a channel whose queue it emptied.
\<close>

theorem flush_all_pending_defers_close:
  assumes "channels self ch = Some c" "flow_ok c"
  shows "\<exists>ps c' self'. flush_all_pending E [ch] self = Ok self'
    \<and> transmits c (queue_stream (pending_data c)) ps c' \<and> flow_ok c'
    \<and> (pending_data c' \<noteq> [] \<longrightarrow> recipient_window_size c' = 0)
    \<and> write self' = write self @ framed E (map (data_body E (recipient_channel c)) ps)
    \<and> channels self' = (channels self)(ch \<mapsto> c')
    \<and> pending_eof c' = pending_eof c \<and> pending_close c' = pending_close c"
proof -
  obtain ps c' where f: "flush_channel E (write self) c = Ok (if pending_data c' = []
         then Complete (length (packets_stream ps)) (pending_eof c) (pending_close c)
         else Incomplete (length (packets_stream ps)),
       write self @ framed E (map (data_body E (recipient_channel c)) ps), c')"
    and t: "transmits c (queue_stream (pending_data c)) ps c'" "flow_ok c'"
      "pending_data c' \<noteq> [] \<longrightarrow> recipient_window_size c' = 0"
    using flush_channel_Ok [OF assms(2), of E "write self"] by blast
  have "pending_eof c' = pending_eof c" "pending_close c' = pending_close c"
    using t(1) by (auto simp: transmits_def)
  with f t assms(1) show ?thesis by (intro exI [of _ ps] exI [of _ c']) simp
qed

theorem flush_all_pending_defers_close_witness:
  "\<exists>ps c' self'. flush_all_pending rfc4251 [3] demo_session = Ok self'
    \<and> transmits demo_channel (queue_stream (pending_data demo_channel)) ps c'
    \<and> write self' = write demo_session @ framed rfc4251 (map (data_body rfc4251 7) ps)
    \<and> channels self' 3 = Some c' \<and> pending_eof c'"
proof -
  have "recipient_channel demo_channel = 7" "pending_eof demo_channel"
    by (simp_all add: demo_channel_def)
  with flush_all_pending_defers_close [OF channels_demo flow_ok_demo, of rfc4251]
  show ?thesis by fastforce
qed

section \<open>Properties of the rest of the session\<close>

text \<open>
  after received data the local window is the target again as soon as it fell below half of
  it; the peer is told exactly the difference, and nothing is sent otherwise. Data beyond the
  window leaves it unchanged.
\<close>

theorem adjust_window_size_restores:
  assumes "channels self ch = Some c" "length data < 2 ^ 32"
  defines "w \<equiv> (if length data \<le> unat (sender_window_size c)
                then unat (sender_window_size c) - length data else unat (sender_window_size c))"
  shows "\<exists>w' self'. adjust_window_size E self ch data target = (w < unat target div 2, self')
    \<and> channels self' = (channels self)(ch \<mapsto> c\<lparr>sender_window_size := w'\<rparr>)
    \<and> unat w' = (if w < unat target div 2 then unat target else w)
    \<and> write self' = write self @ framed E (if w < unat target div 2
        then [CHANNEL_WINDOW_ADJUST # push_u32_be E (recipient_channel c)
                @ push_u32_be E (of_nat (unat target - w))] else [])"
proof -
  let ?len = "of_nat (length data) :: u32"
  define w1 where "w1 = (if ?len \<le> sender_window_size c then sender_window_size c - ?len
    else sender_window_size c)"
  have len: "unat ?len = length data" using assms(2) by (simp add: unat_of_nat_u32)
  have w1: "unat w1 = w"
    unfolding w1_def w_def by (simp add: word_le_nat_alt len unat_sub)
  have lt: "w1 < target div 2 \<longleftrightarrow> w < unat target div 2"
    using w1 by (simp add: word_less_nat_alt unat_div)
  have diff: "w < unat target div 2 \<Longrightarrow> target - w1 = of_nat (unat target - w)"
  proof -
    assume "w < unat target div 2"
    then have "w1 \<le> target" using w1 by (simp add: word_le_nat_alt)
    then have "unat (target - w1) = unat target - w" using w1 by (simp add: unat_sub)
    then show ?thesis by (metis of_nat_unat ucast_id)
  qed
  show ?thesis
    using assms(1) lt diff w1
    by (intro exI [of _ "if w < unat target div 2 then target else w1"])
      (auto simp: adjust_window_size_def w1_def Let_def push_packet_framed)
qed

theorem adjust_window_size_restores_witness:
  "\<exists>w' self'. adjust_window_size rfc4251 demo_session 3 [1, 2] 200 = (True, self')
    \<and> channels self' = (channels demo_session)(3 \<mapsto> demo_channel\<lparr>sender_window_size := w'\<rparr>)
    \<and> unat w' = 200
    \<and> write self' = [0, 0, 0, 9, 93, 0, 0, 0, 7, 0, 0, 0, 102]"
  using adjust_window_size_restores [OF channels_demo, of "[1, 2]" rfc4251 200]
  by (simp add: demo_channel_def demo_session_def framed_Cons rfc4251_def be32_def)

text \<open>Counting up finds a free identifier as soon as there is one, in at most 2 to the power 32 steps.\<close>

lemma next_free_id_free:
  "chans j = None \<Longrightarrow> \<exists>k. next_free_id chans i = Some k \<and> chans k = None"
proof (induction "unat (j - i)" arbitrary: i)
  case 0
  then have "j = i" by (simp add: unat_eq_0)
  with 0 show ?case by (subst next_free_id.simps) simp
next
  case (Suc n)
  show ?case
  proof (cases "chans i = None")
    case True
    then show ?thesis by (subst next_free_id.simps) simp
  next
    case False
    have "j - i \<noteq> 0" using Suc.hyps(2) by (metis nat.distinct(1) unat_0)
    then have "n = unat (j - (i + 1))"
      using Suc.hyps(2) unat_minus_one [of "j - i"] by (simp add: algebra_simps)
    from Suc.hyps(1) [OF this Suc.prems] False show ?thesis
      by (subst next_free_id.simps) simp
  qed
qed

text \<open>
  while an identifier is free, opening a channel returns one that no channel of the session
  has, adds an unconfirmed channel with an empty queue under it and leaves every other channel alone.
\<close>

theorem new_channel_fresh:
  assumes "channels self j = None"
  shows "\<exists>i self'. Encrypted_new_channel self window maxpacket = Ok (i, self')
    \<and> channels self i = None
    \<and> channels self' = (channels self)(i \<mapsto> fresh_channel i window maxpacket)
    \<and> last_channel_id self' = i \<and> write self' = write self"
proof -
  obtain i where i: "next_free_id (channels self) (last_channel_id self + 1) = Some i"
    "channels self i = None"
    using next_free_id_free [of "channels self" j] assms by blast
  then show ?thesis by (simp add: Encrypted_new_channel_def)
qed

section \<open>What is encrypted\<close>

text \<open>Compress and seal a list of packets, one after another.\<close>

fun seal_all ::
  "codec \<Rightarrow> ('z \<Rightarrow> bytes \<Rightarrow> (error, bytes \<times> 'z) outcome) \<Rightarrow> 's sealing_key \<Rightarrow> bytes list \<Rightarrow>
   'z option \<Rightarrow> 's \<Rightarrow> sshbuffer \<Rightarrow> (error, 'z option \<times> 's \<times> sshbuffer) outcome" where
  "seal_all E zlib K [] z s wb = Ok (z, s, wb)"
| "seal_all E zlib K (p # ps) z s wb =
     obind (Compress_compress zlib z p) (\<lambda>(packet, z').
     obind (SealingKey_write E K s packet wb) (\<lambda>(s', wb'). seal_all E zlib K ps z' s' wb'))"

context ssh_encoding begin

lemma flush_packets_framed:
  "list_all (\<lambda>p. length p < 2 ^ 32) ps \<Longrightarrow>
   flush_packets E zlib K (pre @ framed E ps) (length pre) z s wb =
     obind (seal_all E zlib K ps z s wb) (\<lambda>(z', s', wb').
       Ok (length (pre @ framed E ps), z', s', wb'))"
proof (induction ps arbitrary: pre z s wb)
  case Nil
  then show ?case by (simp add: flush_packets.simps)
next
  case (Cons p ps)
  let ?h = "be_write_u32 E (of_nat (length p))"
  have len: "unat (of_nat (length p) :: u32) = length p"
    using Cons.prems by (simp add: unat_of_nat_u32)
  have IH: "flush_packets E zlib K ((pre @ ?h @ p) @ framed E ps) (length (pre @ ?h @ p)) z s wb =
     obind (seal_all E zlib K ps z s wb) (\<lambda>(z', s', wb').
       Ok (length ((pre @ ?h @ p) @ framed E ps), z', s', wb'))" for z s wb
    using Cons.prems by (intro Cons.IH) simp
  have h: "be_read_u32 E (?h @ p @ framed E ps) = of_nat (length p)" by (rule be_read_write)
  show ?case
    using IH h
    by (subst flush_packets.simps)
      (simp add: framed_Cons length_be_write len Let_def obind_assoc split_def)
qed

end

text \<open>
  a flush compresses and encrypts every packet that was framed into the write buffer exactly
  once, in order, and then empties the buffer; it asks for a key re-exchange exactly when the
  algorithm does one and one of the two limits is reached.
\<close>

theorem flush_encrypts_every_packet:
  assumes "ssh_encoding E" "write self = pre @ framed E ps" "write_cursor self = length pre"
    and "list_all (\<lambda>p. length p < 2 ^ 32) ps"
  shows "Encrypted_flush E zlib skip_exchange now lim K self s wb =
    obind (seal_all E zlib K ps (compress self) s wb) (\<lambda>(z, s', wb').
      Ok (\<not> skip_exchange (kex_alg self) \<and> (rekey_write_limit lim \<le> buf_bytes wb'
            \<or> rekey_time_limit lim \<le> now - last_rekey self),
          self\<lparr>write := [], write_cursor := 0, compress := z\<rparr>, s', wb'))"
  unfolding Encrypted_flush_def assms(2,3)
  using ssh_encoding.flush_packets_framed [OF assms(1,4), of zlib K pre "compress self" s wb]
  by (cases "seal_all E zlib K ps (compress self) s wb") (auto simp: Let_def)

theorem flush_encrypts_every_packet_witness:
  "Encrypted_flush rfc4251 (\<lambda>z b. Ok (b, z)) (\<lambda>_. False) 5 \<lparr>rekey_write_limit = 10, rekey_read_limit = 10,
       rekey_time_limit = 100\<rparr> clear_sealing
     (demo_session\<lparr>write := framed rfc4251 [[94, 1], [96]]\<rparr>) () SSHBuffer_new =
   obind (seal_all rfc4251 (\<lambda>z b. Ok (b, z)) clear_sealing [[94, 1], [96]] None () SSHBuffer_new)
     (\<lambda>(z, s', wb'). Ok (10 \<le> buf_bytes wb', demo_session\<lparr>compress := z\<rparr>, s', wb'))"
proof -
  have "list_all (\<lambda>p. length p < 2 ^ 32) [[94, 1], [96 :: u8]]" by simp
  from flush_encrypts_every_packet [OF rfc.ssh_encoding_axioms _ _ this, where pre = "[]"
      and self = "demo_session\<lparr>write := framed rfc4251 [[94, 1], [96]]\<rparr>"
      and zlib = "\<lambda>z b. Ok (b, z)" and skip_exchange = "\<lambda>_. False" and now = 5 and K = clear_sealing
      and lim = "\<lparr>rekey_write_limit = 10, rekey_read_limit = 10, rekey_time_limit = 100\<rparr>"]
  show ?thesis by (simp add: demo_session_def del: seal_all.simps)
qed

theorem new_channel_fresh_witness:
  "\<exists>i self'. Encrypted_new_channel demo_session 100 64 = Ok (i, self')
    \<and> channels demo_session i = None
    \<and> channels self' = (channels demo_session)(i \<mapsto> fresh_channel i 100 64)"
proof -
  have "channels demo_session 9 = None" by (simp add: demo_session_def)
  from new_channel_fresh [OF this, of 100 64] show ?thesis by blast
qed

end
