(* ===== verification/Ssh_Messages.thy ===== *)
theory Ssh_Messages
  imports Channel_Session
begin

text \<open>
  The messages that open channels (\<^verbatim>\<open>crates/russh/src/parsing.rs\<close>): reading CHANNEL\_OPEN and its
  confirmation, and writing the answers. A reader is the list of the bytes that are left; each
  parser returns what it read with the rest.
\<close>

section \<open>CHANNEL\_OPEN\<close>

record tcp_channel_info =
  host_to_connect :: bytes
  port_to_connect :: u32
  tci_originator_address :: bytes
  tci_originator_port :: u32

datatype channel_type =
  SessionChannel | X11 bytes u32 | DirectTcpip tcp_channel_info | ForwardedTcpIp tcp_channel_info
| AgentForwardChannel | UnknownType bytes

record open_channel_message =
  oc_typ :: channel_type
  oc_recipient_channel :: u32
  oc_recipient_window_size :: u32
  oc_recipient_maximum_packet_size :: u32

definition read_str :: "codec \<Rightarrow> bytes \<Rightarrow> (error, bytes \<times> bytes) outcome" where
  "read_str E r =
    obind (read_or (read_string E r)) (\<lambda>(s, r).
    obind (from_utf8_or s) (\<lambda>s. Ok (s, r)))"

definition TcpChannelInfo_new :: "codec \<Rightarrow> bytes \<Rightarrow> (error, tcp_channel_info \<times> bytes) outcome" where
  "TcpChannelInfo_new E r =
    obind (read_str E r) (\<lambda>(host, r).
    obind (read_or (read_u32 E r)) (\<lambda>(port, r).
    obind (read_str E r) (\<lambda>(originator, r).
    obind (read_or (read_u32 E r)) (\<lambda>(originator_port, r).
    Ok (\<lparr>host_to_connect = host, port_to_connect = port, tci_originator_address = originator,
         tci_originator_port = originator_port\<rparr>, r)))))"

definition channel_type_parse :: "codec \<Rightarrow> bytes \<Rightarrow> bytes \<Rightarrow> (error, channel_type \<times> bytes) outcome" where
  "channel_type_parse E typ r =
    (if typ = bs ''session'' then Ok (SessionChannel, r)
     else if typ = bs ''x11'' then
       obind (read_str E r) (\<lambda>(addr, r).
       obind (read_or (read_u32 E r)) (\<lambda>(port, r). Ok (X11 addr port, r)))
     else if typ = bs ''direct-tcpip'' then
       obind (TcpChannelInfo_new E r) (\<lambda>(info, r). Ok (DirectTcpip info, r))
     else if typ = bs ''forwarded-tcpip'' then
       obind (TcpChannelInfo_new E r) (\<lambda>(info, r). Ok (ForwardedTcpIp info, r))
     else if typ = bs ''auth-agent@openssh.com'' then Ok (AgentForwardChannel, r)
     else Ok (UnknownType typ, r))"

definition OpenChannelMessage_parse :: "codec \<Rightarrow> bytes \<Rightarrow> (error, open_channel_message \<times> bytes) outcome" where
  "OpenChannelMessage_parse E r =
    obind (read_or (read_string E r)) (\<lambda>(typ, r).
    obind (read_or (read_u32 E r)) (\<lambda>(sender, r).
    obind (read_or (read_u32 E r)) (\<lambda>(window, r).
    obind (read_or (read_u32 E r)) (\<lambda>(maxpacket, r).
    obind (channel_type_parse E typ r) (\<lambda>(t, r).
    Ok (\<lparr>oc_typ = t, oc_recipient_channel = sender, oc_recipient_window_size = window,
         oc_recipient_maximum_packet_size = maxpacket\<rparr>, r))))))"

section \<open>The answers\<close>

definition OpenChannelMessage_confirm ::
  "codec \<Rightarrow> open_channel_message \<Rightarrow> bytes \<Rightarrow> u32 \<Rightarrow> u32 \<Rightarrow> u32 \<Rightarrow> bytes" where
  "OpenChannelMessage_confirm E self wr sender_chan window_size packet_size =
     push_packet E wr (CHANNEL_OPEN_CONFIRMATION # push_u32_be E (oc_recipient_channel self)
       @ push_u32_be E sender_chan @ push_u32_be E window_size @ push_u32_be E packet_size)"

definition OpenChannelMessage_fail :: "codec \<Rightarrow> open_channel_message \<Rightarrow> bytes \<Rightarrow> u8 \<Rightarrow> bytes \<Rightarrow> bytes" where
  "OpenChannelMessage_fail E self wr reason message =
     push_packet E wr (CHANNEL_OPEN_FAILURE # push_u32_be E (oc_recipient_channel self)
       @ push_u32_be E (ucast reason) @ extend_ssh_string E message @ extend_ssh_string E (bs ''en''))"

definition OpenChannelMessage_unknown_type :: "codec \<Rightarrow> open_channel_message \<Rightarrow> bytes \<Rightarrow> bytes" where
  "OpenChannelMessage_unknown_type E self wr =
     OpenChannelMessage_fail E self wr SSH_OPEN_UNKNOWN_CHANNEL_TYPE (bs ''Unknown channel type'')"

definition ChannelOpenConfirmation_parse ::
  "codec \<Rightarrow> bytes \<Rightarrow> (error, channel_open_confirmation \<times> bytes) outcome" where
  "ChannelOpenConfirmation_parse E r =
    obind (read_or (read_u32 E r)) (\<lambda>(recipient, r).
    obind (read_or (read_u32 E r)) (\<lambda>(sender, r).
    obind (read_or (read_u32 E r)) (\<lambda>(window, r).
    obind (read_or (read_u32 E r)) (\<lambda>(maxpacket, r).
    Ok (\<lparr>coc_recipient_channel = recipient, coc_sender_channel = sender,
         initial_window_size = window, maximum_packet_size = maxpacket\<rparr>, r)))))"

end
