(* ===== verification/Transition.thy ===== *)
theory Transition
  imports Ssh_Prelude
begin

text \<open>
  Labelled step relations: the runs of a relation, and the interface through which the components
  that are state machines prove their invariants and their stable properties.
\<close>

inductive run :: "('s \<Rightarrow> 'e \<Rightarrow> 's \<Rightarrow> bool) \<Rightarrow> 's \<Rightarrow> 'e list \<Rightarrow> 's \<Rightarrow> bool"
  for step :: "'s \<Rightarrow> 'e \<Rightarrow> 's \<Rightarrow> bool" where
  stop: "run step s [] s"
| more: "step s e t \<Longrightarrow> run step t es u \<Longrightarrow> run step s (e # es) u"

inductive_simps run_Nil [simp]: "run step s [] t"
inductive_simps run_Cons [simp]: "run step s (e # es) t"

lemma run_append: "run step s (es @ fs) u \<longleftrightarrow> (\<exists>t. run step s es t \<and> run step t fs u)"
  by (induction es arbitrary: s) auto

text \<open>A property that steps preserve while their labels satisfy \<open>ok\<close>.\<close>

locale step_invariant =
  fixes step :: "'s \<Rightarrow> 'e \<Rightarrow> 's \<Rightarrow> bool" and ok :: "'e \<Rightarrow> bool" and inv :: "'s \<Rightarrow> bool"
  assumes step_inv: "step s e t \<Longrightarrow> ok e \<Longrightarrow> inv s \<Longrightarrow> inv t"
begin

lemma run_inv: "run step s es t \<Longrightarrow> list_all ok es \<Longrightarrow> inv s \<Longrightarrow> inv t"
  by (induction rule: run.induct) (auto intro: step_inv)

end

text \<open>
  A step relation that simulates another: every run of the first has a run of the second with the
  same labels, and the states stay related.
\<close>

locale forward_simulation =
  fixes cstep :: "'s \<Rightarrow> 'e \<Rightarrow> 's \<Rightarrow> bool" and astep :: "'a \<Rightarrow> 'e \<Rightarrow> 'a \<Rightarrow> bool" and R :: "'s \<Rightarrow> 'a \<Rightarrow> bool"
  assumes simulate: "R s a \<Longrightarrow> cstep s e t \<Longrightarrow> \<exists>b. astep a e b \<and> R t b"
begin

lemma run_simulates: "run cstep s es t \<Longrightarrow> R s a \<Longrightarrow> \<exists>b. run astep a es b \<and> R t b"
proof (induction arbitrary: a rule: run.induct)
  case (more s e t es u)
  then obtain b where "astep a e b" "R t b" using simulate by blast
  moreover from more.IH [OF this(2)] obtain c where "run astep b es c" "R u c" by blast
  ultimately show ?case by auto
qed auto

end

end
