(* ===== verification/Client_Session.thy ===== *)
theory Client_Session
  imports Ssh_Ident Ssh_Messages Transition
begin

text \<open>
  The client's session: its state and configuration (\<^verbatim>\<open>crates/russh/src/client/mod.rs\<close>), the requests it
  writes (\<^verbatim>\<open>client/session.rs\<close>), the commands of the application (\<open>handle_msg\<close>) and the messages of the
  server after authentication (\<open>client_read_authenticated\<close> of \<^verbatim>\<open>client/encrypted.rs\<close>).

  A \<open>ChannelRef\<close> is a number; what is sent through the channels of the runtime, to the application
  and to the handler is recorded in an outbox in order. The handler of the application is a
  parameter: each of its callbacks may change the session or fail. Arithmetic wraps as it does in a
  release build.
\<close>

section \<open>Messages between the session and the application\<close>

text \<open>A \<open>Pty\<close> is its code.\<close>

type_synonym pty = u8

datatype channel_msg =
  Open channel_id u32 u32
| Data bytes
| ExtendedData bytes u32
| Eof
| Close
| RequestPty bool bytes u32 u32 u32 u32 "(pty \<times> u32) list"
| RequestShell bool
| Exec bool bytes
| Signal sig
| RequestSubsystem bool bytes
| RequestX11 bool bool bytes bytes u32
| SetEnv bool bytes bytes
| WindowChange u32 u32 u32 u32
| AgentForward bool
| XonXoff bool
| ExitStatus u32
| ExitSignal sig bool bytes bytes
| WindowAdjusted u32
| Success
| Failure
| OpenFailure channel_open_failure

text \<open>Replies of a global request, with the number of the one-shot channel that awaits it.\<close>

datatype global_request_response = Keepalive | TcpIpForward nat | CancelTcpIpForward nat

datatype reply =
  AuthSuccess | AuthFailure | ReplyChannelOpenFailure | SignRequest bytes bytes
| AuthInfoRequest bytes bytes "(bytes \<times> bool) list"

datatype callback =
  CbBanner bytes | CbOpenConfirmation channel_id u32 u32 | CbClose channel_id | CbEof channel_id
| CbOpenFailure channel_id channel_open_failure bytes bytes | CbData channel_id bytes
| CbExtendedData channel_id u32 bytes | CbXonXoff channel_id bool | CbExitStatus channel_id u32
| CbExitSignal channel_id sig bool bytes bytes | CbWindowAdjusted channel_id u32
| CbSuccess channel_id | CbFailure channel_id | CbOpenSession channel_id
| CbOpenDirectTcpip channel_id tcp_channel_info | CbOpenX11 nat bytes u32
| CbOpenForwardedTcpip nat tcp_channel_info | CbOpenAgentForward channel_id | CbHostKeys "bytes list"

datatype session_out =
  ToChannel nat channel_msg | SetWindow nat u32 | ToHandle reply | ReplyPort nat "u32 option"
| ReplyCancelled nat bool | NewChannel nat channel_id u32 u32

section \<open>State\<close>

record client_config =
  cfg_client_id :: ssh_id
  cfg_limits :: limits
  cfg_window_size :: u32
  cfg_maximum_packet_size :: u32
  cfg_preferred :: preferred
  cfg_inactivity_timeout :: "nat option"
  cfg_keepalive_interval :: "nat option"
  cfg_keepalive_max :: nat
  cfg_anonymous :: bool

record ('k, 'c, 'z, 'm) client_session =
  common :: "(client_config, 'k, 'c, 'z, 'm) common_session"
  refs :: "channel_id \<rightharpoonup> nat"
  next_ref :: nat
  target_window_size :: u32
  pending_reads :: "bytes list"
  pending_len :: u32
  open_global_requests :: "global_request_response list"
  outbox :: "session_out list"

definition Session_new ::
  "u32 \<Rightarrow> (client_config, 'k, 'c, 'z, 'm) common_session \<Rightarrow> ('k, 'c, 'z, 'm) client_session" where
  "Session_new target com = \<lparr>common = com, refs = Map.empty, next_ref = 0,
     target_window_size = target, pending_reads = [], pending_len = 0,
     open_global_requests = [], outbox = []\<rparr>"

text \<open>The handler of the application; \<open>call\<close> is every callback that is handed the session.\<close>

record ('k, 'c, 'z, 'm) handler =
  call :: "callback \<Rightarrow> ('k, 'c, 'z, 'm) client_session \<Rightarrow> (error, ('k, 'c, 'z, 'm) client_session) outcome"
  adjust_window :: "channel_id \<Rightarrow> u32 \<Rightarrow> u32"
  handle_unknown :: "channel_id \<Rightarrow> bytes \<Rightarrow> bool"
  parse_public_key :: "bytes \<Rightarrow> bytes option"

text \<open>The default implementations of the trait \<open>Handler\<close>.\<close>

definition default_handler :: "('k, 'c, 'z, 'm) handler" where
  "default_handler = \<lparr>call = (\<lambda>_ s. Ok s), adjust_window = (\<lambda>_ w. w), handle_unknown = (\<lambda>_ _. False),
     parse_public_key = (\<lambda>_. None)\<rparr>"

definition enc_of :: "('k, 'c, 'z, 'm) client_session \<Rightarrow> ('k, 'c, 'z) encrypted option" where
  "enc_of s = encrypted_of (common s)"

text \<open>\<open>if let Some(ref mut enc) = self.common.encrypted\<close> around a change of the encrypted session.\<close>

definition with_enc ::
  "(('k, 'c, 'z) encrypted \<Rightarrow> ('k, 'c, 'z) encrypted) \<Rightarrow> ('k, 'c, 'z, 'm) client_session \<Rightarrow>
   ('k, 'c, 'z, 'm) client_session" where
  "with_enc f s = s\<lparr>common := (common s)\<lparr>encrypted_of := map_option f (enc_of s)\<rparr>\<rparr>"

definition set_enc ::
  "('k, 'c, 'z) encrypted \<Rightarrow> ('k, 'c, 'z, 'm) client_session \<Rightarrow> ('k, 'c, 'z, 'm) client_session" where
  "set_enc enc s = s\<lparr>common := (common s)\<lparr>encrypted_of := Some enc\<rparr>\<rparr>"

definition emit :: "session_out list \<Rightarrow> ('k, 'c, 'z, 'm) client_session \<Rightarrow> ('k, 'c, 'z, 'm) client_session" where
  "emit os s = s\<lparr>outbox := outbox s @ os\<rparr>"

text \<open>\<open>Session::send_channel_msg\<close> and its inlined copies.\<close>

definition send_channel_msg ::
  "channel_id \<Rightarrow> channel_msg \<Rightarrow> ('k, 'c, 'z, 'm) client_session \<Rightarrow> ('k, 'c, 'z, 'm) client_session" where
  "send_channel_msg channel m s =
    (case refs s channel of Some ref \<Rightarrow> emit [ToChannel ref m] s | None \<Rightarrow> s)"

definition is_rekeying :: "('k, 'c, 'z, 'm) client_session \<Rightarrow> bool" where
  "is_rekeying s = (case enc_of s of Some enc \<Rightarrow> rekey enc \<noteq> None | None \<Rightarrow> True)"


section \<open>Opening channels\<close>

text \<open>
  The packet of a channel that is opened: its kind, its identifier, our window and packet size, and
  the fields of the kind.
\<close>

definition open_body :: "codec \<Rightarrow> bytes \<Rightarrow> u32 \<Rightarrow> u32 \<Rightarrow> u32 \<Rightarrow> bytes \<Rightarrow> bytes" where
  "open_body E kind i window maxpacket suffix =
     CHANNEL_OPEN # extend_ssh_string E kind @ push_u32_be E i @ push_u32_be E window
     @ push_u32_be E maxpacket @ suffix"

definition channel_open_generic ::
  "codec \<Rightarrow> bytes \<Rightarrow> bytes \<Rightarrow> ('k, 'c, 'z, 'm) client_session \<Rightarrow>
   (error, channel_id \<times> ('k, 'c, 'z, 'm) client_session) outcome" where
  "channel_open_generic E kind suffix s =
    (case enc_of s of
       None \<Rightarrow> Err Inconsistent
     | Some enc \<Rightarrow>
         if state enc = Authenticated then
           (let window = cfg_window_size (config (common s));
                maxpacket = cfg_maximum_packet_size (config (common s))
            in obind (Encrypted_new_channel enc window maxpacket) (\<lambda>(i, enc').
               Ok (i, set_enc (enc'\<lparr>write := push_packet E (write enc')
                        (open_body E kind i window maxpacket suffix)\<rparr>) s)))
         else Err NotAuthenticated)"

definition channel_open_session where
  "channel_open_session E s = channel_open_generic E (bs ''session'') [] s"

definition channel_open_x11 where
  "channel_open_x11 E addr port s =
     channel_open_generic E (bs ''x11'') (extend_ssh_string E addr @ push_u32_be E port) s"

definition tcpip_suffix :: "codec \<Rightarrow> tcp_channel_info \<Rightarrow> bytes" where
  "tcpip_suffix E d = extend_ssh_string E (host_to_connect d) @ push_u32_be E (port_to_connect d)
     @ extend_ssh_string E (tci_originator_address d) @ push_u32_be E (tci_originator_port d)"

definition channel_open_direct_tcpip where
  "channel_open_direct_tcpip E d s =
     channel_open_generic E (bs ''direct-tcpip'') (tcpip_suffix E d) s"

definition channel_open_direct_streamlocal where
  "channel_open_direct_streamlocal E socket_path s =
     channel_open_generic E (bs ''direct-streamlocal@openssh.com'')
       (extend_ssh_string E socket_path @ extend_ssh_string E [] @ push_u32_be E 0) s"

definition channel_open_tun where
  "channel_open_tun E mode tunnel_num s =
     channel_open_generic E (bs ''tun@openssh.com'') (push_u32_be E mode @ push_u32_be E tunnel_num) s"

section \<open>Channel requests\<close>

definition bool_byte :: "bool \<Rightarrow> u8" where
  "bool_byte b = (if b then 1 else 0)"

text \<open>A request is written only for a channel that the session knows.\<close>

definition channel_request ::
  "codec \<Rightarrow> channel_id \<Rightarrow> bytes \<Rightarrow> bytes \<Rightarrow> ('k, 'c, 'z, 'm) client_session \<Rightarrow> ('k, 'c, 'z, 'm) client_session"
where
  "channel_request E channel kind payload s =
    with_enc (\<lambda>enc. case channels enc channel of
        None \<Rightarrow> enc
      | Some c \<Rightarrow> enc\<lparr>write := push_packet E (write enc)
          (CHANNEL_REQUEST # push_u32_be E (recipient_channel c) @ extend_ssh_string E kind @ payload)\<rparr>) s"

definition request_pty where
  "request_pty E channel want_reply term col_width row_height pix_width pix_height terminal_modes s =
     channel_request E channel (bs ''pty-req'')
       (bool_byte want_reply # extend_ssh_string E term @ push_u32_be E col_width
        @ push_u32_be E row_height @ push_u32_be E pix_width @ push_u32_be E pix_height
        @ push_u32_be E (of_nat (1 + 5 * length terminal_modes))
        @ concat (map (\<lambda>(code, value). code # push_u32_be E value) terminal_modes) @ [0]) s"

definition request_x11 where
  "request_x11 E channel want_reply single protocol cookie screen s =
     channel_request E channel (bs ''x11-req'')
       (bool_byte want_reply # bool_byte single # extend_ssh_string E protocol
        @ extend_ssh_string E cookie @ push_u32_be E screen) s"

definition set_env where
  "set_env E channel want_reply name value s =
     channel_request E channel (bs ''env'')
       (bool_byte want_reply # extend_ssh_string E name @ extend_ssh_string E value) s"

definition request_shell where
  "request_shell E want_reply channel s = channel_request E channel (bs ''shell'') [bool_byte want_reply] s"

definition exec where
  "exec E channel want_reply command s =
     channel_request E channel (bs ''exec'') (bool_byte want_reply # extend_ssh_string E command) s"

definition signal where
  "signal E channel sg s =
     channel_request E channel (bs ''signal'') (0 # extend_ssh_string E (Sig_name sg)) s"

definition request_subsystem where
  "request_subsystem E want_reply channel name s =
     channel_request E channel (bs ''subsystem'') (bool_byte want_reply # extend_ssh_string E name) s"

definition window_change where
  "window_change E channel col_width row_height pix_width pix_height s =
     channel_request E channel (bs ''window-change'')
       (0 # push_u32_be E col_width @ push_u32_be E row_height @ push_u32_be E pix_width
        @ push_u32_be E pix_height) s"

definition agent_forward where
  "agent_forward E channel want_reply s =
     channel_request E channel (bs ''auth-agent-req@openssh.com'') [bool_byte want_reply] s"

section \<open>Global requests\<close>

definition global_request ::
  "codec \<Rightarrow> bytes \<Rightarrow> bytes \<Rightarrow> ('k, 'c, 'z, 'm) client_session \<Rightarrow> ('k, 'c, 'z, 'm) client_session" where
  "global_request E kind payload s =
    with_enc (\<lambda>enc. enc\<lparr>write := push_packet E (write enc)
       (GLOBAL_REQUEST # extend_ssh_string E kind @ payload)\<rparr>) s"

text \<open>A reply is awaited when a one-shot channel was given, and it is queued in that case only.\<close>

definition await_reply ::
  "global_request_response option \<Rightarrow> ('k, 'c, 'z, 'm) client_session \<Rightarrow> ('k, 'c, 'z, 'm) client_session" where
  "await_reply r s =
    (case r of Some w \<Rightarrow> s\<lparr>open_global_requests := open_global_requests s @ [w]\<rparr> | None \<Rightarrow> s)"

definition tcpip_forward where
  "tcpip_forward E reply_channel address port s =
    (if enc_of s = None then s
     else global_request E (bs ''tcpip-forward'')
       (bool_byte (reply_channel \<noteq> None) # extend_ssh_string E address @ push_u32_be E port)
       (await_reply (map_option TcpIpForward reply_channel) s))"

definition cancel_tcpip_forward where
  "cancel_tcpip_forward E reply_channel address port s =
    (if enc_of s = None then s
     else global_request E (bs ''cancel-tcpip-forward'')
       (bool_byte (reply_channel \<noteq> None) # extend_ssh_string E address @ push_u32_be E port)
       (await_reply (map_option CancelTcpIpForward reply_channel) s))"

definition send_keepalive where
  "send_keepalive E want_reply s =
     global_request E (bs ''keepalive@openssh.com'') [bool_byte want_reply]
       (await_reply (Some Keepalive) s)"

section \<open>Data\<close>

text \<open>The operations on the encrypted session; without one the source panics.\<close>

definition lift_enc ::
  "(('k, 'c, 'z) encrypted \<Rightarrow> (error, ('k, 'c, 'z) encrypted) outcome) \<Rightarrow> ('k, 'c, 'z, 'm) client_session \<Rightarrow>
   (error, ('k, 'c, 'z, 'm) client_session) outcome" where
  "lift_enc f s =
    (case enc_of s of Some enc \<Rightarrow> obind (f enc) (\<lambda>enc'. Ok (set_enc enc' s)) | None \<Rightarrow> Panic)"

definition Session_data where
  "Session_data E channel d s = lift_enc (\<lambda>enc. Encrypted_data E enc channel d) s"

definition Session_extended_data where
  "Session_extended_data E channel ext d s = lift_enc (\<lambda>enc. Encrypted_extended_data E enc channel ext d) s"

definition Session_eof where
  "Session_eof E channel s = lift_enc (\<lambda>enc. Ok (Encrypted_eof E enc channel)) s"

definition Session_close where
  "Session_close E channel s = lift_enc (\<lambda>enc. Ok (Encrypted_close E enc channel)) s"

definition Session_disconnect where
  "Session_disconnect E reason description language_tag s =
     s\<lparr>common := CommonSession_disconnect E (common s) reason description language_tag\<rparr>"

definition Session_has_pending_data where
  "Session_has_pending_data channel s =
     (case enc_of s of Some enc \<Rightarrow> has_pending_data enc channel | None \<Rightarrow> False)"

definition Session_sender_window_size where
  "Session_sender_window_size channel s =
     (case enc_of s of Some enc \<Rightarrow> Encrypted_sender_window_size enc channel | None \<Rightarrow> 0)"

section \<open>Commands of the application\<close>

datatype 'm msg =
  Authenticate bytes 'm
| AuthInfoResponse "bytes list"
| Signed bytes
| ChannelOpenSession nat
| ChannelOpenX11 bytes u32 nat
| ChannelOpenDirectTcpIp tcp_channel_info nat
| ChannelOpenDirectStreamLocal bytes nat
| ChannelOpenTun u32 u32 nat
| MsgTcpIpForward "nat option" bytes u32
| MsgCancelTcpIpForward "nat option" bytes u32
| MsgClose channel_id
| MsgDisconnect disconnect bytes bytes
| Channel channel_id channel_msg

definition open_ref ::
  "(error, channel_id \<times> ('k, 'c, 'z, 'm) client_session) outcome \<Rightarrow> nat \<Rightarrow>
   (error, ('k, 'c, 'z, 'm) client_session) outcome" where
  "open_ref r ref = obind r (\<lambda>(i, s). Ok (s\<lparr>refs := (refs s)(i \<mapsto> ref)\<rparr>))"

text \<open>The part of \<open>handle_msg\<close> for a message of a channel; the other messages are unimplemented.\<close>

definition handle_channel_msg ::
  "codec \<Rightarrow> channel_id \<Rightarrow> channel_msg \<Rightarrow> ('k, 'c, 'z, 'm) client_session \<Rightarrow>
   (error, ('k, 'c, 'z, 'm) client_session) outcome" where
  "handle_channel_msg E i m s =
    (case m of
       Data d \<Rightarrow> Session_data E i d s
     | Eof \<Rightarrow> Session_eof E i s
     | ExtendedData d ext \<Rightarrow> Session_extended_data E i ext d s
     | RequestPty w t c r pw ph modes \<Rightarrow> Ok (request_pty E i w t c r pw ph modes s)
     | WindowChange c r pw ph \<Rightarrow> Ok (window_change E i c r pw ph s)
     | RequestX11 w single p ck sc \<Rightarrow> Ok (request_x11 E i w single p ck sc s)
     | SetEnv w n v \<Rightarrow> Ok (set_env E i w n v s)
     | RequestShell w \<Rightarrow> Ok (request_shell E w i s)
     | Exec w cmd \<Rightarrow> Ok (exec E i w cmd s)
     | Signal sg \<Rightarrow> Ok (signal E i sg s)
     | RequestSubsystem w n \<Rightarrow> Ok (request_subsystem E w i n s)
     | AgentForward w \<Rightarrow> Ok (agent_forward E i w s)
     | Close \<Rightarrow> Session_close E i s
     | _ \<Rightarrow> Panic)"

text \<open>\<open>handle_msg\<close>; writing the authentication request is an argument, defined with authentication.\<close>

definition handle_msg ::
  "codec \<Rightarrow> (bytes \<Rightarrow> 'm \<Rightarrow> ('k, 'c, 'z, 'm) client_session \<Rightarrow> (error, ('k, 'c, 'z, 'm) client_session) outcome) \<Rightarrow>
   'm msg \<Rightarrow> ('k, 'c, 'z, 'm) client_session \<Rightarrow> (error, ('k, 'c, 'z, 'm) client_session) outcome" where
  "handle_msg E write_auth m s =
    (case m of
       Authenticate user meth \<Rightarrow> write_auth user meth s
     | Signed _ \<Rightarrow> Ok s
     | AuthInfoResponse _ \<Rightarrow> Ok s
     | ChannelOpenSession ref \<Rightarrow> open_ref (channel_open_session E s) ref
     | ChannelOpenX11 addr port ref \<Rightarrow> open_ref (channel_open_x11 E addr port s) ref
     | ChannelOpenDirectTcpIp d ref \<Rightarrow> open_ref (channel_open_direct_tcpip E d s) ref
     | ChannelOpenDirectStreamLocal path ref \<Rightarrow> open_ref (channel_open_direct_streamlocal E path s) ref
     | ChannelOpenTun mode num ref \<Rightarrow> open_ref (channel_open_tun E mode num s) ref
     | MsgTcpIpForward rc addr port \<Rightarrow> Ok (tcpip_forward E rc addr port s)
     | MsgCancelTcpIpForward rc addr port \<Rightarrow> Ok (cancel_tcpip_forward E rc addr port s)
     | MsgDisconnect reason descr lang \<Rightarrow> Ok (Session_disconnect E reason descr lang s)
     | Channel i cm \<Rightarrow> handle_channel_msg E i cm s
     | MsgClose _ \<Rightarrow> Panic)"

section \<open>Messages of the server\<close>

text \<open>CHANNEL\_OPEN\_CONFIRMATION: of a channel that was not requested it is an error.\<close>

definition read_open_confirmation where
  "read_open_confirmation E H s r =
    obind (ChannelOpenConfirmation_parse E r) (\<lambda>(m, _).
    let local_id = coc_recipient_channel m
    in case enc_of s of
         None \<Rightarrow> Err Inconsistent
       | Some enc \<Rightarrow>
           (case channels enc local_id of
              None \<Rightarrow> Err Inconsistent
            | Some c \<Rightarrow>
                call H (CbOpenConfirmation local_id (maximum_packet_size m) (initial_window_size m))
                  (send_channel_msg local_id (Open local_id (maximum_packet_size m) (initial_window_size m))
                    (set_enc (enc\<lparr>channels := (channels enc)(local_id \<mapsto> ChannelParams_confirm c m)\<rparr>) s))))"

definition read_channel_close where
  "read_channel_close E H s r =
    obind (read_or (read_u32 E r)) (\<lambda>(channel_num, _).
    let s1 = with_enc (\<lambda>enc. Encrypted_close E enc channel_num) s
    in call H (CbClose channel_num) (s1\<lparr>refs := (refs s1)(channel_num := None)\<rparr>))"

definition read_channel_eof where
  "read_channel_eof E H s r =
    obind (read_or (read_u32 E r)) (\<lambda>(channel_num, _).
    call H (CbEof channel_num) (send_channel_msg channel_num Eof s))"

definition read_open_failure where
  "read_open_failure E H s r =
    obind (read_or (read_u32 E r)) (\<lambda>(channel_num, r).
    obind (read_or (read_u32 E r)) (\<lambda>(code, r).
    let reason = (case ChannelOpenFailure_from_u32 code of Some f \<Rightarrow> f | None \<Rightarrow> Unknown)
    in obind (read_str E r) (\<lambda>(descr, r).
       obind (read_str E r) (\<lambda>(language, _).
       let s1 = with_enc (\<lambda>enc. enc\<lparr>channels := (channels enc)(channel_num := None)\<rparr>) s;
           s2 = send_channel_msg channel_num (OpenFailure reason) s1;
           s3 = emit [ToHandle ReplyChannelOpenFailure] (s2\<lparr>refs := (refs s2)(channel_num := None)\<rparr>)
       in call H (CbOpenFailure channel_num reason descr language) s3))))"

text \<open>The local window after data was received; the handler may choose the next target.\<close>

definition receive_window where
  "receive_window E H channel_num d s =
    (case enc_of s of
       None \<Rightarrow> s
     | Some enc \<Rightarrow>
         (let (adjusted, enc') = adjust_window_size E enc channel_num d (cfg_window_size (config (common s)));
              s1 = set_enc enc' s
          in if adjusted
             then (let next_window = adjust_window H channel_num (target_window_size s)
                   in if next_window > 0 then s1\<lparr>target_window_size := next_window\<rparr> else s1)
             else s1))"

definition read_channel_data where
  "read_channel_data E H s r =
    obind (read_or (read_u32 E r)) (\<lambda>(channel_num, r).
    obind (read_or (read_string E r)) (\<lambda>(d, _).
    call H (CbData channel_num d)
      (send_channel_msg channel_num (Data d) (receive_window E H channel_num d s))))"

definition read_channel_extended_data where
  "read_channel_extended_data E H s r =
    obind (read_or (read_u32 E r)) (\<lambda>(channel_num, r).
    obind (read_or (read_u32 E r)) (\<lambda>(ext, r).
    obind (read_or (read_string E r)) (\<lambda>(d, _).
    call H (CbExtendedData channel_num ext d)
      (send_channel_msg channel_num (ExtendedData d ext) (receive_window E H channel_num d s)))))"

text \<open>The answer to a channel request that asks for one.\<close>

definition answer_request where
  "answer_request E answer channel_num s =
    (if enc_of s = None then s
     else with_enc (\<lambda>enc. enc\<lparr>write := push_packet E (write enc) (answer # push_u32_be E channel_num)\<rparr>)
            (s\<lparr>common := (common s)\<lparr>common_wants_reply := False\<rparr>\<rparr>))"

definition read_xon_xoff where
  "read_xon_xoff E H s channel_num r =
    obind (read_or (read_byte E r)) (\<lambda>(_, r).
    obind (read_or (read_byte E r)) (\<lambda>(b, _).
    call H (CbXonXoff channel_num (b \<noteq> 0)) (send_channel_msg channel_num (XonXoff (b \<noteq> 0)) s)))"

definition read_exit_status where
  "read_exit_status E H s channel_num r =
    obind (read_or (read_byte E r)) (\<lambda>(_, r).
    obind (read_or (read_u32 E r)) (\<lambda>(st, _).
    call H (CbExitStatus channel_num st) (send_channel_msg channel_num (ExitStatus st) s)))"

definition read_exit_signal where
  "read_exit_signal E H s channel_num r =
    obind (read_or (read_byte E r)) (\<lambda>(_, r).
    obind (read_or (read_string E r)) (\<lambda>(name, r).
    obind (Sig_from_name name) (\<lambda>sg.
    obind (read_or (read_byte E r)) (\<lambda>(core, r).
    obind (read_str E r) (\<lambda>(error_message, r).
    obind (read_str E r) (\<lambda>(lang_tag, _).
    call H (CbExitSignal channel_num sg (core \<noteq> 0) error_message lang_tag)
      (send_channel_msg channel_num (ExitSignal sg (core \<noteq> 0) error_message lang_tag) s)))))))"

definition read_channel_request where
  "read_channel_request E H s r =
    obind (read_or (read_u32 E r)) (\<lambda>(channel_num, r).
    obind (read_or (read_string E r)) (\<lambda>(req, r).
    if req = bs ''xon-xoff'' then read_xon_xoff E H s channel_num r
    else if req = bs ''exit-status'' then read_exit_status E H s channel_num r
    else if req = bs ''exit-signal'' then read_exit_signal E H s channel_num r
    else obind (read_or (read_byte E r)) (\<lambda>(want, _).
      if want = 1
      then Ok (answer_request E
             (if req = bs ''keepalive@openssh.com'' then CHANNEL_SUCCESS else CHANNEL_FAILURE) channel_num s)
      else Ok s)))"

text \<open>
  CHANNEL\_WINDOW\_ADJUST: the window grows, the queue is flushed, and the application is told the
  window that is left.
\<close>

definition grant_window ::
  "codec \<Rightarrow> ('k, 'c, 'z) encrypted \<Rightarrow> channel_id \<Rightarrow> u32 \<Rightarrow> (error, u32 \<times> ('k, 'c, 'z) encrypted) outcome" where
  "grant_window E enc channel_num amount =
    (case channels enc channel_num of
       None \<Rightarrow> Err WrongChannel
     | Some c \<Rightarrow>
         (let size = recipient_window_size c + amount
          in obind (flush_pending E
                 (enc\<lparr>channels := (channels enc)(channel_num \<mapsto> c\<lparr>recipient_window_size := size\<rparr>)\<rparr>)
                 channel_num) (\<lambda>(wrote, enc').
             Ok (size - of_nat wrote, enc'))))"

definition read_window_adjust where
  "read_window_adjust E H s r =
    obind (read_or (read_u32 E r)) (\<lambda>(channel_num, r).
    obind (read_or (read_u32 E r)) (\<lambda>(amount, _).
    obind (case enc_of s of
             None \<Rightarrow> Ok (0, s)
           | Some enc \<Rightarrow>
               obind (grant_window E enc channel_num amount) (\<lambda>(new_size, enc').
               Ok (new_size, set_enc enc' s))) (\<lambda>(new_size, s1).
    call H (CbWindowAdjusted channel_num new_size)
      (case refs s1 channel_num of
         Some ref \<Rightarrow> emit [SetWindow ref new_size, ToChannel ref (WindowAdjusted new_size)] s1
       | None \<Rightarrow> s1))))"

text \<open>The host keys of an announcement; a key that cannot be parsed is skipped.\<close>

fun announced_keys :: "codec \<Rightarrow> (bytes \<Rightarrow> bytes option) \<Rightarrow> nat \<Rightarrow> bytes \<Rightarrow> bytes list option" where
  "announced_keys E parse 0 r = None"
| "announced_keys E parse (Suc fuel) r =
    (case read_string E r of
       None \<Rightarrow> Some []
     | Some (key, r') \<Rightarrow>
         map_option (\<lambda>ks. (case parse key of Some k \<Rightarrow> k # ks | None \<Rightarrow> ks)) (announced_keys E parse fuel r'))"

definition global_answer where
  "global_answer E answer s =
    with_enc (\<lambda>enc. enc\<lparr>write := push_packet E (write enc) [answer]\<rparr>)
      (s\<lparr>common := (common s)\<lparr>common_wants_reply := False\<rparr>\<rparr>)"

definition read_global_request where
  "read_global_request E H s r =
    obind (read_or (read_string E r)) (\<lambda>(req, r).
    obind (read_or (read_byte E r)) (\<lambda>(want, r).
    let seen = (\<lambda>s. Ok (s\<lparr>common := (common s)\<lparr>received_data := False\<rparr>\<rparr>))
    in if enc_of s = None then seen s
       else if take 9 req = bs ''keepalive'' then
         seen (if want = 1 then global_answer E REQUEST_SUCCESS s else s)
       else if req = bs ''hostkeys-00@openssh.com'' then
         (case announced_keys E (parse_public_key H) (Suc (length r)) r of
            None \<Rightarrow> Diverge
          | Some keys \<Rightarrow> call H (CbHostKeys keys) s)
       else seen (global_answer E REQUEST_FAILURE s)))"

definition read_channel_result where
  "read_channel_result E H s m cb r =
    obind (read_or (read_u32 E r)) (\<lambda>(channel_num, _).
    call H (cb channel_num) (send_channel_msg channel_num m s))"

text \<open>A channel that the server opens: \<open>accept_server_initiated_channel\<close> and CHANNEL\_OPEN.\<close>

definition accept_server_initiated_channel where
  "accept_server_initiated_channel i m s =
    (let ref = next_ref s
     in (ref, emit [NewChannel ref i (oc_recipient_maximum_packet_size m) (oc_recipient_window_size m)]
          (s\<lparr>refs := (refs s)(i \<mapsto> ref), next_ref := ref + 1\<rparr>)))"

definition server_channel :: "client_config \<Rightarrow> open_channel_message \<Rightarrow> channel_id \<Rightarrow> channel_params" where
  "server_channel cfg m i = \<lparr>recipient_channel = oc_recipient_channel m, sender_channel = i,
     recipient_window_size = oc_recipient_window_size m, sender_window_size = cfg_window_size cfg,
     recipient_maximum_packet_size = oc_recipient_maximum_packet_size m,
     sender_maximum_packet_size = cfg_maximum_packet_size cfg, confirmed = True, wants_reply = False,
     pending_data = [], pending_eof = False, pending_close = False\<rparr>"

definition confirm_channel where
  "confirm_channel E m i s =
    with_enc (\<lambda>enc.
      let c = server_channel (config (common s)) m i
      in enc\<lparr>write := OpenChannelMessage_confirm E m (write enc) i (sender_window_size c)
               (sender_maximum_packet_size c),
             channels := (channels enc)(i \<mapsto> c)\<rparr>) s"

definition read_channel_open where
  "read_channel_open E H s r =
    obind (OpenChannelMessage_parse E r) (\<lambda>(m, _).
    case enc_of s of
      None \<Rightarrow> Err Inconsistent
    | Some enc \<Rightarrow>
        obind (Encrypted_new_channel_id enc) (\<lambda>(i, enc').
        let s1 = set_enc enc' s;
            s2 = confirm_channel E m i s1
        in case oc_typ m of
             SessionChannel \<Rightarrow> call H (CbOpenSession i) s2
           | DirectTcpip d \<Rightarrow> call H (CbOpenDirectTcpip i d) s2
           | X11 addr port \<Rightarrow>
               (let (ref, s3) = accept_server_initiated_channel i m s2
                in call H (CbOpenX11 ref addr port) s3)
           | ForwardedTcpIp d \<Rightarrow>
               (let (ref, s3) = accept_server_initiated_channel i m s2
                in call H (CbOpenForwardedTcpip ref d) s3)
           | AgentForwardChannel \<Rightarrow> call H (CbOpenAgentForward i) s2
           | UnknownType typ \<Rightarrow>
               if handle_unknown H i typ then Ok s2
               else Ok (with_enc (\<lambda>e. e\<lparr>write := OpenChannelMessage_unknown_type E m (write e)\<rparr>) s1)))"

text \<open>The replies to global requests go to the oldest request that awaits one.\<close>

definition pop_request where
  "pop_request s = s\<lparr>open_global_requests := tl (open_global_requests s)\<rparr>"

definition read_request_success where
  "read_request_success E s r =
    (case open_global_requests s of
       [] \<Rightarrow> s
     | Keepalive # _ \<Rightarrow> pop_request s
     | TcpIpForward w # _ \<Rightarrow>
         emit [ReplyPort w (if r = [] then Some 0 else map_option fst (read_u32 E r))] (pop_request s)
     | CancelTcpIpForward w # _ \<Rightarrow> emit [ReplyCancelled w True] (pop_request s))"

definition read_request_failure where
  "read_request_failure s =
    (case open_global_requests s of
       [] \<Rightarrow> s
     | Keepalive # _ \<Rightarrow> pop_request s
     | TcpIpForward w # _ \<Rightarrow> emit [ReplyPort w None] (pop_request s)
     | CancelTcpIpForward w # _ \<Rightarrow> emit [ReplyCancelled w False] (pop_request s))"

definition client_read_authenticated ::
  "codec \<Rightarrow> ('k, 'c, 'z, 'm) handler \<Rightarrow> ('k, 'c, 'z, 'm) client_session \<Rightarrow> bytes \<Rightarrow>
   (error, ('k, 'c, 'z, 'm) client_session) outcome" where
  "client_read_authenticated E H s buf =
    (case buf of
       [] \<Rightarrow> Ok s
     | b # r \<Rightarrow>
         if b = CHANNEL_OPEN_CONFIRMATION then read_open_confirmation E H s r
         else if b = CHANNEL_CLOSE then read_channel_close E H s r
         else if b = CHANNEL_EOF then read_channel_eof E H s r
         else if b = CHANNEL_OPEN_FAILURE then read_open_failure E H s r
         else if b = CHANNEL_DATA then read_channel_data E H s r
         else if b = CHANNEL_EXTENDED_DATA then read_channel_extended_data E H s r
         else if b = CHANNEL_REQUEST then read_channel_request E H s r
         else if b = CHANNEL_WINDOW_ADJUST then read_window_adjust E H s r
         else if b = GLOBAL_REQUEST then read_global_request E H s r
         else if b = CHANNEL_SUCCESS then read_channel_result E H s Success CbSuccess r
         else if b = CHANNEL_FAILURE then read_channel_result E H s Failure CbFailure r
         else if b = CHANNEL_OPEN then read_channel_open E H s r
         else if b = REQUEST_SUCCESS then Ok (read_request_success E s r)
         else if b = REQUEST_FAILURE then Ok (read_request_failure s)
         else Ok s)"

section \<open>Disconnection\<close>

record remote_disconnect_info =
  reason_code :: disconnect
  message :: bytes
  lang_tag :: bytes

definition process_disconnect ::
  "codec \<Rightarrow> ('k, 'c, 'z, 'm) client_session \<Rightarrow> bytes \<Rightarrow>
   (error, remote_disconnect_info) outcome \<times> ('k, 'c, 'z, 'm) client_session" where
  "process_disconnect E s buf =
    (obind (read_or (read_u32 E (drop 1 buf))) (\<lambda>(code, r).
     obind (disconnect_try_from code) (\<lambda>reason.
     obind (read_str E r) (\<lambda>(msg, r).
     obind (read_str E r) (\<lambda>(lang, _).
     Ok \<lparr>reason_code = reason, message = msg, lang_tag = lang\<rparr>)))),
     s\<lparr>common := (common s)\<lparr>disconnected := True\<rparr>\<rparr>)"

end
