(* ===== verification/Client_Flow.thy ===== *)
theory Client_Flow
  imports Client_Session
begin

text \<open>
  The flow control of a client's channel as a refinement: an abstract channel that sends submitted
  bytes in order within the credit granted by the peer, and the proof that the session's commands
  and the server's window messages implement it.
\<close>

section \<open>The abstract channel\<close>

text \<open>
  What a channel promises its user: the bytes that were submitted are sent in order, and never more
  of them than the peer has granted. The state is the credit that is left, the bytes that wait and
  the bytes that were sent; how many of the waiting bytes a step sends is open.
\<close>

record flow =
  credit :: nat
  backlog :: "(u32 option \<times> u8) list"
  sent :: "(u32 option \<times> u8) list"

datatype flow_op = Submit "u32 option" bytes | Grant u32

fun offered :: "flow_op \<Rightarrow> (u32 option \<times> u8) list" where
  "offered (Submit a d) = map (Pair a) d"
| "offered (Grant n) = []"

fun granted :: "flow_op \<Rightarrow> nat" where
  "granted (Submit a d) = 0"
| "granted (Grant n) = unat n"

inductive flow_step :: "flow \<Rightarrow> flow_op \<Rightarrow> flow \<Rightarrow> bool" where
  flow_stepI: "out @ rest = backlog f @ offered e \<Longrightarrow> length out \<le> credit f + granted e \<Longrightarrow>
    flow_step f e \<lparr>credit = credit f + granted e - length out, backlog = rest, sent = sent f @ out\<rparr>"

inductive_cases flow_stepE: "flow_step f e g"

lemma flow_run_stream:
  "run flow_step f es g \<Longrightarrow>
   sent g @ backlog g = sent f @ backlog f @ concat (map offered es)
   \<and> length (sent g) + credit g = length (sent f) + credit f + sum_list (map granted es)
   \<and> (\<exists>out. sent g = sent f @ out)"
proof (induction rule: run.induct)
  case (more f e g es h)
  from more.hyps(1) show ?case
  proof cases
    case (flow_stepI out rest)
    then show ?thesis using more.IH by auto
  qed
qed auto

section \<open>The channel of a client session\<close>

text \<open>
  The same operations on a session: a command of the application, and a message of the server. The
  server may grant what keeps the window below 2 GiB, and no buffer is longer than that; both are
  needed for the sum of offset and window to stay below 32 bits.
\<close>

fun flow_exec ::
  "codec \<Rightarrow> (bytes \<Rightarrow> 'm \<Rightarrow> ('k, 'c, 'z, 'm) client_session \<Rightarrow> (error, ('k, 'c, 'z, 'm) client_session) outcome) \<Rightarrow>
   channel_id \<Rightarrow> ('k, 'c, 'z, 'm) client_session \<Rightarrow> flow_op \<Rightarrow> (error, ('k, 'c, 'z, 'm) client_session) outcome"
where
  "flow_exec E wa ch s (Submit None d) = handle_msg E wa (Channel ch (Data d)) s"
| "flow_exec E wa ch s (Submit (Some x) d) = handle_msg E wa (Channel ch (ExtendedData d x)) s"
| "flow_exec E wa ch s (Grant n) = client_read_authenticated E default_handler s
     (CHANNEL_WINDOW_ADJUST # push_u32_be E ch @ push_u32_be E n)"

definition chan_of :: "('k, 'c, 'z, 'm) client_session \<Rightarrow> channel_id \<Rightarrow> channel_params option" where
  "chan_of s ch = (case enc_of s of Some enc \<Rightarrow> channels enc ch | None \<Rightarrow> None)"

fun op_ok :: "('k, 'c, 'z, 'm) client_session \<Rightarrow> channel_id \<Rightarrow> flow_op \<Rightarrow> bool" where
  "op_ok s ch (Submit a d) \<longleftrightarrow> length d < 2 ^ 31"
| "op_ok s ch (Grant n) \<longleftrightarrow>
    (case chan_of s ch of Some c \<Rightarrow> unat (recipient_window_size c) + unat n < 2 ^ 31 | None \<Rightarrow> False)"

text \<open>A channel in use: confirmed, not closing, with buffers and a window below 2 GiB.\<close>

definition in_use :: "channel_params \<Rightarrow> bool" where
  "in_use c \<longleftrightarrow> confirmed c \<and> \<not> pending_eof c \<and> \<not> pending_close c
     \<and> recipient_maximum_packet_size c \<noteq> 0 \<and> unat (recipient_window_size c) < 2 ^ 31
     \<and> list_all (\<lambda>(buf, a, from). length buf < 2 ^ 31 \<and> from \<le> length buf) (pending_data c)"

text \<open>
  How a session represents the abstract channel: its window is the credit, its queue the backlog,
  and the data packets behind \<open>old\<close> in its write buffer are what was sent.
\<close>

definition flow_rel ::
  "codec \<Rightarrow> channel_id \<Rightarrow> u32 \<Rightarrow> bytes \<Rightarrow> ('k, 'c, 'z, 'm) client_session \<Rightarrow> flow \<Rightarrow> bool" where
  "flow_rel E ch peer old s f \<longleftrightarrow>
    (\<exists>enc c ps. enc_of s = Some enc \<and> channels enc ch = Some c \<and> in_use c \<and> recipient_channel c = peer
      \<and> unat (recipient_window_size c) = credit f \<and> queue_stream (pending_data c) = backlog f
      \<and> packets_stream ps = sent f \<and> packets_fit c ps
      \<and> write enc = old @ framed E (map (data_body E peer) ps))"

lemma in_use_flow_ok: "in_use c \<Longrightarrow> flow_ok c"
  by (auto simp: in_use_def flow_ok_def entry_ok_def list_all_iff)

lemma enc_of_set [simp]: "enc_of (set_enc enc s) = Some enc"
  by (simp add: enc_of_def set_enc_def)

lemma enc_of_emit [simp]: "enc_of (emit os s) = enc_of s"
  by (simp add: enc_of_def emit_def)

lemma send_loop_frame:
  "send_loop E a wr c buf = Some y \<Longrightarrow> \<exists>w. snd y = c\<lparr>recipient_window_size := w\<rparr>"
proof (rule send_loop.raw_induct [of "\<lambda>E a wr c buf y. \<exists>w. snd y = c\<lparr>recipient_window_size := w\<rparr>"])
  fix send E a wr c buf y
  assume IH: "\<And>E a wr c buf y. send E a wr c buf = Some y \<Longrightarrow> \<exists>w. snd y = c\<lparr>recipient_window_size := w\<rparr>"
    and y: "(if buf = [] then Some (wr, c)
      else let off = min (length buf) (unat (recipient_maximum_packet_size c))
           in send E a (push_packet E wr (data_body E (recipient_channel c) (a, take off buf)))
                (c\<lparr>recipient_window_size := recipient_window_size c - of_nat off\<rparr>) (drop off buf)) = Some y"
  show "\<exists>w. snd y = c\<lparr>recipient_window_size := w\<rparr>"
  proof (cases "buf = []")
    case True
    then have "snd y = c\<lparr>recipient_window_size := recipient_window_size c\<rparr>" using y by auto
    then show ?thesis ..
  next
    case False
    with y have "send E a (push_packet E wr (data_body E (recipient_channel c)
          (a, take (min (length buf) (unat (recipient_maximum_packet_size c))) buf)))
        (c\<lparr>recipient_window_size := recipient_window_size c
           - of_nat (min (length buf) (unat (recipient_maximum_packet_size c)))\<rparr>)
        (drop (min (length buf) (unat (recipient_maximum_packet_size c))) buf) = Some y"
      by (simp add: Let_def)
    from IH [OF this] show ?thesis by simp
  qed
qed

lemma data_noqueue_frame:
  assumes "data_noqueue E wr c buf a start = Ok (n, wr', c')"
  shows "\<exists>w. c' = c\<lparr>recipient_window_size := w\<rparr>"
proof (cases "length buf \<le> start")
  case True
  then have "c' = c\<lparr>recipient_window_size := recipient_window_size c\<rparr>"
    using assms by (simp add: data_noqueue_def)
  then show ?thesis ..
next
  case False
  then show ?thesis
    using assms unfolding data_noqueue_def Let_def
    by (auto split: if_splits option.splits dest!: send_loop_frame)
qed

lemma flush_loop_buffers:
  assumes "flush_loop E q k wr c = Ok (res, wr', c')" "recipient_maximum_packet_size c \<noteq> 0"
    and "list_all (\<lambda>(buf, a, start). P buf) q"
  shows "list_all (\<lambda>(buf, a, start). P buf) (pending_data c')"
  using assms
proof (induction E q k wr c rule: flush_loop.induct)
  case (2 E buf a start q k wr c)
  from 2(2) obtain n wr1 c1 where d: "data_noqueue E wr c buf a start = Ok (n, wr1, c1)"
    and r: "(if start + n < length buf
         then Ok (Incomplete (k + n), wr1, c1\<lparr>pending_data := (buf, a, start + n) # q\<rparr>)
         else flush_loop E q (k + n) wr1 c1) = Ok (res, wr', c')"
    by (auto simp: outcome_simps simp del: if_split)
  obtain w where "c1 = c\<lparr>recipient_window_size := w\<rparr>" using data_noqueue_frame [OF d] by blast
  then have "recipient_maximum_packet_size c1 \<noteq> 0" using 2(3) by simp
  with 2(1) [of "(n, wr1, c1)" n "(wr1, c1)" wr1 c1] d 2(4) r show ?case by (auto split: if_splits)
qed auto

text \<open>A buffer that is sent or queued, and a flush, keep a channel in use.\<close>

lemma in_use_transmits:
  assumes "in_use c" "transmits c inp ps c'" "flow_ok c'"
    and "list_all (\<lambda>(buf, a, start). length buf < 2 ^ 31) (pending_data c')"
  shows "in_use c'" "recipient_channel c' = recipient_channel c"
    "packets_fit c' qs = packets_fit c qs"
proof -
  obtain w q where c': "c' = c\<lparr>recipient_window_size := w, pending_data := q\<rparr>"
    and w: "unat (recipient_window_size c) = unat (recipient_window_size c') + length (packets_stream ps)"
    using assms(2) by (auto simp: transmits_def)
  have "unat (recipient_window_size c') < 2 ^ 31" using w assms(1) by (simp add: in_use_def)
  moreover have "list_all (\<lambda>(buf, a, start). length buf < 2 ^ 31 \<and> start \<le> length buf) (pending_data c')"
    using assms(3,4) by (auto simp: flow_ok_def entry_ok_def list_all_iff)
  ultimately show "in_use c'" using assms(1) unfolding in_use_def c' by simp
  show "recipient_channel c' = recipient_channel c" by (simp add: c')
  show "packets_fit c' qs = packets_fit c qs" by (simp add: c' packets_fit_def)
qed

lemma data_buffers:
  assumes "(case a of None \<Rightarrow> Encrypted_data E enc ch buf
      | Some x \<Rightarrow> Encrypted_extended_data E enc ch x buf) = Ok enc'"
    and "channels enc ch = Some c" "channels enc' ch = Some c'" "in_use c" "length buf < 2 ^ 31"
  shows "list_all (\<lambda>(buf, a, start). length buf < 2 ^ 31) (pending_data c')"
proof -
  have old: "list_all (\<lambda>(buf, a, start). length buf < 2 ^ 31) (pending_data c)"
    and cf: "confirmed c"
    using assms(4) by (auto simp: in_use_def list_all_iff)
  show ?thesis
  proof (cases "pending_data c \<noteq> [] \<or> (a = None \<and> rekey enc \<noteq> None)")
    case True
    then have "c' = c\<lparr>pending_data := pending_data c @ [(buf, a, 0)]\<rparr>"
      using assms(1-3) cf by (cases a) (auto simp: Encrypted_data_def Encrypted_extended_data_def)
    then show ?thesis using old assms(5) by simp
  next
    case False
    then obtain n wr c1 where d: "data_noqueue E (write enc) c buf a 0 = Ok (n, wr, c1)"
      and c': "c' = (if n < length buf then c1\<lparr>pending_data := pending_data c1 @ [(buf, a, n)]\<rparr> else c1)"
      using assms(1-3) cf
      by (cases a) (auto simp: Encrypted_data_def Encrypted_extended_data_def outcome_simps)
    from data_noqueue_frame [OF d] show ?thesis using old assms(5) c' by auto
  qed
qed

lemma flow_rel_step:
  assumes R: "flow_rel E ch peer old s f" and enc: "enc_of s = Some enc" "channels enc ch = Some c"
    and t: "transmits c1 (backlog f @ inp) ps c'" and u: "in_use c1" "flow_ok c'"
      "list_all (\<lambda>(buf, a, start). length buf < 2 ^ 31) (pending_data c')"
    and c1: "c1 = c\<lparr>recipient_window_size := w\<rparr>" "unat w = credit f + g"
    and enc': "enc_of s' = Some enc'" "channels enc' ch = Some c'"
      "write enc' = write enc @ framed E (map (data_body E (recipient_channel c)) ps)"
    and e: "offered e = inp" "granted e = g"
  shows "\<exists>f'. flow_step f e f' \<and> flow_rel E ch peer old s' f'"
proof -
  obtain ps0 where r: "recipient_channel c = peer" "packets_stream ps0 = sent f" "packets_fit c ps0"
      "write enc = old @ framed E (map (data_body E peer) ps0)"
    using R enc by (auto simp: flow_rel_def)
  let ?f = "\<lparr>credit = credit f + g - length (packets_stream ps), backlog = queue_stream (pending_data c'),
    sent = sent f @ packets_stream ps\<rparr>"
  have tr: "packets_fit c1 ps" "packets_stream ps @ queue_stream (pending_data c') = backlog f @ inp"
    "credit f + g = unat (recipient_window_size c') + length (packets_stream ps)"
    using t c1(2) by (simp_all add: transmits_def c1(1))
  have "flow_step f e ?f"
    using flow_stepI [of "packets_stream ps" "queue_stream (pending_data c')" f e] tr e by simp
  moreover have "flow_rel E ch peer old s' ?f"
    unfolding flow_rel_def
    using enc' in_use_transmits [OF u(1) t u(2,3)] r tr c1(1)
    by (intro exI [of _ enc'] exI [of _ c'] exI [of _ "ps0 @ ps"]) (simp add: framed_append)
  ultimately show ?thesis by blast
qed

lemma flow_submit:
  assumes R: "flow_rel E ch peer old s f" and d: "length d < 2 ^ 31"
  shows "\<exists>s'. flow_exec E wa ch s (Submit a d) = Ok s'
    \<and> (\<exists>f'. flow_step f (Submit a d) f' \<and> flow_rel E ch peer old s' f')"
proof -
  obtain enc c where c: "enc_of s = Some enc" "channels enc ch = Some c" "in_use c"
      "unat (recipient_window_size c) = credit f" "queue_stream (pending_data c) = backlog f"
    using R by (auto simp: flow_rel_def)
  have "confirmed c" "length d < 2 ^ 32" using c(3) d by (simp_all add: in_use_def)
  from data_sends [OF c(2) this(1) in_use_flow_ok [OF c(3)] this(2), where ext = a and E = E]
  obtain ps c' enc' where r: "(case a of None \<Rightarrow> Encrypted_data E enc ch d
       | Some x \<Rightarrow> Encrypted_extended_data E enc ch x d) = Ok enc'"
    "write enc' = write enc @ framed E (map (data_body E (recipient_channel c)) ps)"
    "channels enc' = (channels enc)(ch \<mapsto> c')"
    "transmits c (backlog f @ map (Pair a) d) ps c'" "flow_ok c'"
    unfolding c(5) by blast
  have ch': "channels enc' ch = Some c'" using r(3) by simp
  have "flow_exec E wa ch s (Submit a d) = Ok (set_enc enc' s)"
    using c(1) r(1)
    by (cases a) (simp_all add: handle_msg_def handle_channel_msg_def Session_data_def
        Session_extended_data_def lift_enc_def)
  moreover have "\<exists>f'. flow_step f (Submit a d) f' \<and> flow_rel E ch peer old (set_enc enc' s) f'"
    by (rule flow_rel_step [OF R c(1,2) r(4) c(3) r(5) data_buffers [OF r(1) c(2) ch' c(3) d] _ _ _ ch' r(2),
          where w = "recipient_window_size c" and g = 0])
      (simp_all add: c(4))
  ultimately show ?thesis by blast
qed

lemma flow_grant:
  assumes enc: "ssh_encoding E" and R: "flow_rel E ch peer old s f" and n: "op_ok s ch (Grant n)"
  shows "\<exists>s'. flow_exec E wa ch s (Grant n) = Ok s'
    \<and> (\<exists>f'. flow_step f (Grant n) f' \<and> flow_rel E ch peer old s' f')"
proof -
  obtain e c where c: "enc_of s = Some e" "channels e ch = Some c" "in_use c"
      "unat (recipient_window_size c) = credit f" "queue_stream (pending_data c) = backlog f"
    using R by (auto simp: flow_rel_def)
  let ?w = "recipient_window_size c + n"
  let ?c = "c\<lparr>recipient_window_size := ?w\<rparr>"
  let ?e = "e\<lparr>channels := (channels e)(ch \<mapsto> ?c)\<rparr>"
  have "unat (recipient_window_size c) + unat n < 2 ^ 31" using n c(1,2) by (simp add: chan_of_def)
  then have w: "unat ?w = credit f + unat n" "unat ?w < 2 ^ 31"
    using c(4) by (simp_all add: unat_word_ariths)
  have u: "in_use ?c" using c(3) w(2) by (simp add: in_use_def)
  have q: "queue_stream (pending_data ?c) = backlog f @ []" using c(5) by simp
  obtain ps c' where f: "flush_channel E (write e) ?c = Ok (if pending_data c' = []
         then Complete (length (packets_stream ps)) (pending_eof ?c) (pending_close ?c)
         else Incomplete (length (packets_stream ps)),
       write e @ framed E (map (data_body E (recipient_channel ?c)) ps), c')"
    and t: "transmits ?c (backlog f @ []) ps c'" "flow_ok c'"
    using flush_channel_Ok [OF in_use_flow_ok [OF u], of E "write e"] unfolding q by blast
  let ?e' = "?e\<lparr>write := write e @ framed E (map (data_body E (recipient_channel c)) ps),
      channels := (channels e)(ch \<mapsto> c')\<rparr>"
  have "\<not> pending_eof c" "\<not> pending_close c" using c(3) by (simp_all add: in_use_def)
  then have r: "flush_pending E ?e ch = Ok (length (packets_stream ps), ?e')"
    using f by (simp add: flush_pending_def handle_flushed_channel_def)
  have m: "recipient_maximum_packet_size ?c \<noteq> 0" "list_all (\<lambda>(buf, a, start). length buf < 2 ^ 31) (pending_data c)"
    using c(3) by (auto simp: in_use_def list_all_iff)
  have b: "list_all (\<lambda>(buf, a, start). length buf < 2 ^ 31) (pending_data c')"
    using flush_loop_buffers [of E "pending_data c" 0 "write e" ?c] f m by (simp add: flush_channel_def)
  have n': "read_u32 E (push_u32_be E n) = Some (n, [])"
    using ssh_encoding.read_push_u32 [OF enc, of n "[]"] by simp
  let ?size = "?w - of_nat (length (packets_stream ps))"
  have "flow_exec E wa ch s (Grant n) = Ok (emit (case refs s ch of
      Some ref \<Rightarrow> [SetWindow ref ?size, ToChannel ref (WindowAdjusted ?size)] | None \<Rightarrow> []) (set_enc ?e' s))"
    using c(1,2) r ssh_encoding.read_push_u32 [OF enc] n'
    by (cases "refs s ch") (simp_all add: client_read_authenticated_def read_window_adjust_def grant_window_def
        Let_def default_handler_def emit_def set_enc_def)
  then obtain os where os: "flow_exec E wa ch s (Grant n) = Ok (emit os (set_enc ?e' s))" by blast
  moreover have "\<exists>f'. flow_step f (Grant n) f' \<and> flow_rel E ch peer old (emit os (set_enc ?e' s)) f'"
    by (rule flow_rel_step [OF R c(1,2) t(1) u t(2) b _ w(1), where enc' = ?e']) simp_all
  ultimately show ?thesis by blast
qed

text \<open>The operations of a session as a step relation.\<close>

definition flow_cstep where
  "flow_cstep E wa ch s e s' \<longleftrightarrow> op_ok s ch e \<and> flow_exec E wa ch s e = Ok s'"

lemma flow_simulates:
  assumes "ssh_encoding E"
  shows "forward_simulation (flow_cstep E wa ch) flow_step (flow_rel E ch peer old)"
proof
  fix s f e s' assume R: "flow_rel E ch peer old s f" and st: "flow_cstep E wa ch s e s'"
  show "\<exists>f'. flow_step f e f' \<and> flow_rel E ch peer old s' f'"
  proof (cases e)
    case (Submit a d)
    then have "length d < 2 ^ 31" using st by (simp add: flow_cstep_def)
    from flow_submit [OF R this, of wa a] show ?thesis using st Submit by (auto simp: flow_cstep_def)
  next
    case (Grant n)
    then have "op_ok s ch (Grant n)" using st by (simp add: flow_cstep_def)
    from flow_grant [OF assms R this, of wa] show ?thesis using st Grant by (auto simp: flow_cstep_def)
  qed
qed

interpretation rfc_flow: forward_simulation "flow_cstep rfc4251 wa ch" flow_step "flow_rel rfc4251 ch peer old"
  for wa ch peer old
  by (rule flow_simulates) (rule rfc.ssh_encoding_axioms)

text \<open>
  C7: whatever data the application submits to a channel and whatever window the server grants, in
  any order, the client behaves like the abstract channel: each operation returns, the data packets
  it writes carry a prefix of the submitted bytes in order, each within the peer's packet size, the
  rest waits, and the bytes sent never exceed the window at the beginning and the grants together.
\<close>

theorem channel_flow_refinement:
  assumes "flow_rel rfc4251 ch peer old s f" "run (flow_cstep rfc4251 wa ch) s ops t"
  shows "(\<exists>g. run flow_step f ops g \<and> flow_rel rfc4251 ch peer old t g
      \<and> sent g @ backlog g = sent f @ backlog f @ concat (map offered ops)
      \<and> length (sent g) \<le> length (sent f) + credit f + sum_list (map granted ops))
    \<and> (\<forall>e. op_ok t ch e \<longrightarrow> (\<exists>u. flow_cstep rfc4251 wa ch t e u))"
proof
  obtain g where g: "run flow_step f ops g" "flow_rel rfc4251 ch peer old t g"
    using rfc_flow.run_simulates [OF assms(2,1)] by blast
  from flow_run_stream [OF g(1)] have "sent g @ backlog g = sent f @ backlog f @ concat (map offered ops)"
    "length (sent g) \<le> length (sent f) + credit f + sum_list (map granted ops)" by linarith+
  with g show "\<exists>g. run flow_step f ops g \<and> flow_rel rfc4251 ch peer old t g
      \<and> sent g @ backlog g = sent f @ backlog f @ concat (map offered ops)
      \<and> length (sent g) \<le> length (sent f) + credit f + sum_list (map granted ops)" by blast
  show "\<forall>e. op_ok t ch e \<longrightarrow> (\<exists>u. flow_cstep rfc4251 wa ch t e u)"
  proof (intro allI impI)
    fix e assume "op_ok t ch e"
    then show "\<exists>u. flow_cstep rfc4251 wa ch t e u"
      using flow_submit [OF g(2), of _ wa] flow_grant [OF rfc.ssh_encoding_axioms g(2), of _ wa]
      by (cases e) (fastforce simp: flow_cstep_def)+
  qed
qed

text \<open>A client session with one open channel.\<close>

definition demo_client_config :: client_config where
  "demo_client_config = \<lparr>cfg_client_id = Standard [], cfg_limits = Limits_default, cfg_window_size = 2097152,
     cfg_maximum_packet_size = 32768,
     cfg_preferred = \<lparr>pref_kex = [], pref_key = [], pref_cipher = [], pref_mac = [], pref_compression = []\<rparr>,
     cfg_inactivity_timeout = Some 60, cfg_keepalive_interval = None, cfg_keepalive_max = 3,
     cfg_anonymous = False\<rparr>"

definition demo_client :: "(unit, unit, unit, unit) client_session" where
  "demo_client = Session_new 2097152 \<lparr>auth_user = [], remote_sshid = [], config = demo_client_config,
     encrypted_of = Some (demo_session\<lparr>channels := [3 \<mapsto> demo_channel\<lparr>pending_eof := False\<rparr>]\<rparr>),
     auth_method = None, auth_attempts = 0, write_buffer = SSHBuffer_new, kex_of = None, cipher = (),
     common_wants_reply = False, disconnected = False, common_buffer = [], common_strict_kex = False,
     alive_timeouts = 0, received_data = False\<rparr>"

lemma demo_flow_rel:
  "flow_rel rfc4251 3 7 [] demo_client
     \<lparr>credit = 4, backlog = [(None, 2), (None, 3), (None, 4), (Some 1, 5)], sent = []\<rparr>"
  unfolding flow_rel_def
  by (rule exI [of _ "demo_session\<lparr>channels := [3 \<mapsto> demo_channel\<lparr>pending_eof := False\<rparr>]\<rparr>"],
      rule exI [of _ "demo_channel\<lparr>pending_eof := False\<rparr>"], rule exI [of _ "[]"])
    (simp add: demo_client_def Session_new_def enc_of_def demo_channel_def demo_session_def in_use_def
      entry_stream_def packets_fit_def)

theorem channel_flow_refinement_witness:
  "\<exists>u g. flow_cstep rfc4251 (\<lambda>_ _. Ok) 3 demo_client (Submit None [9]) u
     \<and> run flow_step \<lparr>credit = 4, backlog = [(None, 2), (None, 3), (None, 4), (Some 1, 5)], sent = []\<rparr>
         [Submit None [9]] g
     \<and> length (sent g) \<le> 4"
proof -
  have "run (flow_cstep rfc4251 (\<lambda>_ _. Ok) 3) demo_client [] demo_client" by simp
  from channel_flow_refinement [OF demo_flow_rel this]
  obtain u where u: "flow_cstep rfc4251 (\<lambda>_ _. Ok) 3 demo_client (Submit None [9]) u" by fastforce
  then have "run (flow_cstep rfc4251 (\<lambda>_ _. Ok) 3) demo_client [Submit None [9]] u" by simp
  from channel_flow_refinement [OF demo_flow_rel this] u show ?thesis by fastforce
qed

end
