(* ===== verification/Client_Protocol.thy ===== *)
theory Client_Protocol
  imports Client_Flow
begin

text \<open>
  What the client's session does with the messages of the server, over the definitions of
  \<open>Client_Session\<close>: opening a channel together with the confirmation of the server, the
  independence of the channels of a session, the replies to global requests, and the well-formedness
  that every command and every packet preserves. The locale \<open>client_handler\<close> states what the
  callbacks of the application have to promise for the last one.
\<close>

section \<open>Opening a channel\<close>

lemma set_enc_set [simp]: "set_enc a (set_enc b s) = set_enc a s"
  by (simp add: set_enc_def)

lemma read_str_encoded:
  assumes "ssh_encoding E" "utf8_valid x" "length x < 2 ^ 32"
  shows "read_str E (extend_ssh_string E x @ r) = Ok (x, r)"
  using ssh_encoding.read_ssh_string [OF assms(1,3)] assms(2)
  by (simp add: read_str_def from_utf8_or_def from_utf8_def)

text \<open>An address and a port that fit the wire.\<close>

definition info_ok :: "tcp_channel_info \<Rightarrow> bool" where
  "info_ok d \<longleftrightarrow> utf8_valid (host_to_connect d) \<and> length (host_to_connect d) < 2 ^ 32
     \<and> utf8_valid (tci_originator_address d) \<and> length (tci_originator_address d) < 2 ^ 32"

lemma TcpChannelInfo_roundtrip:
  assumes "ssh_encoding E" "info_ok d"
  shows "TcpChannelInfo_new E (tcpip_suffix E d) = Ok (d, [])"
proof -
  have p: "read_u32 E (push_u32_be E w) = Some (w, [])" for w
    using ssh_encoding.read_push_u32 [OF assms(1), of w "[]"] by simp
  show ?thesis
    using assms(2) ssh_encoding.read_push_u32 [OF assms(1)]
    by (simp add: TcpChannelInfo_new_def tcpip_suffix_def read_str_encoded [OF assms(1)] info_ok_def p)
qed

lemma open_direct_tcpip_parses:
  assumes "ssh_encoding E" "info_ok d"
  shows "OpenChannelMessage_parse E (tl (open_body E (bs ''direct-tcpip'') i w m (tcpip_suffix E d))) =
    Ok (\<lparr>oc_typ = DirectTcpip d, oc_recipient_channel = i, oc_recipient_window_size = w,
         oc_recipient_maximum_packet_size = m\<rparr>, [])"
proof -
  have t: "bs ''direct-tcpip'' \<noteq> bs ''session''" "bs ''direct-tcpip'' \<noteq> bs ''x11''"
    "length (bs ''direct-tcpip'') < 2 ^ 32" by (simp_all add: bs_def)
  show ?thesis
    unfolding OpenChannelMessage_parse_def open_body_def
    using t ssh_encoding.read_push_u32 [OF assms(1)] ssh_encoding.read_ssh_string [OF assms(1) t(3)]
      TcpChannelInfo_roundtrip [OF assms]
    by (simp add: channel_type_parse_def)
qed

lemma next_free_id_None: "next_free_id chans k = Some j \<Longrightarrow> chans j = None"
  by (rule next_free_id.raw_induct [of "\<lambda>chans _ j. chans j = None"]) (auto split: if_splits)

lemma channel_open_generic_Ok:
  assumes "channel_open_generic E kind suffix s = Ok (i, s1)"
  obtains enc where "enc_of s = Some enc" "state enc = Authenticated" "channels enc i = None"
    "s1 = set_enc (enc\<lparr>last_channel_id := i,
        channels := (channels enc)(i \<mapsto> fresh_channel i (cfg_window_size (config (common s)))
          (cfg_maximum_packet_size (config (common s)))),
        write := push_packet E (write enc) (open_body E kind i (cfg_window_size (config (common s)))
          (cfg_maximum_packet_size (config (common s))) suffix)\<rparr>) s"
  using assms that next_free_id_None
  by (auto simp: channel_open_generic_def Encrypted_new_channel_def Let_def outcome_simps
      split: option.splits if_splits)

text \<open>
  C10: opening a direct-tcpip channel works as a whole. The packet the client writes is read back as
  a request for exactly that target with the client's new identifier, window and packet size; and
  when the peer confirms what it has read, the client has the channel under that identifier with
  the peer's number, window and packet size, the application is told, and no other channel changes.
\<close>

theorem channel_open_handshake:
  assumes "ssh_encoding E" "info_ok d" "channel_open_direct_tcpip E d s = Ok (i, s1)"
  shows "\<exists>enc enc1 body msg p s2 c.
    enc_of s = Some enc \<and> enc_of s1 = Some enc1 \<and> channels enc i = None
    \<and> write enc1 = push_packet E (write enc) (CHANNEL_OPEN # body)
    \<and> OpenChannelMessage_parse E body = Ok (msg, []) \<and> oc_typ msg = DirectTcpip d
    \<and> oc_recipient_window_size msg = cfg_window_size (config (common s))
    \<and> OpenChannelMessage_confirm E msg [] n w m = push_packet E [] p
    \<and> client_read_authenticated E default_handler s1 p = Ok s2
    \<and> chan_of s2 i = Some c \<and> confirmed c \<and> recipient_channel c = n \<and> recipient_window_size c = w
    \<and> recipient_maximum_packet_size c = m
    \<and> (\<forall>j. j \<noteq> i \<longrightarrow> chan_of s2 j = channels enc j)
    \<and> (\<forall>ref. refs s1 i = Some ref \<longrightarrow> outbox s2 = outbox s1 @ [ToChannel ref (Open i m w)])"
proof -
  let ?win = "cfg_window_size (config (common s))" and ?max = "cfg_maximum_packet_size (config (common s))"
  let ?body = "open_body E (bs ''direct-tcpip'') i ?win ?max (tcpip_suffix E d)"
  obtain enc where enc: "enc_of s = Some enc" "channels enc i = None"
    and s1: "s1 = set_enc (enc\<lparr>last_channel_id := i, channels := (channels enc)(i \<mapsto> fresh_channel i ?win ?max),
        write := push_packet E (write enc) ?body\<rparr>) s"
    using assms(3) channel_open_generic_Ok unfolding channel_open_direct_tcpip_def by metis
  let ?msg = "\<lparr>oc_typ = DirectTcpip d, oc_recipient_channel = i, oc_recipient_window_size = ?win,
      oc_recipient_maximum_packet_size = ?max\<rparr>"
  let ?p = "CHANNEL_OPEN_CONFIRMATION # push_u32_be E i @ push_u32_be E n @ push_u32_be E w @ push_u32_be E m"
  have m: "read_u32 E (push_u32_be E m) = Some (m, [])"
    using ssh_encoding.read_push_u32 [OF assms(1), of m "[]"] by simp
  let ?c = "ChannelParams_confirm (fresh_channel i ?win ?max)
      \<lparr>coc_recipient_channel = i, coc_sender_channel = n, initial_window_size = w, maximum_packet_size = m\<rparr>"
  have "ChannelOpenConfirmation_parse E (tl ?p) = Ok (\<lparr>coc_recipient_channel = i, coc_sender_channel = n,
      initial_window_size = w, maximum_packet_size = m\<rparr>, [])"
    using ssh_encoding.read_push_u32 [OF assms(1)] by (simp add: ChannelOpenConfirmation_parse_def m)
  moreover define s2 where "s2 = send_channel_msg i (Open i m w) (set_enc (enc\<lparr>last_channel_id := i,
        write := push_packet E (write enc) ?body, channels := (channels enc)(i \<mapsto> ?c)\<rparr>) s)"
  ultimately have s2: "client_read_authenticated E default_handler s1 ?p = Ok s2"
    by (simp add: client_read_authenticated_def read_open_confirmation_def s1 default_handler_def Let_def)
  have c: "chan_of s2 j = (if j = i then Some ?c else channels enc j)" for j
    unfolding s2_def by (simp add: chan_of_def send_channel_msg_def split: option.split)
  have p: "OpenChannelMessage_parse E (tl ?body) = Ok (?msg, [])"
    by (rule open_direct_tcpip_parses [OF assms(1,2)])
  have r: "\<forall>ref. refs s1 i = Some ref \<longrightarrow> outbox s2 = outbox s1 @ [ToChannel ref (Open i m w)]"
    by (simp add: s2_def s1 send_channel_msg_def emit_def set_enc_def)
  show ?thesis
    by (rule exI [of _ enc], rule exI [of _ "the (enc_of s1)"], rule exI [of _ "tl ?body"],
        rule exI [of _ ?msg], rule exI [of _ ?p], rule exI [of _ s2], rule exI [of _ ?c])
      (use enc s1 s2 c p r in \<open>simp add: open_body_def OpenChannelMessage_confirm_def ChannelParams_confirm_def\<close>)
qed

definition demo_target :: tcp_channel_info where
  "demo_target = \<lparr>host_to_connect = [104, 105], port_to_connect = 80, tci_originator_address = [104],
     tci_originator_port = 1024\<rparr>"

theorem channel_open_handshake_witness:
  "\<exists>i s1 s2 c p. channel_open_direct_tcpip rfc4251 demo_target demo_client = Ok (i, s1)
     \<and> client_read_authenticated rfc4251 default_handler s1 p = Ok s2
     \<and> chan_of s2 i = Some c \<and> recipient_channel c = 9 \<and> recipient_window_size c = 1000"
proof -
  have "next_free_id (channels (demo_session\<lparr>channels := [3 \<mapsto> demo_channel\<lparr>pending_eof := False\<rparr>]\<rparr>))
      (last_channel_id demo_session + 1) = Some 4"
    by (subst next_free_id.simps) (simp add: demo_session_def)
  then have "\<exists>s1. channel_open_direct_tcpip rfc4251 demo_target demo_client = Ok (4, s1)"
    by (simp add: channel_open_direct_tcpip_def channel_open_generic_def demo_client_def Session_new_def
        enc_of_def Encrypted_new_channel_def demo_session_def Let_def)
  then obtain s1 where s1: "channel_open_direct_tcpip rfc4251 demo_target demo_client = Ok (4, s1)" by blast
  have "info_ok demo_target" by (simp add: info_ok_def demo_target_def in_range_def)
  from channel_open_handshake [OF rfc.ssh_encoding_axioms this s1, of 9 1000 64] s1 show ?thesis by blast
qed

section \<open>Isolation of channels\<close>

lemma with_enc_chan:
  "(\<And>enc. enc_of s = Some enc \<Longrightarrow> channels (f enc) j = channels enc j) \<Longrightarrow>
   chan_of (with_enc f s) j = chan_of s j"
  by (cases "enc_of s") (simp_all add: chan_of_def with_enc_def enc_of_def)

lemma refs_keep [simp]:
  "refs (with_enc f s) = refs s" "refs (set_enc enc s) = refs s" "refs (emit os s) = refs s"
  "refs (send_channel_msg ch m s) = refs s"
  by (simp_all add: with_enc_def set_enc_def emit_def send_channel_msg_def split: option.split)

lemma chan_of_keep [simp]:
  "chan_of (emit os s) = chan_of s" "chan_of (send_channel_msg ch m s) = chan_of s"
  "chan_of (s\<lparr>refs := R\<rparr>) = chan_of s" "chan_of (s\<lparr>target_window_size := w\<rparr>) = chan_of s"
  "chan_of (set_enc enc s) = channels enc"
  by (auto simp: chan_of_def enc_of_def emit_def send_channel_msg_def set_enc_def split: option.split)

lemma close_other: "j \<noteq> i \<Longrightarrow> channels (Encrypted_close E enc i) j = channels enc j"
  by (simp add: Encrypted_close_def Encrypted_byte_def Let_def split: option.split)

lemma eof_other: "j \<noteq> i \<Longrightarrow> channels (Encrypted_eof E enc i) j = channels enc j"
  by (simp add: Encrypted_eof_def Encrypted_byte_def split: option.split)

lemma handled_other: "j \<noteq> i \<Longrightarrow> channels (handle_flushed_channel E enc i r) j = channels enc j"
  by (simp add: handle_flushed_channel_def Let_def close_other eof_other split: channel_flush_result.split)

lemma flush_pending_other:
  "flush_pending E enc i = Ok (n, enc') \<Longrightarrow> j \<noteq> i \<Longrightarrow> channels enc' j = channels enc j"
  by (auto simp: flush_pending_def outcome_simps handled_other split: option.splits)

lemma grant_window_other:
  "grant_window E enc i w = Ok (n, enc') \<Longrightarrow> j \<noteq> i \<Longrightarrow> channels enc' j = channels enc j"
  by (auto simp: grant_window_def outcome_simps Let_def split: option.splits dest!: flush_pending_other)

lemma adjust_window_other:
  "j \<noteq> i \<Longrightarrow> channels (snd (adjust_window_size E enc i d target)) j = channels enc j"
  by (simp add: adjust_window_size_def Let_def split: option.split)

lemma chan_of_Some: "enc_of s = Some enc \<Longrightarrow> chan_of s = channels enc"
  by (auto simp: chan_of_def)

lemma receive_window_other:
  assumes "j \<noteq> i"
  shows "chan_of (receive_window E H i d s) j = chan_of s j" "refs (receive_window E H i d s) = refs s"
proof -
  show "chan_of (receive_window E H i d s) j = chan_of s j"
  proof (cases "enc_of s")
    case (Some enc)
    then show ?thesis
      using adjust_window_other [OF assms, of E enc d "cfg_window_size (config (common s))"]
      by (simp add: receive_window_def Let_def chan_of_Some split_beta)
  qed (simp add: receive_window_def)
  show "refs (receive_window E H i d s) = refs s"
    by (simp add: receive_window_def Let_def split_beta split: option.split)
qed

text \<open>The message numbers that begin with the channel they are for.\<close>

definition channel_messages :: "u8 list" where
  "channel_messages = [CHANNEL_OPEN_CONFIRMATION, CHANNEL_OPEN_FAILURE, CHANNEL_WINDOW_ADJUST, CHANNEL_DATA,
     CHANNEL_EXTENDED_DATA, CHANNEL_EOF, CHANNEL_CLOSE, CHANNEL_REQUEST, CHANNEL_SUCCESS, CHANNEL_FAILURE]"

definition same_channel :: "channel_id \<Rightarrow> ('k, 'c, 'z, 'm) client_session \<Rightarrow> ('k, 'c, 'z, 'm) client_session \<Rightarrow> bool" where
  "same_channel j s t \<longleftrightarrow> chan_of t j = chan_of s j \<and> refs t j = refs s j"

named_theorems read_defs

lemmas [read_defs] = outcome_simps Let_def default_handler_def same_channel_def

lemma isolated_confirmation:
  assumes "ssh_encoding E" "read_open_confirmation E default_handler s (push_u32_be E i @ r) = Ok t" "j \<noteq> i"
  shows "same_channel j s t"
proof -
  obtain m r' where m: "ChannelOpenConfirmation_parse E (push_u32_be E i @ r) = Ok (m, r')"
    using assms(2) by (auto simp: read_open_confirmation_def outcome_simps)
  then have "coc_recipient_channel m = i"
    using ssh_encoding.read_push_u32 [OF assms(1)]
    by (auto simp: ChannelOpenConfirmation_parse_def outcome_simps)
  with assms(2,3) m show ?thesis
    by (cases "enc_of s"; cases "channels (the (enc_of s)) i")
      (auto simp: read_open_confirmation_def read_defs chan_of_Some)
qed

lemma isolated_window:
  assumes "ssh_encoding E" "read_window_adjust E default_handler s (push_u32_be E i @ r) = Ok t" "j \<noteq> i"
  shows "same_channel j s t"
  using assms ssh_encoding.read_push_u32 [OF assms(1)]
  by (auto simp: read_window_adjust_def read_defs chan_of_Some grant_window_other [OF _ assms(3)] split: option.splits)

lemma isolated_simple:
  assumes "ssh_encoding E" "j \<noteq> i"
  shows "read_channel_close E default_handler s (push_u32_be E i @ r) = Ok t \<Longrightarrow> same_channel j s t"
    "read_channel_eof E default_handler s (push_u32_be E i @ r) = Ok t \<Longrightarrow> same_channel j s t"
    "read_channel_result E default_handler s m cb (push_u32_be E i @ r) = Ok t \<Longrightarrow> same_channel j s t"
    "read_open_failure E default_handler s (push_u32_be E i @ r) = Ok t \<Longrightarrow> same_channel j s t"
    "read_channel_data E default_handler s (push_u32_be E i @ r) = Ok t \<Longrightarrow> same_channel j s t"
    "read_channel_extended_data E default_handler s (push_u32_be E i @ r) = Ok t \<Longrightarrow> same_channel j s t"
  using assms ssh_encoding.read_push_u32 [OF assms(1)]
  by (auto simp: read_channel_close_def read_channel_eof_def read_channel_result_def read_open_failure_def
      read_channel_data_def read_channel_extended_data_def read_defs receive_window_other
      intro!: with_enc_chan close_other)

lemma request_sends:
  "read_xon_xoff E default_handler s i r = Ok t \<Longrightarrow> \<exists>m. t = send_channel_msg i m s"
  "read_exit_status E default_handler s i r = Ok t \<Longrightarrow> \<exists>m. t = send_channel_msg i m s"
  "read_exit_signal E default_handler s i r = Ok t \<Longrightarrow> \<exists>m. t = send_channel_msg i m s"
  by (auto simp: read_xon_xoff_def read_exit_status_def read_exit_signal_def outcome_simps default_handler_def)

lemma isolated_request:
  assumes "ssh_encoding E" "read_channel_request E default_handler s (push_u32_be E i @ r) = Ok t" "j \<noteq> i"
  shows "same_channel j s t"
proof -
  have "(\<exists>m. t = send_channel_msg i m s) \<or> (\<exists>b. t = answer_request E b i s) \<or> t = s"
    using assms(2) ssh_encoding.read_push_u32 [OF assms(1)]
    by (auto simp: read_channel_request_def outcome_simps split: if_splits dest: request_sends)
  then show ?thesis
    by (auto simp: same_channel_def answer_request_def chan_of_def with_enc_def enc_of_def
        send_channel_msg_def emit_def split: option.splits)
qed

text \<open>
  C11: a message of the server about one channel never touches another: the window, the queue and the
  state of every other channel, and where its messages are delivered, stay as they are.
\<close>

theorem channel_isolation:
  assumes "ssh_encoding E" "b \<in> set channel_messages" "j \<noteq> i"
    and "client_read_authenticated E default_handler s (b # push_u32_be E i @ r) = Ok t"
  shows "same_channel j s t"
  using assms(2,4) isolated_simple [OF assms(1,3)] isolated_confirmation [OF assms(1) _ assms(3)]
    isolated_window [OF assms(1) _ assms(3)] isolated_request [OF assms(1) _ assms(3)]
  by (auto simp: channel_messages_def client_read_authenticated_def)

theorem channel_isolation_witness:
  "\<exists>t. client_read_authenticated rfc4251 default_handler demo_client
      (CHANNEL_EOF # push_u32_be rfc4251 5 @ []) = Ok t \<and> same_channel 3 demo_client t"
proof -
  have "read_u32 rfc4251 (push_u32_be rfc4251 5) = Some (5, [])"
    using rfc.read_push_u32 [of 5 "[]"] by simp
  then obtain t where t: "client_read_authenticated rfc4251 default_handler demo_client
      (CHANNEL_EOF # push_u32_be rfc4251 5 @ []) = Ok t"
    by (simp add: client_read_authenticated_def read_channel_eof_def default_handler_def)
  have "CHANNEL_EOF \<in> set channel_messages" "(3 :: u32) \<noteq> 5" by (simp_all add: channel_messages_def)
  from channel_isolation [OF rfc.ssh_encoding_axioms this t] t show ?thesis by blast
qed

section \<open>Replies to global requests\<close>

text \<open>A reply of the server: failure, or success with its data; and what its requester is told.\<close>

fun reply_packet :: "bytes option \<Rightarrow> bytes" where
  "reply_packet None = [REQUEST_FAILURE]"
| "reply_packet (Some r) = REQUEST_SUCCESS # r"

fun reply_out :: "codec \<Rightarrow> global_request_response \<Rightarrow> bytes option \<Rightarrow> session_out list" where
  "reply_out E Keepalive _ = []"
| "reply_out E (TcpIpForward w) None = [ReplyPort w None]"
| "reply_out E (TcpIpForward w) (Some r) =
     [ReplyPort w (if r = [] then Some 0 else map_option fst (read_u32 E r))]"
| "reply_out E (CancelTcpIpForward w) r = [ReplyCancelled w (r \<noteq> None)]"

fun read_all where
  "read_all E H s [] = Ok s"
| "read_all E H s (p # ps) = obind (client_read_authenticated E H s p) (\<lambda>s. read_all E H s ps)"

lemma read_reply:
  "open_global_requests s = w # ws \<Longrightarrow> client_read_authenticated E H s (reply_packet r) =
     Ok (s\<lparr>open_global_requests := ws, outbox := outbox s @ reply_out E w r\<rparr>)"
  by (cases r; cases w)
    (simp_all add: client_read_authenticated_def read_request_success_def read_request_failure_def
      pop_request_def emit_def)

text \<open>
  the replies of the server reach the requests in the order in which they were made: the n-th
  reply is delivered to the n-th request that waits, a keepalive's is dropped, and the requests
  without a reply keep waiting.
\<close>

theorem global_replies_in_order:
  assumes "length rs \<le> length (open_global_requests s)"
  shows "read_all E H s (map reply_packet rs) =
    Ok (s\<lparr>open_global_requests := drop (length rs) (open_global_requests s),
          outbox := outbox s @ concat (map2 (reply_out E) (open_global_requests s) rs)\<rparr>)"
  using assms
proof (induction rs arbitrary: s)
  case (Cons r rs)
  then obtain w ws where ws: "open_global_requests s = w # ws" by (cases "open_global_requests s") auto
  with Cons show ?case by (simp add: read_reply [OF ws])
qed simp

theorem global_replies_in_order_witness:
  "read_all rfc4251 default_handler
     (demo_client\<lparr>open_global_requests := [TcpIpForward 0, Keepalive, CancelTcpIpForward 1]\<rparr>)
     (map reply_packet [Some [], None]) =
   Ok (demo_client\<lparr>open_global_requests := [CancelTcpIpForward 1], outbox := [ReplyPort 0 (Some 0)]\<rparr>)"
  using global_replies_in_order [of "[Some [], None]"
      "demo_client\<lparr>open_global_requests := [TcpIpForward 0, Keepalive, CancelTcpIpForward 1]\<rparr>"
      rfc4251 default_handler]
  by (simp add: demo_client_def Session_new_def)

section \<open>Well-formed sessions\<close>

text \<open>Every channel is filed under its own identifier, and nothing is queued before it is confirmed.\<close>

definition chan_wf :: "channel_id \<Rightarrow> channel_params \<Rightarrow> bool" where
  "chan_wf i c \<longleftrightarrow> sender_channel c = i \<and> (\<not> confirmed c \<longrightarrow> pending_data c = [])"

definition enc_wf :: "('k, 'c, 'z) encrypted \<Rightarrow> bool" where
  "enc_wf enc \<longleftrightarrow> (\<forall>i c. channels enc i = Some c \<longrightarrow> chan_wf i c)"

definition session_wf :: "('k, 'c, 'z, 'm) client_session \<Rightarrow> bool" where
  "session_wf s \<longleftrightarrow> (\<forall>enc. enc_of s = Some enc \<longrightarrow> enc_wf enc)"

named_theorems wf_intros

lemma wf_write [wf_intros]: "enc_wf enc \<Longrightarrow> enc_wf (enc\<lparr>write := w\<rparr>)"
  by (simp add: enc_wf_def)

lemma wf_upd: "enc_wf enc \<Longrightarrow> chan_wf i c \<Longrightarrow> enc_wf (enc\<lparr>channels := (channels enc)(i \<mapsto> c)\<rparr>)"
  by (simp add: enc_wf_def)

lemma wf_get: "enc_wf enc \<Longrightarrow> channels enc i = Some c \<Longrightarrow> chan_wf i c"
  by (simp add: enc_wf_def)

lemma wf_del [wf_intros]: "enc_wf enc \<Longrightarrow> enc_wf (enc\<lparr>channels := (channels enc)(i := None)\<rparr>)"
  by (simp add: enc_wf_def)

lemma wf_byte [wf_intros]: "enc_wf enc \<Longrightarrow> enc_wf (Encrypted_byte E enc i b)"
  by (simp add: Encrypted_byte_def wf_write split: option.split)

lemma wf_eof [wf_intros]: "enc_wf enc \<Longrightarrow> enc_wf (Encrypted_eof E enc i)"
  by (auto simp: Encrypted_eof_def has_pending_data_mut_def wf_byte chan_wf_def dest: wf_get
      intro!: wf_upd split: option.split)

lemma wf_close [wf_intros]: "enc_wf enc \<Longrightarrow> enc_wf (Encrypted_close E enc i)"
  by (auto simp: Encrypted_close_def has_pending_data_mut_def wf_byte wf_del chan_wf_def Let_def
      dest: wf_get intro!: wf_upd split: option.split)

lemma wf_handled: "enc_wf enc \<Longrightarrow> enc_wf (handle_flushed_channel E enc i r)"
  by (auto simp: handle_flushed_channel_def Let_def intro: wf_intros split: channel_flush_result.split)

lemma wf_frame: "chan_wf i c \<Longrightarrow> chan_wf i (c\<lparr>recipient_window_size := w\<rparr>)"
  by (simp add: chan_wf_def)

lemma flush_loop_frame:
  "flush_loop E q k wr c = Ok (res, wr', c') \<Longrightarrow> \<exists>w p. c' = c\<lparr>recipient_window_size := w, pending_data := p\<rparr>"
proof (induction E q k wr c rule: flush_loop.induct)
  case (1 E k wr c)
  then have "c' = c\<lparr>recipient_window_size := recipient_window_size c, pending_data := []\<rparr>" by simp
  then show ?case by blast
next
  case (2 E buf a start q k wr c)
  then obtain n wr1 c1 where d: "data_noqueue E wr c buf a start = Ok (n, wr1, c1)"
    by (auto simp: outcome_simps simp del: if_split)
  obtain w where c1: "c1 = c\<lparr>recipient_window_size := w\<rparr>" using data_noqueue_frame [OF d] by blast
  show ?case
  proof (cases "start + n < length buf")
    case True
    then have "c' = c\<lparr>recipient_window_size := w, pending_data := (buf, a, start + n) # q\<rparr>"
      using 2(2) d c1 by simp
    then show ?thesis by blast
  next
    case False
    then have "flush_loop E q (k + n) wr1 c1 = Ok (res, wr', c')" using 2(2) d by simp
    from 2(1) [OF d _ _ False this] show ?thesis unfolding c1 by auto
  qed
qed

lemma wf_flush_channel:
  assumes "chan_wf i c" "flush_channel E wr c = Ok (res, wr', c')"
  shows "chan_wf i c'"
proof (cases "confirmed c")
  case True
  with assms flush_loop_frame [of E "pending_data c" 0 wr c res wr' c'] show ?thesis
    by (auto simp: chan_wf_def flush_channel_def)
next
  case False
  with assms show ?thesis by (auto simp: chan_wf_def flush_channel_def)
qed

lemma wf_write_upd:
  "enc_wf enc \<Longrightarrow> chan_wf i c \<Longrightarrow> enc_wf (enc\<lparr>write := w, channels := (channels enc)(i \<mapsto> c)\<rparr>)"
  by (simp add: enc_wf_def)

lemma wf_flush_pending:
  "enc_wf enc \<Longrightarrow> flush_pending E enc i = Ok (n, enc') \<Longrightarrow> enc_wf enc'"
  by (auto simp: flush_pending_def outcome_simps split: option.splits dest: wf_get wf_flush_channel
      intro!: wf_handled wf_write_upd)

lemma wf_grant:
  assumes "enc_wf enc" "grant_window E enc i w = Ok (n, enc')"
  shows "enc_wf enc'"
proof -
  obtain c where c: "channels enc i = Some c"
    using assms(2) by (cases "channels enc i") (simp_all add: grant_window_def)
  then obtain k where "flush_pending E
      (enc\<lparr>channels := (channels enc)(i \<mapsto> c\<lparr>recipient_window_size := recipient_window_size c + w\<rparr>)\<rparr>) i = Ok (k, enc')"
    using assms(2) by (auto simp: grant_window_def outcome_simps Let_def)
  from wf_flush_pending [OF wf_upd [OF assms(1) wf_frame [OF wf_get [OF assms(1) c]]] this] show ?thesis .
qed

lemma wf_sent:
  assumes "data_noqueue E wr c d a 0 = Ok (n, wr', c')" "chan_wf i c" "confirmed c"
  shows "chan_wf i c'" "chan_wf i (c'\<lparr>pending_data := p\<rparr>)"
  using data_noqueue_frame [OF assms(1)] assms(2,3) by (auto simp: chan_wf_def)

lemma wf_queued: "chan_wf i c \<Longrightarrow> confirmed c \<Longrightarrow> chan_wf i (c\<lparr>pending_data := p\<rparr>)"
  by (simp add: chan_wf_def)

lemma wf_data:
  assumes "enc_wf enc"
  shows "Encrypted_data E enc i d = Ok enc' \<Longrightarrow> enc_wf enc'"
    "Encrypted_extended_data E enc i x d = Ok enc' \<Longrightarrow> enc_wf enc'"
proof -
  note w = wf_upd [OF assms] wf_write_upd [OF assms]
  show "enc_wf enc'" if "Encrypted_data E enc i d = Ok enc'"
  proof (cases "channels enc i")
    case (Some c)
    with that wf_get [OF assms Some] show ?thesis
      by (auto simp: Encrypted_data_def outcome_simps w wf_queued wf_sent split: if_splits)
  qed (use that assms in \<open>simp add: Encrypted_data_def\<close>)
  show "enc_wf enc'" if "Encrypted_extended_data E enc i x d = Ok enc'"
  proof (cases "channels enc i")
    case (Some c)
    with that wf_get [OF assms Some] show ?thesis
      by (auto simp: Encrypted_extended_data_def outcome_simps w wf_queued wf_sent split: if_splits)
  qed (use that assms in \<open>simp add: Encrypted_extended_data_def\<close>)
qed

lemma wf_adjust: "enc_wf enc \<Longrightarrow> enc_wf (snd (adjust_window_size E enc i d w))"
  by (auto simp: adjust_window_size_def Let_def chan_wf_def dest: wf_get intro!: wf_upd wf_write_upd
      split: option.split)

text \<open>The same for sessions.\<close>

lemma session_wf_keep [simp]:
  "session_wf (emit os s) = session_wf s" "session_wf (send_channel_msg ch m s) = session_wf s"
  "session_wf (s\<lparr>refs := R\<rparr>) = session_wf s" "session_wf (s\<lparr>target_window_size := w\<rparr>) = session_wf s"
  "session_wf (s\<lparr>open_global_requests := q\<rparr>) = session_wf s" "session_wf (s\<lparr>next_ref := n\<rparr>) = session_wf s"
  "session_wf (set_enc enc s) = enc_wf enc"
  by (auto simp: session_wf_def enc_of_def emit_def send_channel_msg_def set_enc_def split: option.split)

lemma session_wf_common [simp]:
  "session_wf (s\<lparr>common := (common s)\<lparr>common_wants_reply := b\<rparr>\<rparr>) = session_wf s"
  "session_wf (s\<lparr>common := (common s)\<lparr>received_data := b\<rparr>\<rparr>) = session_wf s"
  by (simp_all add: session_wf_def enc_of_def)

lemma wf_with_enc: "(\<And>enc. enc_wf enc \<Longrightarrow> enc_wf (f enc)) \<Longrightarrow> session_wf s \<Longrightarrow> session_wf (with_enc f s)"
  by (auto simp: session_wf_def with_enc_def enc_of_def)

lemma wf_receive_window: "session_wf s \<Longrightarrow> session_wf (receive_window E H i d s)"
  using wf_adjust [of "the (enc_of s)" E i d "cfg_window_size (config (common s))"]
  by (auto simp: receive_window_def Let_def split_beta session_wf_def [of s] split: option.split)

text \<open>What the writing commands preserve.\<close>

lemma wf_channel_request: "session_wf s \<Longrightarrow> session_wf (channel_request E ch kind p s)"
  unfolding channel_request_def by (rule wf_with_enc) (simp_all add: wf_write split: option.split)

lemma wf_global_request: "session_wf s \<Longrightarrow> session_wf (global_request E kind p s)"
  unfolding global_request_def by (rule wf_with_enc) (simp_all add: wf_write)

lemma wf_await_reply: "session_wf s \<Longrightarrow> session_wf (await_reply r s)"
  by (simp add: await_reply_def split: option.split)

lemma wf_fresh: "chan_wf i (fresh_channel i w m)"
  by (simp add: chan_wf_def fresh_channel_def)

lemma wf_open_ref:
  assumes "session_wf s" "open_ref (channel_open_generic E kind suffix s) ref = Ok t"
  shows "session_wf t"
proof -
  obtain i s1 where o: "channel_open_generic E kind suffix s = Ok (i, s1)" "t = s1\<lparr>refs := (refs s1)(i \<mapsto> ref)\<rparr>"
    using assms(2) by (auto simp: open_ref_def outcome_simps)
  have "session_wf s1"
  proof (rule channel_open_generic_Ok [OF o(1)])
    fix enc assume "enc_of s = Some enc" and s1: "s1 = set_enc (enc\<lparr>last_channel_id := i,
        channels := (channels enc)(i \<mapsto> fresh_channel i (cfg_window_size (config (common s)))
          (cfg_maximum_packet_size (config (common s)))),
        write := push_packet E (write enc) (open_body E kind i (cfg_window_size (config (common s)))
          (cfg_maximum_packet_size (config (common s))) suffix)\<rparr>) s"
    then have "enc_wf enc" using assms(1) by (simp add: session_wf_def)
    then show "session_wf s1" unfolding s1 by (simp add: enc_wf_def wf_fresh)
  qed
  with o(2) show ?thesis by simp
qed

lemma wf_lift_enc:
  "session_wf s \<Longrightarrow> lift_enc f s = Ok t \<Longrightarrow> (\<And>enc enc'. enc_wf enc \<Longrightarrow> f enc = Ok enc' \<Longrightarrow> enc_wf enc') \<Longrightarrow>
   session_wf t"
  by (auto simp: lift_enc_def session_wf_def [of s] outcome_simps split: option.splits)

lemma wf_disconnect: "session_wf s \<Longrightarrow> session_wf (Session_disconnect E reason d l s)"
  by (auto simp: Session_disconnect_def CommonSession_disconnect_def session_wf_def enc_of_def Let_def wf_write
      split: option.splits)

lemma wf_handle_channel_msg:
  assumes "session_wf s" "handle_channel_msg E i m s = Ok t"
  shows "session_wf t"
proof -
  note defs = handle_channel_msg_def request_pty_def window_change_def request_x11_def set_env_def
    request_shell_def exec_def signal_def request_subsystem_def agent_forward_def
  note ops = Session_data_def Session_eof_def Session_extended_data_def Session_close_def
  show ?thesis
    using assms wf_channel_request [OF assms(1)]
    by (cases m) (auto simp: defs ops elim!: wf_lift_enc [OF assms(1)] dest: wf_data intro: wf_intros)
qed

lemma wf_handle_msg:
  assumes "session_wf s" "handle_msg E wa m s = Ok t"
    and "\<And>user meth. wa user meth s = Ok t \<Longrightarrow> session_wf t"
  shows "session_wf t"
proof -
  note opens = channel_open_session_def channel_open_x11_def channel_open_direct_tcpip_def
    channel_open_direct_streamlocal_def channel_open_tun_def
  show ?thesis
    using assms
    by (cases m) (auto simp: handle_msg_def opens tcpip_forward_def cancel_tcpip_forward_def
        intro: wf_open_ref wf_handle_channel_msg wf_disconnect wf_global_request wf_await_reply split: if_splits)
qed

lemma wf_answer_request: "session_wf s \<Longrightarrow> session_wf (answer_request E b i s)"
  by (auto simp: answer_request_def intro!: wf_with_enc wf_intros)

lemma wf_global_answer: "session_wf s \<Longrightarrow> session_wf (global_answer E b s)"
  by (auto simp: global_answer_def intro!: wf_with_enc wf_intros)

lemma wf_confirm_channel: "session_wf s \<Longrightarrow> session_wf (confirm_channel E m i s)"
proof -
  have "chan_wf i (server_channel cfg m i)" for cfg by (simp add: chan_wf_def server_channel_def)
  then show "session_wf s \<Longrightarrow> session_wf (confirm_channel E m i s)"
    unfolding confirm_channel_def by (intro wf_with_enc) (simp_all add: Let_def wf_write_upd)
qed

lemma wf_accept: "session_wf s \<Longrightarrow> session_wf (snd (accept_server_initiated_channel i m s))"
  by (simp add: accept_server_initiated_channel_def Let_def)

lemma wf_read_reply:
  "session_wf s \<Longrightarrow> session_wf (read_request_success E s r)"
  "session_wf s \<Longrightarrow> session_wf (read_request_failure s)"
  by (simp_all add: read_request_success_def read_request_failure_def pop_request_def
      split: list.split global_request_response.split)

text \<open>
  What the application has to promise: its callbacks, and the way it writes authentication requests,
  keep a session well-formed. Then everything else does.
\<close>

locale client_handler =
  fixes H :: "('k, 'c, 'z, 'm) handler"
    and wa :: "bytes \<Rightarrow> 'm \<Rightarrow> ('k, 'c, 'z, 'm) client_session \<Rightarrow> (error, ('k, 'c, 'z, 'm) client_session) outcome"
  assumes call_wf: "session_wf s \<Longrightarrow> call H cb s = Ok t \<Longrightarrow> session_wf t"
    and auth_wf: "session_wf s \<Longrightarrow> wa user meth s = Ok t \<Longrightarrow> session_wf t"
begin

lemma wf_read_confirmation:
  assumes "session_wf s" "read_open_confirmation E H s r = Ok t"
  shows "session_wf t"
proof -
  have confirmed: "chan_wf i (ChannelParams_confirm c m)" if "chan_wf i c" for i c m
    using that by (simp add: chan_wf_def ChannelParams_confirm_def)
  show ?thesis
  proof (cases "enc_of s")
    case (Some enc)
    then have "enc_wf enc" using assms(1) by (simp add: session_wf_def)
    with Some assms(2) show ?thesis
      by (auto simp: read_open_confirmation_def outcome_simps Let_def split: option.splits
          elim!: call_wf [rotated] intro!: wf_upd confirmed wf_get)
  qed (use assms(2) in \<open>auto simp: read_open_confirmation_def outcome_simps\<close>)
qed

lemma wf_read_window:
  assumes "session_wf s" "read_window_adjust E H s r = Ok t"
  shows "session_wf t"
proof -
  obtain i r1 amount r2 where p: "read_u32 E r = Some (i, r1)" "read_u32 E r1 = Some (amount, r2)"
    using assms(2) by (auto simp: read_window_adjust_def outcome_simps)
  obtain n s1 where c: "call H (CbWindowAdjusted i n) (case refs s1 i of
        Some ref \<Rightarrow> emit [SetWindow ref n, ToChannel ref (WindowAdjusted n)] s1 | None \<Rightarrow> s1) = Ok t"
    and s1: "s1 = s \<or> (\<exists>enc enc'. enc_of s = Some enc \<and> grant_window E enc i amount = Ok (n, enc')
        \<and> s1 = set_enc enc' s)"
  proof (cases "enc_of s")
    case None
    with assms(2) p that [of 0 s] show ?thesis by (simp add: read_window_adjust_def)
  next
    case (Some enc)
    with assms(2) p obtain n enc' where "grant_window E enc i amount = Ok (n, enc')"
      by (auto simp: read_window_adjust_def outcome_simps)
    with assms(2) p Some that [of n "set_enc enc' s"] show ?thesis
      by (simp add: read_window_adjust_def)
  qed
  have "session_wf s1"
  proof (cases "s1 = s")
    case False
    with s1 obtain enc enc' where e: "enc_of s = Some enc" "grant_window E enc i amount = Ok (n, enc')"
      "s1 = set_enc enc' s" by blast
    from e(1) assms(1) have "enc_wf enc" by (simp add: session_wf_def)
    from wf_grant [OF this e(2)] e(3) show ?thesis by simp
  qed (simp add: assms(1))
  then have "session_wf (case refs s1 i of
        Some ref \<Rightarrow> emit [SetWindow ref n, ToChannel ref (WindowAdjusted n)] s1 | None \<Rightarrow> s1)"
    by (simp split: option.split)
  from call_wf [OF this c] show ?thesis .
qed

lemma wf_read_simple:
  assumes "session_wf s"
  shows "read_channel_close E H s r = Ok t \<Longrightarrow> session_wf t"
    "read_channel_eof E H s r = Ok t \<Longrightarrow> session_wf t"
    "read_channel_result E H s m cb r = Ok t \<Longrightarrow> session_wf t"
    "read_channel_data E H s r = Ok t \<Longrightarrow> session_wf t"
    "read_channel_extended_data E H s r = Ok t \<Longrightarrow> session_wf t"
    "read_open_failure E H s r = Ok t \<Longrightarrow> session_wf t"
  using assms
  by (auto simp: read_channel_close_def read_channel_eof_def read_channel_result_def read_channel_data_def
      read_channel_extended_data_def read_open_failure_def outcome_simps Let_def elim!: call_wf [rotated]
      intro!: wf_with_enc wf_intros wf_receive_window)

lemma wf_read_request:
  assumes "session_wf s" "read_channel_request E H s r = Ok t"
  shows "session_wf t"
proof -
  have "read_xon_xoff E H s i r = Ok t \<Longrightarrow> session_wf t" "read_exit_status E H s i r = Ok t \<Longrightarrow> session_wf t"
    "read_exit_signal E H s i r = Ok t \<Longrightarrow> session_wf t" for i r
    using assms(1)
    by (auto simp: read_xon_xoff_def read_exit_status_def read_exit_signal_def outcome_simps
        elim!: call_wf [rotated])
  then show ?thesis
    using assms by (auto simp: read_channel_request_def outcome_simps wf_answer_request split: if_splits)
qed

lemma wf_read_global:
  assumes "session_wf s" "read_global_request E H s r = Ok t"
  shows "session_wf t"
proof -
  obtain req r1 want r2 where p: "read_string E r = Some (req, r1)" "read_byte E r1 = Some (want, r2)"
    using assms(2) by (auto simp: read_global_request_def outcome_simps)
  show ?thesis
    using assms wf_global_answer [OF assms(1)] call_wf [OF assms(1)]
    by (auto simp: read_global_request_def p Let_def split: if_splits option.splits)
qed

lemma wf_read_open:
  assumes "session_wf s" "read_channel_open E H s r = Ok t"
  shows "session_wf t"
proof -
  obtain m r' enc i enc' where m: "OpenChannelMessage_parse E r = Ok (m, r')" and e: "enc_of s = Some enc"
    and n: "Encrypted_new_channel_id enc = Ok (i, enc')"
    using assms(2) by (auto simp: read_channel_open_def outcome_simps split: option.splits)
  have "enc_wf enc'"
    using assms(1) n e by (auto simp: session_wf_def Encrypted_new_channel_id_def enc_wf_def split: option.splits)
  then have s1: "session_wf (set_enc enc' s)" by simp
  let ?s2 = "confirm_channel E m i (set_enc enc' s)"
  have s2: "session_wf ?s2" by (rule wf_confirm_channel [OF s1])
  have s4: "session_wf (snd (accept_server_initiated_channel i m ?s2))" by (rule wf_accept [OF s2])
  have s3: "session_wf (with_enc (\<lambda>e. e\<lparr>write := OpenChannelMessage_unknown_type E m (write e)\<rparr>) (set_enc enc' s))"
    by (rule wf_with_enc [OF wf_write s1])
  show ?thesis
    using assms(2) m e n s3 s2 call_wf [OF s2] call_wf [OF s4]
    by (cases "oc_typ m") (auto simp: read_channel_open_def Let_def split_beta split: if_splits)
qed

lemma wf_client_read:
  assumes "session_wf s" "client_read_authenticated E H s buf = Ok t"
  shows "session_wf t"
  using assms wf_read_simple [OF assms(1)] wf_read_confirmation [OF assms(1)] wf_read_window [OF assms(1)]
    wf_read_request [OF assms(1)] wf_read_global [OF assms(1)] wf_read_open [OF assms(1)]
    wf_read_reply [OF assms(1)]
  by (cases buf) (auto simp: client_read_authenticated_def simp del: CHANNEL_OPEN_CONFIRMATION_def CHANNEL_CLOSE_def
      CHANNEL_EOF_def CHANNEL_OPEN_FAILURE_def CHANNEL_DATA_def CHANNEL_EXTENDED_DATA_def CHANNEL_REQUEST_def
      CHANNEL_WINDOW_ADJUST_def GLOBAL_REQUEST_def CHANNEL_SUCCESS_def CHANNEL_FAILURE_def CHANNEL_OPEN_def
      REQUEST_SUCCESS_def REQUEST_FAILURE_def split: if_splits)

end

end
