(* ===== verification/Client_Auth.thy ===== *)
theory Client_Auth
  imports Client_Protocol
begin

text \<open>
  Authentication of the client: the methods (\<^verbatim>\<open>crates/russh/src/auth.rs\<close>), the requests it writes and
  \<open>process_packet\<close>, which dispatches a packet by the state of the session
  (\<^verbatim>\<open>client/encrypted.rs\<close>). The session is a step relation over the commands of the application and the
  packets of the server; the theorems are about its runs: the channels stay well-formed, there is no
  channel before the server has accepted the user, and authentication with a key comes to an end.
\<close>

unbundle bit_operations_syntax

section \<open>Methods\<close>

text \<open>
  The bits of \<open>MethodSet\<close> and their names. A key is what the source uses of the key library: its name,
  the public part that \<open>push_to\<close> appends, and \<open>add_self_signature\<close>, which gives the bytes it appends to
  the buffer that is signed, or fails.
\<close>

definition METHOD_NONE :: u32 where [simp]: "METHOD_NONE = 1"
definition METHOD_PASSWORD :: u32 where [simp]: "METHOD_PASSWORD = 2"
definition METHOD_PUBLICKEY :: u32 where [simp]: "METHOD_PUBLICKEY = 4"
definition METHOD_HOSTBASED :: u32 where [simp]: "METHOD_HOSTBASED = 8"
definition METHOD_KEYBOARD_INTERACTIVE :: u32 where [simp]: "METHOD_KEYBOARD_INTERACTIVE = 16"

definition MethodSet_all :: u32 where
  "MethodSet_all = METHOD_NONE OR METHOD_PASSWORD OR METHOD_PUBLICKEY OR METHOD_HOSTBASED
     OR METHOD_KEYBOARD_INTERACTIVE"

definition MethodSet_bytes :: "u32 \<Rightarrow> bytes" where
  "MethodSet_bytes m =
    (if m = METHOD_NONE then bs ''none''
     else if m = METHOD_PASSWORD then bs ''password''
     else if m = METHOD_PUBLICKEY then bs ''publickey''
     else if m = METHOD_HOSTBASED then bs ''hostbased''
     else if m = METHOD_KEYBOARD_INTERACTIVE then bs ''keyboard-interactive''
     else [])"

definition MethodSet_from_bytes :: "bytes \<Rightarrow> u32 option" where
  "MethodSet_from_bytes b =
    (if b = bs ''none'' then Some METHOD_NONE
     else if b = bs ''password'' then Some METHOD_PASSWORD
     else if b = bs ''publickey'' then Some METHOD_PUBLICKEY
     else if b = bs ''hostbased'' then Some METHOD_HOSTBASED
     else if b = bs ''keyboard-interactive'' then Some METHOD_KEYBOARD_INTERACTIVE
     else None)"

record public_key =
  key_name :: bytes
  key_blob :: bytes

record key_pair = public_key +
  add_self_signature :: "bytes \<Rightarrow> (error, bytes) outcome"

datatype auth_scheme =
  Method_None
| Method_Password bytes
| Method_PublicKey key_pair
| Method_OpenSSHCertificate key_pair public_key
| Method_FuturePublicKey public_key
| Method_KeyboardInteractive bytes

definition USERAUTH_REQUEST :: u8 where [simp]: "USERAUTH_REQUEST = 50"
definition USERAUTH_FAILURE :: u8 where [simp]: "USERAUTH_FAILURE = 51"
definition USERAUTH_SUCCESS :: u8 where [simp]: "USERAUTH_SUCCESS = 52"
definition USERAUTH_BANNER :: u8 where [simp]: "USERAUTH_BANNER = 53"
definition USERAUTH_PK_OK :: u8 where [simp]: "USERAUTH_PK_OK = 60"
definition USERAUTH_INFO_REQUEST :: u8 where [simp]: "USERAUTH_INFO_REQUEST = 60"
definition USERAUTH_INFO_RESPONSE :: u8 where [simp]: "USERAUTH_INFO_RESPONSE = 61"
definition USERAUTH_INFO_REQUEST_OR_USERAUTH_PK_OK :: u8 where
  [simp]: "USERAUTH_INFO_REQUEST_OR_USERAUTH_PK_OK = 60"

section \<open>Requests\<close>

definition auth_prefix :: "codec \<Rightarrow> bytes \<Rightarrow> bytes \<Rightarrow> bytes" where
  "auth_prefix E user meth = USERAUTH_REQUEST # extend_ssh_string E user
     @ extend_ssh_string E (bs ''ssh-connection'') @ extend_ssh_string E meth"

definition probe :: "codec \<Rightarrow> 'a public_key_scheme \<Rightarrow> bytes" where
  "probe E key = 0 # extend_ssh_string E (key_name key) @ key_blob key"

definition auth_body :: "codec \<Rightarrow> bytes \<Rightarrow> auth_scheme \<Rightarrow> bytes" where
  "auth_body E user meth =
    (case meth of
       Method_None \<Rightarrow> auth_prefix E user (bs ''none'')
     | Method_Password password \<Rightarrow> auth_prefix E user (bs ''password'') @ 0 # extend_ssh_string E password
     | Method_PublicKey key \<Rightarrow> auth_prefix E user (bs ''publickey'') @ probe E key
     | Method_OpenSSHCertificate _ cert \<Rightarrow> auth_prefix E user (bs ''publickey'') @ probe E cert
     | Method_FuturePublicKey key \<Rightarrow> auth_prefix E user (bs ''publickey'') @ probe E key
     | Method_KeyboardInteractive submethods \<Rightarrow> auth_prefix E user (bs ''keyboard-interactive'')
         @ extend_ssh_string E [] @ extend_ssh_string E submethods)"

definition write_auth_request ::
  "codec \<Rightarrow> ('k, 'c, 'z) encrypted \<Rightarrow> bytes \<Rightarrow> auth_scheme \<Rightarrow> bool \<times> ('k, 'c, 'z) encrypted" where
  "write_auth_request E self user meth =
     (True, self\<lparr>write := push_packet E (write self) (auth_body E user meth)\<rparr>)"

text \<open>
  The service request is sealed at once; the key \<open>K\<close> acts on the sending half of the cipher pair.
\<close>

definition service_request :: bytes where
  "service_request = [5, 0, 0, 0, 12] @ bs ''ssh-userauth''"

definition write_auth_request_if_needed ::
  "codec \<Rightarrow> 'c sealing_key \<Rightarrow> bytes \<Rightarrow> auth_scheme \<Rightarrow> ('k, 'c, 'z, auth_scheme) client_session \<Rightarrow>
   (error, bool \<times> ('k, 'c, 'z, auth_scheme) client_session) outcome" where
  "write_auth_request_if_needed E K user meth s =
    (let finish = (\<lambda>w s. Ok (w, s\<lparr>common := (common s)\<lparr>auth_user := user, auth_method := Some meth\<rparr>\<rparr>))
     in case enc_of s of
       None \<Rightarrow> finish False s
     | Some enc \<Rightarrow>
         (case state enc of
            WaitingAuthRequest _ \<Rightarrow> finish True (set_enc (snd (write_auth_request E enc user meth)) s)
          | WaitingAuthServiceRequest snt accepted \<Rightarrow>
              obind (if snt then Ok (cipher (common s), write_buffer (common s))
                     else SealingKey_write E K (cipher (common s)) service_request (write_buffer (common s)))
                (\<lambda>(c, wb).
              let enc1 = enc\<lparr>state := WaitingAuthServiceRequest True accepted\<rparr>;
                  enc2 = (if accepted then snd (write_auth_request E enc1 user meth) else enc1);
                  s1 = set_enc enc2 s
              in finish accepted (s1\<lparr>common := (common s1)\<lparr>cipher := c, write_buffer := wb\<rparr>\<rparr>))
          | _ \<Rightarrow> finish False s))"

definition write_auth :: "codec \<Rightarrow> 'c sealing_key \<Rightarrow> bytes \<Rightarrow> auth_scheme \<Rightarrow> ('k, 'c, 'z, auth_scheme) client_session \<Rightarrow>
   (error, ('k, 'c, 'z, auth_scheme) client_session) outcome" where
  "write_auth E K user meth s =
    obind (write_auth_request_if_needed E K user meth s) (\<lambda>(_, s). Ok s)"

text \<open>
  What is signed: the session identifier, then the request from offset \<open>i0\<close> on, which is also what is
  sent, with the signature.
\<close>

definition signed_request :: "codec \<Rightarrow> bytes \<Rightarrow> 'a public_key_scheme \<Rightarrow> bytes" where
  "signed_request E user key = auth_prefix E user (bs ''publickey'') @ 1 # extend_ssh_string E (key_name key)
     @ key_blob key"

definition client_make_to_sign ::
  "codec \<Rightarrow> ('k, 'c, 'z) encrypted \<Rightarrow> bytes \<Rightarrow> 'a public_key_scheme \<Rightarrow> nat \<times> bytes" where
  "client_make_to_sign E self user key =
    (let sid = extend_ssh_string E (session_id self)
     in (length sid, sid @ signed_request E user key))"

definition send_signed ::
  "codec \<Rightarrow> ('k, 'c, 'z) encrypted \<Rightarrow> bytes \<Rightarrow> key_pair \<Rightarrow> 'a public_key_scheme \<Rightarrow>
   (error, bytes \<times> ('k, 'c, 'z) encrypted) outcome" where
  "send_signed E self user key pub =
    (let (i0, signed) = client_make_to_sign E self user pub
     in obind (add_self_signature key signed) (\<lambda>signature.
        Ok (signed @ signature,
            self\<lparr>write := push_packet E (write self) (drop i0 (signed @ signature))\<rparr>)))"

definition client_send_signature ::
  "codec \<Rightarrow> ('k, 'c, 'z) encrypted \<Rightarrow> bytes \<Rightarrow> auth_scheme \<Rightarrow> bytes \<Rightarrow>
   (error, bytes \<times> ('k, 'c, 'z) encrypted) outcome" where
  "client_send_signature E self user meth buf =
    (case meth of
       Method_PublicKey key \<Rightarrow> send_signed E self user key key
     | Method_OpenSSHCertificate key cert \<Rightarrow> send_signed E self user key cert
     | _ \<Rightarrow> Ok (buf, self))"

definition client_send_auth_response ::
  "codec \<Rightarrow> ('k, 'c, 'z) encrypted \<Rightarrow> bytes list \<Rightarrow> ('k, 'c, 'z) encrypted" where
  "client_send_auth_response E self responses =
     self\<lparr>write := push_packet E (write self) (USERAUTH_INFO_RESPONSE
       # push_u32_be E (if length responses < 2 ^ 32 then of_nat (length responses) else 0)
       @ concat (map (extend_ssh_string E) responses))\<rparr>"

section \<open>Packets before authentication\<close>

text \<open>
  \<open>init_compress\<close> and \<open>init_decompress\<close>: \<open>fresh\<close> is the stream that the zlib library makes, or the reset
  of the one it is given.
\<close>

definition init_stream :: "('z option \<Rightarrow> 'z) \<Rightarrow> compression \<Rightarrow> 'z option \<Rightarrow> 'z option" where
  "init_stream fresh self stream =
    (case self of Compression_Zlib \<Rightarrow> Some (fresh stream) | Compression_None \<Rightarrow> None)"

text \<open>
  The two ends of the session's queues while a packet is processed: whether the handle that receives
  the replies still exists, and the commands that the application sends from now on.
\<close>

record 'm queues =
  handle_alive :: bool
  commands :: "'m msg list"

definition send_reply ::
  "'m queues \<Rightarrow> reply \<Rightarrow> ('k, 'c, 'z, 'm) client_session \<Rightarrow> (error, ('k, 'c, 'z, 'm) client_session) outcome" where
  "send_reply q r s = (if handle_alive q then Ok (emit [ToHandle r] s) else Err SendError)"

text \<open>
  The loops that receive until the awaited command comes: they drop every other one, and when there is
  none left they never return.
\<close>

fun await :: "('m msg \<Rightarrow> 'a option) \<Rightarrow> 'm msg list \<Rightarrow> (error, 'a \<times> 'm msg list) outcome" where
  "await f [] = Diverge"
| "await f (m # ms) = (case f m of Some x \<Rightarrow> Ok (x, ms) | None \<Rightarrow> await f ms)"

fun auth_info_response :: "'m msg \<Rightarrow> bytes list option" where
  "auth_info_response (AuthInfoResponse responses) = Some responses"
| "auth_info_response _ = None"

fun signed_data :: "'m msg \<Rightarrow> bytes option" where
  "signed_data (Signed d) = Some d"
| "signed_data _ = None"

fun read_prompts :: "codec \<Rightarrow> nat \<Rightarrow> bytes \<Rightarrow> (error, (bytes \<times> bool) list) outcome" where
  "read_prompts E 0 r = Ok []"
| "read_prompts E (Suc n) r =
    obind (read_or (read_string E r)) (\<lambda>(prompt, r).
    obind (read_or (read_byte E r)) (\<lambda>(echo, r).
    obind (read_prompts E n r) (\<lambda>ps. Ok ((from_utf8_lossy prompt, echo \<noteq> 0) # ps))))"

definition remaining_methods :: "bytes \<Rightarrow> u32" where
  "remaining_methods b =
    foldl (\<lambda>acc m. case MethodSet_from_bytes m of Some f \<Rightarrow> acc OR f | None \<Rightarrow> acc) 0 (split_at 44 b)"

definition initial_auth_request :: "auth_scheme \<Rightarrow> auth_request" where
  "initial_auth_request meth = \<lparr>methods = MethodSet_all, partial_success = False,
     current = (case meth of Method_KeyboardInteractive sub \<Rightarrow> Some (CurrentKeyboardInteractive sub) | _ \<Rightarrow> None),
     rejection_count = 0\<rparr>"

text \<open>Waiting for the service: the method that was given is requested once the service is accepted.\<close>

definition read_service_accept ::
  "codec \<Rightarrow> ('k, 'c, 'z, auth_scheme) client_session \<Rightarrow> ('k, 'c, 'z) encrypted \<Rightarrow> bool \<Rightarrow> bytes \<Rightarrow>
   (error, ('k, 'c, 'z, auth_scheme) client_session) outcome" where
  "read_service_accept E s enc snt r =
    obind (read_or (read_string E r)) (\<lambda>(service, _).
    if service = bs ''ssh-userauth'' then
      (let enc1 = enc\<lparr>state := WaitingAuthServiceRequest snt True\<rparr>
       in case auth_method (common s) of
            None \<Rightarrow> Ok (set_enc enc1 s)
          | Some meth \<Rightarrow>
              (let (written, enc2) = write_auth_request E enc1 (auth_user (common s)) meth
               in Ok (set_enc (if written then enc2\<lparr>state := WaitingAuthRequest (initial_auth_request meth)\<rparr>
                               else enc2) s)))
    else Ok s)"

definition read_auth_failure ::
  "codec \<Rightarrow> 'm queues \<Rightarrow> ('k, 'c, 'z, 'm) client_session \<Rightarrow> ('k, 'c, 'z) encrypted \<Rightarrow> auth_request \<Rightarrow> bytes \<Rightarrow>
   (error, ('k, 'c, 'z, 'm) client_session) outcome" where
  "read_auth_failure E q s enc req r =
    obind (read_or (read_string E r)) (\<lambda>(names, _).
    let remaining = remaining_methods names;
        s1 = set_enc (enc\<lparr>state := WaitingAuthRequest (req\<lparr>methods := remaining\<rparr>)\<rparr>) s;
        s2 = s1\<lparr>common := (common s1)\<lparr>auth_method := None\<rparr>\<rparr>
    in obind (send_reply q AuthFailure s2) (\<lambda>s3.
       if remaining = 0 then Err NoAuthMethod else Ok s3))"

definition read_info_request ::
  "codec \<Rightarrow> 'm queues \<Rightarrow> ('k, 'c, 'z, 'm) client_session \<Rightarrow> ('k, 'c, 'z) encrypted \<Rightarrow> bytes \<Rightarrow>
   (error, 'm queues \<times> ('k, 'c, 'z, 'm) client_session) outcome" where
  "read_info_request E q s enc r =
    obind (read_or (read_string E r)) (\<lambda>(nm, r).
    obind (read_or (read_string E r)) (\<lambda>(instructions, r).
    obind (read_or (read_string E r)) (\<lambda>(_, r).
    obind (read_or (read_u32 E r)) (\<lambda>(n_prompts, r).
    obind (read_prompts E (unat n_prompts) r) (\<lambda>prompts.
    obind (send_reply q (AuthInfoRequest (from_utf8_lossy nm) (from_utf8_lossy instructions) prompts) s) (\<lambda>s1.
    obind (await auth_info_response (commands q)) (\<lambda>(responses, cmds).
    Ok (q\<lparr>commands := cmds\<rparr>, set_enc (client_send_auth_response E enc responses) s1))))))))"

text \<open>The server accepts the probe of a key: the request is sent again with its signature.\<close>

definition read_pk_ok ::
  "codec \<Rightarrow> auth_scheme queues \<Rightarrow> ('k, 'c, 'z, auth_scheme) client_session \<Rightarrow> ('k, 'c, 'z) encrypted \<Rightarrow>
   (error, auth_scheme queues \<times> ('k, 'c, 'z, auth_scheme) client_session) outcome" where
  "read_pk_ok E q s enc =
    (let user = auth_user (common s);
         s0 = set_enc enc (s\<lparr>common := (common s)\<lparr>auth_method := None\<rparr>\<rparr>);
         self_signed = (\<lambda>meth. obind (client_send_signature E enc user meth []) (\<lambda>(buf, enc').
            Ok (q, set_enc enc' (s0\<lparr>common := (common s0)\<lparr>common_buffer := buf\<rparr>\<rparr>))))
     in case auth_method (common s) of
          Some (Method_PublicKey key) \<Rightarrow> self_signed (Method_PublicKey key)
        | Some (Method_OpenSSHCertificate key cert) \<Rightarrow> self_signed (Method_OpenSSHCertificate key cert)
        | Some (Method_FuturePublicKey key) \<Rightarrow>
            (let (i, buf) = client_make_to_sign E enc user key
             in obind (send_reply q (SignRequest (key_blob key) buf) s0) (\<lambda>s1.
                obind (await signed_data (commands q)) (\<lambda>(d, cmds).
                let s2 = s1\<lparr>common := (common s1)\<lparr>common_buffer := d\<rparr>\<rparr>
                in if length d = length buf then Ok (q\<lparr>commands := cmds\<rparr>, s2)
                   else if length d < i then Panic
                   else Ok (q\<lparr>commands := cmds\<rparr>,
                          set_enc (enc\<lparr>write := push_packet E (write enc) (drop i d)\<rparr>) s2))))
        | _ \<Rightarrow> Ok (q, s0))"

definition read_auth_challenge ::
  "codec \<Rightarrow> auth_scheme queues \<Rightarrow> ('k, 'c, 'z, auth_scheme) client_session \<Rightarrow> ('k, 'c, 'z) encrypted \<Rightarrow> auth_request \<Rightarrow>
   bytes \<Rightarrow> (error, auth_scheme queues \<times> ('k, 'c, 'z, auth_scheme) client_session) outcome" where
  "read_auth_challenge E q s enc req r =
    (case current req of
       Some (CurrentPublicKey key algo _) \<Rightarrow>
         read_pk_ok E q s (enc\<lparr>state := WaitingAuthRequest (req\<lparr>current := Some (CurrentPublicKey key algo True)\<rparr>)\<rparr>)
     | Some (CurrentKeyboardInteractive _) \<Rightarrow> read_info_request E q s enc r
     | None \<Rightarrow> read_pk_ok E q s enc)"

definition read_auth_success ::
  "('z option \<Rightarrow> 'z) \<Rightarrow> 'm queues \<Rightarrow> ('k, 'c, 'z, 'm) client_session \<Rightarrow> ('k, 'c, 'z) encrypted \<Rightarrow>
   (error, ('k, 'c, 'z, 'm) client_session) outcome" where
  "read_auth_success fresh q s enc =
    obind (send_reply q AuthSuccess s) (\<lambda>s1.
    Ok (set_enc (enc\<lparr>state := InitCompression,
          decompress := init_stream fresh (enc_server_compression enc) (decompress enc)\<rparr>) s1))"

text \<open>\<open>process_packet\<close>, a packet by the state of the session.\<close>

definition process_packet ::
  "codec \<Rightarrow> ('z option \<Rightarrow> 'z) \<Rightarrow> ('k, 'c, 'z, auth_scheme) handler \<Rightarrow> auth_scheme queues \<Rightarrow>
   ('k, 'c, 'z, auth_scheme) client_session \<Rightarrow> bytes \<Rightarrow>
   (error, auth_scheme queues \<times> ('k, 'c, 'z, auth_scheme) client_session) outcome" where
  "process_packet E fresh H q s buf =
    (let keep = (\<lambda>r. obind r (\<lambda>s. Ok (q, s)));
         isb = (\<lambda>m. buf \<noteq> [] \<and> hd buf = m)
     in case enc_of s of
       None \<Rightarrow> Ok (q, s)
     | Some enc \<Rightarrow>
         (case state enc of
            WaitingAuthServiceRequest snt _ \<Rightarrow>
              if isb SERVICE_ACCEPT then keep (read_service_accept E s enc snt (tl buf))
              else if isb EXT_INFO then Ok (q, s)
              else Err Inconsistent
          | WaitingAuthRequest req \<Rightarrow>
              if isb USERAUTH_SUCCESS then keep (read_auth_success fresh q s enc)
              else if isb USERAUTH_BANNER then
                obind (read_or (read_string E (tl buf))) (\<lambda>(banner, _).
                if utf8_valid banner then keep (call H (CbBanner banner) s) else Ok (q, s))
              else if isb USERAUTH_FAILURE then keep (read_auth_failure E q s enc req (tl buf))
              else if isb USERAUTH_INFO_REQUEST_OR_USERAUTH_PK_OK
                then read_auth_challenge E q s enc req (tl buf)
              else if isb EXT_INFO then Ok (q, s)
              else Err Inconsistent
          | InitCompression \<Rightarrow> Panic
          | Authenticated \<Rightarrow> keep (client_read_authenticated E H s buf)))"

text \<open>The end of a turn of the session's loop: compression starts and the session is authenticated.\<close>

definition finish_authentication ::
  "('z option \<Rightarrow> 'z) \<Rightarrow> ('k, 'c, 'z, 'm) client_session \<Rightarrow> ('k, 'c, 'z, 'm) client_session" where
  "finish_authentication fresh s =
    with_enc (\<lambda>enc. if state enc = InitCompression
       then enc\<lparr>compress := init_stream fresh (enc_client_compression enc) (compress enc), state := Authenticated\<rparr>
       else enc) s"

section \<open>The session as a step relation\<close>

text \<open>
  The events of an encrypted session: a command of the application, a packet of the server, the end
  of a turn of the loop. The state carries the queues.
\<close>

datatype client_event = Cmd "auth_scheme msg" | Packet bytes | Turn

fun client_event_step where
  "client_event_step E K fresh H (q, s) (Cmd m) t \<longleftrightarrow>
     (\<exists>s'. handle_msg E (write_auth E K) m s = Ok s' \<and> t = (q, s'))"
| "client_event_step E K fresh H (q, s) (Packet p) t \<longleftrightarrow> process_packet E fresh H q s p = Ok t"
| "client_event_step E K fresh H (q, s) Turn t \<longleftrightarrow> t = (q, finish_authentication fresh s)"

text \<open>A handler that does not change the session itself, as the one of the program and the default one.\<close>

definition passive_handler :: "('k, 'c, 'z, 'm) handler \<Rightarrow> bool" where
  "passive_handler H \<longleftrightarrow> (\<forall>cb s t. call H cb s = Ok t \<longrightarrow> t = s)"

lemma passive_default: "passive_handler default_handler"
  by (simp add: passive_handler_def default_handler_def)

lemma passiveD: "passive_handler H \<Longrightarrow> call H cb s = Ok t \<Longrightarrow> t = s"
  by (simp add: passive_handler_def)

section \<open>Sessions stay well-formed\<close>

lemma wf_state [wf_intros]:
  "enc_wf (enc\<lparr>state := st\<rparr>) = enc_wf enc" "enc_wf (enc\<lparr>decompress := z\<rparr>) = enc_wf enc"
  "enc_wf (enc\<lparr>compress := z\<rparr>) = enc_wf enc" "enc_wf (enc\<lparr>write := w\<rparr>) = enc_wf enc"
  by (simp_all add: enc_wf_def)

lemma session_wf_frame [simp]:
  "encrypted_of c = encrypted_of (common s) \<Longrightarrow> session_wf (s\<lparr>common := c\<rparr>) = session_wf s"
  by (simp add: session_wf_def enc_of_def)

lemma wf_write_auth:
  assumes "session_wf s" "write_auth E K user meth s = Ok t"
  shows "session_wf t"
proof (cases "enc_of s")
  case None
  with assms show ?thesis
    by (auto simp: write_auth_def write_auth_request_if_needed_def)
next
  case (Some enc)
  then have "enc_wf enc" using assms(1) by (simp add: session_wf_def)
  with Some assms show ?thesis
    by (auto simp: write_auth_def write_auth_request_if_needed_def write_auth_request_def outcome_simps
        Let_def wf_state split: encrypted_state.splits)
qed

lemma passive_client: "passive_handler H \<Longrightarrow> client_handler H (write_auth E K)"
  by unfold_locales (auto dest: passiveD wf_write_auth)

interpretation default_client: client_handler default_handler "write_auth E K" for E K
  by (rule passive_client [OF passive_default])

lemma wf_service_accept:
  "enc_wf enc \<Longrightarrow> session_wf s \<Longrightarrow> read_service_accept E s enc snt r = Ok t \<Longrightarrow> session_wf t"
  by (auto simp: read_service_accept_def write_auth_request_def outcome_simps Let_def wf_state
      split: option.splits if_splits)

lemma wf_send_reply: "session_wf s \<Longrightarrow> send_reply q r s = Ok t \<Longrightarrow> session_wf t"
  by (auto simp: send_reply_def split: if_splits)

lemma wf_auth_failure:
  "enc_wf enc \<Longrightarrow> read_auth_failure E q s enc req r = Ok t \<Longrightarrow> session_wf t"
  by (auto simp: read_auth_failure_def send_reply_def outcome_simps Let_def wf_state split: if_splits)

lemma wf_info_request:
  "enc_wf enc \<Longrightarrow> read_info_request E q s enc r = Ok (q', t) \<Longrightarrow> session_wf t"
  by (auto simp: read_info_request_def client_send_auth_response_def outcome_simps wf_state)

lemma wf_pk_ok:
  assumes "enc_wf enc" "read_pk_ok E q s enc = Ok (q', t)"
  shows "session_wf t"
proof (cases "auth_method (common s)")
  case (Some meth)
  with assms show ?thesis
    by (cases meth) (auto simp: read_pk_ok_def client_send_signature_def send_signed_def send_reply_def
        outcome_simps Let_def split_beta wf_state split: if_splits)
qed (use assms in \<open>auto simp: read_pk_ok_def Let_def\<close>)

lemma wf_auth_challenge:
  "enc_wf enc \<Longrightarrow> read_auth_challenge E q s enc req r = Ok (q', t) \<Longrightarrow> session_wf t"
  by (auto simp: read_auth_challenge_def wf_state dest: wf_pk_ok [rotated] wf_info_request
      split: option.splits current_request.splits)

lemma wf_auth_success:
  "enc_wf enc \<Longrightarrow> read_auth_success fresh q s enc = Ok t \<Longrightarrow> session_wf t"
  by (auto simp: read_auth_success_def outcome_simps wf_state)

lemma wf_process_packet:
  assumes "passive_handler H" "session_wf s" "process_packet E fresh H q s buf = Ok (q', t)"
  shows "session_wf t"
proof (cases "enc_of s")
  case (Some enc)
  then have enc: "enc_wf enc" using assms(2) by (simp add: session_wf_def)
  have auth: "client_read_authenticated E H s buf = Ok t \<Longrightarrow> session_wf t"
    using client_handler.wf_client_read [OF passive_client [OF assms(1)] assms(2)] .
  show ?thesis
    using assms(3) Some enc auth assms(2) passiveD [OF assms(1)]
    by (cases "state enc")
      (auto simp: process_packet_def outcome_simps split: if_splits
        dest: wf_service_accept wf_auth_failure wf_auth_challenge wf_auth_success)
qed (use assms in \<open>simp add: process_packet_def\<close>)

lemma wf_client_event:
  assumes "passive_handler H" "client_event_step E K fresh H (q, s) e (q', t)" "session_wf s"
  shows "session_wf t"
proof (cases e)
  case (Cmd m)
  with assms(2,3) wf_write_auth [OF assms(3)] show ?thesis by (auto intro: wf_handle_msg)
next
  case (Packet p)
  with assms wf_process_packet [OF assms(1,3)] show ?thesis by simp
next
  case Turn
  with assms show ?thesis
    by (auto simp: finish_authentication_def wf_state intro!: wf_with_enc)
qed

interpretation client_sys:
  step_invariant "client_event_step E K fresh default_handler" "\<lambda>_. True" "\<lambda>(q, s). session_wf s" for E K fresh
  by unfold_locales (auto intro: wf_client_event [OF passive_default])

text \<open>
  C31: whatever the application commands and the server sends, in any order, the channels of the client
  stay filed under their own identifiers, and no data is queued on a channel before the server has
  confirmed it.
\<close>

theorem client_session_wf:
  assumes "run (client_event_step E K fresh default_handler)
      (q, Session_new target (CommonSession_encrypted com st nk now)) es (q', t)"
    and "enc_of t = Some enc" "channels enc i = Some c"
  shows "sender_channel c = i \<and> (\<not> confirmed c \<longrightarrow> pending_data c = [])"
proof -
  have "session_wf (Session_new target (CommonSession_encrypted com st nk now))"
    by (simp add: session_wf_def enc_wf_def enc_of_def Session_new_def CommonSession_encrypted_def)
  then have "session_wf t" using client_sys.run_inv [OF assms(1)] by (simp add: list_all_iff)
  then have "chan_wf i c" using assms(2,3) by (simp add: session_wf_def enc_wf_def)
  then show ?thesis by (auto simp: chan_wf_def)
qed

section \<open>Nothing before authentication\<close>

text \<open>A session that waits for its authentication, without a channel.\<close>

definition waiting :: "encrypted_state \<Rightarrow> bool" where
  "waiting st \<longleftrightarrow> (case st of InitCompression \<Rightarrow> False | Authenticated \<Rightarrow> False | _ \<Rightarrow> True)"

definition locked_session :: "('k, 'c, 'z, 'm) client_session \<Rightarrow> bool" where
  "locked_session s \<longleftrightarrow> (\<exists>enc. enc_of s = Some enc \<and> waiting (state enc) \<and> channels enc = Map.empty)"

definition success_packet :: "client_event \<Rightarrow> bool" where
  "success_packet e \<longleftrightarrow> (\<exists>r. e = Packet (USERAUTH_SUCCESS # r))"

lemma waiting_simps [simp]:
  "waiting (WaitingAuthServiceRequest a b)" "waiting (WaitingAuthRequest r)" "\<not> waiting InitCompression"
  "\<not> waiting Authenticated"
  by (simp_all add: waiting_def)

lemma locked_keep [simp]:
  "locked_session (emit os s) = locked_session s" "locked_session (set_enc enc s) \<longleftrightarrow> waiting (state enc) \<and> channels enc = Map.empty"
  "locked_session (s\<lparr>open_global_requests := g\<rparr>) = locked_session s"
  "encrypted_of c = encrypted_of (common s) \<Longrightarrow> locked_session (s\<lparr>common := c\<rparr>) = locked_session s"
  by (simp_all add: locked_session_def enc_of_def emit_def set_enc_def)

lemma locked_with_enc:
  assumes "locked_session s" "\<And>enc. waiting (state enc) \<Longrightarrow> channels enc = Map.empty \<Longrightarrow>
      waiting (state (f enc)) \<and> channels (f enc) = Map.empty"
  shows "locked_session (with_enc f s)"
  using assms by (auto simp: locked_session_def with_enc_def enc_of_def)

lemma locked_global:
  "locked_session s \<Longrightarrow> locked_session (global_request E kind p s)"
  "locked_session s \<Longrightarrow> locked_session (channel_request E i kind p s)"
  "locked_session s \<Longrightarrow> locked_session (await_reply r s)"
  by (auto simp: global_request_def channel_request_def await_reply_def split: option.split intro!: locked_with_enc)

lemma locked_lift:
  assumes "locked_session s" "lift_enc f s = Ok t"
    and "\<And>enc enc'. channels enc = Map.empty \<Longrightarrow> f enc = Ok enc' \<Longrightarrow> state enc' = state enc \<and> channels enc' = Map.empty"
  shows "locked_session t"
proof -
  obtain enc where e: "enc_of s = Some enc" "waiting (state enc)" "channels enc = Map.empty"
    using assms(1) by (auto simp: locked_session_def)
  with assms(2) obtain enc' where f: "f enc = Ok enc'" "t = set_enc enc' s"
    by (auto simp: lift_enc_def outcome_simps)
  from assms(3) [OF e(3) f(1)] e(2) f(2) show ?thesis by simp
qed

lemma locked_open:
  assumes "locked_session s"
  shows "open_ref (channel_open_generic E kind p s) ref \<noteq> Ok t"
proof -
  obtain enc where "enc_of s = Some enc" "state enc \<noteq> Authenticated"
    using assms by (metis locked_session_def waiting_simps(4))
  then show ?thesis by (simp add: open_ref_def channel_open_generic_def)
qed

lemma locked_write_auth:
  assumes "locked_session s" "write_auth E K user meth s = Ok t"
  shows "locked_session t"
proof -
  obtain enc where "enc_of s = Some enc" "waiting (state enc)" "channels enc = Map.empty"
    using assms(1) by (auto simp: locked_session_def)
  with assms show ?thesis
    by (cases "state enc") (auto simp: write_auth_def write_auth_request_if_needed_def write_auth_request_def
        outcome_simps Let_def)
qed

lemma locked_channel_msg:
  assumes "locked_session s" "handle_channel_msg E i m s = Ok t"
  shows "locked_session t"
proof -
  note defs = handle_channel_msg_def request_pty_def window_change_def request_x11_def set_env_def
    request_shell_def exec_def signal_def request_subsystem_def agent_forward_def
  note ops = Session_data_def Session_eof_def Session_extended_data_def Session_close_def
    Encrypted_data_def Encrypted_extended_data_def Encrypted_eof_def Encrypted_close_def Encrypted_byte_def
    has_pending_data_mut_def
  show ?thesis
    using assms locked_global(2) [OF assms(1)]
    by (cases m) (auto simp: defs ops Let_def elim!: locked_lift [OF assms(1)])
qed

lemma locked_handle_msg:
  assumes "locked_session s" "handle_msg E (write_auth E K) m s = Ok t"
  shows "locked_session t"
proof -
  note opens = channel_open_session_def channel_open_x11_def channel_open_direct_tcpip_def
    channel_open_direct_streamlocal_def channel_open_tun_def
  have d: "locked_session (Session_disconnect E reason descr lang s)" for reason descr lang
    using assms(1) by (auto simp: Session_disconnect_def CommonSession_disconnect_def locked_session_def enc_of_def
        Let_def)
  show ?thesis
    using assms(2) locked_open [OF assms(1)] locked_write_auth [OF assms(1)] locked_channel_msg [OF assms(1)] d assms(1)
    by (cases m) (auto simp: handle_msg_def opens tcpip_forward_def cancel_tcpip_forward_def locked_global)
qed

lemma locked_process_packet:
  assumes "passive_handler H" "locked_session s" "process_packet E fresh H q s p = Ok (q', t)"
    "\<not> success_packet (Packet p)"
  shows "locked_session t"
proof -
  obtain enc where e: "enc_of s = Some enc" "waiting (state enc)" "channels enc = Map.empty"
    using assms(2) by (auto simp: locked_session_def)
  have pk: "locked_session t" if "read_pk_ok E q s enc' = Ok (q', t)" "waiting (state enc')" "channels enc' = Map.empty"
    for enc'
  proof (cases "auth_method (common s)")
    case (Some meth)
    with that show ?thesis
      by (cases meth) (auto simp: read_pk_ok_def client_send_signature_def send_signed_def send_reply_def
          outcome_simps Let_def split_beta split: if_splits)
  qed (use that in \<open>auto simp: read_pk_ok_def Let_def\<close>)
  have info: "locked_session t" if "read_info_request E q s enc r = Ok (q', t)" for r
    using that e by (auto simp: read_info_request_def client_send_auth_response_def outcome_simps)
  have chal: "locked_session t" if "read_auth_challenge E q s enc req r = Ok (q', t)" for req r
    using that e info pk by (auto simp: read_auth_challenge_def split: option.splits current_request.splits)
  have banner: "call H cb s = Ok t \<Longrightarrow> locked_session t" for cb
    using passiveD [OF assms(1)] assms(2) by blast
  have p: "p \<noteq> [] \<Longrightarrow> hd p \<noteq> USERAUTH_SUCCESS" using assms(4) by (cases p) (auto simp: success_packet_def)
  show ?thesis
    using assms(2,3) e p chal banner
    by (cases "state enc") (auto simp: process_packet_def read_service_accept_def read_auth_failure_def
        write_auth_request_def send_reply_def outcome_simps Let_def split: if_splits option.splits)
qed

lemma locked_event:
  assumes "passive_handler H" "client_event_step E K fresh H (q, s) e (q', t)" "\<not> success_packet e" "locked_session s"
  shows "locked_session t"
proof (cases e)
  case Turn
  have "finish_authentication fresh s = with_enc (\<lambda>enc. enc) s"
    using assms(4) by (auto simp: finish_authentication_def with_enc_def locked_session_def)
  then show ?thesis using assms(2,4) Turn by (auto intro: locked_with_enc)
qed (use assms locked_handle_msg [OF assms(4)] locked_process_packet [OF assms(1,4)] in auto)

lemma passive_locked:
  "passive_handler H \<Longrightarrow>
   step_invariant (client_event_step E K fresh H) (\<lambda>e. \<not> success_packet e) (\<lambda>(q, s). locked_session s)"
  by unfold_locales (auto intro: locked_event)

text \<open>
  C8: an encrypted session that is not anonymous has no channel, and is not authenticated, before the
  server has sent USERAUTH\_SUCCESS: no command of the application and no other packet opens one.
\<close>

theorem no_channel_before_success:
  assumes "passive_handler H"
    and "run (client_event_step E K fresh H) (q, Session_new target
          (CommonSession_encrypted com (WaitingAuthServiceRequest False False) nk now)) es (q', t)"
    and "enc_of t = Some enc" "state enc = Authenticated \<or> channels enc i \<noteq> None"
  shows "\<exists>r. Packet (USERAUTH_SUCCESS # r) \<in> set es"
proof (rule ccontr)
  assume "\<not> ?thesis"
  then have no: "list_all (\<lambda>e. \<not> success_packet e) es"
    by (auto simp: list_all_iff success_packet_def)
  have "locked_session (Session_new target
      (CommonSession_encrypted com (WaitingAuthServiceRequest False False) nk now))"
    by (simp add: locked_session_def enc_of_def Session_new_def CommonSession_encrypted_def)
  then have "locked_session t"
    using step_invariant.run_inv [OF passive_locked [OF assms(1)] assms(2) no] by simp
  then show False using assms(3,4) by (auto simp: locked_session_def)
qed

section \<open>Authentication with a key\<close>

lemma publickey_run:
  assumes "ssh_encoding E" "handle_alive q"
    and "SealingKey_write E K (nk_cipher nk) service_request (write_buffer com) = Ok (c, wb)"
    and "add_self_signature key (extend_ssh_string E (nk_session_id nk) @ signed_request E user key) = Ok sg"
  shows "\<exists>t enc. run (client_event_step E K fresh H) (q, Session_new target
          (CommonSession_encrypted com (WaitingAuthServiceRequest False False) nk now))
        [Cmd (Authenticate user (Method_PublicKey key)),
         Packet (SERVICE_ACCEPT # extend_ssh_string E (bs ''ssh-userauth'')),
         Packet (USERAUTH_PK_OK # r), Packet [USERAUTH_SUCCESS], Turn] (q, t)
    \<and> enc_of t = Some enc \<and> state enc = Authenticated \<and> outbox t = [ToHandle AuthSuccess]
    \<and> write_buffer (common t) = wb
    \<and> write enc = framed E [auth_prefix E user (bs ''publickey'') @ 0 # extend_ssh_string E (key_name key) @ key_blob key,
                           signed_request E user key @ sg]"
proof -
  have "length (bs ''ssh-userauth'') < 2 ^ 32" by (simp add: bs_def)
  from ssh_encoding.read_ssh_string [OF assms(1) this, of "[]"]
  have svc: "read_string E (extend_ssh_string E (bs ''ssh-userauth'')) = Some (bs ''ssh-userauth'', [])" by simp
  show ?thesis
    using assms(2-4) svc
    by (simp add: Session_new_def CommonSession_encrypted_def handle_msg_def write_auth_def
        write_auth_request_if_needed_def enc_of_def Let_def set_enc_def process_packet_def
        read_service_accept_def write_auth_request_def initial_auth_request_def auth_body_def probe_def
        read_auth_challenge_def read_pk_ok_def client_send_signature_def send_signed_def client_make_to_sign_def
        read_auth_success_def send_reply_def emit_def finish_authentication_def with_enc_def
        push_packet_framed framed_append [symmetric])
qed

section \<open>A concrete session\<close>

definition demo_keys :: "(unit, unit) new_keys" where
  "demo_keys = \<lparr>nk_exchange = Exchange_new, nk_names = \<lparr>names_kex = CURVE25519, names_key = ''ssh-ed25519'',
     names_cipher = ''clear'', client_mac = mac_NONE, server_mac = mac_NONE, server_compression = Compression_None,
     client_compression = Compression_None, ignore_guessed = False, strict_kex = True\<rparr>, nk_kex = (), nk_key = 0,
     nk_cipher = (), nk_session_id = [1, 2, 3], nk_sent = True\<rparr>"

definition demo_common :: "(client_config, unit, unit, unit, auth_scheme) common_session" where
  "demo_common = \<lparr>auth_user = [], remote_sshid = [], config = demo_client_config, encrypted_of = None,
     auth_method = None, auth_attempts = 0, write_buffer = SSHBuffer_new, kex_of = None, cipher = (),
     common_wants_reply = False, disconnected = False, common_buffer = [], common_strict_kex = False,
     alive_timeouts = 0, received_data = False\<rparr>"

definition demo_key :: key_pair where
  "demo_key = \<lparr>key_name = bs ''ssh-ed25519'', key_blob = [9], add_self_signature = (\<lambda>_. Ok [7])\<rparr>"

definition demo_queues :: "auth_scheme queues" where
  "demo_queues = \<lparr>handle_alive = True, commands = []\<rparr>"

definition demo_start :: "encrypted_state \<Rightarrow> (unit, unit, unit, auth_scheme) client_session" where
  "demo_start st = Session_new 100 (CommonSession_encrypted demo_common st demo_keys 0)"

definition demo_events :: "client_event list" where
  "demo_events = [Cmd (Authenticate (bs ''joe'') (Method_PublicKey demo_key)),
     Packet (SERVICE_ACCEPT # extend_ssh_string rfc4251 (bs ''ssh-userauth'')),
     Packet [USERAUTH_PK_OK], Packet [USERAUTH_SUCCESS], Turn]"

lemma demo_sealed:
  "\<exists>c wb. SealingKey_write rfc4251 clear_sealing (nk_cipher demo_keys) service_request (write_buffer demo_common) =
     Ok (c, wb)"
  by (simp add: SealingKey_write_def clear_sealing_def clear_padding_length_def service_request_def bs_def Let_def)

lemma demo_run:
  "\<exists>t enc. run (client_event_step rfc4251 clear_sealing (\<lambda>_. ()) default_handler)
     (demo_queues, demo_start (WaitingAuthServiceRequest False False)) demo_events (demo_queues, t)
     \<and> enc_of t = Some enc \<and> state enc = Authenticated"
proof -
  obtain c wb where "SealingKey_write rfc4251 clear_sealing (nk_cipher demo_keys) service_request
      (write_buffer demo_common) = Ok (c, wb)" using demo_sealed by blast
  from publickey_run [OF rfc.ssh_encoding_axioms _ this, of demo_queues demo_key "bs ''joe''" "[7]"
      "\<lambda>_. ()" default_handler 100 0 "[]"]
  show ?thesis by (simp add: demo_queues_def demo_key_def demo_events_def demo_start_def del: run_Cons) blast
qed

text \<open>
  authentication with a key, from the fresh session to the authenticated one. The service is
  requested once, the key is offered, and after the server has accepted the offer the client sends the
  same request with its signature over the session identifier and that request; the application is
  told the success.
\<close>

theorem publickey_authenticates:
  assumes "ssh_encoding E" "handle_alive q"
    and "SealingKey_write E K (nk_cipher nk) service_request (write_buffer com) = Ok (c, wb)"
    and "add_self_signature key (extend_ssh_string E (nk_session_id nk) @ signed_request E user key) = Ok sg"
  shows "\<exists>t enc. run (client_event_step E K fresh H) (q, Session_new target
          (CommonSession_encrypted com (WaitingAuthServiceRequest False False) nk now))
        [Cmd (Authenticate user (Method_PublicKey key)),
         Packet (SERVICE_ACCEPT # extend_ssh_string E (bs ''ssh-userauth'')),
         Packet (USERAUTH_PK_OK # r), Packet [USERAUTH_SUCCESS], Turn] (q, t)
    \<and> enc_of t = Some enc \<and> state enc = Authenticated \<and> outbox t = [ToHandle AuthSuccess]
    \<and> write_buffer (common t) = wb
    \<and> write enc = framed E [auth_prefix E user (bs ''publickey'') @ 0 # extend_ssh_string E (key_name key) @ key_blob key,
                           signed_request E user key @ sg]"
  using assms by (rule publickey_run)

theorem publickey_authenticates_witness:
  "\<exists>t enc. run (client_event_step rfc4251 clear_sealing (\<lambda>_. ()) default_handler)
     (demo_queues, demo_start (WaitingAuthServiceRequest False False)) demo_events (demo_queues, t)
     \<and> enc_of t = Some enc \<and> state enc = Authenticated"
proof -
  obtain c wb where "SealingKey_write rfc4251 clear_sealing (nk_cipher demo_keys) service_request
      (write_buffer demo_common) = Ok (c, wb)" using demo_sealed by blast
  from publickey_authenticates [OF rfc.ssh_encoding_axioms _ this, of demo_queues demo_key "bs ''joe''" "[7]"
      "\<lambda>_. ()" default_handler 100 0 "[]"]
  show ?thesis by (simp add: demo_queues_def demo_key_def demo_events_def demo_start_def del: run_Cons) blast
qed

theorem no_channel_before_success_witness:
  "\<exists>t. run (client_event_step rfc4251 clear_sealing (\<lambda>_. ()) default_handler)
     (demo_queues, demo_start (WaitingAuthServiceRequest False False)) demo_events (demo_queues, t)
     \<and> (\<exists>r. Packet (USERAUTH_SUCCESS # r) \<in> set demo_events)"
proof -
  obtain t enc where t: "run (client_event_step rfc4251 clear_sealing (\<lambda>_. ()) default_handler)
     (demo_queues, demo_start (WaitingAuthServiceRequest False False)) demo_events (demo_queues, t)"
     "enc_of t = Some enc" "state enc = Authenticated" using demo_run by blast
  from no_channel_before_success [OF passive_default t(1) [unfolded demo_start_def] t(2) disjI1 [OF t(3)]] t(1)
  show ?thesis by blast
qed

theorem client_session_wf_witness:
  "\<exists>t enc c. run (client_event_step rfc4251 clear_sealing (\<lambda>_. ()) default_handler)
     (demo_queues, demo_start Authenticated) [Cmd (ChannelOpenSession 0)] (demo_queues, t)
     \<and> enc_of t = Some enc \<and> channels enc 2 = Some c \<and> sender_channel c = 2"
proof -
  have "next_free_id Map.empty 2 = Some 2" by (subst next_free_id.simps) simp
  then obtain t enc c where t: "run (client_event_step rfc4251 clear_sealing (\<lambda>_. ()) default_handler)
     (demo_queues, demo_start Authenticated) [Cmd (ChannelOpenSession 0)] (demo_queues, t)"
     "enc_of t = Some enc" "channels enc 2 = Some c"
    by (simp add: demo_start_def Session_new_def CommonSession_encrypted_def handle_msg_def open_ref_def
        channel_open_session_def channel_open_generic_def enc_of_def Encrypted_new_channel_def Let_def set_enc_def)
  from client_session_wf [OF t(1) [unfolded demo_start_def] t(2,3)] t show ?thesis by blast
qed

section \<open>What goes wrong\<close>

text \<open>
  While the session waits for a signature it drops every other command: when the agent fails, the
  next attempt to authenticate is swallowed and the session never returns to its loop.
\<close>

theorem failed_signer_blocks:
  assumes "enc_of s = Some enc" "state enc = WaitingAuthRequest req" "current req = None"
    "auth_method (common s) = Some (Method_FuturePublicKey key)" "handle_alive q"
    "commands q = map (\<lambda>(user, meth). Authenticate user meth) attempts"
  shows "process_packet E fresh H q s (USERAUTH_PK_OK # r) = Diverge"
proof -
  have "await signed_data (map (\<lambda>(user, meth). Authenticate user meth) attempts) = Diverge"
    by (induction attempts) (auto simp: split_beta)
  then show ?thesis
    using assms by (simp add: process_packet_def read_auth_challenge_def read_pk_ok_def send_reply_def
        client_make_to_sign_def Let_def)
qed

theorem failed_signer_blocks_witness:
  "process_packet rfc4251 (\<lambda>_. ()) default_handler
     (demo_queues\<lparr>commands := [Authenticate (bs ''joe'') (Method_PublicKey demo_key)]\<rparr>)
     ((demo_start (WaitingAuthRequest (initial_auth_request Method_None)))\<lparr>common :=
        (common (demo_start (WaitingAuthRequest (initial_auth_request Method_None))))\<lparr>auth_method :=
          Some (Method_FuturePublicKey \<lparr>key_name = [], key_blob = []\<rparr>)\<rparr>\<rparr>) [USERAUTH_PK_OK] = Diverge"
  by (rule failed_signer_blocks [where attempts = "[(bs ''joe'', Method_PublicKey demo_key)]"
        and req = "initial_auth_request Method_None" and key = "\<lparr>key_name = [], key_blob = []\<rparr>"
        and enc = "the (enc_of (demo_start (WaitingAuthRequest (initial_auth_request Method_None))))"])
    (simp_all add: demo_start_def demo_queues_def enc_of_def Session_new_def CommonSession_encrypted_def
      initial_auth_request_def)

text \<open>
  The kind of the current request is recorded once, when the service is accepted. After a rejected
  keyboard-interactive attempt an acceptance of a key is read as a list of prompts, and the
  authentication ends with a read error.
\<close>

theorem stale_request_misreads_pk_ok:
  assumes "enc_of s = Some enc" "state enc = WaitingAuthRequest req"
    "current req = Some (CurrentKeyboardInteractive sub)" "auth_method (common s) = Some (Method_PublicKey key)"
    "read_string E r = Some (algo, r1)" "read_string E r1 = Some (blob, [])" "read_string E [] = None"
  shows "process_packet E fresh H q s (USERAUTH_PK_OK # r) = Err Keys"
  using assms by (simp add: process_packet_def read_auth_challenge_def read_info_request_def Let_def)

end
