(* ===== verification/Client_Handle.thy ===== *)
theory Client_Handle
  imports Client_Auth
begin

text \<open>
  The client's \<open>Handle\<close> (\<open>client/mod.rs\<close>): the calls of an application, each of which sends a command to the session and waits for
  what comes back. A queue is the list of what the session puts into it before it ends; whether the session still takes
  commands is an argument. A call gives the commands it has sent and its result.
\<close>

section \<open>Waiting\<close>

fun wait_recv_reply :: "reply list \<Rightarrow> bool" where
  "wait_recv_reply [] = False"
| "wait_recv_reply (AuthSuccess # _) = True"
| "wait_recv_reply (AuthFailure # _) = False"
| "wait_recv_reply (_ # rs) = wait_recv_reply rs"

datatype ki_response = KiSuccess | KiFailure | KiInfoRequest bytes bytes "(bytes \<times> bool) list"

text \<open>A loop without a branch for the end of the queue, at which it receives nothing again and again.\<close>

partial_function (option) ki_loop :: "reply list \<Rightarrow> ki_response option" where
  "ki_loop rs =
    (case rs of
       AuthSuccess # _ \<Rightarrow> Some KiSuccess
     | AuthFailure # _ \<Rightarrow> Some KiFailure
     | AuthInfoRequest nm instructions prompts # _ \<Rightarrow> Some (KiInfoRequest nm instructions prompts)
     | _ # rs' \<Rightarrow> ki_loop rs'
     | [] \<Rightarrow> ki_loop [])"

definition wait_recv_keyboard_interactive_reply :: "reply list \<Rightarrow> (error, ki_response) outcome" where
  "wait_recv_keyboard_interactive_reply rs = (case ki_loop rs of Some r \<Rightarrow> Ok r | None \<Rightarrow> Diverge)"

fun wait_channel_confirmation :: "channel_msg list \<Rightarrow> (error, channel_id \<times> u32 \<times> u32) outcome" where
  "wait_channel_confirmation [] = Err Disconnect"
| "wait_channel_confirmation (Open i max_packet window # _) = Ok (i, max_packet, window)"
| "wait_channel_confirmation (OpenFailure reason # _) = Err (ChannelOpenFailure reason)"
| "wait_channel_confirmation (_ # ms) = wait_channel_confirmation ms"

section \<open>Authentication\<close>

definition Handle_send :: "bool \<Rightarrow> 'm msg \<Rightarrow> (error, 'a) outcome \<Rightarrow> 'm msg list \<times> (error, 'a) outcome" where
  "Handle_send alive m r = (if alive then ([m], r) else ([], Err SendError))"

definition authenticate_none where
  "authenticate_none alive user rs = Handle_send alive (Authenticate user Method_None) (Ok (wait_recv_reply rs))"

definition authenticate_password where
  "authenticate_password alive user password rs =
     Handle_send alive (Authenticate user (Method_Password password)) (Ok (wait_recv_reply rs))"

definition authenticate_publickey where
  "authenticate_publickey alive user key rs =
     Handle_send alive (Authenticate user (Method_PublicKey key)) (Ok (wait_recv_reply rs))"

definition authenticate_openssh_cert where
  "authenticate_openssh_cert alive user key cert rs =
     Handle_send alive (Authenticate user (Method_OpenSSHCertificate key cert)) (Ok (wait_recv_reply rs))"

definition authenticate_keyboard_interactive_start where
  "authenticate_keyboard_interactive_start alive user submethods rs =
     Handle_send alive (Authenticate user (Method_KeyboardInteractive (case submethods of Some s \<Rightarrow> s | None \<Rightarrow> [])))
       (wait_recv_keyboard_interactive_reply rs)"

definition authenticate_keyboard_interactive_respond where
  "authenticate_keyboard_interactive_respond alive responses rs =
     Handle_send alive (AuthInfoResponse responses) (wait_recv_keyboard_interactive_reply rs)"

text \<open>Authentication with a signer: \<open>alive n\<close> tells whether the session takes the \<open>n\<close>-th command.\<close>

fun future_loop ::
  "(nat \<Rightarrow> bool) \<Rightarrow> (bytes \<Rightarrow> bytes \<Rightarrow> (error, bytes) outcome) \<Rightarrow> nat \<Rightarrow> reply list \<Rightarrow> 'm msg list \<times> (error, bool) outcome" where
  "future_loop alive signer n [] = ([], Ok False)"
| "future_loop alive signer n (AuthSuccess # _) = ([], Ok True)"
| "future_loop alive signer n (AuthFailure # _) = ([], Ok False)"
| "future_loop alive signer n (SignRequest key d # rs) =
    (case signer key d of
       Ok signature \<Rightarrow>
         if alive n then (let (sent, r) = future_loop alive signer (Suc n) rs in (Signed signature # sent, r)) else ([], Err SendError)
     | Err e \<Rightarrow> ([], Err e)
     | Panic \<Rightarrow> ([], Panic)
     | Diverge \<Rightarrow> ([], Diverge))"
| "future_loop alive signer n (_ # rs) = future_loop alive signer n rs"

definition authenticate_future where
  "authenticate_future alive user key signer rs =
    (if alive 0 then (let (sent, r) = future_loop alive signer 1 rs in (Authenticate user (Method_FuturePublicKey key) # sent, r))
     else ([], Err SendError))"

section \<open>Channels and forwarding\<close>

definition Handle_channel_open_session where
  "Handle_channel_open_session alive ref ms = Handle_send alive (ChannelOpenSession ref) (wait_channel_confirmation ms)"

definition Handle_channel_open_x11 where
  "Handle_channel_open_x11 alive addr port ref ms = Handle_send alive (ChannelOpenX11 addr port ref) (wait_channel_confirmation ms)"

definition Handle_channel_open_direct_tcpip where
  "Handle_channel_open_direct_tcpip alive d ref ms = Handle_send alive (ChannelOpenDirectTcpIp d ref) (wait_channel_confirmation ms)"

definition Handle_channel_open_direct_streamlocal where
  "Handle_channel_open_direct_streamlocal alive socket_path ref ms =
     Handle_send alive (ChannelOpenDirectStreamLocal socket_path ref) (wait_channel_confirmation ms)"

definition Handle_channel_open_tun where
  "Handle_channel_open_tun alive mode tunnel_num ref ms = Handle_send alive (ChannelOpenTun mode tunnel_num ref) (wait_channel_confirmation ms)"

text \<open>The answer of a one-shot channel is missing when the session drops it.\<close>

definition Handle_tcpip_forward where
  "Handle_tcpip_forward alive w address port answer =
     Handle_send alive (MsgTcpIpForward (Some w) address port)
       (case answer of Some (Some p) \<Rightarrow> Ok p | Some None \<Rightarrow> Err RequestDenied | None \<Rightarrow> Err Disconnect)"

definition Handle_cancel_tcpip_forward where
  "Handle_cancel_tcpip_forward alive w address port answer =
     Handle_send alive (MsgCancelTcpIpForward (Some w) address port)
       (case answer of Some True \<Rightarrow> Ok () | Some False \<Rightarrow> Err RequestDenied | None \<Rightarrow> Err Disconnect)"

definition Handle_disconnect where
  "Handle_disconnect alive reason description language_tag = Handle_send alive (MsgDisconnect reason description language_tag) (Ok ())"

text \<open>\<open>data\<close> gives the data back when the session has ended.\<close>

definition Handle_data :: "bool \<Rightarrow> channel_id \<Rightarrow> bytes \<Rightarrow> 'm msg list \<times> bytes option" where
  "Handle_data alive i d = (if alive then ([Channel i (Data d)], None) else ([], Some d))"

section \<open>The replies of a session\<close>

definition replies_of :: "session_out list \<Rightarrow> reply list" where
  "replies_of os = concat (map (\<lambda>out. case out of ToHandle r \<Rightarrow> [r] | _ \<Rightarrow> []) os)"

lemma ki_loop_Cons [simp]:
  "ki_loop (AuthSuccess # rs) = Some KiSuccess" "ki_loop (AuthFailure # rs) = Some KiFailure"
  "ki_loop (AuthInfoRequest a b c # rs) = Some (KiInfoRequest a b c)"
  "ki_loop (ReplyChannelOpenFailure # rs) = ki_loop rs" "ki_loop (SignRequest k d # rs) = ki_loop rs"
  by (subst ki_loop.simps; simp)+

lemma ki_loop_Nil: "ki_loop [] = None"
proof -
  have "ki_loop rs = Some z \<Longrightarrow> rs \<noteq> []" for rs z
    by (rule ki_loop.raw_induct [of "\<lambda>rs _. rs \<noteq> []"]) (auto split: list.split_asm reply.split_asm)
  then show ?thesis by (cases "ki_loop []") auto
qed

definition answers :: "reply \<Rightarrow> bool" where
  "answers r \<longleftrightarrow> (case r of ReplyChannelOpenFailure \<Rightarrow> False | SignRequest _ _ \<Rightarrow> False | _ \<Rightarrow> True)"

lemma ki_loop_iff: "(\<exists>r. ki_loop rs = Some r) \<longleftrightarrow> list_ex answers rs"
proof (induction rs)
  case (Cons r rs)
  then show ?case by (cases r) (simp_all add: answers_def)
qed (simp add: ki_loop_Nil)

lemma wait_recv_reply_iff:
  "wait_recv_reply rs \<longleftrightarrow> (\<exists>pre post. rs = pre @ AuthSuccess # post \<and> AuthFailure \<notin> set pre)"
proof (induction rs)
  case (Cons r rs)
  have "(\<exists>pre post. r # rs = pre @ AuthSuccess # post \<and> AuthFailure \<notin> set pre) \<longleftrightarrow>
      r = AuthSuccess \<or> r \<noteq> AuthFailure \<and> (\<exists>pre post. rs = pre @ AuthSuccess # post \<and> AuthFailure \<notin> set pre)"
    (is "?L \<longleftrightarrow> ?R")
  proof
    assume ?L
    then show ?R by (auto simp: Cons_eq_append_conv)
  next
    assume ?R
    then show ?L
    proof (elim disjE conjE exE)
      show "r = AuthSuccess \<Longrightarrow> ?L" by (rule exI [of _ "[]"], rule exI [of _ rs]) simp
      show "?L" if "r \<noteq> AuthFailure" "rs = pre @ AuthSuccess # post" "AuthFailure \<notin> set pre" for pre post
        using that by (intro exI [of _ "r # pre"] exI [of _ post]) simp
    qed
  qed
  with Cons show ?case by (cases r) simp_all
qed simp

section \<open>Properties\<close>

text \<open>
  The call that authenticates with a key succeeds when the session succeeds: it sends the command to the
  session, the run of the session against a server that accepts the key answers it, and the call returns true; without the session it is an
  error.
\<close>

theorem handle_publickey_succeeds:
  assumes "ssh_encoding E" "handle_alive q"
    and "SealingKey_write E K (nk_cipher nk) service_request (write_buffer com) = Ok (c, wb)"
    and "add_self_signature key (extend_ssh_string E (nk_session_id nk) @ signed_request E user key) = Ok sg"
  shows "\<exists>m t. authenticate_publickey True user key (replies_of (outbox t)) = ([m], Ok True)
    \<and> run (client_event_step E K fresh H) (q, Session_new target (CommonSession_encrypted com (WaitingAuthServiceRequest False False) nk start))
        [Cmd m, Packet (SERVICE_ACCEPT # extend_ssh_string E (bs ''ssh-userauth'')), Packet (USERAUTH_PK_OK # r), Packet [USERAUTH_SUCCESS], Turn] (q, t)
    \<and> authenticate_publickey False user key rs = ([], Err SendError)"
proof -
  obtain t enc where t: "run (client_event_step E K fresh H) (q, Session_new target (CommonSession_encrypted com (WaitingAuthServiceRequest False False) nk start))
      [Cmd (Authenticate user (Method_PublicKey key)), Packet (SERVICE_ACCEPT # extend_ssh_string E (bs ''ssh-userauth'')),
       Packet (USERAUTH_PK_OK # r), Packet [USERAUTH_SUCCESS], Turn] (q, t)" "outbox t = [ToHandle AuthSuccess]"
    using publickey_run [OF assms, where fresh = fresh and H = H and target = target and now = start and r = r] by blast
  then have "authenticate_publickey True user key (replies_of (outbox t)) = ([Authenticate user (Method_PublicKey key)], Ok True)"
    by (simp add: authenticate_publickey_def Handle_send_def replies_of_def)
  with t(1) show ?thesis by (auto simp: authenticate_publickey_def Handle_send_def simp del: run_Cons)
qed

theorem handle_publickey_succeeds_witness:
  "\<exists>m t. authenticate_publickey True (bs ''joe'') demo_key (replies_of (outbox t)) = ([m], Ok True)
    \<and> run (client_event_step rfc4251 clear_sealing (\<lambda>_. ()) default_handler) (demo_queues, demo_start (WaitingAuthServiceRequest False False))
        [Cmd m, Packet (SERVICE_ACCEPT # extend_ssh_string rfc4251 (bs ''ssh-userauth'')), Packet [USERAUTH_PK_OK], Packet [USERAUTH_SUCCESS], Turn]
        (demo_queues, t)"
proof -
  obtain c wb where "SealingKey_write rfc4251 clear_sealing (nk_cipher demo_keys) service_request
      (write_buffer demo_common) = Ok (c, wb)" using demo_sealed by blast
  from handle_publickey_succeeds [OF rfc.ssh_encoding_axioms _ this, of demo_queues demo_key "bs ''joe''" "[7]" "\<lambda>_. ()" default_handler 100 0 "[]"]
  show ?thesis by (simp add: demo_queues_def demo_key_def demo_start_def del: run_Cons) blast
qed

text \<open>
  A call that waits for the answer to a password or a key always returns, with true exactly when a success
  comes before a failure. The call that waits for a keyboard-interactive answer has no branch for the end of the session:
  it returns if and only if an answer comes, and spins for ever when the session ends first.
\<close>

theorem keyboard_interactive_spins:
  "(wait_recv_reply rs \<longleftrightarrow> (\<exists>pre post. rs = pre @ AuthSuccess # post \<and> AuthFailure \<notin> set pre))
   \<and> (wait_recv_keyboard_interactive_reply rs = Diverge \<longleftrightarrow> \<not> list_ex answers rs)"
proof
  show "wait_recv_reply rs \<longleftrightarrow> (\<exists>pre post. rs = pre @ AuthSuccess # post \<and> AuthFailure \<notin> set pre)" by (rule wait_recv_reply_iff)
  show "wait_recv_keyboard_interactive_reply rs = Diverge \<longleftrightarrow> \<not> list_ex answers rs"
    unfolding ki_loop_iff [symmetric] by (cases "ki_loop rs") (simp_all add: wait_recv_keyboard_interactive_reply_def)
qed

end
