(* ===== verification/Connection.thy ===== *)
theory Connection
  imports Tunnels Client_Handle
begin

text \<open>
  Connecting and watching the link: \<^verbatim>\<open>src/src/ssh.rs\<close> (authentication, the TCP connection
  with its mark, the chain of jump hosts) and \<^verbatim>\<open>src/src/monitor.rs\<close>. What the network, the agent
  and the SSH server answer are arguments; the actions that a function performs are recorded in
  the order in which it performs them.
\<close>

section \<open>Calls on a handle\<close>

text \<open>
  A handle sends commands to its session and receives replies. What comes of it, in order: whether each command is taken, each
  reply, \<open>None\<close> once the session has ended, and each answer of the agent to a request for a signature, \<open>None\<close> for an error. A call for which
  the next of these is missing waits for it: the session neither takes the command nor answers nor ends. The log has what the call did and heard.
\<close>

datatype handle_event = Command "auth_scheme msg" | NotTaken "auth_scheme msg" | Heard reply | HeardEnd | SignFailed

record handle_io =
  io_sends :: "bool list"
  io_replies :: "reply option list"
  io_signs :: "bytes option list"
  io_log :: "handle_event list"

datatype awaited = AwaitSend | AwaitReply | AwaitSign

datatype 'a call = Returned 'a handle_io | Waits awaited handle_io

definition io_send :: "auth_scheme msg \<Rightarrow> handle_io \<Rightarrow> bool call" where
  "io_send m io =
    (case io_sends io of
       [] \<Rightarrow> Waits AwaitSend io
     | taken # ss \<Rightarrow> Returned taken (io\<lparr>io_sends := ss, io_log := io_log io @ [if taken then Command m else NotTaken m]\<rparr>))"

definition io_recv :: "handle_io \<Rightarrow> reply option call" where
  "io_recv io =
    (case io_replies io of
       [] \<Rightarrow> Waits AwaitReply io
     | r # rs \<Rightarrow> Returned r (io\<lparr>io_replies := rs, io_log := io_log io @ [case r of Some x \<Rightarrow> Heard x | None \<Rightarrow> HeardEnd]\<rparr>))"

definition io_sign :: "handle_io \<Rightarrow> bytes option call" where
  "io_sign io =
    (case io_signs io of
       [] \<Rightarrow> Waits AwaitSign io
     | d # ds \<Rightarrow> Returned d (io\<lparr>io_signs := ds, io_log := io_log io @ (if d = None then [SignFailed] else [])\<rparr>))"

lemma io_recv_shorter: "io_recv io = Returned r io1 \<Longrightarrow> length (io_replies io1) < length (io_replies io)"
  by (auto simp: io_recv_def split: list.split_asm)

lemma io_keep:
  "io_send m io = Returned b io1 \<Longrightarrow> io_replies io1 = io_replies io" "io_sign io = Returned d io1 \<Longrightarrow> io_replies io1 = io_replies io"
  by (auto simp: io_send_def io_sign_def split: list.split_asm)

text \<open>\<open>wait_recv_reply\<close>, and the loop of \<open>authenticate_future\<close>.\<close>

function io_wait_reply :: "handle_io \<Rightarrow> (error, bool) outcome call" where
  "io_wait_reply io =
    (case io_recv io of
       Waits w io1 \<Rightarrow> Waits w io1
     | Returned r io1 \<Rightarrow>
         (case r of
            Some AuthSuccess \<Rightarrow> Returned (Ok True) io1
          | Some AuthFailure \<Rightarrow> Returned (Ok False) io1
          | None \<Rightarrow> Returned (Ok False) io1
          | _ \<Rightarrow> io_wait_reply io1))"
  by pat_completeness auto
termination by (relation "measure (length \<circ> io_replies)") (auto dest: io_recv_shorter)

function io_future_loop :: "handle_io \<Rightarrow> (error, bool) outcome call" where
  "io_future_loop io =
    (case io_recv io of
       Waits w io1 \<Rightarrow> Waits w io1
     | Returned r io1 \<Rightarrow>
         (case r of
            Some AuthSuccess \<Rightarrow> Returned (Ok True) io1
          | Some AuthFailure \<Rightarrow> Returned (Ok False) io1
          | Some (SignRequest key d) \<Rightarrow>
              (case io_sign io1 of
                 Waits w io2 \<Rightarrow> Waits w io2
               | Returned None io2 \<Rightarrow> Returned (Err Keys) io2
               | Returned (Some signature) io2 \<Rightarrow>
                   (case io_send (Signed signature) io2 of
                      Waits w io3 \<Rightarrow> Waits w io3
                    | Returned taken io3 \<Rightarrow> if taken then io_future_loop io3 else Returned (Err SendError) io3))
          | None \<Rightarrow> Returned (Ok False) io1
          | _ \<Rightarrow> io_future_loop io1))"
  by pat_completeness auto
termination by (relation "measure (length \<circ> io_replies)") (auto dest!: io_recv_shorter io_keep)

declare io_wait_reply.simps [simp del] io_future_loop.simps [simp del]

definition io_publickey :: "bytes \<Rightarrow> key_pair \<Rightarrow> handle_io \<Rightarrow> (error, bool) outcome call" where
  "io_publickey user key io =
    (case io_send (Authenticate user (Method_PublicKey key)) io of
       Waits w io1 \<Rightarrow> Waits w io1
     | Returned taken io1 \<Rightarrow> if taken then io_wait_reply io1 else Returned (Err SendError) io1)"

definition io_future :: "bytes \<Rightarrow> public_key \<Rightarrow> handle_io \<Rightarrow> (error, bool) outcome call" where
  "io_future user key io =
    (case io_send (Authenticate user (Method_FuturePublicKey key)) io of
       Waits w io1 \<Rightarrow> Waits w io1
     | Returned taken io1 \<Rightarrow> if taken then io_future_loop io1 else Returned (Err SendError) io1)"

section \<open>Authentication\<close>

text \<open>
  Around authentication: which key files exist, what loading one gives, and the identities of the agent, \<open>None\<close> without a
  usable agent.
\<close>

record auth_env =
  key_exists :: "string \<Rightarrow> bool"
  load_secret_key :: "string \<Rightarrow> key_pair option"
  agent_identities :: "public_key list option"

datatype auth_used = KeyFile string | AgentKey public_key

fun try_keys :: "auth_env \<Rightarrow> bytes \<Rightarrow> string list \<Rightarrow> handle_io \<Rightarrow> auth_used option call" where
  "try_keys A user [] io = Returned None io"
| "try_keys A user (key_path # ks) io =
    (if \<not> key_exists A key_path then try_keys A user ks io
     else
       (case load_secret_key A key_path of
          None \<Rightarrow> try_keys A user ks io
        | Some key \<Rightarrow>
            (case io_publickey user key io of
               Waits w io1 \<Rightarrow> Waits w io1
             | Returned r io1 \<Rightarrow> if r = Ok True then Returned (Some (KeyFile key_path)) io1 else try_keys A user ks io1)))"

fun try_agent :: "bytes \<Rightarrow> public_key list \<Rightarrow> handle_io \<Rightarrow> auth_used option call" where
  "try_agent user [] io = Returned None io"
| "try_agent user (identity # ids) io =
    (case io_future user identity io of
       Waits w io1 \<Rightarrow> Waits w io1
     | Returned r io1 \<Rightarrow> if r = Ok True then Returned (Some (AgentKey identity)) io1 else try_agent user ids io1)"

definition authenticate_handle :: "auth_env \<Rightarrow> bytes \<Rightarrow> string list \<Rightarrow> handle_io \<Rightarrow> (string, auth_used) outcome call" where
  "authenticate_handle A user identity_files io =
    (case try_keys A user identity_files io of
       Waits w io1 \<Rightarrow> Waits w io1
     | Returned (Some k) io1 \<Rightarrow> Returned (Ok k) io1
     | Returned None io1 \<Rightarrow>
         (case (case agent_identities A of Some ids \<Rightarrow> try_agent user ids io1 | None \<Rightarrow> Returned None io1) of
            Waits w io2 \<Rightarrow> Waits w io2
          | Returned (Some k) io2 \<Rightarrow> Returned (Ok k) io2
          | Returned None io2 \<Rightarrow> Returned (Err ''Failed to authenticate SSH user'') io2))"

section \<open>The TCP connection\<close>

datatype tcp_action = CreateSocket string | SetMark string u32 | ConnectTo string

record tcp_env =
  lookup_host :: "string \<Rightarrow> u16 \<Rightarrow> string list option"
  socket_ok :: "string \<Rightarrow> bool"
  set_mark_ok :: "string \<Rightarrow> bool"
  connect_ok :: "string \<Rightarrow> bool"

text \<open>The loop over the addresses; \<open>last_err\<close> tells whether a connection attempt failed before.\<close>

fun connect_loop ::
  "tcp_env \<Rightarrow> u32 option \<Rightarrow> string list \<Rightarrow> string option \<Rightarrow> (string, string) outcome \<times> tcp_action list" where
  "connect_loop N mark_opt [] last_err =
     (case last_err of
        Some e \<Rightarrow> (Err e, []) | None \<Rightarrow> (Err ''Could not resolve or connect'', []))"
| "connect_loop N mark_opt (addr # addrs) last_err =
    (if \<not> socket_ok N addr then (Err ''Failed to create TCP socket'', [CreateSocket addr])
     else
       (let marked = (case mark_opt of Some mark \<Rightarrow> [SetMark addr mark] | None \<Rightarrow> [])
        in if mark_opt \<noteq> None \<and> \<not> set_mark_ok N addr
           then (Err ''Failed to set SO_MARK'', CreateSocket addr # marked)
           else if connect_ok N addr
           then (Ok addr, CreateSocket addr # marked @ [ConnectTo addr])
           else (case connect_loop N mark_opt addrs (Some (''Failed to connect to '' @ addr)) of
                   (res, acts) \<Rightarrow> (res, CreateSocket addr # marked @ [ConnectTo addr] @ acts))))"

definition connect_tcp ::
  "tcp_env \<Rightarrow> string \<Rightarrow> u16 \<Rightarrow> u32 option \<Rightarrow> (string, string) outcome \<times> tcp_action list" where
  "connect_tcp N host port_no mark_opt =
    (case lookup_host N host port_no of
       None \<Rightarrow> (Err ''Failed to resolve'', [])
     | Some addrs \<Rightarrow> connect_loop N mark_opt addrs None)"

section \<open>The chain of jump hosts\<close>

text \<open>
  What a session runs over: a TCP connection to a host with a mark, or a direct-tcpip channel of another session to a host, with the
  originator that is announced. A session is known by what it runs over.
\<close>

datatype carrier = Socket string u16 "u32 option" | Tunnel carrier string u32 string u32

datatype hop_action = Reach carrier | StartSession carrier | AuthenticateAs carrier string "string list"

text \<open>
  The world of a connection: the network, what comes of the handshake over a carrier (\<open>client::connect_stream\<close>), what comes of
  opening a channel to a host on the session over a carrier, the keys, and what the session over a carrier answers to its handle. A call that never returns
  is \<open>Diverge\<close>.
\<close>

record conn_env =
  ce_net :: tcp_env
  ce_handshake :: "carrier \<Rightarrow> (string, unit) outcome"
  ce_open :: "carrier \<Rightarrow> string \<Rightarrow> u32 \<Rightarrow> string \<Rightarrow> u32 \<Rightarrow> (string, unit) outcome"
  ce_auth :: auth_env
  ce_io :: "carrier \<Rightarrow> handle_io"

fun perform :: "conn_env \<Rightarrow> hop_action \<Rightarrow> (string, unit) outcome" where
  "perform C (Reach (Socket host port_no mark_opt)) =
     obind (fst (connect_tcp (ce_net C) host port_no mark_opt)) (\<lambda>_. Ok ())"
| "perform C (Reach (Tunnel c host port_no from_host from_port)) = ce_open C c host port_no from_host from_port"
| "perform C (StartSession c) = ce_handshake C c"
| "perform C (AuthenticateAs c user identity_files) =
     (case authenticate_handle (ce_auth C) (as_bytes user) identity_files (ce_io C c) of
        Returned r _ \<Rightarrow> obind r (\<lambda>_. Ok ()) | Waits _ _ \<Rightarrow> Diverge)"

text \<open>An action and what follows when it succeeds, with the actions performed.\<close>

definition act :: "conn_env \<Rightarrow> hop_action \<Rightarrow> (string, 'a) outcome \<times> hop_action list \<Rightarrow> (string, 'a) outcome \<times> hop_action list" where
  "act C a next = (case perform C a of Ok _ \<Rightarrow> (fst next, a # snd next) | Err e \<Rightarrow> (Err e, [a]) | Panic \<Rightarrow> (Panic, [a]) | Diverge \<Rightarrow> (Diverge, [a]))"

definition start_session where
  "start_session C c user identity_files next = act C (StartSession c) (act C (AuthenticateAs c user identity_files) next)"

text \<open>The loop over the jump hosts after the first: the current session, and the sessions that are kept.\<close>

fun next_jumps ::
  "conn_env \<Rightarrow> (carrier \<Rightarrow> carrier list \<Rightarrow> (string, 'a) outcome \<times> hop_action list) \<Rightarrow> carrier \<Rightarrow> carrier list \<Rightarrow>
   host_connection_config list \<Rightarrow> (string, 'a) outcome \<times> hop_action list" where
  "next_jumps C final jump handles [] = final jump handles"
| "next_jumps C final jump handles (j_next # js) =
    (let stream = Tunnel jump (hc_hostname j_next) (ucast (hc_port j_next)) ''127.0.0.1'' 0
     in act C (Reach stream) (start_session C stream (hc_user j_next) (hc_identity_files j_next)
          (next_jumps C final stream (handles @ [jump]) js)))"

text \<open>
  \<open>SshConnection::connect\<close>: directly to the target, or to the first jump host and from host to host. The result is the target's session
  and the sessions of the jump hosts that are kept for it.
\<close>

definition SshConnection_connect ::
  "conn_env \<Rightarrow> resolved_config \<Rightarrow> (string, carrier \<times> carrier list) outcome \<times> hop_action list" where
  "SshConnection_connect C cfg =
    (case jump_hosts cfg of
       [] \<Rightarrow>
         (let socket = Socket (rc_hostname cfg) (rc_port cfg) (fwmark cfg)
          in act C (Reach socket) (start_session C socket (rc_user cfg) (rc_identity_files cfg) (Ok (socket, []), [])))
     | j1 # js \<Rightarrow>
         (let j1_socket = Socket (hc_hostname j1) (hc_port j1) (fwmark cfg)
          in act C (Reach j1_socket) (start_session C j1_socket (hc_user j1) (hc_identity_files j1)
               (next_jumps C (\<lambda>jump handles.
                  let stream = Tunnel jump (rc_hostname cfg) (ucast (rc_port cfg)) ''127.0.0.1'' 0
                  in act C (Reach stream) (start_session C stream (rc_user cfg) (rc_identity_files cfg)
                       (Ok (stream, handles @ [jump]), []))) j1_socket [] js))))"

section \<open>The link monitor\<close>

datatype ping = PingOk | PingErr | PingTimeout

text \<open>
  The loop of \<open>run_link_monitor\<close> over the results of its pings: after how many it declares the
  connection dead, \<open>None\<close> while it keeps running.
\<close>

fun run_link_monitor :: "u32 \<Rightarrow> u32 \<Rightarrow> ping list \<Rightarrow> nat option" where
  "run_link_monitor max_failures failures [] = None"
| "run_link_monitor max_failures failures (p # ps) =
    (let failures = (if p = PingOk then 0 else failures + 1)
     in if failures \<ge> max_failures then Some 1
        else map_option Suc (run_link_monitor max_failures failures ps))"

section \<open>Properties\<close>



text \<open>The attempts that a log has: every request for authentication that was sent, taken or not.\<close>

fun attempt_of :: "handle_event \<Rightarrow> auth_scheme msg list" where
  "attempt_of (Command (Authenticate user m)) = [Authenticate user m]"
| "attempt_of (NotTaken (Authenticate user m)) = [Authenticate user m]"
| "attempt_of _ = []"

definition attempts :: "handle_event list \<Rightarrow> auth_scheme msg list" where
  "attempts log = concat (map attempt_of log)"




text \<open>The part of a log that ends with the first success.\<close>

definition accepted :: "handle_event list \<Rightarrow> bool" where
  "accepted new \<longleftrightarrow> new \<noteq> [] \<and> last new = Heard AuthSuccess \<and> Heard AuthSuccess \<notin> set (butlast new)"

lemma accepted_append [simp]: "Heard AuthSuccess \<notin> set xs \<Longrightarrow> accepted (xs @ ys) = accepted ys"
  by (cases "ys = []") (auto simp: accepted_def butlast_append, metis last_in_set)

lemma attempts_simps [simp]:
  "attempts [] = []" "attempts (e # es) = attempt_of e @ attempts es" "attempts (xs @ ys) = attempts xs @ attempts ys"
  by (simp_all add: attempts_def)


















text \<open>
  An agent that fails to sign leaves the session waiting for the signature, where it drops the next request: no reply follows, and the
  search waits at the next identity instead of trying the others.
\<close>

theorem failed_signature_waits:
  assumes "io_sends io = True # True # ss" "io_replies io = [Some (SignRequest key d)]" "io_signs io = None # ds"
  shows "\<exists>io'. try_agent user (i # j # ids) io = Waits AwaitReply io'
    \<and> io_log io' = io_log io @ [Command (Authenticate user (Method_FuturePublicKey i)), Heard (SignRequest key d), SignFailed,
        Command (Authenticate user (Method_FuturePublicKey j))]"
  using assms by (simp add: io_future_def io_send_def io_future_loop.simps [of "io\<lparr>io_sends := _, io_log := _\<rparr>"]
      io_recv_def io_sign_def io_future_loop.simps)

text \<open>Every connection attempt of a list of actions follows at once the marking of its socket.\<close>

fun marked :: "u32 \<Rightarrow> tcp_action list \<Rightarrow> bool" where
  "marked m (SetMark a m' # ConnectTo b # acts) = (m = m' \<and> a = b \<and> marked m acts)"
| "marked m (ConnectTo b # acts) = False"
| "marked m (a # acts) = marked m acts"
| "marked m [] = True"

text \<open>
  C27: with a mark configured no packet leaves an unmarked socket: every connection attempt is
  made on a socket whose mark was set just before, and a socket that cannot be marked is never
  connected.
\<close>

theorem connect_tcp_marks_first:
  "marked m (snd (connect_tcp N host p (Some m)))
   \<and> (\<forall>addr. fst (connect_tcp N host p (Some m)) = Ok addr \<longrightarrow> set_mark_ok N addr \<and> connect_ok N addr)"
proof -
  have "marked m (snd (connect_loop N (Some m) addrs e))
      \<and> (\<forall>addr. fst (connect_loop N (Some m) addrs e) = Ok addr \<longrightarrow> set_mark_ok N addr \<and> connect_ok N addr)"
    for addrs e
    by (induction addrs arbitrary: e) (simp_all add: Let_def split_beta split: option.split)
  then show ?thesis by (simp add: connect_tcp_def split: option.split)
qed

definition demo_net :: tcp_env where
  "demo_net = \<lparr>lookup_host = (\<lambda>_ _. Some [''a'', ''b'']), socket_ok = (\<lambda>_. True), set_mark_ok = (\<lambda>_. True),
     connect_ok = (\<lambda>a. a = ''b'')\<rparr>"

theorem connect_tcp_marks_first_witness:
  "fst (connect_tcp demo_net ''h'' 22 (Some 9)) = Ok ''b'' \<and> set_mark_ok demo_net ''b''"
proof -
  have "fst (connect_tcp demo_net ''h'' 22 (Some 9)) = Ok ''b''"
    by (simp add: connect_tcp_def demo_net_def)
  with connect_tcp_marks_first [of 9 demo_net "''h''" 22] show ?thesis by simp
qed

text \<open>The target of a connection seen as one more host after the jump hosts.\<close>

definition target_hop :: "resolved_config \<Rightarrow> host_connection_config" where
  "target_hop cfg = \<lparr>hc_host = rc_host cfg, hc_hostname = rc_hostname cfg,
     hc_port = rc_port cfg, hc_user = rc_user cfg, hc_identity_files = rc_identity_files cfg\<rparr>"

text \<open>What the sessions run over that follow one another from host to host, and what is done to reach and enter a host.\<close>

fun carriers :: "carrier \<Rightarrow> host_connection_config list \<Rightarrow> carrier list" where
  "carriers c [] = [c]"
| "carriers c (h # hs) = c # carriers (Tunnel c (hc_hostname h) (ucast (hc_port h)) ''127.0.0.1'' 0) hs"

definition hop_plan :: "carrier \<times> host_connection_config \<Rightarrow> hop_action list" where
  "hop_plan = (\<lambda>(c, h). [Reach c, StartSession c, AuthenticateAs c (hc_user h) (hc_identity_files h)])"

lemma carriers_nth:
  "length (carriers c hs) = Suc (length hs)" "carriers c hs ! 0 = c" "carriers c hs \<noteq> []"
  "i < length hs \<Longrightarrow> carriers c hs ! Suc i
     = Tunnel (carriers c hs ! i) (hc_hostname (hs ! i)) (ucast (hc_port (hs ! i))) ''127.0.0.1'' 0"
proof -
  show "length (carriers c hs) = Suc (length hs)" "carriers c hs ! 0 = c" "carriers c hs \<noteq> []"
    by (induction c hs rule: carriers.induct) simp_all
  show "i < length hs \<Longrightarrow> carriers c hs ! Suc i
     = Tunnel (carriers c hs ! i) (hc_hostname (hs ! i)) (ucast (hc_port (hs ! i))) ''127.0.0.1'' 0"
  proof (induction c hs arbitrary: i rule: carriers.induct)
    case (2 c h hs)
    have "carriers c' hs ! 0 = c'" for c' by (cases hs) simp_all
    with 2 show ?case by (cases i) simp_all
  qed simp
qed

lemma carriers_append: "carriers c (hs @ [h]) =
    carriers c hs @ [Tunnel (last (carriers c hs)) (hc_hostname h) (ucast (hc_port h)) ''127.0.0.1'' 0]"
  by (induction c hs rule: carriers.induct) (simp_all add: carriers_nth(3))

lemma start_session_plan:
  "act C (Reach c) (start_session C c (hc_user h) (hc_identity_files h) next) = foldr (act C) (hop_plan (c, h)) next"
  by (simp add: start_session_def hop_plan_def)

lemma next_jumps_plan:
  "act C (Reach jump) (start_session C jump (hc_user h) (hc_identity_files h) (next_jumps C final jump handles js)) =
     foldr (act C) (concat (map hop_plan (zip (carriers jump js) (h # js))))
       (final (last (carriers jump js)) (handles @ butlast (carriers jump js)))"
proof (induction js arbitrary: jump handles h)
  case (Cons j js)
  show ?case
    using Cons [of "Tunnel jump (hc_hostname j) (ucast (hc_port j)) ''127.0.0.1'' 0" j "handles @ [jump]"]
    by (simp add: start_session_plan Let_def carriers_nth(3))
qed (simp add: start_session_plan)

lemma foldr_act:
  fixes plan C
  defines "n \<equiv> length (takeWhile (\<lambda>a. perform C a = Ok ()) plan)"
  shows "foldr (act C) plan (Ok r, []) =
    (if n = length plan then Ok r else obind (perform C (plan ! n)) (\<lambda>_. Ok r), take (Suc n) plan)"
  unfolding n_def by (induction plan) (auto simp: act_def split: outcome.split)

lemma connect_plan:
  fixes C :: conn_env and cfg :: resolved_config
  defines "hops \<equiv> jump_hosts cfg @ [target_hop cfg]"
  defines "cs \<equiv> carriers (Socket (hc_hostname (hd hops)) (hc_port (hd hops)) (fwmark cfg)) (tl hops)"
  shows "SshConnection_connect C cfg = foldr (act C) (concat (map hop_plan (zip cs hops))) (Ok (last cs, butlast cs), [])"
proof (cases "jump_hosts cfg")
  case Nil
  let ?c = "Socket (rc_hostname cfg) (rc_port cfg) (fwmark cfg)"
  show ?thesis
    using start_session_plan [of C ?c "target_hop cfg" "(Ok (?c, []), [])"]
    by (simp add: SshConnection_connect_def Nil target_hop_def Let_def cs_def hops_def)
next
  case (Cons j1 js)
  let ?cs = "carriers (Socket (hc_hostname j1) (hc_port j1) (fwmark cfg)) js"
  let ?t = "Tunnel (last ?cs) (rc_hostname cfg) (ucast (rc_port cfg)) ''127.0.0.1'' 0"
  have cs: "cs = ?cs @ [?t]" by (simp add: cs_def hops_def Cons carriers_append) (simp add: target_hop_def)
  have "SshConnection_connect C cfg =
      foldr (act C) (concat (map hop_plan (zip ?cs (j1 # js)))) (foldr (act C) (hop_plan (?t, target_hop cfg)) (Ok (?t, ?cs), []))"
    using start_session_plan [of C ?t "target_hop cfg" "(Ok (?t, ?cs), [])"]
    by (simp add: SshConnection_connect_def Cons next_jumps_plan Let_def carriers_nth(3) target_hop_def)
  moreover have "zip cs hops = zip ?cs (j1 # js) @ [(?t, target_hop cfg)]"
    by (simp add: cs hops_def Cons zip_append1 carriers_nth(1))
  ultimately show ?thesis by (simp add: cs)
qed

text \<open>
  C28: a connection goes through the jump hosts in the order given and ends at the target. The first host is reached by TCP at its own
  name and port, with the configured mark; every other one through a direct-tcpip channel of the session of the host before it, opened to its own name and
  port. With every host a session is started over that connection, and its own user authenticates there with its own identities, before the next host is reached. When
  all of it succeeds the result is the session of the target, with the sessions of the jump hosts kept in their order; at the first step that fails or never returns nothing later is
  tried, and its failure is the result.
\<close>

theorem jump_chain_order:
  fixes C :: conn_env and cfg :: resolved_config
  defines "hops \<equiv> jump_hosts cfg @ [target_hop cfg]"
  shows "\<exists>cs plan n. length cs = length hops
    \<and> cs ! 0 = Socket (hc_hostname (hops ! 0)) (hc_port (hops ! 0)) (fwmark cfg)
    \<and> (\<forall>i < length (jump_hosts cfg). cs ! Suc i =
         Tunnel (cs ! i) (hc_hostname (hops ! Suc i)) (ucast (hc_port (hops ! Suc i))) ''127.0.0.1'' 0)
    \<and> plan = concat (map (\<lambda>(c, h). [Reach c, StartSession c, AuthenticateAs c (hc_user h) (hc_identity_files h)]) (zip cs hops))
    \<and> n = length (takeWhile (\<lambda>a. perform C a = Ok ()) plan)
    \<and> SshConnection_connect C cfg =
        (if n = length plan then Ok (last cs, butlast cs) else obind (perform C (plan ! n)) (\<lambda>_. Ok (last cs, butlast cs)),
         take (Suc n) plan)"
proof -
  let ?cs = "carriers (Socket (hc_hostname (hd hops)) (hc_port (hd hops)) (fwmark cfg)) (tl hops)"
  let ?plan = "concat (map hop_plan (zip ?cs hops))"
  let ?n = "length (takeWhile (\<lambda>a. perform C a = Ok ()) ?plan)"
  have hops: "hops \<noteq> []" "length (tl hops) = length (jump_hosts cfg)" by (simp_all add: hops_def)
  show ?thesis
  proof (rule exI [of _ ?cs], rule exI [of _ ?plan], rule exI [of _ ?n], intro conjI)
    show "length ?cs = length hops" by (simp add: carriers_nth(1) hops_def)
    show "?cs ! 0 = Socket (hc_hostname (hops ! 0)) (hc_port (hops ! 0)) (fwmark cfg)"
      using hops by (simp_all add: carriers_nth hd_conv_nth)
    show "\<forall>i < length (jump_hosts cfg). ?cs ! Suc i =
         Tunnel (?cs ! i) (hc_hostname (hops ! Suc i)) (ucast (hc_port (hops ! Suc i))) ''127.0.0.1'' 0"
      using hops by (simp add: carriers_nth(4) nth_tl)
    show "SshConnection_connect C cfg =
        (if ?n = length ?plan then Ok (last ?cs, butlast ?cs) else obind (perform C (?plan ! ?n)) (\<lambda>_. Ok (last ?cs, butlast ?cs)),
         take (Suc ?n) ?plan)"
      unfolding hops_def connect_plan foldr_act ..
  qed (simp_all add: hop_plan_def)
qed

definition demo_world :: conn_env where
  "demo_world = \<lparr>ce_net = demo_net, ce_handshake = (\<lambda>_. Ok ()), ce_open = (\<lambda>_ _ _ _ _. Ok ()),
     ce_auth = \<lparr>key_exists = (\<lambda>_. True), load_secret_key = (\<lambda>_. Some demo_key), agent_identities = None\<rparr>,
     ce_io = (\<lambda>_. \<lparr>io_sends = [True], io_replies = [Some AuthSuccess], io_signs = [], io_log = []\<rparr>)\<rparr>"

definition demo_jump :: resolved_config where
  "demo_jump = demo_config\<lparr>rc_identity_files := [''k''], fwmark := Some 9, jump_hosts :=
     [\<lparr>hc_host = ''j'', hc_hostname = ''10.0.0.9'', hc_port = 2222, hc_user = ''jo'', hc_identity_files = [''id'']\<rparr>]\<rparr>"

theorem jump_chain_order_witness:
  "\<exists>c. SshConnection_connect demo_world demo_jump =
     (Ok (Tunnel c ''10.0.0.5'' 22 ''127.0.0.1'' 0, [c]),
      [Reach c, StartSession c, AuthenticateAs c ''jo'' [''id''],
       Reach (Tunnel c ''10.0.0.5'' 22 ''127.0.0.1'' 0), StartSession (Tunnel c ''10.0.0.5'' 22 ''127.0.0.1'' 0),
       AuthenticateAs (Tunnel c ''10.0.0.5'' 22 ''127.0.0.1'' 0) (rc_user demo_jump) [''k'']])
    \<and> c = Socket ''10.0.0.9'' 2222 (Some 9)"
proof -
  have hop: "jump_hosts demo_jump = [\<lparr>hc_host = ''j'', hc_hostname = ''10.0.0.9'', hc_port = 2222, hc_user = ''jo'', hc_identity_files = [''id'']\<rparr>]"
    "hc_hostname (target_hop demo_jump) = ''10.0.0.5''" "hc_port (target_hop demo_jump) = 22" "fwmark demo_jump = Some 9"
    "hc_user (target_hop demo_jump) = rc_user demo_jump" "hc_identity_files (target_hop demo_jump) = [''k'']"
    by (simp_all add: demo_jump_def target_hop_def demo_config_def mk_resolved_def)
  have ok: "perform demo_world (Reach c) = Ok ()" "perform demo_world (StartSession c) = Ok ()"
    "perform demo_world (AuthenticateAs c user [k]) = Ok ()" for c user k
    by (cases c) (simp_all add: demo_world_def demo_net_def connect_tcp_def authenticate_handle_def io_publickey_def io_send_def
        io_wait_reply.simps io_recv_def)
  obtain cs plan n where cs: "length cs = 2" "cs ! 0 = Socket ''10.0.0.9'' 2222 (Some 9)"
    "cs ! 1 = Tunnel (cs ! 0) ''10.0.0.5'' 22 ''127.0.0.1'' 0"
    and plan: "plan = concat (map (\<lambda>(c, h). [Reach c, StartSession c, AuthenticateAs c (hc_user h) (hc_identity_files h)])
      (zip cs (jump_hosts demo_jump @ [target_hop demo_jump])))" "n = length (takeWhile (\<lambda>a. perform demo_world a = Ok ()) plan)"
    and conn: "SshConnection_connect demo_world demo_jump =
        (if n = length plan then Ok (last cs, butlast cs) else obind (perform demo_world (plan ! n)) (\<lambda>_. Ok (last cs, butlast cs)),
         take (Suc n) plan)"
    using jump_chain_order [of demo_jump demo_world] unfolding hop(1)
    by (elim exE conjE) (rule that, simp_all add: hop)
  have c2: "cs = [Socket ''10.0.0.9'' 2222 (Some 9), Tunnel (Socket ''10.0.0.9'' 2222 (Some 9)) ''10.0.0.5'' 22 ''127.0.0.1'' 0]"
    using cs by (cases cs; cases "tl cs") auto
  show ?thesis unfolding conn by (simp add: plan c2 hop ok del: perform.simps)
qed

text \<open>The number of failures at the end of a sequence of pings.\<close>

definition streak :: "ping list \<Rightarrow> nat" where
  "streak ps = length (takeWhile (\<lambda>p. p \<noteq> PingOk) (rev ps))"

lemma streak_Ok: "streak (xs @ PingOk # ys) = streak ys"
proof -
  have "takeWhile (\<lambda>p. p \<noteq> PingOk) (rev ys @ PingOk # rev xs) = takeWhile (\<lambda>p. p \<noteq> PingOk) (rev ys)"
    by (rule takeWhile_tail) simp
  then show ?thesis by (simp add: streak_def)
qed

lemma streak_fail: "p \<noteq> PingOk \<Longrightarrow> streak (replicate n PingErr @ p # ys) = streak (replicate (Suc n) PingErr @ ys)"
  by (auto simp: streak_def takeWhile_append)

lemma find_upt_Suc:
  "List.find P [1..<Suc (Suc n)] = (if P 1 then Some 1 else map_option Suc (List.find (P \<circ> Suc) [1..<Suc n]))"
proof -
  have "[1..<Suc (Suc n)] = 1 # map Suc [1..<Suc n]" by (simp add: upt_conv_Cons map_Suc_upt del: upt_Suc)
  moreover have "List.find P (map Suc xs) = map_option Suc (List.find (P \<circ> Suc) xs)" for xs
    by (induction xs) auto
  ultimately show ?thesis by simp
qed

lemma run_link_monitor_find:
  "f < m \<or> f = 0 \<Longrightarrow> run_link_monitor m f ps =
     List.find (\<lambda>n. unat m \<le> streak (replicate (unat f) PingErr @ take n ps)) [1..<Suc (length ps)]"
proof (induction ps arbitrary: f)
  case (Cons p ps)
  define g where "g = (if p = PingOk then 0 else f + 1)"
  have st: "streak (replicate (unat f) PingErr @ p # xs) = streak (replicate (unat g) PingErr @ xs)" for xs
  proof (cases "p = PingOk")
    case False
    have "unat (f + 1) = Suc (unat f)"
    proof -
      have "unat f + 1 < 4294967296"
        using Cons.prems unat_u32_lt [of m] by (auto simp: word_less_nat_alt)
      then show ?thesis by (simp add: unat_word_ariths)
    qed
    with False show ?thesis by (simp add: g_def streak_fail)
  qed (simp add: g_def streak_Ok)
  have one: "streak (replicate (unat g) PingErr) = unat g"
    by (simp add: streak_def takeWhile_replicate)
  have "g < m \<or> g = 0" if "\<not> m \<le> g" using that by auto
  with Cons.IH [of g] show ?case
    unfolding length_Cons find_upt_Suc
    by (simp add: g_def [symmetric] Let_def st one comp_def word_le_nat_alt del: upt_Suc)
qed simp

text \<open>
  C29: the monitor declares the link dead after exactly the first ping that completes as many
  consecutive failures as the configured maximum; a success in between starts the count anew.
\<close>

theorem monitor_consecutive_failures:
  "run_link_monitor m 0 ps = List.find (\<lambda>n. unat m \<le> streak (take n ps)) [1..<Suc (length ps)]"
  using run_link_monitor_find [of 0 m ps] by simp

text \<open>
  with a maximum of 0 the link is declared dead after the first ping, even when that ping
  succeeded.
\<close>

theorem zero_keepalive_max_dies:
  "run_link_monitor 0 0 (PingOk # ps) = Some 1"
  by simp

end
