(* ===== verification/Hooks.thy ===== *)
theory Hooks
  imports Connection
begin

text \<open>
  The hooks of \<^verbatim>\<open>src/src/hooks.rs\<close>: the scripts that configure and clean up the remote side of
  a TUN device, and the user's commands. A script is a list of statements that are printed and
  joined by semicolons as the format strings have them; what the remote shell and the local \<open>sh\<close>
  answer are arguments.
\<close>

section \<open>Statements of the remote scripts\<close>

datatype family = Inet | Inet6

datatype remote_stmt =
  WaitLink string
| Sysctl string
| AddrReplace string string string
| LinkUp string
| LinkSetUp string
| LinkDown string
| LinkDelete string
| NftTable string string string string "string option"
| NftDelete string
| RuleDel family string string
| RuleAdd family string string
| RouteReplace family string string
| RouteDel family string string

definition ip_cmd :: "family \<Rightarrow> string" where
  "ip_cmd f = (case f of Inet \<Rightarrow> ''ip '' | Inet6 \<Rightarrow> ''ip -6 '')"

definition or_true :: string where
  "or_true = '' 2>/dev/null || true''"

definition quote :: "string \<Rightarrow> string" where
  "quote s = CHR 0x22 # s @ [CHR 0x22]"

text \<open>\<open>NftTable id dev mark local_ip local_ip6\<close> is the firewall table of an automatic device.\<close>

fun show_stmt :: "remote_stmt \<Rightarrow> string" where
  "show_stmt (WaitLink dev) =
     ''for i in $(seq 1 50); do if ip link show dev '' @ dev
     @ '' >/dev/null 2>&1; then break; fi; sleep 0.1; done''"
| "show_stmt (Sysctl key) = ''sysctl -w '' @ key @ ''=1'' @ or_true"
| "show_stmt (AddrReplace addr peer dev) =
     ''ip addr replace '' @ addr @ '' peer '' @ peer @ '' dev '' @ dev
     @ '' 2>/dev/null || ip addr add '' @ addr @ '' peer '' @ peer @ '' dev '' @ dev @ or_true"
| "show_stmt (LinkUp dev) = ''ip link set dev '' @ dev @ '' up'' @ or_true"
| "show_stmt (LinkSetUp dev) = ''ip link set '' @ dev @ '' up''"
| "show_stmt (LinkDown dev) = ''ip link set dev '' @ dev @ '' down'' @ or_true"
| "show_stmt (LinkDelete dev) = ''ip link delete dev '' @ dev @ or_true"
| "show_stmt (NftTable i dev mark ip ip6) =
     ''nft 'add table inet sshtun'' @ i @ ''; delete table inet sshtun'' @ i
     @ ''; table inet sshtun'' @ i
     @ '' { chain prerouting { type filter hook prerouting priority mangle; policy accept; iifname ''
     @ quote dev @ '' ct state new ct mark set '' @ mark @ ''; iifname != '' @ quote dev
     @ '' ct mark '' @ mark @ '' meta mark set ct mark; }; ''
     @ ''chain output { type route hook output priority mangle; policy accept; ct mark '' @ mark
     @ '' meta mark set ct mark; }; ''
     @ ''chain postrouting { type nat hook postrouting priority srcnat; policy accept; oifname != ''
     @ quote dev @ '' ip saddr '' @ ip @ '' masquerade; ''
     @ (case ip6 of
          Some l \<Rightarrow> ''oifname != '' @ quote dev @ '' ip6 saddr '' @ l @ '' masquerade; ''
        | None \<Rightarrow> '''')
     @ ''}; }'' @ [CHR 0x27]"
| "show_stmt (NftDelete i) =
     ''nft 'add table inet sshtun'' @ i @ ''; delete table inet sshtun'' @ i @ [CHR 0x27] @ or_true"
| "show_stmt (RuleDel f mark table) =
     ip_cmd f @ ''rule del fwmark '' @ mark @ ''/0xffff0000 lookup '' @ table @ or_true"
| "show_stmt (RuleAdd f mark table) =
     ip_cmd f @ ''rule add fwmark '' @ mark @ ''/0xffff0000 lookup '' @ table @ '' prio 5''"
| "show_stmt (RouteReplace f dev table) =
     ip_cmd f @ ''route replace default dev '' @ dev @ '' table '' @ table"
| "show_stmt (RouteDel f dev table) =
     ip_cmd f @ ''route del default dev '' @ dev @ '' table '' @ table @ or_true"

definition script :: "remote_stmt list \<Rightarrow> string" where
  "script stmts = join_with ''; '' (map show_stmt stmts)"

section \<open>The scripts\<close>

text \<open>The mark, the device and the routing table of an automatic identifier.\<close>

definition auto_mark :: "u16 \<Rightarrow> u32" where
  "auto_mark i = push_bit 16 (ucast i)"

definition id_text :: "u16 \<Rightarrow> string" where
  "id_text i = show_nat (unat i)"

definition mark_text :: "u16 \<Rightarrow> string" where
  "mark_text i = show_nat (unat (auto_mark i))"

definition auto_dev :: "u16 \<Rightarrow> string" where
  "auto_dev i = ''tun2222'' @ id_text i"

definition auto_table :: "u16 \<Rightarrow> string" where
  "auto_table i = ''2222'' @ id_text i"

text \<open>The cleaned IPv6 addresses (remote, local) when both are configured.\<close>

definition v6_addresses :: "resolved_config \<Rightarrow> (string \<times> string) option" where
  "v6_addresses cfg =
    (case (remote_tun_addr6 cfg, local_tun_addr6 cfg) of
       (Some r, Some l) \<Rightarrow> Some (clean6 r, clean6 l) | _ \<Rightarrow> None)"

definition ipv6_cmds :: "u16 \<Rightarrow> (string \<times> string) option \<Rightarrow> remote_stmt list" where
  "ipv6_cmds i v6 =
    (case v6 of
       None \<Rightarrow> []
     | Some (remote_ip6, local_ip6) \<Rightarrow>
         [Sysctl ''net.ipv6.conf.all.forwarding'',
          AddrReplace (remote_ip6 @ ''/127'') local_ip6 (auto_dev i),
          RuleDel Inet6 (mark_text i) (auto_table i),
          RuleAdd Inet6 (mark_text i) (auto_table i),
          RouteReplace Inet6 (auto_dev i) (auto_table i)])"

definition auto_setup_cmd :: "u16 \<Rightarrow> string \<Rightarrow> string \<Rightarrow> (string \<times> string) option \<Rightarrow> remote_stmt list" where
  "auto_setup_cmd i remote_ip local_ip v6 =
     [WaitLink (auto_dev i),
      Sysctl ''net.ipv4.ip_forward'',
      AddrReplace (remote_ip @ ''/32'') local_ip (auto_dev i),
      LinkUp (auto_dev i)]
     @ ipv6_cmds i v6
     @ [NftTable (id_text i) (auto_dev i) (mark_text i) local_ip (map_option snd v6),
        RuleDel Inet (mark_text i) (auto_table i),
        RuleAdd Inet (mark_text i) (auto_table i),
        RouteReplace Inet (auto_dev i) (auto_table i)]"

definition cleanup_cmd :: "u16 \<Rightarrow> remote_stmt list" where
  "cleanup_cmd i =
     [NftDelete (id_text i),
      RuleDel Inet (mark_text i) (auto_table i),
      RuleDel Inet (mark_text i) (id_text i),
      RuleDel Inet6 (mark_text i) (auto_table i),
      RuleDel Inet6 (mark_text i) (id_text i),
      RouteDel Inet (auto_dev i) (auto_table i),
      RouteDel Inet (auto_dev i) (id_text i),
      RouteDel Inet6 (auto_dev i) (auto_table i),
      RouteDel Inet6 (auto_dev i) (id_text i),
      LinkDown (auto_dev i),
      LinkDelete (auto_dev i)]"

text \<open>The script for a device that was named by the user.\<close>

definition auto_remote_cmd :: "string \<Rightarrow> string \<Rightarrow> string \<Rightarrow> (string \<times> string) option \<Rightarrow> remote_stmt list" where
  "auto_remote_cmd dev remote_ip local_ip v6 =
     [AddrReplace (remote_ip @ ''/32'') local_ip dev]
     @ (case v6 of Some (r, l) \<Rightarrow> [AddrReplace (r @ ''/127'') l dev] | None \<Rightarrow> [])
     @ [LinkSetUp dev]"

text \<open>The script that \<open>run_post_up_hooks\<close> runs for the TUN device, if any.\<close>

definition tun_setup :: "resolved_config \<Rightarrow> remote_stmt list option" where
  "tun_setup cfg =
    (case tun_forward cfg of
       None \<Rightarrow> None
     | Some tun \<Rightarrow>
         (case (remote_tun_addr cfg, local_tun_addr cfg) of
            (Some remote_ip, Some local_ip) \<Rightarrow>
              (case auto_id tun of
                 Some i \<Rightarrow> Some (auto_setup_cmd i (clean4 remote_ip) (clean4 local_ip) (v6_addresses cfg))
               | None \<Rightarrow> Some (auto_remote_cmd (tun_dev_name (remote_tun tun)) (clean4 remote_ip)
                                 (clean4 local_ip) (v6_addresses cfg)))
          | _ \<Rightarrow> None))"

section \<open>Running the hooks\<close>

text \<open>\<open>str::replace\<close>: every occurrence from the left, without overlap.\<close>

function str_replace :: "string \<Rightarrow> string \<Rightarrow> string \<Rightarrow> string" where
  "str_replace p r s =
    (if p = [] \<or> s = [] then s
     else case strip_prefix p s of
       Some t \<Rightarrow> r @ str_replace p r t
     | None \<Rightarrow> hd s # str_replace p r (tl s))"
  by pat_completeness auto
termination
proof (relation "measure (\<lambda>(p, r, s). length s)")
  fix p r s t :: string assume "\<not> (p = [] \<or> s = [])" "strip_prefix p s = Some t"
  then show "((p, r, t), (p, r, s)) \<in> measure (\<lambda>(p, r, s). length s)"
    using strip_prefix_Some [of p s t] by simp
qed simp_all

declare str_replace.simps [simp del]

definition expand_hook_cmd :: "string \<Rightarrow> string option \<Rightarrow> string" where
  "expand_hook_cmd cmd iface =
    (case iface of Some name \<Rightarrow> str_replace ''%i'' name cmd | None \<Rightarrow> cmd)"

text \<open>
  What the two shells answer: whether the server opens a session and accepts the command, what the
  command prints (as far as it could be read), and the success of a local command, \<open>None\<close> when \<open>sh\<close>
  cannot be started.
\<close>

record hook_env =
  session_opens :: "string \<Rightarrow> bool"
  exec_accepted :: "string \<Rightarrow> bool"
  remote_output :: "string \<Rightarrow> string"
  local_status :: "string \<Rightarrow> bool option"

datatype hook_run = RemoteRun string "(string, string) outcome" | LocalRun string "(string, unit) outcome"

definition run_local_post_up :: "hook_env \<Rightarrow> string \<Rightarrow> (string, unit) outcome" where
  "run_local_post_up H cmd =
    (case local_status H cmd of None \<Rightarrow> Err ''sh'' | Some _ \<Rightarrow> Ok ())"

definition run_remote_command :: "hook_env \<Rightarrow> string \<Rightarrow> (string, string) outcome" where
  "run_remote_command H cmd =
    (if \<not> session_opens H cmd then Err ''Failed to open remote session channel''
     else if \<not> exec_accepted H cmd then Err (''Failed to exec remote command '' @ cmd)
     else Ok (remote_output H cmd))"

text \<open>The hooks with what became of each command; every error is only logged.\<close>

definition run_post_up_hooks :: "hook_env \<Rightarrow> resolved_config \<Rightarrow> (string, unit) outcome \<times> hook_run list" where
  "run_post_up_hooks H cfg =
    (let remote = (\<lambda>cmd. RemoteRun cmd (run_remote_command H cmd));
         local_tun_name = map_option (\<lambda>tun. tun_dev_name (local_tun tun)) (tun_forward cfg);
         remote_tun_name = map_option (\<lambda>tun. tun_dev_name (remote_tun tun)) (tun_forward cfg)
     in (Ok (),
         (case tun_setup cfg of Some stmts \<Rightarrow> [remote (script stmts)] | None \<Rightarrow> [])
         @ (case remote_post_up cfg of
              Some cmd \<Rightarrow> [remote (expand_hook_cmd cmd remote_tun_name)] | None \<Rightarrow> [])
         @ (case local_post_up cfg of
              Some cmd \<Rightarrow>
                (let cmd_expanded = expand_hook_cmd cmd local_tun_name
                 in [LocalRun cmd_expanded (run_local_post_up H cmd_expanded)])
            | None \<Rightarrow> [])))"

definition run_cleanup_hooks :: "hook_env \<Rightarrow> resolved_config \<Rightarrow> (string, unit) outcome \<times> hook_run list" where
  "run_cleanup_hooks H cfg =
    (case tun_forward cfg of
       None \<Rightarrow> (Ok (), [])
     | Some tun \<Rightarrow>
         (case auto_id tun of
            None \<Rightarrow> (Ok (), [])
          | Some i \<Rightarrow>
              (Ok (), [RemoteRun (script (cleanup_cmd i)) (run_remote_command H (script (cleanup_cmd i)))])))"

section \<open>Properties\<close>

lemma unat_auto_mark: "unat (auto_mark i) = unat i * 65536"
proof -
  have "unat i < 65536" using unsigned_less [of i] by simp
  then show ?thesis
    by (simp add: auto_mark_def push_bit_eq_mult unat_word_ariths unsigned_ucast_eq take_bit_eq_mod)
qed

lemma show_nat_inject: "show_nat m = show_nat n \<longleftrightarrow> m = n"
proof
  assume "show_nat m = show_nat n"
  then have "digits_value 10 0 (show_nat m) = digits_value 10 0 (show_nat n)" by (rule arg_cong)
  then show "m = n" by (simp add: digits_value_show)
qed simp

lemma id_text_inject: "id_text i = id_text j \<longleftrightarrow> i = j"
  by (simp add: id_text_def show_nat_inject word_unat_eq_iff)

lemma mark_text_inject: "mark_text i = mark_text j \<longleftrightarrow> i = j"
  by (simp add: mark_text_def show_nat_inject unat_auto_mark word_unat_eq_iff)

lemma auto_dev_inject: "auto_dev i = auto_dev j \<longleftrightarrow> i = j"
  by (simp add: auto_dev_def id_text_inject)

text \<open>
  C30: What the clean-up script of an automatic device covers. For every policy rule, default route and firewall table that the set-up script
  of identifier \<open>j\<close> makes, and for the device that it addresses and brings up, the clean-up script of identifier \<open>i\<close> has the deletion with
  the same family, mark, table and device when \<open>i\<close> is \<open>j\<close>, and for no other \<open>i\<close>. The forwarding switches (\<open>sysctl\<close>) that the set-up
  turns on are not turned off, and the clean-up also tries to delete rules and routes of a table named by the bare identifier, which the
  set-up does not make.
\<close>

theorem cleanup_covers_setup:
  fixes remote_ip local_ip :: string and v6 :: "(string \<times> string) option"
  defines "setup \<equiv> \<lambda>j. set (auto_setup_cmd j remote_ip local_ip v6)" and "cleanup \<equiv> \<lambda>i. set (cleanup_cmd i)"
  shows "(\<forall>f mark table. RuleAdd f mark table \<in> setup j \<longrightarrow> (RuleDel f mark table \<in> cleanup i \<longleftrightarrow> i = j))
    \<and> (\<forall>f dev table. RouteReplace f dev table \<in> setup j \<longrightarrow> (RouteDel f dev table \<in> cleanup i \<longleftrightarrow> i = j))
    \<and> (\<forall>name dev mark ip ip6. NftTable name dev mark ip ip6 \<in> setup j \<longrightarrow> (NftDelete name \<in> cleanup i \<longleftrightarrow> i = j))
    \<and> (\<forall>addr peer dev. AddrReplace addr peer dev \<in> setup j \<or> LinkUp dev \<in> setup j \<longrightarrow>
        (LinkDown dev \<in> cleanup i \<longleftrightarrow> i = j) \<and> (LinkDelete dev \<in> cleanup i \<longleftrightarrow> i = j))
    \<and> Sysctl ''net.ipv4.ip_forward'' \<in> setup j \<and> (\<forall>key. Sysctl key \<notin> cleanup i)
    \<and> RuleDel f (mark_text i) (id_text i) \<in> cleanup i \<and> RuleAdd f (mark_text i) (id_text i) \<notin> setup i"
proof -
  note inj = id_text_inject mark_text_inject auto_dev_inject
  have "auto_table i \<noteq> id_text i" by (simp add: auto_table_def)
  then show ?thesis
    by (cases f; cases v6) (auto simp: setup_def cleanup_def auto_setup_cmd_def ipv6_cmds_def cleanup_cmd_def inj)
qed

theorem cleanup_covers_setup_witness:
  "RouteReplace Inet6 (auto_dev 7) (auto_table 7) \<in> set (auto_setup_cmd 7 ''169.254.0.8'' ''169.254.0.7'' (Some (''fd00::1'', ''fd00::'')))
   \<and> RouteDel Inet6 (auto_dev 7) (auto_table 7) \<in> set (cleanup_cmd 7) \<and> RouteDel Inet6 (auto_dev 7) (auto_table 7) \<notin> set (cleanup_cmd 8)"
proof -
  have "RouteReplace Inet6 (auto_dev 7) (auto_table 7) \<in> set (auto_setup_cmd 7 ''169.254.0.8'' ''169.254.0.7'' (Some (''fd00::1'', ''fd00::'')))"
    by (simp add: auto_setup_cmd_def ipv6_cmds_def)
  with cleanup_covers_setup [of 7 "''169.254.0.8''" "''169.254.0.7''" "Some (''fd00::1'', ''fd00::'')" 7 Inet]
    cleanup_covers_setup [of 7 "''169.254.0.8''" "''169.254.0.7''" "Some (''fd00::1'', ''fd00::'')" 8 Inet] show ?thesis by simp
qed

fun has_pattern :: "string \<Rightarrow> bool" where
  "has_pattern (a # b # s) \<longleftrightarrow> a = CHR ''%'' \<and> b = CHR ''i'' \<or> has_pattern (b # s)"
| "has_pattern _ \<longleftrightarrow> False"

lemma has_pattern_Cons: "\<not> has_pattern (a # x) \<Longrightarrow> \<not> has_pattern x"
  by (cases x) simp_all

lemma str_replace_skip:
  assumes "\<not> has_pattern (a # x)"
  shows "str_replace ''%i'' r (a # x @ ''%i'' @ s) = a # str_replace ''%i'' r (x @ ''%i'' @ s)"
    and "str_replace ''%i'' r (a # x) = a # str_replace ''%i'' r x"
  using assms by (subst str_replace.simps; cases x; auto simp: strip_prefix_def)+

lemma str_replace_next:
  "\<not> has_pattern x \<Longrightarrow> str_replace ''%i'' r (x @ ''%i'' @ s) = x @ r @ str_replace ''%i'' r s"
proof (induction x)
  case Nil
  show ?case by (subst str_replace.simps) (simp add: strip_prefix_def)
next
  case (Cons a x)
  then show ?case using has_pattern_Cons [of a x] str_replace_skip(1) [of a x] by simp
qed

lemma str_replace_none: "\<not> has_pattern x \<Longrightarrow> str_replace ''%i'' r x = x"
proof (induction x)
  case Nil
  show ?case by (subst str_replace.simps) simp
next
  case (Cons a x)
  then show ?case using has_pattern_Cons [of a x] str_replace_skip(2) [of a x] by simp
qed

text \<open>
  in a hook command every \<open>%i\<close> is replaced by the name of the TUN device and everything else
  is left alone, also when the name contains \<open>%i\<close> itself; without a device the command is unchanged.
\<close>

theorem expand_hook_cmd_replaces:
  assumes "list_all (\<lambda>x. \<not> has_pattern x) parts"
  shows "expand_hook_cmd (join_with ''%i'' parts) (Some name) = join_with name parts
    \<and> expand_hook_cmd cmd None = cmd"
proof -
  have "str_replace ''%i'' name (join_with ''%i'' parts) = join_with name parts"
    using assms
  proof (induction "''%i''" parts rule: join_with.induct)
    case (3 x y ys)
    then show ?case by (simp add: str_replace_next del: append_Cons append_Nil)
  qed (simp_all add: str_replace_none)
  then show ?thesis by (simp add: expand_hook_cmd_def)
qed

theorem expand_hook_cmd_replaces_witness:
  "expand_hook_cmd ''ip link set %i up && ip route add 10.0.0.0/8 dev %i'' (Some ''tun0'') =
     ''ip link set tun0 up && ip route add 10.0.0.0/8 dev tun0''"
  using expand_hook_cmd_replaces [of "[''ip link set '', '' up && ip route add 10.0.0.0/8 dev '', '''']" "''tun0''"]
  by simp

fun hook_text :: "hook_run \<Rightarrow> string" where
  "hook_text (RemoteRun cmd res) = cmd"
| "hook_text (LocalRun cmd res) = cmd"

text \<open>
  bringing the tunnel up runs the TUN script first, then the remote hook, then the local one,
  and the hooks succeed as a whole whatever becomes of each command: no answer of the remote or
  the local shell suppresses a later command or changes its text, and cleaning up touches nothing
  but an automatic device.
\<close>

theorem hooks_best_effort:
  "fst (run_post_up_hooks H cfg) = Ok () \<and> fst (run_cleanup_hooks H cfg) = Ok ()
   \<and> map hook_text (snd (run_post_up_hooks H cfg)) = map hook_text (snd (run_post_up_hooks H' cfg))
   \<and> length (snd (run_post_up_hooks H cfg)) =
       length (filter id [tun_setup cfg \<noteq> None, remote_post_up cfg \<noteq> None, local_post_up cfg \<noteq> None])
   \<and> (snd (run_cleanup_hooks H cfg) \<noteq> [] \<longleftrightarrow> (\<exists>tun i. tun_forward cfg = Some tun \<and> auto_id tun = Some i))"
  by (auto simp: run_post_up_hooks_def run_cleanup_hooks_def Let_def split: option.split)

end
