(* ===== verification/Supervisor.thy ===== *)
theory Supervisor
  imports Hooks Transition
begin

text \<open>
  The program of \<^verbatim>\<open>src/src/main.rs\<close>: resolving the configuration and the loop that connects,
  starts the tunnels, watches the link and reconnects. The loop is a labelled step relation, since
  the select over the monitor, the tunnel workers and Ctrl+C may go any way.
\<close>

section \<open>State\<close>

datatype log_level = INFO | DEBUG | TRACE

definition log_level_of :: "u8 \<Rightarrow> log_level" where
  "log_level_of v = (if v = 0 then INFO else if v = 1 then DEBUG else TRACE)"

text \<open>
  Where the loop is: connecting, starting the tunnels, running the post-up hooks, in the select, running the clean-up hooks and then
  deleting the link after a lost connection, asleep, doing the same two after Ctrl+C, and ended with an exit code
  or by the default action of SIGINT.
\<close>

datatype phase =
  Connecting | Starting | PostUp | Active | LostCleanup | LostDelete | Waiting | SigCleanup | SigDelete | Exited int | Killed

datatype main_action = PostUpHooks | CleanupHooks | DeleteLink string

text \<open>
  The tasks of the tunnel manager that the loop holds, the tasks that run although nobody holds
  them any more, the link monitors that run. Then the signal: whether the process has a handler for SIGINT, which stays once it is installed,
  whether the select that the loop is in has a listener, and whether that listener was notified. A future of \<open>ctrl_c\<close> does
  both, installing the handler and listening, when it is first polled. Last, what was done in order.
\<close>

record supervisor =
  phase :: phase
  held :: "tunnel_task list"
  leaked :: "tunnel_task list"
  monitors :: nat
  handler_installed :: bool
  listening :: bool
  signalled :: bool
  actions :: "main_action list"

definition main_start :: supervisor where
  "main_start = \<lparr>phase = Connecting, held = [], leaked = [], monitors = 0,
     handler_installed = False, listening = False, signalled = False, actions = []\<rparr>"

text \<open>\<open>TunnelManager::abort_all\<close> and the abortion of the monitor.\<close>

definition abort_all :: "supervisor \<Rightarrow> supervisor" where
  "abort_all s = s\<lparr>held := [], monitors := 0\<rparr>"

definition auto_tun :: "resolved_config \<Rightarrow> tun_forward_spec option" where
  "auto_tun cfg =
    (case tun_forward cfg of
       Some tun \<Rightarrow> (if auto_id tun \<noteq> None then Some tun else None) | None \<Rightarrow> None)"

definition cleanup_actions :: "resolved_config \<Rightarrow> main_action list" where
  "cleanup_actions cfg =
    (case auto_tun cfg of Some tun \<Rightarrow> [CleanupHooks, DeleteLink (local_tun tun)] | None \<Rightarrow> [])"

text \<open>The end of a select drops the listener of its \<open>ctrl_c\<close> branch, and a signal that it was told of.\<close>

definition leave_select :: "supervisor \<Rightarrow> supervisor" where
  "leave_select s = s\<lparr>listening := False, signalled := False\<rparr>"

definition connection_lost :: "resolved_config \<Rightarrow> supervisor \<Rightarrow> supervisor" where
  "connection_lost cfg s =
     (abort_all (leave_select s))\<lparr>phase := (if auto_tun cfg \<noteq> None then LostCleanup else Waiting)\<rparr>"

definition terminating :: "resolved_config \<Rightarrow> supervisor \<Rightarrow> supervisor" where
  "terminating cfg s =
     (abort_all (leave_select s))\<lparr>phase := (if auto_tun cfg \<noteq> None then SigCleanup else Exited 0)\<rparr>"

definition ended :: "phase \<Rightarrow> bool" where
  "ended p \<longleftrightarrow> p = Killed \<or> (\<exists>code. p = Exited code)"

section \<open>Steps\<close>

datatype event =
  ConnectOk | ConnectErr | StartOk | StartErr | HooksDone | PollCtrlC | MonitorEnds | WorkerExits | TakeCtrlC
| CleanupDone | LinkDeleted | ForceExit | SleepDone | CtrlC

text \<open>
  The tunnel manager's start has the answers of the server (\<open>register\<close>) and of the TUN set-up as
  arguments. The branches of a select are polled in any order and the first that is ready is taken, so the loop may leave a select
  whose \<open>ctrl_c\<close> branch was never polled, and a branch may win over a signal that has arrived. A clean-up ends when its hooks are
  done or its time is up. \<open>CtrlC\<close> is the arrival of a signal: it notifies the listener of the select; without a listener it is lost, or kills
  the process as long as no handler is installed.
\<close>

inductive main_step :: "resolved_config \<Rightarrow> supervisor \<Rightarrow> event \<Rightarrow> supervisor \<Rightarrow> bool"
  for cfg :: resolved_config where
  connect_ok: "phase s = Connecting \<Longrightarrow> main_step cfg s ConnectOk (s\<lparr>phase := Starting\<rparr>)"
| connect_err: "phase s = Connecting \<Longrightarrow> main_step cfg s ConnectErr (s\<lparr>phase := Waiting\<rparr>)"
| start_ok: "phase s = Starting \<Longrightarrow> TunnelManager_start register setup cfg = (Ok tasks, spawned) \<Longrightarrow>
    main_step cfg s StartOk (s\<lparr>phase := PostUp, held := tasks\<rparr>)"
| start_err: "phase s = Starting \<Longrightarrow> TunnelManager_start register setup cfg = (Err e, spawned) \<Longrightarrow>
    main_step cfg s StartErr (s\<lparr>phase := Waiting, leaked := leaked s @ spawned\<rparr>)"
| hooks_done: "phase s = PostUp \<Longrightarrow>
    main_step cfg s HooksDone
      (s\<lparr>phase := Active, monitors := monitors s + 1, actions := actions s @ [PostUpHooks]\<rparr>)"
| poll_ctrl_c: "phase s \<in> {Active, SigCleanup} \<Longrightarrow>
    main_step cfg s PollCtrlC (s\<lparr>handler_installed := True, listening := True\<rparr>)"
| monitor_ends: "phase s = Active \<Longrightarrow> main_step cfg s MonitorEnds (connection_lost cfg s)"
| worker_exits: "phase s = Active \<Longrightarrow> held s \<noteq> [] \<Longrightarrow> main_step cfg s WorkerExits (connection_lost cfg s)"
| take_ctrl_c: "phase s = Active \<Longrightarrow> signalled s \<Longrightarrow> main_step cfg s TakeCtrlC (terminating cfg s)"
| force_exit: "phase s = SigCleanup \<Longrightarrow> signalled s \<Longrightarrow>
    main_step cfg s ForceExit ((leave_select s)\<lparr>phase := Exited 130\<rparr>)"
| sig_cleanup: "phase s = SigCleanup \<Longrightarrow>
    main_step cfg s CleanupDone ((leave_select s)\<lparr>phase := SigDelete, actions := actions s @ [CleanupHooks]\<rparr>)"
| sig_deleted: "phase s = SigDelete \<Longrightarrow> auto_tun cfg = Some tun \<Longrightarrow>
    main_step cfg s LinkDeleted (s\<lparr>phase := Exited 0, actions := actions s @ [DeleteLink (local_tun tun)]\<rparr>)"
| lost_cleanup: "phase s = LostCleanup \<Longrightarrow>
    main_step cfg s CleanupDone (s\<lparr>phase := LostDelete, actions := actions s @ [CleanupHooks]\<rparr>)"
| lost_deleted: "phase s = LostDelete \<Longrightarrow> auto_tun cfg = Some tun \<Longrightarrow>
    main_step cfg s LinkDeleted (s\<lparr>phase := Waiting, actions := actions s @ [DeleteLink (local_tun tun)]\<rparr>)"
| sleep_done: "phase s = Waiting \<Longrightarrow> main_step cfg s SleepDone (s\<lparr>phase := Connecting\<rparr>)"
| ctrl_c_heard: "listening s \<Longrightarrow> main_step cfg s CtrlC (s\<lparr>signalled := True\<rparr>)"
| ctrl_c_lost: "\<not> listening s \<Longrightarrow> handler_installed s \<Longrightarrow> \<not> ended (phase s) \<Longrightarrow> main_step cfg s CtrlC s"
| ctrl_c_kills: "\<not> listening s \<Longrightarrow> \<not> handler_installed s \<Longrightarrow> \<not> ended (phase s) \<Longrightarrow>
    main_step cfg s CtrlC (s\<lparr>phase := Killed\<rparr>)"

text \<open>The program: an error of the configuration ends it before the loop.\<close>

definition main_runs :: "host_env \<Rightarrow> cli_args \<Rightarrow> event list \<Rightarrow> supervisor \<Rightarrow> bool" where
  "main_runs env args es s \<longleftrightarrow>
    (\<exists>cfg. from_args env args = Ok cfg \<and> run (main_step cfg) main_start es s)"

inductive_cases main_stepE: "main_step cfg s e t"

section \<open>Invariant\<close>

text \<open>
  What one connection leaves in the log: the post-up hooks, then for an automatic device the clean-up hooks and the deletion of
  the link. The log consists of complete connections and the part of the current one that the phase tells.
\<close>

definition connection_log :: "resolved_config \<Rightarrow> main_action list" where
  "connection_log cfg = PostUpHooks # cleanup_actions cfg"

fun current_log :: "phase \<Rightarrow> main_action list set" where
  "current_log Active = {[PostUpHooks]}"
| "current_log LostCleanup = {[PostUpHooks]}"
| "current_log SigCleanup = {[PostUpHooks]}"
| "current_log (Exited code) = (if code = 0 then {[]} else {[PostUpHooks]})"
| "current_log LostDelete = {[PostUpHooks, CleanupHooks]}"
| "current_log SigDelete = {[PostUpHooks, CleanupHooks]}"
| "current_log Killed = {[], [PostUpHooks], [PostUpHooks, CleanupHooks]}"
| "current_log _ = {[]}"

definition log_ok :: "resolved_config \<Rightarrow> supervisor \<Rightarrow> bool" where
  "log_ok cfg s \<longleftrightarrow> (\<exists>n. \<exists>rest \<in> current_log (phase s). actions s = concat (replicate n (connection_log cfg)) @ rest)"

definition main_inv :: "resolved_config \<Rightarrow> supervisor \<Rightarrow> bool" where
  "main_inv cfg s \<longleftrightarrow>
    (phase s \<notin> {PostUp, Active, Killed} \<longrightarrow> held s = [])
    \<and> (phase s \<noteq> Killed \<longrightarrow> monitors s = (if phase s = Active then 1 else 0))
    \<and> (listening s \<longrightarrow> phase s \<in> {Active, SigCleanup} \<and> handler_installed s) \<and> (signalled s \<longrightarrow> listening s)
    \<and> (phase s \<in> {LostCleanup, LostDelete, SigCleanup, SigDelete, Exited 130} \<longrightarrow> auto_tun cfg \<noteq> None)
    \<and> (phase s = Killed \<longrightarrow> \<not> handler_installed s)
    \<and> (\<forall>code. phase s = Exited code \<longrightarrow> code \<in> {0, 130} \<and> handler_installed s)
    \<and> (phase s \<in> {SigCleanup, SigDelete} \<longrightarrow> handler_installed s) \<and> log_ok cfg s"

lemma main_inv_start: "main_inv cfg main_start"
  by (auto simp: main_inv_def main_start_def log_ok_def intro: exI [of _ 0])

lemma log_keep: "log_ok cfg s \<Longrightarrow> actions t = actions s \<Longrightarrow> current_log (phase s) \<subseteq> current_log (phase t) \<Longrightarrow> log_ok cfg t"
  unfolding log_ok_def by (metis subset_iff)

lemma log_extend:
  assumes "log_ok cfg s" "current_log (phase s) = {rest}" "actions t = actions s @ new" "rest @ new \<in> current_log (phase t)"
  shows "log_ok cfg t"
proof -
  obtain n where "actions s = concat (replicate n (connection_log cfg)) @ rest" using assms(1,2) by (auto simp: log_ok_def)
  then have "actions t = concat (replicate n (connection_log cfg)) @ rest @ new" using assms(3) by simp
  with assms(4) show ?thesis unfolding log_ok_def by blast
qed

lemma log_complete:
  assumes "log_ok cfg s" "current_log (phase s) = {rest}" "actions t = actions s @ new" "rest @ new = connection_log cfg"
    "[] \<in> current_log (phase t)"
  shows "log_ok cfg t"
proof -
  obtain n where "actions s = concat (replicate n (connection_log cfg)) @ rest" using assms(1,2) by (auto simp: log_ok_def)
  then have "actions t = concat (replicate (Suc n) (connection_log cfg))"
    using assms(3,4) by (simp add: replicate_append_same [symmetric])
  with assms(5) show ?thesis unfolding log_ok_def by (intro exI [of _ "Suc n"]) auto
qed

lemma log_left:
  assumes "log_ok cfg s" "phase s = Active" "actions t = actions s" "phase t = (if auto_tun cfg \<noteq> None then p else q)"
    "current_log p = {[PostUpHooks]}" "current_log q = {[]}"
  shows "log_ok cfg t"
proof (cases "auto_tun cfg")
  case None
  with assms show ?thesis by - (rule log_complete [of cfg s "[PostUpHooks]"], simp_all add: connection_log_def cleanup_actions_def)
next
  case (Some tun)
  with assms show ?thesis by - (rule log_keep [of cfg s], simp_all)
qed

lemmas select_end_defs = connection_lost_def terminating_def abort_all_def leave_select_def

lemma log_step: "main_step cfg s e t \<Longrightarrow> log_ok cfg s \<Longrightarrow> log_ok cfg t"
proof (induction rule: main_step.induct)
  case (monitor_ends s)
  then show ?case by - (rule log_left [of cfg s _ LostCleanup Waiting], simp_all add: select_end_defs)
next
  case (worker_exits s)
  then show ?case by - (rule log_left [of cfg s _ LostCleanup Waiting], simp_all add: select_end_defs)
next
  case (take_ctrl_c s)
  then show ?case by - (rule log_left [of cfg s _ SigCleanup "Exited 0"], simp_all add: select_end_defs)
next
  case (sig_deleted s tun)
  then show ?case by - (rule log_complete [of cfg s "[PostUpHooks, CleanupHooks]"], simp_all add: connection_log_def cleanup_actions_def)
next
  case (lost_deleted s tun)
  then show ?case by - (rule log_complete [of cfg s "[PostUpHooks, CleanupHooks]"], simp_all add: connection_log_def cleanup_actions_def)
next
  case (ctrl_c_kills s)
  then have "current_log (phase s) \<subseteq> current_log Killed" by (cases "phase s") (auto simp: ended_def)
  with ctrl_c_kills show ?case by - (rule log_keep [of cfg s], simp_all)
next
  case (hooks_done s)
  then show ?case by - (rule log_extend [of cfg s "[]"], simp_all)
next
  case (sig_cleanup s)
  then show ?case by - (rule log_extend [of cfg s "[PostUpHooks]"], simp_all add: leave_select_def)
next
  case (lost_cleanup s)
  then show ?case by - (rule log_extend [of cfg s "[PostUpHooks]"], simp_all)
next
  case (force_exit s)
  then show ?case by - (rule log_keep [of cfg s], simp_all add: leave_select_def)
next
  case (poll_ctrl_c s)
  then show ?case by - (rule log_keep [of cfg s], simp_all)
next
  case (ctrl_c_heard s)
  then show ?case by - (rule log_keep [of cfg s], simp_all)
qed (erule log_keep; simp)+

lemma main_inv_step: "main_step cfg s e t \<Longrightarrow> main_inv cfg s \<Longrightarrow> main_inv cfg t"
proof -
  assume step: "main_step cfg s e t" and inv: "main_inv cfg s"
  then have "log_ok cfg t" using log_step by (auto simp: main_inv_def)
  with step inv show ?thesis
    by (cases rule: main_step.cases)
      (auto simp: main_inv_def connection_lost_def terminating_def abort_all_def leave_select_def ended_def)
qed

interpretation main_sys: step_invariant "main_step cfg" "\<lambda>_. True" "main_inv cfg" for cfg
  by unfold_locales (rule main_inv_step)

text \<open>Without a signal the loop is never notified and never ends.\<close>

definition undisturbed :: "supervisor \<Rightarrow> bool" where
  "undisturbed s \<longleftrightarrow> \<not> signalled s \<and> phase s \<notin> {SigCleanup, SigDelete} \<and> \<not> ended (phase s)"

interpretation quiet_sys: step_invariant "main_step cfg" "\<lambda>e. e \<noteq> CtrlC" undisturbed for cfg
  by unfold_locales (auto simp: undisturbed_def connection_lost_def terminating_def abort_all_def leave_select_def ended_def
      elim!: main_stepE split: if_split_asm)

lemma list_all_True [simp]: "list_all (\<lambda>_. True) xs"
  by (simp add: list_all_iff)

text \<open>
  C12: What holds at every moment of a run of the program, whatever happens in which order. One link monitor runs while the program is in its
  select and none otherwise. The tasks that the program holds are aborted before it cleans up, sleeps, reconnects or exits. The
  log of what it did is a sequence of complete connections, each with the post-up hooks followed, for an automatic device, by the
  clean-up hooks and the deletion of the link, and of the begun part of the last one; when the program connects again, starts tunnels or exits
  with code 0, the last one is complete, too. Without a Ctrl+C the program does not end; with one it ends with code 0, with code 130 during the
  clean-up of an automatic device, or is killed, and killed only while no select has ever listened to the signal.
\<close>

theorem supervisor_invariant:
  assumes "main_runs env args es s"
  shows "\<exists>cfg n rest. from_args env args = Ok cfg
    \<and> (phase s \<noteq> Killed \<longrightarrow> monitors s = (if phase s = Active then 1 else 0))
    \<and> (phase s \<notin> {PostUp, Active, Killed} \<longrightarrow> held s = [])
    \<and> actions s = concat (replicate n (PostUpHooks # cleanup_actions cfg)) @ rest
    \<and> rest \<in> {[], [PostUpHooks], [PostUpHooks, CleanupHooks]}
    \<and> (phase s \<in> {Connecting, Starting, PostUp, Waiting, Exited 0} \<longrightarrow> rest = [])
    \<and> (CtrlC \<notin> set es \<longrightarrow> \<not> ended (phase s))
    \<and> (\<forall>code. phase s = Exited code \<longrightarrow> code = 0 \<or> code = 130 \<and> auto_tun cfg \<noteq> None)
    \<and> (phase s = Killed \<longrightarrow> \<not> handler_installed s)"
proof -
  obtain cfg where c: "from_args env args = Ok cfg" "run (main_step cfg) main_start es s"
    using assms by (auto simp: main_runs_def)
  from main_sys.run_inv [OF c(2)] have inv: "main_inv cfg s" by (simp add: main_inv_start)
  then obtain n rest where r: "rest \<in> current_log (phase s)" "actions s = concat (replicate n (PostUpHooks # cleanup_actions cfg)) @ rest"
    unfolding main_inv_def log_ok_def connection_log_def by blast
  have "rest \<in> {[], [PostUpHooks], [PostUpHooks, CleanupHooks]}" "phase s \<in> {Connecting, Starting, PostUp, Waiting, Exited 0} \<longrightarrow> rest = []"
    using r(1) by (cases "phase s"; auto split: if_split_asm)+
  moreover have "CtrlC \<notin> set es \<longrightarrow> \<not> ended (phase s)"
    using quiet_sys.run_inv [OF c(2)] by (auto simp: list_all_iff undisturbed_def main_start_def ended_def)
  ultimately show ?thesis using inv c(1) r(2) unfolding main_inv_def by blast
qed

lemma start_possible:
  "\<exists>tasks. TunnelManager_start (\<lambda>_. Ok ()) (\<lambda>_. Ok ''tun0'') cfg = (Ok tasks, tasks)"
proof -
  have "\<exists>us. omap (\<lambda>_. Ok () :: (string, unit) outcome) xs = Ok us" for xs :: "remote_forward_spec list"
    by (induction xs) (auto simp: outcome_simps)
  then obtain us where "omap (\<lambda>_. Ok () :: (string, unit) outcome) (remote_forwards cfg) = Ok us" by blast
  then show ?thesis by (simp add: TunnelManager_start_def Let_def split: option.split)
qed

theorem supervisor_invariant_witness:
  "\<exists>s. main_runs no_home demo_args [ConnectErr, SleepDone, ConnectOk, StartOk, HooksDone, PollCtrlC, CtrlC, MonitorEnds] s
     \<and> phase s \<in> {Waiting, LostCleanup} \<and> held s = [] \<and> monitors s = 0"
proof -
  obtain cfg where c: "from_args no_home demo_args = Ok cfg" using from_args_demo by blast
  obtain tasks where t: "TunnelManager_start (\<lambda>_. Ok ()) (\<lambda>_. Ok ''tun0'') cfg = (Ok tasks, tasks)" using start_possible by blast
  define a where "a = main_start\<lparr>phase := PostUp, held := tasks\<rparr>"
  define b where "b = a\<lparr>phase := Active, monitors := 1, actions := [PostUpHooks], handler_installed := True, listening := True, signalled := True\<rparr>"
  have "run (main_step cfg) main_start [ConnectErr, SleepDone, ConnectOk, StartOk] a"
    using main_step.connect_err [of main_start cfg] main_step.sleep_done [of "main_start\<lparr>phase := Waiting\<rparr>" cfg]
      main_step.connect_ok [of "main_start\<lparr>phase := Connecting\<rparr>" cfg] main_step.start_ok [OF _ t, of "main_start\<lparr>phase := Starting\<rparr>"]
    by (auto simp: main_start_def a_def)
  moreover have "run (main_step cfg) a [HooksDone, PollCtrlC, CtrlC, MonitorEnds] (connection_lost cfg b)"
    using main_step.hooks_done [of a cfg] main_step.monitor_ends [of b cfg]
      main_step.poll_ctrl_c [of "a\<lparr>phase := Active, monitors := 1, actions := [PostUpHooks]\<rparr>" cfg]
      main_step.ctrl_c_heard [of "a\<lparr>phase := Active, monitors := 1, actions := [PostUpHooks], handler_installed := True, listening := True\<rparr>" cfg]
    by (auto simp: main_start_def a_def b_def)
  ultimately have "run (main_step cfg) main_start ([ConnectErr, SleepDone, ConnectOk, StartOk] @ [HooksDone, PollCtrlC, CtrlC, MonitorEnds])
      (connection_lost cfg b)" unfolding run_append by blast
  then have m: "main_runs no_home demo_args [ConnectErr, SleepDone, ConnectOk, StartOk, HooksDone, PollCtrlC, CtrlC, MonitorEnds]
      (connection_lost cfg b)" using c by (auto simp: main_runs_def simp del: run_Cons)
  have p: "phase (connection_lost cfg b) \<in> {Waiting, LostCleanup}" by (simp add: connection_lost_def)
  moreover have "phase (connection_lost cfg b) \<notin> {PostUp, Active, Killed} \<longrightarrow> held (connection_lost cfg b) = []"
    "phase (connection_lost cfg b) \<noteq> Killed \<longrightarrow> monitors (connection_lost cfg b) = (if phase (connection_lost cfg b) = Active then 1 else 0)"
    using supervisor_invariant [OF m] by blast+
  ultimately have "held (connection_lost cfg b) = []" "monitors (connection_lost cfg b) = 0" by auto
  with m p show ?thesis by blast
qed

section \<open>Lost signals and leaked tasks\<close>

definition offline :: "supervisor \<Rightarrow> bool" where
  "offline s \<longleftrightarrow> handler_installed s \<and> \<not> listening s \<and> phase s \<in> {Connecting, Waiting}"

interpretation offline_sys: step_invariant "main_step cfg" "\<lambda>e. e \<noteq> ConnectOk" offline for cfg
  by unfold_locales (auto simp: offline_def elim!: main_stepE)

text \<open>
  once a tunnel was up, Ctrl+C cannot end the program while the server is out of reach: as long
  as no connection succeeds it alternates between connecting and waiting, however often the signal
  arrives.
\<close>

theorem ctrl_c_lost_offline:
  assumes "run (main_step cfg) s es t" "ConnectOk \<notin> set es"
    and "handler_installed s" "\<not> listening s" "phase s \<in> {Connecting, Waiting}"
  shows "phase t \<in> {Connecting, Waiting}"
proof -
  have "list_all (\<lambda>e. e \<noteq> ConnectOk) es" using assms(2) by (auto simp: list_all_iff)
  with offline_sys.run_inv [OF assms(1)] assms(3-5) show ?thesis by (simp add: offline_def)
qed

theorem ctrl_c_lost_offline_witness:
  "\<exists>t. run (main_step demo_config) (main_start\<lparr>handler_installed := True\<rparr>) [CtrlC, ConnectErr, CtrlC, CtrlC] t
     \<and> phase t \<in> {Connecting, Waiting}"
proof -
  let ?s = "main_start\<lparr>handler_installed := True\<rparr>"
  have "run (main_step demo_config) ?s [CtrlC, ConnectErr, CtrlC, CtrlC] (?s\<lparr>phase := Waiting\<rparr>)"
    using main_step.ctrl_c_lost [of ?s demo_config] main_step.connect_err [of ?s demo_config]
      main_step.ctrl_c_lost [of "?s\<lparr>phase := Waiting\<rparr>" demo_config]
    by (auto simp: main_start_def ended_def)
  moreover from ctrl_c_lost_offline [OF this] have "phase (?s\<lparr>phase := Waiting\<rparr>) \<in> {Connecting, Waiting}"
    by (simp add: main_start_def)
  ultimately show ?thesis by blast
qed

interpretation leak_sys: step_invariant "main_step cfg" "\<lambda>_. True" "\<lambda>s. task \<in> set (leaked s)" for cfg task
  by unfold_locales (auto simp: abort_all_def connection_lost_def terminating_def leave_select_def elim!: main_stepE)

lemma start_spawns:
  assumes "TunnelManager_start register setup cfg = (r, spawned)" "spec \<in> set (local_forwards cfg)"
  shows "LocalTask spec \<in> set spawned"
  using assms unfolding TunnelManager_start_def Let_def
  by (auto split: outcome.splits option.splits if_splits)

text \<open>
  when the tunnels fail to start, the listeners of the local forwardings stay behind for ever.
  Since an address on which one task listens cannot be bound by another, every later attempt to
  serve the same forwarding fails, however often the program reconnects.
\<close>

theorem leaked_listener_blocks:
  assumes "main_step cfg s StartErr t" "run (main_step cfg) t es u"
    and "spec \<in> set (local_forwards cfg)"
    and bound: "\<And>l. LocalTask l \<in> set (leaked u) \<Longrightarrow> \<not> bind_ok (bind_text (l_bind_addr l) (l_bind_port l))"
  shows "run_local_forward bind_ok open_ok spec conns = Err (bind_text (l_bind_addr spec) (l_bind_port spec))"
proof -
  have "LocalTask spec \<in> set (leaked t)"
    using assms(1) start_spawns [OF _ assms(3)] by (auto elim: main_stepE)
  with leak_sys.run_inv [OF assms(2)] have "LocalTask spec \<in> set (leaked u)" by simp
  from bound [OF this] show ?thesis by (simp add: run_local_forward_def)
qed

theorem leaked_listener_blocks_witness:
  "\<exists>t u. main_step demo_config (main_start\<lparr>phase := Starting\<rparr>) StartErr t
     \<and> run (main_step demo_config) t [SleepDone] u
     \<and> run_local_forward (\<lambda>_. False) (\<lambda>_. True)
         \<lparr>l_bind_addr = ''127.0.0.1'', l_bind_port = 1, l_target_host = ''h'', l_target_port = 2\<rparr> [] =
       Err (bind_text ''127.0.0.1'' 1)"
proof -
  let ?l = "\<lparr>l_bind_addr = ''127.0.0.1'', l_bind_port = 1, l_target_host = ''h'', l_target_port = 2\<rparr>"
  have l: "?l \<in> set (local_forwards demo_config)" by (simp add: demo_config_def mk_resolved_def)
  obtain spawned where "TunnelManager_start (\<lambda>_. Err ''refused'') (\<lambda>_. Ok ''tun0'') demo_config =
      (Err ''refused'', spawned)"
    by (simp add: TunnelManager_start_def demo_config_def mk_resolved_def Let_def)
  from main_step.start_err [OF _ this, of "main_start\<lparr>phase := Starting\<rparr>"]
  obtain t where t: "main_step demo_config (main_start\<lparr>phase := Starting\<rparr>) StartErr t" "phase t = Waiting"
    by auto
  then have u: "run (main_step demo_config) t [SleepDone] (t\<lparr>phase := Connecting\<rparr>)"
    using main_step.sleep_done by auto
  from leaked_listener_blocks [OF t(1) u l, of "\<lambda>_. False" "\<lambda>_. True" "[]"] t(1) u show ?thesis by auto
qed

end
