(* ===== verification/Channel_Stream.thy ===== *)
theory Channel_Stream
  imports Client_Session
begin

text \<open>
  A channel in the hands of the application (\<open>channels/\<close>): the requests of a \<open>Channel\<close>, each of which is one message to the
  session, and the polled writer and reader of a stream. A poll is either pending or ready. What the runtime
  decides at a poll is an argument: whether the lock of the window is free, and whether the queue of the session has room or
  is closed. Proved: bytes written at one end are the bytes read at the other, with the polls of both ends, the changes of the window and the
  deliveries of the sessions in any order.
\<close>

section \<open>Requests\<close>

definition send_msg :: "bool \<Rightarrow> channel_id \<Rightarrow> channel_msg \<Rightarrow> (error, channel_id \<times> channel_msg) outcome" where
  "send_msg alive i m = (if alive then Ok (i, m) else Err SendError)"

definition Channel_request_pty where
  "Channel_request_pty alive i want_reply term col_width row_height pix_width pix_height terminal_modes =
     send_msg alive i (RequestPty want_reply term col_width row_height pix_width pix_height terminal_modes)"

definition Channel_request_shell where
  "Channel_request_shell alive i want_reply = send_msg alive i (RequestShell want_reply)"

definition Channel_exec where
  "Channel_exec alive i want_reply command = send_msg alive i (Exec want_reply command)"

definition Channel_signal where
  "Channel_signal alive i sg = send_msg alive i (Signal sg)"

definition Channel_request_subsystem where
  "Channel_request_subsystem alive i want_reply nm = send_msg alive i (RequestSubsystem want_reply nm)"

definition Channel_request_x11 where
  "Channel_request_x11 alive i want_reply single_connection protocol cookie screen =
     send_msg alive i (RequestX11 want_reply single_connection protocol cookie screen)"

definition Channel_set_env where
  "Channel_set_env alive i want_reply variable_name variable_value = send_msg alive i (SetEnv want_reply variable_name variable_value)"

definition Channel_window_change where
  "Channel_window_change alive i col_width row_height pix_width pix_height =
     send_msg alive i (WindowChange col_width row_height pix_width pix_height)"

definition Channel_agent_forward where
  "Channel_agent_forward alive i want_reply = send_msg alive i (AgentForward want_reply)"

definition Channel_eof where
  "Channel_eof alive i = send_msg alive i Eof"

definition Channel_close where
  "Channel_close alive i = send_msg alive i Close"

section \<open>The writer\<close>

datatype 'a poll = PollPending | PollReady 'a

datatype permit = Full | Room | Gone

record channel_tx =
  tx_id :: channel_id
  tx_send_fut :: "(channel_msg \<times> nat) option"
  tx_window_fut :: bool
  tx_window :: u32
  tx_max_packet_size :: u32
  tx_ext :: "u32 option"

definition ChannelTx_new :: "channel_id \<Rightarrow> u32 \<Rightarrow> u32 \<Rightarrow> u32 option \<Rightarrow> channel_tx" where
  "ChannelTx_new i window max_packet ext = \<lparr>tx_id = i, tx_send_fut = None, tx_window_fut = False, tx_window = window,
     tx_max_packet_size = max_packet, tx_ext = ext\<rparr>"

definition tx_message :: "u32 option \<Rightarrow> bytes \<Rightarrow> channel_msg" where
  "tx_message ext d = (case ext of None \<Rightarrow> Data d | Some x \<Rightarrow> ExtendedData d x)"

definition poll_mk_msg :: "bool \<Rightarrow> bytes \<Rightarrow> channel_tx \<Rightarrow> (channel_msg \<times> nat) poll \<times> channel_tx" where
  "poll_mk_msg unlocked buf self =
    (if \<not> unlocked then (PollPending, self\<lparr>tx_window_fut := True\<rparr>)
     else
       (let self1 = self\<lparr>tx_window_fut := False\<rparr>;
            writable = min (min (tx_max_packet_size self) (tx_window self)) (of_nat (length buf))
        in if writable = 0 then (PollPending, self1)
           else (PollReady (tx_message (tx_ext self) (take (unat writable) buf), unat writable),
                 self1\<lparr>tx_window := tx_window self - writable\<rparr>)))"

text \<open>The result of the reservation of a place in the queue; a message that gets one is sent.\<close>

definition handle_write_result ::
  "permit \<Rightarrow> channel_msg \<Rightarrow> nat \<Rightarrow> channel_tx \<Rightarrow> (error, nat) outcome poll \<times> (channel_id \<times> channel_msg) list \<times> channel_tx" where
  "handle_write_result p m writable self =
    (case p of
       Full \<Rightarrow> (PollPending, [], self)
     | Room \<Rightarrow> (PollReady (Ok writable), [(tx_id self, m)], self\<lparr>tx_send_fut := None\<rparr>)
     | Gone \<Rightarrow> (PollReady (Err IO), [], self\<lparr>tx_send_fut := None\<rparr>))"

definition poll_write ::
  "bool \<Rightarrow> permit \<Rightarrow> bytes \<Rightarrow> channel_tx \<Rightarrow> (error, nat) outcome poll \<times> (channel_id \<times> channel_msg) list \<times> channel_tx" where
  "poll_write unlocked p buf self =
    (case tx_send_fut self of
       Some (m, writable) \<Rightarrow> handle_write_result p m writable self
     | None \<Rightarrow>
         (case poll_mk_msg unlocked buf self of
            (PollPending, self1) \<Rightarrow> (PollPending, [], self1)
          | (PollReady (m, writable), self1) \<Rightarrow>
              handle_write_result p m writable (self1\<lparr>tx_send_fut := Some (m, writable)\<rparr>)))"

definition poll_shutdown ::
  "permit \<Rightarrow> channel_tx \<Rightarrow> (error, nat) outcome poll \<times> (channel_id \<times> channel_msg) list \<times> channel_tx" where
  "poll_shutdown p self =
    (case tx_send_fut self of
       Some x \<Rightarrow> handle_write_result p Eof 0 self
     | None \<Rightarrow> handle_write_result p Eof 0 (self\<lparr>tx_send_fut := Some (Eof, 0)\<rparr>))"

section \<open>The reader\<close>

record channel_rx =
  rx_receiver :: "channel_msg list"
  rx_closed :: bool
  rx_buffer :: "(channel_msg \<times> nat) option"
  rx_ext :: "u32 option"

text \<open>The payload of a message for the reader of \<open>ext\<close>: the data of its own stream.\<close>

definition rx_payload :: "u32 option \<Rightarrow> channel_msg \<Rightarrow> bytes option" where
  "rx_payload ext m =
    (case (m, ext) of
       (Data d, None) \<Rightarrow> Some d
     | (ExtendedData d x, Some target) \<Rightarrow> if x = target then Some d else None
     | _ \<Rightarrow> None)"

text \<open>
  Reading a message from index \<open>idx\<close> on into a buffer with room for \<open>remaining\<close> bytes; any other message is dropped.
  A ready poll that has put no bytes is the end of the stream.
\<close>

definition rx_take :: "nat \<Rightarrow> channel_msg \<Rightarrow> nat \<Rightarrow> channel_rx \<Rightarrow> unit poll \<times> bytes \<times> channel_rx" where
  "rx_take remaining m idx self =
    (case rx_payload (rx_ext self) m of
       Some d \<Rightarrow>
         (let readable = min remaining (length d - idx); idx' = idx + readable
          in (PollReady (), take readable (drop idx d), if idx' \<noteq> length d then self\<lparr>rx_buffer := Some (m, idx')\<rparr> else self))
     | None \<Rightarrow> if m = Eof then (PollReady (), [], self\<lparr>rx_closed := True\<rparr>) else (PollPending, [], self))"

definition ChannelRx_poll_read :: "nat \<Rightarrow> channel_rx \<Rightarrow> unit poll \<times> bytes \<times> channel_rx" where
  "ChannelRx_poll_read remaining self =
    (case rx_buffer self of
       Some (m, idx) \<Rightarrow> rx_take remaining m idx (self\<lparr>rx_buffer := None\<rparr>)
     | None \<Rightarrow>
         (case rx_receiver self of
            m # q \<Rightarrow> rx_take remaining m 0 (self\<lparr>rx_receiver := q\<rparr>)
          | [] \<Rightarrow> if rx_closed self then (PollReady (), [], self) else (PollPending, [], self)))"

section \<open>Channels and streams\<close>

text \<open>
  What an application holds: the channel with its receiver and its window, which it shares with the session, and the stream of a
  channel, which is a writer and a reader.
\<close>

record channel_handle =
  ch_id :: channel_id
  ch_receiver :: "channel_msg list"
  ch_closed :: bool
  ch_max_packet_size :: u32
  ch_window_size :: u32

definition Channel_new :: "channel_id \<Rightarrow> u32 \<Rightarrow> u32 \<Rightarrow> channel_handle" where
  "Channel_new i max_packet window = \<lparr>ch_id = i, ch_receiver = [], ch_closed = False, ch_max_packet_size = max_packet, ch_window_size = window\<rparr>"

definition Channel_writable_packet_size :: "channel_handle \<Rightarrow> nat" where
  "Channel_writable_packet_size self = unat (min (ch_max_packet_size self) (ch_window_size self))"

text \<open>\<open>wait\<close>: the next message, or nothing once the session has dropped its end.\<close>

definition Channel_wait :: "channel_handle \<Rightarrow> channel_msg option poll \<times> channel_handle" where
  "Channel_wait self =
    (case ch_receiver self of
       m # q \<Rightarrow> (PollReady (Some m), self\<lparr>ch_receiver := q\<rparr>)
     | [] \<Rightarrow> (if ch_closed self then PollReady None else PollPending, self))"

definition ChannelRx_new :: "channel_handle \<Rightarrow> u32 option \<Rightarrow> channel_rx" where
  "ChannelRx_new ch ext = \<lparr>rx_receiver = ch_receiver ch, rx_closed = ch_closed ch, rx_buffer = None, rx_ext = ext\<rparr>"

definition make_reader_ext :: "u32 option \<Rightarrow> channel_handle \<Rightarrow> channel_rx" where
  "make_reader_ext ext self = ChannelRx_new self ext"

definition make_reader :: "channel_handle \<Rightarrow> channel_rx" where
  "make_reader self = make_reader_ext None self"

definition make_writer_ext :: "u32 option \<Rightarrow> channel_handle \<Rightarrow> channel_tx" where
  "make_writer_ext ext self = ChannelTx_new (ch_id self) (ch_window_size self) (ch_max_packet_size self) ext"

definition make_writer :: "channel_handle \<Rightarrow> channel_tx" where
  "make_writer self = make_writer_ext None self"

record channel_stream =
  cs_tx :: channel_tx
  cs_rx :: channel_rx

definition into_stream :: "channel_handle \<Rightarrow> channel_stream" where
  "into_stream self = \<lparr>cs_tx = ChannelTx_new (ch_id self) (ch_window_size self) (ch_max_packet_size self) None, cs_rx = ChannelRx_new self None\<rparr>"

definition ChannelStream_poll_read :: "nat \<Rightarrow> channel_stream \<Rightarrow> unit poll \<times> bytes \<times> channel_stream" where
  "ChannelStream_poll_read remaining self =
    (let (r, out, rx) = ChannelRx_poll_read remaining (cs_rx self) in (r, out, self\<lparr>cs_rx := rx\<rparr>))"

definition ChannelStream_poll_write ::
  "bool \<Rightarrow> permit \<Rightarrow> bytes \<Rightarrow> channel_stream \<Rightarrow> (error, nat) outcome poll \<times> (channel_id \<times> channel_msg) list \<times> channel_stream" where
  "ChannelStream_poll_write unlocked p buf self =
    (let (r, out, tx) = poll_write unlocked p buf (cs_tx self) in (r, out, self\<lparr>cs_tx := tx\<rparr>))"

definition ChannelStream_poll_shutdown ::
  "permit \<Rightarrow> channel_stream \<Rightarrow> (error, nat) outcome poll \<times> (channel_id \<times> channel_msg) list \<times> channel_stream" where
  "ChannelStream_poll_shutdown p self =
    (let (r, out, tx) = poll_shutdown p (cs_tx self) in (r, out, self\<lparr>cs_tx := tx\<rparr>))"

section \<open>Writing a buffer\<close>

text \<open>
  How a caller writes a buffer: it polls with what is left until the writer has taken every byte. Between polls the session may
  set the window.
\<close>

fun write_polls ::
  "(bool \<times> permit \<times> u32 option) list \<Rightarrow> bytes \<Rightarrow> channel_tx \<Rightarrow> (channel_id \<times> channel_msg) list \<times> bytes \<times> channel_tx" where
  "write_polls [] buf self = ([], buf, self)"
| "write_polls ((unlocked, p, window) # es) buf self =
    (if buf = [] then ([], [], self)
     else
       (let (r, sent, self1) = poll_write unlocked p buf (case window of Some w \<Rightarrow> self\<lparr>tx_window := w\<rparr> | None \<Rightarrow> self)
        in case r of
             PollReady (Ok n) \<Rightarrow> (let (more, left, self2) = write_polls es (drop n buf) self1 in (sent @ more, left, self2))
           | PollPending \<Rightarrow> write_polls es buf self1
           | _ \<Rightarrow> (sent, buf, self1)))"

text \<open>
  A caller that reads with buffers of the given sizes, from a reader or a stream whose messages have arrived: the bytes of all polls,
  ready or pending.
\<close>

fun read_polls :: "(nat \<Rightarrow> 's \<Rightarrow> unit poll \<times> bytes \<times> 's) \<Rightarrow> nat list \<Rightarrow> 's \<Rightarrow> bytes \<times> 's" where
  "read_polls read [] self = ([], self)"
| "read_polls read (n # ns) self =
    (let (_, out, self1) = read n self; (more, self2) = read_polls read ns self1 in (out @ more, self2))"

text \<open>
  \<open>data\<close> and \<open>extended_data\<close>: the runtime copies a reader into a writer of the channel, one buffer after the other. Given are the
  buffers read, each with the polls of its writing; the result tells whether everything was written.
\<close>

fun copy_into :: "(bytes \<times> (bool \<times> permit \<times> u32 option) list) list \<Rightarrow> channel_tx \<Rightarrow> (channel_id \<times> channel_msg) list \<times> bool" where
  "copy_into [] tx = ([], True)"
| "copy_into ((buf, es) # bufs) tx =
    (let (sent, left, tx1) = write_polls es buf tx
     in if left \<noteq> [] then (sent, False) else (let (more, complete) = copy_into bufs tx1 in (sent @ more, complete)))"

definition send_data where
  "send_data ext bufs self = copy_into bufs (make_writer_ext ext self)"

definition Channel_data where
  "Channel_data bufs self = send_data None bufs self"

definition Channel_extended_data where
  "Channel_extended_data ext bufs self = send_data (Some ext) bufs self"

section \<open>Two ends\<close>

text \<open>
  A buffer on its way from the stream of one end to the stream of the other, one event at a time: a poll of the writer with what is
  left, a new window, a delivery, a poll of the reader. The two sessions between the ends take the data messages of the
  channel and deliver their bytes in order, in messages of their own choice; a closed receiver takes no message, and its bytes are lost. A caller
  stops writing at an error.
\<close>

datatype pipe_event = WritePoll bool permit | SetWindow u32 | Deliver nat | ReadPoll nat

record pipe =
  pp_channel :: channel_id
  pp_writer :: channel_stream
  pp_left :: bytes
  pp_failed :: bool
  pp_flight :: bytes
  pp_reader :: channel_stream
  pp_got :: bytes

definition data_for :: "channel_id \<Rightarrow> (channel_id \<times> channel_msg) list \<Rightarrow> bytes" where
  "data_for i ms = concat (map (\<lambda>(j, m). case m of Data d \<Rightarrow> if j = i then d else [] | _ \<Rightarrow> []) ms)"

fun pipe_step :: "pipe_event \<Rightarrow> pipe \<Rightarrow> pipe" where
  "pipe_step (WritePoll unlocked p) s =
    (if pp_left s = [] \<or> pp_failed s then s
     else
       (let (r, out, w) = ChannelStream_poll_write unlocked p (pp_left s) (pp_writer s);
            s1 = s\<lparr>pp_writer := w, pp_flight := pp_flight s @ data_for (pp_channel s) out\<rparr>
        in case r of
             PollPending \<Rightarrow> s1
           | PollReady (Ok n) \<Rightarrow> s1\<lparr>pp_left := drop n (pp_left s)\<rparr>
           | PollReady _ \<Rightarrow> s1\<lparr>pp_failed := True\<rparr>))"
| "pipe_step (SetWindow w) s = s\<lparr>pp_writer := (pp_writer s)\<lparr>cs_tx := (cs_tx (pp_writer s))\<lparr>tx_window := w\<rparr>\<rparr>\<rparr>"
| "pipe_step (Deliver n) s =
    (let d = take n (pp_flight s); rx = cs_rx (pp_reader s); s1 = s\<lparr>pp_flight := drop n (pp_flight s)\<rparr>
     in if d = [] \<or> rx_closed rx then s1
        else s1\<lparr>pp_reader := (pp_reader s)\<lparr>cs_rx := rx\<lparr>rx_receiver := rx_receiver rx @ [Data d]\<rparr>\<rparr>\<rparr>)"
| "pipe_step (ReadPoll n) s =
    (let (_, out, rd) = ChannelStream_poll_read n (pp_reader s) in s\<lparr>pp_reader := rd, pp_got := pp_got s @ out\<rparr>)"

definition pipe_start :: "channel_handle \<Rightarrow> channel_handle \<Rightarrow> bytes \<Rightarrow> pipe" where
  "pipe_start ch peer buf = \<lparr>pp_channel = ch_id ch, pp_writer = into_stream ch, pp_left = buf, pp_failed = False, pp_flight = [],
     pp_reader = into_stream peer, pp_got = []\<rparr>"

section \<open>What is written is sent\<close>

definition msg_bytes :: "channel_msg \<Rightarrow> bytes" where
  "msg_bytes m = (case m of Data d \<Rightarrow> d | ExtendedData d _ \<Rightarrow> d | _ \<Rightarrow> [])"

definition sent_bytes :: "(channel_id \<times> channel_msg) list \<Rightarrow> bytes" where
  "sent_bytes ms = concat (map (msg_bytes \<circ> snd) ms)"

text \<open>A message that waits for room holds the bytes that the caller still offers.\<close>

definition tx_ok :: "bytes \<Rightarrow> channel_tx \<Rightarrow> bool" where
  "tx_ok buf self = (case tx_send_fut self of
     None \<Rightarrow> True | Some (m, n) \<Rightarrow> m = tx_message (tx_ext self) (take n buf) \<and> 0 < n \<and> n \<le> length buf)"

lemma msg_bytes_tx [simp]: "msg_bytes (tx_message ext d) = d"
  by (simp add: msg_bytes_def tx_message_def split: option.split)

lemma unat_min_le: "unat (min a (of_nat k :: u32)) \<le> k"
proof -
  have "min a (of_nat k) \<le> (of_nat k :: u32)" by simp
  then have "unat (min a (of_nat k)) \<le> unat (of_nat k :: u32)" by (simp only: word_le_nat_alt)
  also have "\<dots> \<le> k" by (simp add: unat_of_nat)
  finally show ?thesis .
qed

lemma poll_mk_msg_ready:
  assumes "poll_mk_msg unlocked buf self = (PollReady (m, n), self1)"
  shows "m = tx_message (tx_ext self) (take n buf)" "0 < n" "n \<le> length buf" "n \<le> unat (tx_max_packet_size self)"
    "n \<le> unat (tx_window self)" "tx_ext self1 = tx_ext self" "tx_id self1 = tx_id self" "unat (tx_window self1) = unat (tx_window self) - n"
proof -
  let ?w = "min (min (tx_max_packet_size self) (tx_window self)) (of_nat (length buf))"
  have d: "?w \<noteq> 0" "m = tx_message (tx_ext self) (take (unat ?w) buf)" "n = unat ?w"
    "self1 = self\<lparr>tx_window_fut := False, tx_window := tx_window self - ?w\<rparr>"
    using assms by (auto simp: poll_mk_msg_def Let_def split: if_split_asm)
  show "m = tx_message (tx_ext self) (take n buf)" "tx_ext self1 = tx_ext self" "tx_id self1 = tx_id self" using d by simp_all
  show "0 < n" using d(1,3) by (simp add: unat_gt_0)
  show "n \<le> length buf" using d(3) unat_min_le by simp
  have "?w \<le> tx_max_packet_size self" "?w \<le> tx_window self" by (simp_all add: min.coboundedI1)
  then show "n \<le> unat (tx_max_packet_size self)" and w: "n \<le> unat (tx_window self)" using d(3) by (simp_all only: word_le_nat_alt)
  from \<open>?w \<le> tx_window self\<close> show "unat (tx_window self1) = unat (tx_window self) - n" using d(3,4) by (simp add: unat_sub)
qed

lemma poll_mk_msg_pending: "poll_mk_msg unlocked buf self = (PollPending, self1) \<Longrightarrow> tx_send_fut self1 = tx_send_fut self \<and> tx_ext self1 = tx_ext self
    \<and> tx_id self1 = tx_id self"
  by (auto simp: poll_mk_msg_def Let_def split: if_split_asm)

lemma poll_write_step:
  assumes "poll_write unlocked p buf self = (r, sent, self1)" "tx_ok buf self"
  shows "tx_ext self1 = tx_ext self"
    "r = PollPending \<Longrightarrow> sent = [] \<and> tx_ok buf self1"
    "r = PollReady (Ok n) \<Longrightarrow> sent = [(tx_id self, tx_message (tx_ext self) (take n buf))] \<and> 0 < n \<and> n \<le> length buf \<and> tx_send_fut self1 = None"
proof -
  have "tx_ext self1 = tx_ext self \<and> (r = PollPending \<longrightarrow> sent = [] \<and> tx_ok buf self1) \<and> (\<forall>n. r = PollReady (Ok n) \<longrightarrow>
      sent = [(tx_id self, tx_message (tx_ext self) (take n buf))] \<and> 0 < n \<and> n \<le> length buf \<and> tx_send_fut self1 = None)"
  proof (cases "tx_send_fut self")
    case (Some x)
    with assms show ?thesis
      by (cases p; cases x) (auto simp: poll_write_def handle_write_result_def tx_ok_def)
  next
    case None
    obtain q self2 where q: "poll_mk_msg unlocked buf self = (q, self2)" by fastforce
    show ?thesis
    proof (cases q)
      case PollPending
      with assms None q poll_mk_msg_pending [of unlocked buf self self2] show ?thesis by (auto simp: poll_write_def tx_ok_def)
    next
      case (PollReady x)
      then obtain m n where x: "poll_mk_msg unlocked buf self = (PollReady (m, n), self2)" using q by (cases x) auto
      from poll_mk_msg_ready [OF x] assms(1) None x show ?thesis
        by (cases p) (auto simp: poll_write_def handle_write_result_def tx_ok_def)
    qed
  qed
  then show "tx_ext self1 = tx_ext self" "r = PollPending \<Longrightarrow> sent = [] \<and> tx_ok buf self1"
    "r = PollReady (Ok n) \<Longrightarrow> sent = [(tx_id self, tx_message (tx_ext self) (take n buf))] \<and> 0 < n \<and> n \<le> length buf \<and> tx_send_fut self1 = None"
    by blast+
qed

lemma sent_bytes_append [simp]: "sent_bytes (a @ b) = sent_bytes a @ sent_bytes b" "sent_bytes [] = []"
  "sent_bytes ((i, m) # a) = msg_bytes m @ sent_bytes a"
  by (simp_all add: sent_bytes_def)

lemma tx_ok_window [simp]: "tx_ok buf (self\<lparr>tx_window := w\<rparr>) = tx_ok buf self"
  by (simp add: tx_ok_def split: option.split)

lemma handle_write_Err: "poll_write unlocked p buf self = (PollReady (Err e), sent, self1) \<Longrightarrow> sent = [] \<and> tx_send_fut self1 = None"
  by (auto simp: poll_write_def handle_write_result_def split: option.split_asm prod.split_asm poll.split_asm permit.split_asm)

lemma handle_write_total: "poll_write unlocked p buf self = (PollReady r, sent, self1) \<Longrightarrow> (\<exists>n. r = Ok n) \<or> r = Err IO"
  by (auto simp: poll_write_def handle_write_result_def split: option.split_asm prod.split_asm poll.split_asm permit.split_asm)

lemma write_polls_stream:
  "write_polls es buf self = (sent, left, self') \<Longrightarrow> tx_ok buf self \<Longrightarrow> sent_bytes sent @ left = buf
     \<and> (\<forall>x \<in> set sent. \<exists>d. d \<noteq> [] \<and> snd x = tx_message (tx_ext self) d) \<and> tx_ok left self' \<and> tx_ext self' = tx_ext self"
proof (induction es arbitrary: buf self sent left self')
  case (Cons e es)
  obtain unlocked p w where e: "e = (unlocked, p, w)" by (cases e)
  show ?case
  proof (cases "buf = []")
    case False
    define self0 where "self0 = (case w of Some x \<Rightarrow> self\<lparr>tx_window := x\<rparr> | None \<Rightarrow> self)"
    have ok0: "tx_ok buf self0" "tx_ext self0 = tx_ext self" using Cons.prems(2) by (auto simp: self0_def split: option.split)
    obtain r out self1 where r: "poll_write unlocked p buf self0 = (r, out, self1)" by (metis prod_cases3)
    note step = poll_write_step [OF r ok0(1)]
    show ?thesis
    proof (cases r)
      case PollPending
      with r e False Cons.prems(1) have "write_polls es buf self1 = (sent, left, self')" by (simp add: self0_def)
      from Cons.IH [OF this] step PollPending ok0(2) show ?thesis by auto
    next
      case (PollReady res)
      consider n where "res = Ok n" | "res = Err IO" using handle_write_total r PollReady by blast
      then show ?thesis
      proof cases
        case (1 n)
        obtain more left' self2 where m: "write_polls es (drop n buf) self1 = (more, left', self2)" by (metis prod_cases3)
        have "tx_ok (drop n buf) self1" using step(3) PollReady 1 by (simp add: tx_ok_def)
        from Cons.IH [OF m this] have IH: "sent_bytes more @ left' = drop n buf" "\<forall>x \<in> set more. \<exists>d. d \<noteq> [] \<and> snd x = tx_message (tx_ext self) d"
          "tx_ok left' self2" "tx_ext self2 = tx_ext self"
          using step(1) ok0(2) by simp_all
        have s: "sent = out @ more" "left = left'" "self' = self2" using r e False Cons.prems(1) PollReady 1 m by (simp_all add: self0_def)
        have o: "out = [(tx_id self0, tx_message (tx_ext self) (take n buf))]" "0 < n" using step(3) PollReady 1 ok0(2) by simp_all
        from o False have "\<exists>d. d \<noteq> [] \<and> tx_message (tx_ext self) (take n buf) = tx_message (tx_ext self) d" by (intro exI [of _ "take n buf"]) simp
        with IH s o show ?thesis by auto
      next
        case 2
        with r e False Cons.prems(1) PollReady have s: "sent = out" "left = buf" "self' = self1" by (simp_all add: self0_def)
        from handle_write_Err [OF r [unfolded PollReady 2]] step(1) ok0(2) s show ?thesis by (simp add: tx_ok_def)
      qed
    qed
  qed (use Cons.prems e in auto)
qed simp

lemma copy_into_stream:
  "copy_into bufs tx = (sent, complete) \<Longrightarrow> tx_ok [] tx \<Longrightarrow>
     (\<exists>rest. sent_bytes sent @ rest = concat (map fst bufs) \<and> (complete \<longrightarrow> rest = []))
     \<and> (\<forall>x \<in> set sent. \<exists>d. d \<noteq> [] \<and> snd x = tx_message (tx_ext tx) d)"
proof (induction bufs arbitrary: tx sent complete)
  case (Cons x bufs)
  obtain buf es where x: "x = (buf, es)" by (cases x)
  obtain out left tx1 where w: "write_polls es buf tx = (out, left, tx1)" by (metis prod_cases3)
  have "tx_ok buf tx" using Cons.prems(2) by (auto simp: tx_ok_def split: option.splits)
  note step = write_polls_stream [OF w this]
  show ?case
  proof (cases "left = []")
    case True
    obtain more c where m: "copy_into bufs tx1 = (more, c)" by fastforce
    have "tx_ok [] tx1" using step True by simp
    note IH = Cons.IH [OF m this]
    have "sent = out @ more" "complete = c" using Cons.prems(1) x w True m by simp_all
    with IH step True x show ?thesis by auto
  next
    case False
    with Cons.prems(1) x w have "sent = out" "\<not> complete" by simp_all
    with step x show ?thesis by (auto intro: exI [of _ "left @ concat (map fst bufs)"])
  qed
qed simp

lemma poll_write_progress:
  assumes "0 < tx_max_packet_size self" "length buf \<le> unat (tx_window self)" "buf \<noteq> []" "tx_send_fut self = None"
  obtains n self1 where "poll_write True Room buf self = (PollReady (Ok n), [(tx_id self, tx_message (tx_ext self) (take n buf))], self1)"
    "0 < n" "n \<le> length buf" "tx_max_packet_size self1 = tx_max_packet_size self" "unat (tx_window self1) = unat (tx_window self) - n"
    "tx_send_fut self1 = None" "tx_ext self1 = tx_ext self"
proof -
  let ?w = "min (min (tx_max_packet_size self) (tx_window self)) (of_nat (length buf))"
  have small: "unat (of_nat (length buf) :: u32) = length buf"
    using assms(2) unat_u32_lt [of "tx_window self"] by (intro unat_of_nat_u32) simp
  then have "(of_nat (length buf) :: u32) \<noteq> 0" using assms(3) by (metis length_greater_0_conv less_irrefl unat_0)
  moreover have "tx_window self \<noteq> 0" using assms(2,3) by (metis length_greater_0_conv not_le unat_0)
  ultimately have "?w \<noteq> 0" using assms(1) by (auto simp: min_def split: if_split)
  then obtain self1 where p: "poll_mk_msg True buf self = (PollReady (tx_message (tx_ext self) (take (unat ?w) buf), unat ?w), self1)"
    "self1 = self\<lparr>tx_window_fut := False, tx_window := tx_window self - ?w\<rparr>"
    by (simp add: poll_mk_msg_def Let_def)
  note r = poll_mk_msg_ready [OF p(1)]
  define n where "n = unat ?w"
  note r = r [folded n_def] and p1 = p(1) [folded n_def]
  have keep: "tx_max_packet_size self1 = tx_max_packet_size self" "tx_id self1 = tx_id self" unfolding p(2) by simp_all
  have "poll_write True Room buf self = (PollReady (Ok n), [(tx_id self, tx_message (tx_ext self) (take n buf))], self1\<lparr>tx_send_fut := None\<rparr>)"
    using keep(2) by (simp add: poll_write_def p1 assms(4) handle_write_result_def)
  then show thesis by (rule that) (simp_all add: r(2,3,6,8) keep)
qed

lemma write_polls_complete:
  assumes "0 < tx_max_packet_size self" "length buf \<le> unat (tx_window self)" "tx_send_fut self = None" "length buf \<le> k"
  shows "\<exists>sent self'. write_polls (replicate k (True, Room, None)) buf self = (sent, [], self')"
  using assms
proof (induction k arbitrary: buf self)
  case (Suc k)
  show ?case
  proof (cases "buf = []")
    case False
    obtain n self1 where n: "poll_write True Room buf self = (PollReady (Ok n), [(tx_id self, tx_message (tx_ext self) (take n buf))], self1)"
      "0 < n" "n \<le> length buf" "tx_max_packet_size self1 = tx_max_packet_size self" "unat (tx_window self1) = unat (tx_window self) - n"
      "tx_send_fut self1 = None"
      by (rule poll_write_progress [OF Suc.prems(1,2) False Suc.prems(3)])
    have "\<exists>sent self'. write_polls (replicate k (True, Room, None)) (drop n buf) self1 = (sent, [], self')"
      by (rule Suc.IH) (use Suc.prems n in simp_all)
    then show ?thesis using n(1) False by auto
  qed simp
qed simp

section \<open>Readers\<close>

text \<open>
  What a caller relies on of a polled reader, whose bytes still to come are \<open>rest\<close>: a poll hands on the next of them and loses none, and
  a reader that is \<open>fed\<close> hands on at least one as long as there are any. Then a caller gets them all, in at most
  as many reads as there are bytes.
\<close>

locale polled_reader =
  fixes read :: "nat \<Rightarrow> 's \<Rightarrow> unit poll \<times> bytes \<times> 's" and rest :: "'s \<Rightarrow> bytes" and fed :: "'s \<Rightarrow> bool"
  assumes read_rest: "read n s = (r, out, s1) \<Longrightarrow> out @ rest s1 = rest s"
    and read_fed: "read n s = (r, out, s1) \<Longrightarrow> fed s \<Longrightarrow> 0 < n \<Longrightarrow> rest s \<noteq> [] \<Longrightarrow> out \<noteq> [] \<and> fed s1"
begin

lemma polls_rest: "read_polls read ns s = (out, s') \<Longrightarrow> out @ rest s' = rest s"
proof (induction ns arbitrary: s out s')
  case (Cons n ns)
  obtain r o1 s1 where p: "read n s = (r, o1, s1)" by (metis prod_cases3)
  obtain o2 s2 where q: "read_polls read ns s1 = (o2, s2)" by fastforce
  from Cons.IH [OF q] read_rest [OF p] Cons.prems p q show ?case by auto
qed simp

lemma polls_complete: "fed s \<Longrightarrow> 0 \<notin> set ns \<Longrightarrow> length (rest s) \<le> length ns \<Longrightarrow> fst (read_polls read ns s) = rest s"
proof (induction ns arbitrary: s)
  case (Cons n ns)
  obtain r o1 s1 where p: "read n s = (r, o1, s1)" by (metis prod_cases3)
  obtain o2 s2 where q: "read_polls read ns s1 = (o2, s2)" by fastforce
  show ?case
  proof (cases "rest s = []")
    case True
    then show ?thesis using polls_rest [of "n # ns" s "fst (read_polls read (n # ns) s)" "snd (read_polls read (n # ns) s)"] by simp
  next
    case False
    have d: "o1 \<noteq> []" "fed s1" using read_fed [OF p Cons.prems(1) _ False] Cons.prems(2) by auto
    have r: "o1 @ rest s1 = rest s" by (rule read_rest [OF p])
    then have "length (rest s1) \<le> length ns" using d(1) Cons.prems(3) by (cases o1) (auto simp flip: r)
    from Cons.IH [OF d(2) _ this] Cons.prems(2) p q r show ?thesis by auto
  qed
qed simp

end

section \<open>What is sent is read\<close>

definition rx_bytes :: "u32 option \<Rightarrow> channel_msg \<Rightarrow> bytes" where
  "rx_bytes ext m = (case rx_payload ext m of Some d \<Rightarrow> d | None \<Rightarrow> [])"

definition rx_rest :: "channel_rx \<Rightarrow> bytes" where
  "rx_rest self = (case rx_buffer self of Some (m, i) \<Rightarrow> drop i (rx_bytes (rx_ext self) m) | None \<Rightarrow> [])
     @ concat (map (rx_bytes (rx_ext self)) (rx_receiver self))"

lemma rx_take_rest:
  assumes "rx_take n m i self = (r, out, self1)" "rx_buffer self = None"
  shows "out @ rx_rest self1 = drop i (rx_bytes (rx_ext self) m) @ rx_rest self" "rx_ext self1 = rx_ext self"
proof -
  have "out @ rx_rest self1 = drop i (rx_bytes (rx_ext self) m) @ rx_rest self \<and> rx_ext self1 = rx_ext self"
  proof (cases "rx_payload (rx_ext self) m")
    case None
    then show ?thesis using assms by (auto simp: rx_take_def rx_rest_def rx_bytes_def split: if_split_asm)
  next
    case (Some d)
    let ?k = "min n (length d - i)"
    have "take ?k (drop i d) @ drop (i + ?k) d = drop i d" by (metis add.commute append_take_drop_id drop_drop)
    moreover have "i + ?k = length d \<Longrightarrow> take ?k (drop i d) = drop i d" by simp
    ultimately show ?thesis using assms Some by (auto simp: rx_take_def rx_rest_def rx_bytes_def Let_def)
  qed
  then show "out @ rx_rest self1 = drop i (rx_bytes (rx_ext self) m) @ rx_rest self" "rx_ext self1 = rx_ext self" by blast+
qed

lemma poll_read_rest:
  assumes "ChannelRx_poll_read n self = (r, out, self1)"
  shows "out @ rx_rest self1 = rx_rest self" "rx_ext self1 = rx_ext self"
proof -
  have "out @ rx_rest self1 = rx_rest self \<and> rx_ext self1 = rx_ext self"
  proof (cases "rx_buffer self")
    case (Some x)
    obtain m i where x: "x = (m, i)" by (cases x)
    have "rx_take n m i (self\<lparr>rx_buffer := None\<rparr>) = (r, out, self1)" using assms Some x by (simp add: ChannelRx_poll_read_def)
    from rx_take_rest [OF this] Some x show ?thesis by (simp add: rx_rest_def)
  next
    case None
    show ?thesis
    proof (cases "rx_receiver self")
      case Nil
      then show ?thesis using assms None by (auto simp: ChannelRx_poll_read_def split: if_split_asm)
    next
      case (Cons m q)
      then have "rx_take n m 0 (self\<lparr>rx_receiver := q\<rparr>) = (r, out, self1)" using assms None by (simp add: ChannelRx_poll_read_def)
      from rx_take_rest [OF this] None Cons show ?thesis by (simp add: rx_rest_def)
    qed
  qed
  then show "out @ rx_rest self1 = rx_rest self" "rx_ext self1 = rx_ext self" by blast+
qed

text \<open>A reader of messages that carry data gets some of it at every poll.\<close>

definition rx_data :: "channel_rx \<Rightarrow> bool" where
  "rx_data self \<longleftrightarrow> (\<forall>m \<in> set (rx_receiver self). \<exists>d. rx_payload (rx_ext self) m = Some d \<and> d \<noteq> [])
     \<and> (case rx_buffer self of Some (m, i) \<Rightarrow> \<exists>d. rx_payload (rx_ext self) m = Some d \<and> i < length d | None \<Rightarrow> True)"

lemma rx_take_data:
  assumes "rx_take n m i self = (r, out, self1)" "rx_buffer self = None" "rx_data self" "rx_payload (rx_ext self) m = Some d" "i < length d" "0 < n"
  shows "r = PollReady () \<and> out \<noteq> [] \<and> rx_data self1"
  using assms by (auto simp: rx_take_def rx_data_def Let_def split: if_split_asm)

lemma poll_read_data:
  assumes "ChannelRx_poll_read n self = (r, out, self1)" "rx_data self" "0 < n" "rx_rest self \<noteq> []"
  shows "r = PollReady () \<and> out \<noteq> [] \<and> rx_data self1"
proof (cases "rx_buffer self")
  case (Some x)
  obtain m i where x: "x = (m, i)" by (cases x)
  obtain d where d: "rx_payload (rx_ext self) m = Some d" "i < length d" using assms(2) Some x by (auto simp: rx_data_def)
  have "rx_take n m i (self\<lparr>rx_buffer := None\<rparr>) = (r, out, self1)" using assms(1) Some x by (simp add: ChannelRx_poll_read_def)
  from rx_take_data [OF this, of d] d assms(2,3) show ?thesis by (simp add: rx_data_def)
next
  case None
  with assms(4) obtain m q where q: "rx_receiver self = m # q" by (cases "rx_receiver self") (auto simp: rx_rest_def)
  then obtain d where d: "rx_payload (rx_ext self) m = Some d" "d \<noteq> []" using assms(2) by (auto simp: rx_data_def)
  have "rx_take n m 0 (self\<lparr>rx_receiver := q\<rparr>) = (r, out, self1)" using assms(1) None q by (simp add: ChannelRx_poll_read_def)
  from rx_take_data [OF this, of d] d assms(2,3) None q show ?thesis by (simp add: rx_data_def)
qed

interpretation rx: polled_reader ChannelRx_poll_read rx_rest rx_data
  by unfold_locales (use poll_read_rest(1) poll_read_data in blast)+

interpretation cs: polled_reader ChannelStream_poll_read "rx_rest \<circ> cs_rx" "rx_data \<circ> cs_rx"
proof
  fix n s r out s1
  assume "ChannelStream_poll_read n s = (r, out, s1)"
  then have p: "ChannelRx_poll_read n (cs_rx s) = (r, out, cs_rx s1)"
    by (auto simp: ChannelStream_poll_read_def split: prod.splits)
  from poll_read_rest(1) [OF p] show "out @ (rx_rest \<circ> cs_rx) s1 = (rx_rest \<circ> cs_rx) s" by simp
  assume "(rx_data \<circ> cs_rx) s" "0 < n" "(rx_rest \<circ> cs_rx) s \<noteq> []"
  with poll_read_data [OF p] show "out \<noteq> [] \<and> (rx_data \<circ> cs_rx) s1" by simp
qed

lemma sent_reader:
  assumes "\<forall>x \<in> set sent. \<exists>d. d \<noteq> [] \<and> snd x = tx_message ext d" "ch_receiver peer = map snd sent"
  shows "rx_rest (ChannelRx_new peer ext) = sent_bytes sent" "rx_data (ChannelRx_new peer ext)"
proof -
  have pay: "rx_payload ext (tx_message ext d) = Some d" for d by (simp add: rx_payload_def tx_message_def split: option.split)
  have "map (rx_bytes ext \<circ> snd) sent = map (msg_bytes \<circ> snd) sent" using assms(1) pay by (auto simp: rx_bytes_def)
  from arg_cong [OF this, of concat] show "rx_rest (ChannelRx_new peer ext) = sent_bytes sent"
    by (simp add: rx_rest_def sent_bytes_def ChannelRx_new_def assms(2) del: concat_eq_concat_iff)
  show "rx_data (ChannelRx_new peer ext)" using assms pay by (fastforce simp: rx_data_def ChannelRx_new_def)
qed

lemma poll_write_keeps:
  "poll_write unlocked p buf self = (r, out, self1) \<Longrightarrow> tx_id self1 = tx_id self \<and> tx_max_packet_size self1 = tx_max_packet_size self"
  by (auto simp: poll_write_def handle_write_result_def poll_mk_msg_def Let_def
      split: option.split_asm prod.split_asm poll.split_asm permit.split_asm if_split_asm)

lemma poll_read_open:
  assumes "ChannelRx_poll_read n self = (r, out, self1)" "rx_data self" "\<not> rx_closed self"
  shows "rx_data self1 \<and> \<not> rx_closed self1 \<and> (rx_rest self = [] \<longrightarrow> r = PollPending \<and> out = [])"
proof -
  have take: "rx_data self1 \<and> \<not> rx_closed self1"
    if "rx_take n m i s = (r, out, self1)" "rx_payload (rx_ext s) m = Some d" "i < length d" "rx_data s" "\<not> rx_closed s" "rx_buffer s = None" for m i s d
    using that by (auto simp: rx_take_def rx_data_def Let_def split: if_split_asm)
  show ?thesis
  proof (cases "rx_buffer self")
    case (Some x)
    obtain m i d where x: "x = (m, i)" "rx_payload (rx_ext self) m = Some d" "i < length d"
      using assms(2) Some by (cases x) (auto simp: rx_data_def)
    have "rx_take n m i (self\<lparr>rx_buffer := None\<rparr>) = (r, out, self1)" using assms(1) Some x by (simp add: ChannelRx_poll_read_def)
    from take [OF this, of d] x assms(2,3) Some show ?thesis by (simp add: rx_data_def rx_rest_def rx_bytes_def)
  next
    case None
    show ?thesis
    proof (cases "rx_receiver self")
      case Nil
      then show ?thesis using assms None by (auto simp: ChannelRx_poll_read_def)
    next
      case (Cons m q)
      then obtain d where d: "rx_payload (rx_ext self) m = Some d" "d \<noteq> []" using assms(2) by (auto simp: rx_data_def)
      have "rx_take n m 0 (self\<lparr>rx_receiver := q\<rparr>) = (r, out, self1)" using assms(1) None Cons by (simp add: ChannelRx_poll_read_def)
      from take [OF this, of d] d assms(2,3) None Cons show ?thesis by (simp add: rx_data_def rx_rest_def rx_bytes_def)
    qed
  qed
qed

text \<open>What holds of a buffer on its way.\<close>

definition pipe_inv :: "channel_handle \<Rightarrow> bytes \<Rightarrow> pipe \<Rightarrow> bool" where
  "pipe_inv ch buf s \<longleftrightarrow>
     pp_got s @ rx_rest (cs_rx (pp_reader s)) @ pp_flight s @ pp_left s = buf
   \<and> (\<not> pp_failed s \<longrightarrow> tx_ok (pp_left s) (cs_tx (pp_writer s))) \<and> tx_ext (cs_tx (pp_writer s)) = None
   \<and> tx_id (cs_tx (pp_writer s)) = pp_channel s \<and> tx_max_packet_size (cs_tx (pp_writer s)) = ch_max_packet_size ch
   \<and> rx_data (cs_rx (pp_reader s)) \<and> rx_ext (cs_rx (pp_reader s)) = None \<and> \<not> rx_closed (cs_rx (pp_reader s))"

lemmas pipe_inv_bytes = pipe_inv_def [THEN iffD1, THEN conjunct1]

lemma pipe_inv_start: "ch_receiver peer = [] \<Longrightarrow> \<not> ch_closed peer \<Longrightarrow> pipe_inv ch buf (pipe_start ch peer buf)"
  by (simp add: pipe_inv_def pipe_start_def into_stream_def ChannelTx_new_def ChannelRx_new_def rx_rest_def rx_data_def tx_ok_def)

lemma stream_poll_write:
  "ChannelStream_poll_write unlocked p buf self = (r, out, self1) \<Longrightarrow>
     poll_write unlocked p buf (cs_tx self) = (r, out, cs_tx self1) \<and> cs_rx self1 = cs_rx self"
  by (auto simp: ChannelStream_poll_write_def split: prod.splits)

lemma stream_poll_read:
  "ChannelStream_poll_read n self = (r, out, self1) \<Longrightarrow> ChannelRx_poll_read n (cs_rx self) = (r, out, cs_rx self1)"
  by (auto simp: ChannelStream_poll_read_def split: prod.splits)

lemma pipe_inv_write:
  assumes "pipe_inv ch buf s"
  shows "pipe_inv ch buf (pipe_step (WritePoll unlocked p) s)"
proof (cases "pp_left s = [] \<or> pp_failed s")
  case False
  obtain r out w where w: "ChannelStream_poll_write unlocked p (pp_left s) (pp_writer s) = (r, out, w)" by (metis prod_cases3)
  note p = stream_poll_write [OF w, THEN conjunct1]
  note keeps = poll_write_keeps [OF p] and step = poll_write_step [OF p]
  have ok: "tx_ok (pp_left s) (cs_tx (pp_writer s))" using assms False by (simp add: pipe_inv_def)
  show ?thesis
  proof (cases r)
    case PollPending
    then show ?thesis using assms False keeps step(1) [OF ok] step(2) [OF ok] by (simp add: w pipe_inv_def data_for_def)
  next
    case (PollReady res)
    consider n where "res = Ok n" | "res = Err IO" using handle_write_total p PollReady by blast
    then show ?thesis
    proof cases
      case (1 n)
      with step(3) [OF ok] PollReady assms have "out = [(pp_channel s, Data (take n (pp_left s)))]" "tx_send_fut (cs_tx w) = None"
        by (simp_all add: pipe_inv_def tx_message_def)
      then show ?thesis using assms False keeps step(1) [OF ok] PollReady 1
        by (simp add: w pipe_inv_def data_for_def tx_ok_def)
    next
      case 2
      then have "out = []" using handle_write_Err p PollReady by blast
      then show ?thesis using assms False keeps step(1) [OF ok] PollReady 2 by (simp add: w pipe_inv_def data_for_def)
    qed
  qed
qed (use assms in simp)

lemma pipe_inv_deliver:
  assumes "pipe_inv ch buf s"
  shows "pipe_inv ch buf (pipe_step (Deliver n) s)"
proof -
  define d where "d = take n (pp_flight s)"
  define rx where "rx = cs_rx (pp_reader s)"
  have "rx_rest (rx\<lparr>rx_receiver := rx_receiver rx @ [Data d]\<rparr>) = rx_rest rx @ d"
    if "rx_ext rx = None" using that by (simp add: rx_rest_def rx_bytes_def rx_payload_def split: option.split)
  moreover have "rx_data (rx\<lparr>rx_receiver := rx_receiver rx @ [Data d]\<rparr>)" if "rx_data rx" "rx_ext rx = None" "d \<noteq> []"
    using that by (auto simp: rx_data_def rx_payload_def split: option.splits)
  moreover have "pp_flight s = d @ drop n (pp_flight s)" by (simp add: d_def)
  ultimately show ?thesis
    using assms by (auto simp: pipe_inv_def Let_def d_def [symmetric] rx_def [symmetric])
qed

lemma pipe_inv_step: "pipe_inv ch buf s \<Longrightarrow> pipe_inv ch buf (pipe_step e s)"
proof (cases e)
  case (ReadPoll n)
  assume inv: "pipe_inv ch buf s"
  obtain r out rd where p: "ChannelStream_poll_read n (pp_reader s) = (r, out, rd)" by (metis prod_cases3)
  show ?thesis
    using inv poll_read_open [OF stream_poll_read [OF p]] poll_read_rest [OF stream_poll_read [OF p]]
    by (simp add: ReadPoll p pipe_inv_def) (metis append.assoc)
next
  case (SetWindow w)
  then show "pipe_inv ch buf s \<Longrightarrow> ?thesis" by (simp add: pipe_inv_def)
qed (simp_all only: pipe_inv_write pipe_inv_deliver)

lemma pipe_inv_run: "pipe_inv ch buf s \<Longrightarrow> pipe_inv ch buf (fold pipe_step es s)"
  by (induction es arbitrary: s) (simp_all add: pipe_inv_step del: pipe_step.simps)

lemma pipe_read_result:
  assumes "pipe_inv ch buf s" "0 < n"
  shows "case ChannelStream_poll_read n (pp_reader s) of (r, out, _) \<Rightarrow>
    if rx_rest (cs_rx (pp_reader s)) = [] then r = PollPending \<and> out = [] else r = PollReady () \<and> out \<noteq> []"
proof -
  obtain r out rd where p: "ChannelStream_poll_read n (pp_reader s) = (r, out, rd)" by (metis prod_cases3)
  from poll_read_open [OF stream_poll_read [OF p]] poll_read_data [OF stream_poll_read [OF p]] assms show ?thesis
    by (simp add: p pipe_inv_def)
qed

text \<open>A write fails only when the queue of the session is gone.\<close>

lemma pipe_not_failed:
  "\<forall>u. WritePoll u Gone \<notin> set es \<Longrightarrow> \<not> pp_failed s \<Longrightarrow> \<not> pp_failed (fold pipe_step es s)"
proof (induction es arbitrary: s)
  case (Cons e es)
  have "\<not> pp_failed (pipe_step e s)"
  proof (cases e)
    case (WritePoll u p)
    have "p \<noteq> Gone" using Cons.prems(1) WritePoll by auto
    obtain r out w where w: "ChannelStream_poll_write u p (pp_left s) (pp_writer s) = (r, out, w)" by (metis prod_cases3)
    with \<open>p \<noteq> Gone\<close> have "r = PollPending \<or> (\<exists>n. r = PollReady (Ok n))"
      by (auto simp: ChannelStream_poll_write_def poll_write_def handle_write_result_def
          split: option.split_asm prod.split_asm poll.split_asm permit.split_asm)
    with w Cons.prems(2) WritePoll show ?thesis by auto
  qed (use Cons.prems(2) in \<open>simp_all add: Let_def split_beta\<close>)
  with Cons show ?case by (simp del: pipe_step.simps)
qed simp

lemma pipe_write_one:
  assumes "pipe_inv ch buf s" "\<not> pp_failed s" "0 < ch_max_packet_size ch" "length (pp_left s) \<le> unat (tx_window (cs_tx (pp_writer s)))"
  defines "t \<equiv> pipe_step (WritePoll True Room) s"
  shows "\<not> pp_failed t \<and> length (pp_left t) \<le> unat (tx_window (cs_tx (pp_writer t))) \<and> length (pp_left t) \<le> length (pp_left s) - 1
    \<and> pp_reader t = pp_reader s \<and> pp_got t = pp_got s"
proof (cases "pp_left s = []")
  case False
  let ?tx = "cs_tx (pp_writer s)"
  note inv = assms(1) [unfolded pipe_inv_def]
  obtain n out tx where w: "poll_write True Room (pp_left s) ?tx = (PollReady (Ok n), out, tx)" "0 < n" "unat (tx_window tx) \<ge> unat (tx_window ?tx) - n"
  proof (cases "tx_send_fut ?tx")
    case None
    show thesis
      using poll_write_progress [of ?tx "pp_left s"] None inv assms(3,4) False that by (metis order_refl)
  next
    case (Some x)
    then obtain m n where "x = (m, n)" "0 < n" using inv assms(2) by (cases x) (auto simp: tx_ok_def)
    with Some show thesis by (intro that [of n "[(tx_id ?tx, m)]" "?tx\<lparr>tx_send_fut := None\<rparr>"]) (simp_all add: poll_write_def handle_write_result_def)
  qed
  have "length (pp_left s) - n \<le> unat (tx_window tx)" "length (pp_left s) - n \<le> length (pp_left s) - 1"
    using w(2,3) assms(4) by linarith+
  with w False assms(2) show ?thesis by (simp add: t_def ChannelStream_poll_write_def)
qed (use assms in \<open>simp add: t_def\<close>)

lemma pipe_writes:
  assumes "pipe_inv ch buf s" "\<not> pp_failed s" "0 < ch_max_packet_size ch" "length (pp_left s) \<le> unat (tx_window (cs_tx (pp_writer s)))"
    "length (pp_left s) \<le> j"
  defines "t \<equiv> fold pipe_step (replicate j (WritePoll True Room)) s"
  shows "pp_left t = [] \<and> pp_reader t = pp_reader s \<and> pp_got t = pp_got s"
  unfolding t_def using assms(1-5)
proof (induction j arbitrary: s)
  case (Suc j)
  let ?t = "pipe_step (WritePoll True Room) s"
  note one = pipe_write_one [OF Suc.prems(1-4)] and inv = pipe_inv_step [OF Suc.prems(1), of "WritePoll True Room"]
  have "length (pp_left ?t) \<le> j" using one Suc.prems(5) by linarith
  with Suc.IH [OF inv] one Suc.prems(3) show ?case by (simp del: pipe_step.simps)
qed simp

lemma pipe_reads:
  "fold pipe_step (map ReadPoll ns) s = s\<lparr>pp_reader := snd (read_polls ChannelStream_poll_read ns (pp_reader s)),
     pp_got := pp_got s @ fst (read_polls ChannelStream_poll_read ns (pp_reader s))\<rparr>"
  by (induction ns arbitrary: s) (simp_all add: split_beta)

lemma pipe_completes:
  assumes "pipe_inv ch buf s" "\<not> pp_failed s \<and> length buf \<le> k \<and> 0 \<notin> set ns \<and> length buf \<le> length ns"
    "0 < ch_max_packet_size ch" "length buf < 2 ^ 32"
  shows "pp_got (fold pipe_step (SetWindow (of_nat (length buf)) # replicate (Suc k) (WritePoll True Room) @ Deliver k # map ReadPoll ns) s) = buf"
proof -
  define a where "a = pipe_step (SetWindow (of_nat (length buf))) s"
  define b where "b = fold pipe_step (replicate (Suc k) (WritePoll True Room)) a"
  define c where "c = pipe_step (Deliver k) b"
  have a: "pipe_inv ch buf a" "\<not> pp_failed a" "tx_window (cs_tx (pp_writer a)) = of_nat (length buf)" "pp_left a = pp_left s"
    using pipe_inv_step [OF assms(1)] assms(2) by (simp_all add: a_def del: pipe_step.simps) (simp_all add: a_def)
  have len: "length (pp_left s) \<le> length buf" using arg_cong [OF pipe_inv_bytes [OF assms(1)], of length] by simp
  have "unat (of_nat (length buf) :: u32) = length buf" using assms(4) by (intro unat_of_nat_u32) simp
  with pipe_writes [OF a(1,2) assms(3), of "Suc k"] a len assms(2) have b: "pp_left b = []" by (simp add: b_def del: replicate_Suc)
  have ib: "pipe_inv ch buf b" unfolding b_def by (rule pipe_inv_run [OF a(1)])
  have "length (pp_flight b) \<le> k" using arg_cong [OF pipe_inv_bytes [OF ib], of length] assms(2) by simp
  with b have c: "pp_flight c = []" "pp_left c = []" by (simp_all add: c_def Let_def)
  have ic: "pipe_inv ch buf c" unfolding c_def by (rule pipe_inv_step [OF ib])
  with c have rest: "pp_got c @ rx_rest (cs_rx (pp_reader c)) = buf" "rx_data (cs_rx (pp_reader c))" by (simp_all add: pipe_inv_def)
  then have "length (rx_rest (cs_rx (pp_reader c))) \<le> length ns" using assms(2) by auto
  with cs.polls_complete [of "pp_reader c" ns] rest assms(2) have "pp_got (fold pipe_step (map ReadPoll ns) c) = buf"
    by (simp add: pipe_reads)
  then show ?thesis by (simp add: a_def b_def c_def del: pipe_step.simps replicate_Suc)
qed

lemma copied_is_read:
  assumes "send_data ext bufs ch = (sent, complete)" "0 \<notin> set ns" "length (concat (map fst bufs)) \<le> length ns"
    and "ch_receiver peer = map snd sent"
  shows "\<exists>rest. fst (read_polls ChannelRx_poll_read ns (make_reader_ext ext peer)) @ rest = concat (map fst bufs) \<and> (complete \<longrightarrow> rest = [])"
proof -
  let ?tx = "make_writer_ext ext ch"
  have "tx_ok [] ?tx" "tx_ext ?tx = ext" by (simp_all add: make_writer_ext_def ChannelTx_new_def tx_ok_def)
  with copy_into_stream [OF assms(1) [unfolded send_data_def]] obtain rest where
    r: "sent_bytes sent @ rest = concat (map fst bufs)" "complete \<longrightarrow> rest = []"
    and m: "\<forall>x \<in> set sent. \<exists>d. d \<noteq> [] \<and> snd x = tx_message ext d" by auto
  have "length (sent_bytes sent) \<le> length ns" using arg_cong [OF r(1), of length] assms(3) by simp
  with rx.polls_complete [of "ChannelRx_new peer ext" ns] sent_reader [OF m assms(4)] assms(2) r show ?thesis
    by (auto simp: make_reader_ext_def)
qed

section \<open>Properties\<close>

text \<open>
  C13: The streams of a channel's two ends carry bytes. At every moment, whatever order the polls of the writer and of the
  reader, the windows that the session sets and the deliveries had, and whatever the polls found (held locks, no room in the queue, an empty receiver), what the reader has handed
  on, what it still holds, what is on its way and what the writer has not taken are together exactly the buffer. A read hands on bytes
  when the reader holds any and is pending otherwise: it never reports the end of the stream. And unless a write has failed the rest of the
  buffer still arrives: with a window for it, polls that find the lock free and room, a delivery, and as many reads as there are bytes, the
  reader has handed on the whole buffer.
\<close>

theorem channel_stream_roundtrip:
  assumes "ch_receiver peer = []" "\<not> ch_closed peer" "0 < ch_max_packet_size ch" "length buf < 2 ^ 32"
  defines "s es \<equiv> fold pipe_step es (pipe_start ch peer buf)"
  shows "pp_got (s es) @ rx_rest (cs_rx (pp_reader (s es))) @ pp_flight (s es) @ pp_left (s es) = buf
   \<and> (0 < n \<longrightarrow> (case ChannelStream_poll_read n (pp_reader (s es)) of (r, out, _) \<Rightarrow>
        if rx_rest (cs_rx (pp_reader (s es))) = [] then r = PollPending \<and> out = [] else r = PollReady () \<and> out \<noteq> []))
   \<and> (\<not> pp_failed (s es) \<and> length buf \<le> k \<and> 0 \<notin> set ns \<and> length buf \<le> length ns \<longrightarrow>
        pp_got (s (es @ SetWindow (of_nat (length buf)) # replicate (Suc k) (WritePoll True Room) @ Deliver k # map ReadPoll ns)) = buf)"
proof -
  have inv: "pipe_inv ch buf (s es)" for es
    unfolding s_def by (rule pipe_inv_run) (simp add: pipe_inv_start assms(1,2))
  have fin: "s (es @ es') = fold pipe_step es' (s es)" for es' by (simp add: s_def)
  show ?thesis
    unfolding fin by (intro conjI impI; (rule pipe_inv_bytes [OF inv] pipe_read_result [OF inv] pipe_completes [OF inv _ assms(3,4)], assumption?))
qed

theorem channel_stream_roundtrip_witness:
  "pp_got (fold pipe_step ([ReadPoll 5, WritePoll False Room, WritePoll True Full, ReadPoll 1, WritePoll True Room, Deliver 1, ReadPoll 4]
      @ SetWindow (of_nat (length [1, 2, 3, 4, 5 :: u8])) # replicate (Suc 5) (WritePoll True Room) @ Deliver 5 # map ReadPoll [1, 1, 9, 9, 9])
      (pipe_start (Channel_new 7 3 2) (Channel_new 4 9 9) [1, 2, 3, 4, 5])) = [1, 2, 3, 4, 5]"
proof -
  let ?es = "[ReadPoll 5, WritePoll False Room, WritePoll True Full, ReadPoll 1, WritePoll True Room, Deliver 1, ReadPoll 4]"
  have "\<not> pp_failed (fold pipe_step ?es (pipe_start (Channel_new 7 3 2) (Channel_new 4 9 9) [1, 2, 3, 4, 5]))"
    by (rule pipe_not_failed) (simp_all add: pipe_start_def)
  moreover have "ch_receiver (Channel_new 4 9 9) = []" "\<not> ch_closed (Channel_new 4 9 9)" "0 < ch_max_packet_size (Channel_new 7 3 2)"
    "length [1, 2, 3, 4, 5 :: u8] < 2 ^ 32" "length [1, 2, 3, 4, 5 :: u8] \<le> 5" "0 \<notin> set [1, 1, 9, 9, 9 :: nat]"
    "length [1, 2, 3, 4, 5 :: u8] \<le> length [1, 1, 9, 9, 9 :: nat]"
    by (simp_all add: Channel_new_def)
  ultimately show ?thesis
    using channel_stream_roundtrip [of "Channel_new 4 9 9" "Channel_new 7 3 2" "[1, 2, 3, 4, 5]" ?es 1 5 "[1, 1, 9, 9, 9]"] by blast
qed

text \<open>
  C36: Sending data through a channel (\<open>Channel::data\<close>, \<open>extended_data\<close>) delivers it: the reader of that stream at the peer's channel reads a
  prefix of what was copied, in order, and all of it when the copy has completed, whatever buffers it was copied in
  and whatever the polls found.
\<close>

theorem channel_data_delivered:
  assumes "send_data ext bufs ch = (sent, complete)" "0 \<notin> set ns" "length (concat (map fst bufs)) \<le> length ns"
    and "ch_receiver peer = map snd sent"
  shows "\<exists>rest. fst (read_polls ChannelRx_poll_read ns (make_reader_ext ext peer)) @ rest = concat (map fst bufs) \<and> (complete \<longrightarrow> rest = [])"
  using assms by (rule copied_is_read)

theorem channel_data_delivered_witness:
  "fst (read_polls ChannelRx_poll_read [2, 2, 2] (make_reader_ext (Some 1) ((Channel_new 4 9 9)\<lparr>ch_receiver := [ExtendedData [5] 1, ExtendedData [6, 7] 1]\<rparr>))) =
     [5, 6, 7]"
proof -
  have "send_data (Some 1) [([5], [(True, Room, None)]), ([6, 7], [(True, Room, None)])] (Channel_new 7 2 9) =
      ([(7, ExtendedData [5] 1), (7, ExtendedData [6, 7] 1)], True)"
    by (simp add: send_data_def make_writer_ext_def Channel_new_def ChannelTx_new_def poll_write_def poll_mk_msg_def
        handle_write_result_def tx_message_def)
  from channel_data_delivered [OF this, of "[2, 2, 2]" "(Channel_new 4 9 9)\<lparr>ch_receiver := [ExtendedData [5] 1, ExtendedData [6, 7] 1]\<rparr>"]
  show ?thesis by simp
qed

text \<open>
  A writer whose window covers the buffer finishes: with the lock free and room in the queue, each poll sends
  a message, and no more polls are needed than there are bytes.
\<close>

theorem channel_write_completes:
  assumes "0 < tx_max_packet_size self" "length buf \<le> unat (tx_window self)" "tx_send_fut self = None" "length buf \<le> k"
  shows "\<exists>sent self'. write_polls (replicate k (True, Room, None)) buf self = (sent, [], self')"
  using assms by (rule write_polls_complete)

theorem channel_write_completes_witness:
  "\<exists>sent self'. write_polls (replicate 3 (True, Room, None)) [1, 2, 3] (ChannelTx_new 7 3 1 None) = (sent, [], self')"
  using channel_write_completes [of "ChannelTx_new 7 3 1 None" "[1, 2, 3]" 3] by (simp add: ChannelTx_new_def)

text \<open>
  A peer ends the stream of a reader with an empty packet: a message without data completes the read with no bytes, which
  is the end of the stream for every caller, although data follows.
\<close>

theorem empty_data_ends_read:
  "ChannelRx_poll_read n \<lparr>rx_receiver = Data [] # Data d # q, rx_closed = False, rx_buffer = None, rx_ext = None\<rparr> =
     (PollReady (), [], \<lparr>rx_receiver = Data d # q, rx_closed = False, rx_buffer = None, rx_ext = None\<rparr>)"
  by (simp add: ChannelRx_poll_read_def rx_take_def rx_payload_def)

text \<open>A shutdown while a data message waits for room sends EOF in its place: the bytes, which no write has reported, are dropped.\<close>

lemma shutdown_replaces_pending:
  assumes "tx_send_fut self = Some (Data d, n)"
  shows "poll_shutdown Room self = (PollReady (Ok 0), [(tx_id self, Eof)], self\<lparr>tx_send_fut := None\<rparr>)"
  using assms by (simp add: poll_shutdown_def handle_write_result_def)

text \<open>
  A writer with an exhausted window does not see that the session has ended: it looks at the queue only once it has a message,
  so its polls stay pending for ever, each waking the task again.
\<close>

theorem exhausted_writer_hangs:
  assumes "tx_window self = 0" "tx_send_fut self = None" "buf \<noteq> []"
  shows "\<exists>self'. write_polls (replicate k (True, Gone, None)) buf self = ([], buf, self') \<and> tx_window self' = 0 \<and> tx_send_fut self' = None"
  using assms
proof (induction k arbitrary: self)
  case (Suc k)
  let ?s = "self\<lparr>tx_window_fut := False\<rparr>"
  have "\<exists>self'. write_polls (replicate k (True, Gone, None)) buf ?s = ([], buf, self') \<and> tx_window self' = 0 \<and> tx_send_fut self' = None"
    by (rule Suc.IH) (use Suc.prems in simp_all)
  moreover have "poll_write True Gone buf self = (PollPending, [], ?s)"
    using Suc.prems by (simp add: poll_write_def poll_mk_msg_def)
  ultimately show ?case using Suc.prems(3) by simp
qed simp

theorem exhausted_writer_hangs_witness:
  "\<exists>self'. write_polls (replicate 5 (True, Gone, None)) [1] (ChannelTx_new 7 0 9 None) = ([], [1], self') \<and> tx_window self' = 0
     \<and> tx_send_fut self' = None"
  using exhausted_writer_hangs [of "ChannelTx_new 7 0 9 None" "[1]" 5] by (simp add: ChannelTx_new_def)

end
