(* ===== verification/Ciphers.thy ===== *)
theory Ciphers
  imports Negotiation Packet_Cipher
begin

text \<open>
  The ciphers and MACs that can be negotiated: \<^verbatim>\<open>cipher/gcm.rs\<close>, \<^verbatim>\<open>cipher/chacha20poly1305.rs\<close>,
  \<^verbatim>\<open>cipher/block.rs\<close> over the counter and chaining modes (\<^verbatim>\<open>cipher/cbc.rs\<close>), \<^verbatim>\<open>mac/crypto.rs\<close>,
  \<^verbatim>\<open>mac/crypto_etm.rs\<close> and \<^verbatim>\<open>mac/none.rs\<close>, with the tables \<open>CIPHERS\<close> and \<open>MACS\<close>. A boxed key is a value of
  the datatype \<open>cipher_key\<close>. The primitives come from other packages and are parameters. Every cipher
  meets the contract \<open>packet_cipher\<close>, so every one carries a stream of packets.
\<close>

unbundle bit_operations_syntax

section \<open>What the cryptographic packages compute\<close>

text \<open>
  AES-GCM with a detached tag, the key streams of ChaCha20 and of the counter mode, the block ciphers,
  Poly1305, HMAC and the random bytes of the padding come from other packages: they are a value of
  the record \<open>crypto\<close>, and \<open>crypto_ok\<close> says what their documentation promises. A key stream is a function
  of the position.
\<close>

record crypto =
  gcm_encrypt :: "bytes \<Rightarrow> bytes \<Rightarrow> bytes \<Rightarrow> bytes \<Rightarrow> bytes \<times> bytes"
  gcm_decrypt :: "bytes \<Rightarrow> bytes \<Rightarrow> bytes \<Rightarrow> bytes \<Rightarrow> bytes \<Rightarrow> bytes option"
  chacha20_stream :: "bytes \<Rightarrow> bytes \<Rightarrow> nat \<Rightarrow> u8"
  poly1305 :: "bytes \<Rightarrow> bytes \<Rightarrow> bytes"
  ctr_stream :: "bytes \<Rightarrow> bytes \<Rightarrow> nat \<Rightarrow> u8"
  block_encrypt :: "nat \<Rightarrow> bytes \<Rightarrow> bytes \<Rightarrow> bytes"
  block_decrypt :: "nat \<Rightarrow> bytes \<Rightarrow> bytes \<Rightarrow> bytes"
  hmac :: "nat \<Rightarrow> bytes \<Rightarrow> bytes \<Rightarrow> bytes"
  fill_random :: "nat \<Rightarrow> bytes"

text \<open>A block cipher is named by its block size (16 for AES, 8 for Triple-DES), a MAC by its output size.\<close>

definition crypto_ok :: "crypto \<Rightarrow> bool" where
  "crypto_ok X \<longleftrightarrow>
     (\<forall>k n a p. length (fst (gcm_encrypt X k n a p)) = length p \<and> length (snd (gcm_encrypt X k n a p)) = 16
        \<and> gcm_decrypt X k n a (fst (gcm_encrypt X k n a p)) (snd (gcm_encrypt X k n a p)) = Some p)
     \<and> (\<forall>k d. length (poly1305 X k d) = 16)
     \<and> (\<forall>blk k b. length b = blk \<longrightarrow> length (block_encrypt X blk k b) = blk
          \<and> block_decrypt X blk k (block_encrypt X blk k b) = b)
     \<and> (\<forall>m k d. length (hmac X m k d) = m)
     \<and> (\<forall>n. length (fill_random X n) = n)"

text \<open>\<open>apply_keystream\<close> from a position on.\<close>

fun apply_keystream :: "(nat \<Rightarrow> u8) \<Rightarrow> nat \<Rightarrow> bytes \<Rightarrow> bytes" where
  "apply_keystream ks pos [] = []"
| "apply_keystream ks pos (b # r) = (b XOR ks pos) # apply_keystream ks (pos + 1) r"

lemma length_apply_keystream [simp]: "length (apply_keystream ks pos d) = length d"
  by (induction d arbitrary: pos) simp_all

lemma apply_keystream_twice [simp]: "apply_keystream ks pos (apply_keystream ks pos d) = d"
  by (induction d arbitrary: pos) (simp_all add: xor.assoc)

lemma apply_keystream_append:
  "apply_keystream ks pos (a @ b) = apply_keystream ks pos a @ apply_keystream ks (pos + length a) b"
  by (induction a arbitrary: pos) simp_all

lemma take_apply_keystream: "take m (apply_keystream ks pos d) = apply_keystream ks pos (take m d)"
  by (induction d arbitrary: pos m) (auto simp: take_Cons split: nat.split)

section \<open>MACs\<close>

datatype mac_state = NoMac | CryptoMac nat bytes | CryptoEtmMac nat bytes

fun mac_len :: "mac_state \<Rightarrow> nat" where
  "mac_len NoMac = 0"
| "mac_len (CryptoMac sz _) = sz"
| "mac_len (CryptoEtmMac sz _) = sz"

fun is_etm :: "mac_state \<Rightarrow> bool" where
  "is_etm (CryptoEtmMac _ _) = True"
| "is_etm _ = False"

fun mac_compute :: "codec \<Rightarrow> crypto \<Rightarrow> mac_state \<Rightarrow> u32 \<Rightarrow> bytes \<Rightarrow> bytes" where
  "mac_compute E X NoMac n payload = []"
| "mac_compute E X (CryptoMac sz key) n payload = hmac X sz key (be_write_u32 E n @ payload)"
| "mac_compute E X (CryptoEtmMac sz key) n payload = hmac X sz key (be_write_u32 E n @ payload)"

fun mac_verify :: "codec \<Rightarrow> crypto \<Rightarrow> mac_state \<Rightarrow> u32 \<Rightarrow> bytes \<Rightarrow> bytes \<Rightarrow> bool" where
  "mac_verify E X NoMac n payload tag \<longleftrightarrow> True"
| "mac_verify E X m n payload tag \<longleftrightarrow> mac_compute E X m n payload = tag"

text \<open>The table \<open>MACS\<close>: the length of the key is the sz of the output; \<open>make_mac\<close> copies a key of that length.\<close>

definition MACS :: "name \<rightharpoonup> nat \<times> (bytes \<Rightarrow> mac_state)" where
  "MACS = map_of [(mac_NONE, (0, \<lambda>_. NoMac)), (''hmac-sha1'', (20, CryptoMac 20)),
     (''hmac-sha2-256'', (32, CryptoMac 32)), (''hmac-sha2-512'', (64, CryptoMac 64)),
     (''hmac-sha1-etm@openssh.com'', (20, CryptoEtmMac 20)),
     (''hmac-sha2-256-etm@openssh.com'', (32, CryptoEtmMac 32)),
     (''hmac-sha2-512-etm@openssh.com'', (64, CryptoEtmMac 64))]"

definition make_mac :: "nat \<times> (bytes \<Rightarrow> mac_state) \<Rightarrow> bytes \<Rightarrow> (error, mac_state) outcome" where
  "make_mac alg key = (if fst alg \<noteq> 0 \<and> length key \<noteq> fst alg then Panic else Ok (snd alg key))"

section \<open>Block ciphers\<close>

text \<open>
  Counter mode with its position, or the two halves of \<open>CbcWrapper\<close> with their chaining values.
\<close>

datatype block_state =
  Ctr (ctr_key: bytes) (ctr_iv: bytes) (ctr_pos: nat)
| Cbc (cbc_size: nat) (cbc_key: bytes) (enc_iv: bytes) (dec_iv: bytes)

definition xor_block :: "bytes \<Rightarrow> bytes \<Rightarrow> bytes" where
  "xor_block a b = map2 (XOR) a b"

function cbc_encrypt :: "(bytes \<Rightarrow> bytes) \<Rightarrow> nat \<Rightarrow> bytes \<Rightarrow> bytes \<Rightarrow> bytes \<times> bytes" where
  "cbc_encrypt f sz iv d =
    (if sz = 0 \<or> length d < sz then (d, iv)
     else let c = f (xor_block (take sz d) iv); (r, iv') = cbc_encrypt f sz c (drop sz d) in (c @ r, iv'))"
  by pat_completeness auto
termination by (relation "measure (\<lambda>(f, sz, iv, d). length d)") auto

function cbc_decrypt :: "(bytes \<Rightarrow> bytes) \<Rightarrow> nat \<Rightarrow> bytes \<Rightarrow> bytes \<Rightarrow> bytes \<times> bytes" where
  "cbc_decrypt f sz iv d =
    (if sz = 0 \<or> length d < sz then (d, iv)
     else let p = xor_block (f (take sz d)) iv; (r, iv') = cbc_decrypt f sz (take sz d) (drop sz d)
          in (p @ r, iv'))"
  by pat_completeness auto
termination by (relation "measure (\<lambda>(f, sz, iv, d). length d)") auto

declare cbc_encrypt.simps [simp del] cbc_decrypt.simps [simp del]

fun encrypt_data :: "crypto \<Rightarrow> block_state \<Rightarrow> bytes \<Rightarrow> bytes \<times> block_state" where
  "encrypt_data X (Ctr k iv pos) d = (apply_keystream (ctr_stream X k iv) pos d, Ctr k iv (pos + length d))"
| "encrypt_data X (Cbc sz k ei di) d =
     (let (c, ei') = cbc_encrypt (block_encrypt X sz k) sz ei d in (c, Cbc sz k ei' di))"

fun decrypt_data :: "crypto \<Rightarrow> block_state \<Rightarrow> bytes \<Rightarrow> bytes \<times> block_state" where
  "decrypt_data X (Ctr k iv pos) d = (apply_keystream (ctr_stream X k iv) pos d, Ctr k iv (pos + length d))"
| "decrypt_data X (Cbc sz k ei di) d =
     (let (p, di') = cbc_decrypt (block_decrypt X sz k) sz di d in (p, Cbc sz k ei di'))"

section \<open>The ciphers\<close>

definition MINIMUM_PACKET_LEN :: nat where [simp]: "MINIMUM_PACKET_LEN = 16"

datatype cipher_key =
  ClearKey
| GcmKey bytes bytes
| ChachaKey bytes bytes
| BlockKey block_state mac_state

text \<open>The padding of GCM (blocks of 16 bytes) and ChaCha20-Poly1305 (blocks of 8): the length field is not counted.\<close>

definition aead_padding_length :: "nat \<Rightarrow> bytes \<Rightarrow> nat" where
  "aead_padding_length block_size payload =
    (let extra_len = PACKET_LENGTH_LEN + PADDING_LENGTH_LEN;
         padding_len = (if length payload + extra_len \<le> MINIMUM_PACKET_LEN
                        then MINIMUM_PACKET_LEN - length payload - PADDING_LENGTH_LEN
                        else block_size - (PADDING_LENGTH_LEN + length payload) mod block_size)
     in if padding_len < PACKET_LENGTH_LEN then padding_len + block_size else padding_len)"

definition gcm_padding_length where [simp]: "gcm_padding_length = aead_padding_length 16"
definition chacha_padding_length where [simp]: "chacha_padding_length = aead_padding_length 8"

definition block_padding_length :: "mac_state \<Rightarrow> bytes \<Rightarrow> nat" where
  "block_padding_length m payload =
    (let block_size = 16;
         pll = (if is_etm m then 0 else PACKET_LENGTH_LEN);
         extra_len = PACKET_LENGTH_LEN + PADDING_LENGTH_LEN + mac_len m;
         padding_len = (if length payload + extra_len \<le> MINIMUM_PACKET_LEN
                        then MINIMUM_PACKET_LEN - length payload - PADDING_LENGTH_LEN - pll
                        else block_size - (pll + PADDING_LENGTH_LEN + length payload) mod block_size)
     in if padding_len < PACKET_LENGTH_LEN then padding_len + block_size else padding_len)"

text \<open>The nonce of GCM counts up, big endian, and wraps.\<close>

fun inc_bytes :: "nat \<Rightarrow> bytes \<Rightarrow> bytes" where
  "inc_bytes carry [] = []"
| "inc_bytes carry (b # r) = of_nat (unat b + carry) # inc_bytes ((unat b + carry) div 256) r"

definition inc_nonce :: "bytes \<Rightarrow> bytes" where
  "inc_nonce nonce = rev (inc_bytes 1 (rev nonce))"

definition make_counter :: "codec \<Rightarrow> u32 \<Rightarrow> bytes" where
  "make_counter E n = [0, 0, 0, 0] @ be_write_u32 E n"

definition compute_poly1305 :: "crypto \<Rightarrow> bytes \<Rightarrow> bytes \<Rightarrow> bytes \<Rightarrow> bytes" where
  "compute_poly1305 X nonce key d =
     poly1305 X (apply_keystream (chacha20_stream X key nonce) 0 (replicate 32 0)) d"

fun gcm_seal where
  "gcm_seal X key nonce pt =
    (let (ct, tag) = gcm_encrypt X key nonce (take 4 pt) (drop 4 pt)
     in (take 4 pt @ ct, tag, GcmKey key (inc_nonce nonce)))"

fun chacha_seal where
  "chacha_seal E X k1 k2 n pt =
    (let nonce = make_counter E n;
         ct = apply_keystream (chacha20_stream X k1 nonce) 0 (take 4 pt)
              @ apply_keystream (chacha20_stream X k2 nonce) 64 (drop 4 pt)
     in (ct, compute_poly1305 X nonce k2 ct, ChachaKey k1 k2))"

fun block_seal where
  "block_seal E X b m n pt =
    (if is_etm m then
       (let (ct, b') = encrypt_data X b (drop 4 pt); whole = take 4 pt @ ct
        in (whole, mac_compute E X m n whole, BlockKey b' m))
     else
       (let (ct, b') = encrypt_data X b pt in (ct, mac_compute E X m n pt, BlockKey b' m)))"

definition cipher_sealing :: "codec \<Rightarrow> crypto \<Rightarrow> cipher_key sealing_key" where
  "cipher_sealing E X = \<lparr>
     padding_length = (\<lambda>k p. case k of ClearKey \<Rightarrow> clear_padding_length p | GcmKey _ _ \<Rightarrow> gcm_padding_length p
       | ChachaKey _ _ \<Rightarrow> chacha_padding_length p | BlockKey _ m \<Rightarrow> block_padding_length m p),
     fill_padding = (\<lambda>k n. case k of ClearKey \<Rightarrow> replicate n 0 | GcmKey _ _ \<Rightarrow> fill_random X n
       | ChachaKey _ _ \<Rightarrow> replicate n 0 | BlockKey _ _ \<Rightarrow> fill_random X n),
     seal_tag_len = (\<lambda>k. case k of ClearKey \<Rightarrow> 0 | BlockKey _ m \<Rightarrow> mac_len m | _ \<Rightarrow> 16),
     seal = (\<lambda>k n pt. case k of ClearKey \<Rightarrow> (pt, [], ClearKey) | GcmKey key nonce \<Rightarrow> gcm_seal X key nonce pt
       | ChachaKey k1 k2 \<Rightarrow> chacha_seal E X k1 k2 n pt | BlockKey b m \<Rightarrow> block_seal E X b m n pt)\<rparr>"

fun gcm_open where
  "gcm_open X key nonce ct tag =
    (if length ct < 4 \<or> length tag \<noteq> 16 then Panic
     else case gcm_decrypt X key nonce (take 4 ct) (drop 4 ct) tag of
            None \<Rightarrow> Err DecryptionError
          | Some p \<Rightarrow> Ok (take 4 ct @ p, p, GcmKey key (inc_nonce nonce)))"

fun chacha_open where
  "chacha_open E X k1 k2 n ct tag =
    (let nonce = make_counter E n
     in if compute_poly1305 X nonce k2 ct \<noteq> tag then Err DecryptionError
        else if length ct < 4 then Panic
        else (let p = apply_keystream (chacha20_stream X k2 nonce) 64 (drop 4 ct)
              in Ok (take 4 ct @ p, p, ChachaKey k1 k2)))"

fun block_open where
  "block_open E X b m n ct tag =
    (if is_etm m then
       if \<not> mac_verify E X m n ct tag then Err PacketAuth
       else if length ct < 4 then Panic
       else (let (p, b') = decrypt_data X b (drop 4 ct) in Ok (take 4 ct @ p, p, BlockKey b' m))
     else
       (let (p, b') = decrypt_data X b ct
        in if \<not> mac_verify E X m n p tag then Err PacketAuth
           else if length p < 4 then Panic
           else Ok (p, drop 4 p, BlockKey b' m)))"

definition chacha_packet_length where [simp]:
  "chacha_packet_length E X k1 n d = apply_keystream (chacha20_stream X k1 (make_counter E n)) 0 d"

definition block_packet_length where [simp]:
  "block_packet_length X b m d = (if is_etm m then take 4 d else take 4 (fst (decrypt_data X b (take 16 d))))"

definition cipher_opening :: "codec \<Rightarrow> crypto \<Rightarrow> cipher_key opening_key" where
  "cipher_opening E X = \<lparr>
     packet_length_to_read_for_block_length = (\<lambda>k. case k of BlockKey _ _ \<Rightarrow> 16 | _ \<Rightarrow> 4),
     decrypt_packet_length = (\<lambda>k n d. case k of
         ChachaKey k1 _ \<Rightarrow> chacha_packet_length E X k1 n d
       | BlockKey b m \<Rightarrow> block_packet_length X b m d
       | _ \<Rightarrow> d),
     open_tag_len = (\<lambda>k. case k of ClearKey \<Rightarrow> 0 | BlockKey _ m \<Rightarrow> mac_len m | _ \<Rightarrow> 16),
     open_packet = (\<lambda>k n ct tag. case k of
         ClearKey \<Rightarrow> if length ct < 4 then Panic else Ok (ct, drop 4 ct, ClearKey)
       | GcmKey key nonce \<Rightarrow> gcm_open X key nonce ct tag
       | ChachaKey k1 k2 \<Rightarrow> chacha_open E X k1 k2 n ct tag
       | BlockKey b m \<Rightarrow> block_open E X b m n ct tag)\<rparr>"

section \<open>The table of ciphers\<close>

text \<open>The lengths of the key and the nonce, and the key that \<open>make_sealing_key\<close> and \<open>make_opening_key\<close> make of them.\<close>

datatype cipher_alg = ClearCipher | GcmCipher | ChachaCipher | CtrCipher nat | CbcCipher nat nat

definition CIPHERS :: "name \<rightharpoonup> cipher_alg" where
  "CIPHERS = map_of [(''clear'', ClearCipher), (''none'', ClearCipher), (''3des-cbc'', CbcCipher 24 8),
     (''aes128-ctr'', CtrCipher 16), (''aes192-ctr'', CtrCipher 24), (''aes256-ctr'', CtrCipher 32),
     (''aes256-gcm@openssh.com'', GcmCipher), (''aes128-cbc'', CbcCipher 16 16),
     (''aes192-cbc'', CbcCipher 24 16), (''aes256-cbc'', CbcCipher 32 16),
     (''chacha20-poly1305@openssh.com'', ChachaCipher)]"

fun key_len :: "cipher_alg \<Rightarrow> nat" where
  "key_len ClearCipher = 0"
| "key_len GcmCipher = 32"
| "key_len ChachaCipher = 64"
| "key_len (CtrCipher n) = n"
| "key_len (CbcCipher n _) = n"

fun nonce_len :: "cipher_alg \<Rightarrow> nat" where
  "nonce_len ClearCipher = 0"
| "nonce_len GcmCipher = 12"
| "nonce_len ChachaCipher = 0"
| "nonce_len (CtrCipher _) = 16"
| "nonce_len (CbcCipher _ blk) = blk"

definition gcm_make_key where [simp]:
  "gcm_make_key k n = (if length k \<noteq> 32 \<or> length n \<noteq> 12 then Panic else Ok (GcmKey k n))"

definition chacha_make_key where [simp]:
  "chacha_make_key k = (if length k \<noteq> 64 then Panic else Ok (ChachaKey (drop 32 k) (take 32 k)))"

definition block_make_key where [simp]:
  "block_make_key sz blk b k n m alg =
     (if length k \<noteq> sz \<or> length n \<noteq> blk then Panic else obind (make_mac alg m) (\<lambda>t. Ok (BlockKey (b k n) t)))"

fun make_key :: "cipher_alg \<Rightarrow> bytes \<Rightarrow> bytes \<Rightarrow> bytes \<Rightarrow> nat \<times> (bytes \<Rightarrow> mac_state) \<Rightarrow> (error, cipher_key) outcome" where
  "make_key ClearCipher k n m alg = Ok ClearKey"
| "make_key GcmCipher k n m alg = gcm_make_key k n"
| "make_key ChachaCipher k n m alg = chacha_make_key k"
| "make_key (CtrCipher sz) k n m alg = block_make_key sz 16 (\<lambda>k n. Ctr k n 0) k n m alg"
| "make_key (CbcCipher sz blk) k n m alg = block_make_key sz blk (\<lambda>k n. Cbc blk k n n) k n m alg"

section \<open>Both halves of a key are in step\<close>

lemma length_xor_block: "length (xor_block a b) = min (length a) (length b)"
  by (simp add: xor_block_def)

lemma xor_block_twice: "length a \<le> length b \<Longrightarrow> xor_block (xor_block a b) b = a"
proof (induction a arbitrary: b)
  case (Cons x a)
  then show ?case by (cases b) (auto simp: xor_block_def xor.assoc)
qed (simp add: xor_block_def)

lemma cbc_roundtrip:
  assumes "\<And>b. length b = sz \<Longrightarrow> length (f b) = sz \<and> g (f b) = b" "0 < sz"
  shows "length iv = sz \<Longrightarrow> cbc_encrypt f sz iv d = (c, iv') \<Longrightarrow>
    cbc_decrypt g sz iv c = (d, iv') \<and> length c = length d \<and> length iv' = sz"
proof (induction d arbitrary: iv c rule: length_induct)
  case (1 d)
  show ?case
  proof (cases "length d < sz")
    case True
    with 1(3) have "c = d" "iv' = iv" by (simp_all add: cbc_encrypt.simps)
    with True 1(2) show ?thesis by (simp add: cbc_decrypt.simps)
  next
    case False
    let ?b = "f (xor_block (take sz d) iv)"
    obtain r iv1 where r: "cbc_encrypt f sz ?b (drop sz d) = (r, iv1)" by (cases "cbc_encrypt f sz ?b (drop sz d)")
    have c: "c = ?b @ r" "iv' = iv1"
      using 1(3) False r assms(2) by (simp_all add: cbc_encrypt.simps [of f sz iv d] Let_def)
    have b: "length ?b = sz" "g ?b = xor_block (take sz d) iv"
      using assms(1) [of "xor_block (take sz d) iv"] 1(2) False by (simp_all add: length_xor_block)
    have "length (drop sz d) < length d" using False assms(2) by simp
    with 1(1) b(1) r c(2) have "cbc_decrypt g sz ?b r = (drop sz d, iv1) \<and> length r = length (drop sz d) \<and> length iv1 = sz"
      by blast
    then show ?thesis
      using b assms(2) False 1(2) c
      by (simp add: cbc_decrypt.simps [of g sz iv "?b @ r"] Let_def xor_block_twice)
  qed
qed

lemma cbc_first_block:
  assumes "\<And>b. length b = sz \<Longrightarrow> length (f b) = sz \<and> g (f b) = b" "0 < sz" "length iv = sz" "sz \<le> length d" "sz \<le> m"
    "cbc_encrypt f sz iv d = (c, iv')"
  shows "take sz (fst (cbc_decrypt g sz iv (take m c))) = take sz d"
proof -
  let ?b = "f (xor_block (take sz d) iv)"
  obtain r where c: "c = ?b @ r"
    using assms(2,4,6) by (cases "cbc_encrypt f sz ?b (drop sz d)") (auto simp: cbc_encrypt.simps [of f sz iv d] Let_def)
  have b: "length ?b = sz" "g ?b = xor_block (take sz d) iv"
    using assms(1) [of "xor_block (take sz d) iv"] assms(3,4) by (simp_all add: length_xor_block)
  have "fst (cbc_decrypt g sz iv (take m c)) =
      take sz d @ fst (cbc_decrypt g sz ?b (drop sz (take m c)))"
    using b c assms(2-5)
    by (subst cbc_decrypt.simps) (simp add: Let_def split_beta xor_block_twice take_append)
  then show ?thesis using assms(4) by simp
qed

fun in_step :: "block_state \<Rightarrow> block_state \<Rightarrow> bool" where
  "in_step (Ctr k iv p) (Ctr k' iv' p') \<longleftrightarrow> k = k' \<and> iv = iv' \<and> p = p'"
| "in_step (Cbc sz k ei di) (Cbc sz' k' ei' di') \<longleftrightarrow> sz = sz' \<and> k = k' \<and> ei = di' \<and> length ei = sz \<and> 4 \<le> sz \<and> sz \<le> 16"
| "in_step _ _ \<longleftrightarrow> False"

fun paired_keys :: "cipher_key \<Rightarrow> cipher_key \<Rightarrow> bool" where
  "paired_keys (BlockKey b m) (BlockKey b' m') \<longleftrightarrow> m = m' \<and> in_step b b'"
| "paired_keys s c \<longleftrightarrow> s = c"

lemma block_inverse:
  assumes "crypto_ok X" "length b = sz"
  shows "length (block_encrypt X sz k b) = sz \<and> block_decrypt X sz k (block_encrypt X sz k b) = b"
  using assms unfolding crypto_ok_def by blast

lemma encrypt_decrypt:
  assumes "crypto_ok X" "in_step b c" "encrypt_data X b d = (ct, b')"
  shows "\<exists>c'. decrypt_data X c ct = (d, c') \<and> in_step b' c' \<and> length ct = length d"
  using assms(2)
proof (cases "(b, c)" rule: in_step.cases)
  case (2 sz k ei di sz' k' ei' di')
  then have s: "sz' = sz" "k' = k" "di' = ei" "length ei = sz" "4 \<le> sz" "sz \<le> 16" using assms(2) by auto
  obtain ei1 where e: "cbc_encrypt (block_encrypt X sz k) sz ei d = (ct, ei1)" "b' = Cbc sz k ei1 di"
    using assms(3) 2 by (auto split: prod.splits)
  have "cbc_decrypt (block_decrypt X sz k) sz ei ct = (d, ei1) \<and> length ct = length d \<and> length ei1 = sz"
    by (rule cbc_roundtrip [OF block_inverse [OF assms(1)] _ s(4) e(1)]) (use s in simp_all)
  then show ?thesis using 2 e(2) s by auto
qed (use assms(3) in auto)

lemma decrypt_prefix:
  assumes "crypto_ok X" "in_step b c" "encrypt_data X b d = (ct, b')" "16 \<le> length d"
  shows "take 4 (fst (decrypt_data X c (take 16 ct))) = take 4 d"
  using assms(2)
proof (cases "(b, c)" rule: in_step.cases)
  case (1 k iv p k' iv' p')
  then show ?thesis using assms(2,3) by (auto simp: take_apply_keystream)
next
  case (2 sz k ei di sz' k' ei' di')
  then have s: "sz' = sz" "k' = k" "di' = ei" "length ei = sz" "4 \<le> sz" "sz \<le> 16" using assms(2) by auto
  obtain ei1 where e: "cbc_encrypt (block_encrypt X sz k) sz ei d = (ct, ei1)"
    using assms(3) 2 by (auto split: prod.splits)
  have "take sz (fst (cbc_decrypt (block_decrypt X sz k) sz ei (take 16 ct))) = take sz d"
    by (rule cbc_first_block [OF block_inverse [OF assms(1)] _ s(4) _ _ e]) (use s assms(4) in simp_all)
  then have "take 4 (take sz (fst (cbc_decrypt (block_decrypt X sz k) sz ei (take 16 ct)))) = take 4 (take sz d)"
    by simp
  then show ?thesis using 2 s by (simp add: min_def split_beta)
qed auto

section \<open>The ciphers meet the contract\<close>

lemma aead_padding_bounds:
  "blk \<in> {8, 16} \<Longrightarrow> 4 \<le> aead_padding_length blk p \<and> aead_padding_length blk p \<le> 31"
  by (auto simp: aead_padding_length_def Let_def)

lemma block_padding_bounds: "4 \<le> block_padding_length m p \<and> block_padding_length m p \<le> 31"
  by (cases m) (auto simp: block_padding_length_def Let_def)

lemma block_padding_fills: "16 \<le> 5 + length p + block_padding_length m p"
proof (cases "length p + 5 + mac_len m \<le> 16")
  case True
  then show ?thesis by (auto simp: block_padding_length_def Let_def)
next
  case False
  have "16 \<le> k + (16 - k mod 16)" for k :: nat by presburger
  from this [of "5 + length p"] this [of "1 + length p"] False show ?thesis
    by (auto simp: block_padding_length_def Let_def)
qed

lemma mac_tag:
  assumes "crypto_ok X"
  shows "length (mac_compute E X m n d) = mac_len m" "mac_verify E X m n d (mac_compute E X m n d)"
  using assms by (cases m; simp add: crypto_ok_def)+

lemma gcm_laws:
  assumes "crypto_ok X" "gcm_encrypt X k n a p = (ct, tag)"
  shows "length ct = length p" "length tag = 16" "gcm_decrypt X k n a ct tag = Some p"
  using assms unfolding crypto_ok_def by (metis fst_conv snd_conv)+

lemma encrypt_length:
  assumes "crypto_ok X" "in_step b c" "encrypt_data X b d = (ct, b')"
  shows "length ct = length d"
  using encrypt_decrypt [OF assms] by blast

lemma split4: "4 \<le> length pt \<Longrightarrow> \<exists>h. pt = h @ drop 4 pt \<and> length h = 4"
  by (rule exI [of _ "take 4 pt"]) simp

lemma block_open_sealed:
  assumes "crypto_ok X" "in_step b c" "block_seal E X b m n pt = (ct, tag, s')" "4 \<le> length pt"
  shows "\<exists>h c'. block_open E X c m n ct tag = Ok (h @ drop 4 pt, drop 4 pt, c') \<and> length h = 4 \<and> paired_keys s' c'
    \<and> length ct = length pt \<and> length tag = mac_len m"
proof (cases "is_etm m")
  case True
  obtain body b' where e: "encrypt_data X b (drop 4 pt) = (body, b')" by (cases "encrypt_data X b (drop 4 pt)")
  obtain c' where d: "decrypt_data X c body = (drop 4 pt, c')" "in_step b' c'" "length body = length (drop 4 pt)"
    using encrypt_decrypt [OF assms(1,2) e] by blast
  have "ct = take 4 pt @ body" "tag = mac_compute E X m n ct" "s' = BlockKey b' m"
    using assms(3) True e by (auto simp: Let_def)
  with d True assms(4) mac_tag [OF assms(1)] show ?thesis by (auto simp: Let_def split4)
next
  case False
  obtain body b' where e: "encrypt_data X b pt = (body, b')" by (cases "encrypt_data X b pt")
  obtain c' where d: "decrypt_data X c body = (pt, c')" "in_step b' c'" "length body = length pt"
    using encrypt_decrypt [OF assms(1,2) e] by blast
  have "ct = body" "tag = mac_compute E X m n pt" "s' = BlockKey b' m" using assms(3) False e by auto
  moreover have "pt = take 4 pt @ drop 4 pt" by simp
  ultimately show ?thesis
    using d False assms(4) mac_tag [OF assms(1)]
    by (intro exI [of _ "take 4 pt"] exI [of _ "BlockKey c' m"]) simp
qed

lemma cipher_open_sealed:
  assumes "crypto_ok X" "paired_keys s c" "seal (cipher_sealing E X) s n pt = (ct, tag, s')" "4 \<le> length pt"
  shows "\<exists>h c'. open_packet (cipher_opening E X) c n ct tag = Ok (h @ drop 4 pt, drop 4 pt, c') \<and> length h = 4
    \<and> paired_keys s' c' \<and> length ct = length pt \<and> length tag = open_tag_len (cipher_opening E X) c"
proof (cases s)
  case ClearKey
  then show ?thesis
    using assms by (intro exI [of _ "take 4 pt"]) (cases c; auto simp: cipher_sealing_def cipher_opening_def)
next
  case (GcmKey key nonce)
  then have c: "c = GcmKey key nonce" using assms(2) by (cases c) auto
  obtain body t where g: "gcm_encrypt X key nonce (take 4 pt) (drop 4 pt) = (body, t)"
    by (cases "gcm_encrypt X key nonce (take 4 pt) (drop 4 pt)")
  with assms(3) GcmKey have "ct = take 4 pt @ body" "tag = t" "s' = GcmKey key (inc_nonce nonce)"
    by (simp_all add: cipher_sealing_def)
  then show ?thesis using gcm_laws [OF assms(1) g] assms(4) c by (simp add: cipher_opening_def split4)
next
  case (ChachaKey k1 k2)
  then have c: "c = ChachaKey k1 k2" using assms(2) by (cases c) auto
  have l: "length (compute_poly1305 X no k2 d) = 16" for no d
    using assms(1) by (simp add: compute_poly1305_def crypto_ok_def)
  from ChachaKey assms(3,4) c show ?thesis
    by (auto simp: cipher_sealing_def cipher_opening_def Let_def l)
next
  case (BlockKey b m)
  then obtain b2 where c: "c = BlockKey b2 m" "in_step b b2" using assms(2) by (cases c) auto
  have "block_seal E X b m n pt = (ct, tag, s')" using assms(3) BlockKey by (simp add: cipher_sealing_def)
  from block_open_sealed [OF assms(1) c(2) this assms(4)] c BlockKey show ?thesis
    by (simp add: cipher_opening_def del: block_open.simps)
qed

lemma length_recovered_any:
  assumes "crypto_ok X" "paired_keys s c" "seal (cipher_sealing rfc4251 X) s n (be32 w @ pt) = (ct, tag, s')"
    "packet_length_to_read_for_block_length (cipher_opening rfc4251 X) c \<le> length ct"
  shows "decrypt_packet_length (cipher_opening rfc4251 X) c n
    (take (packet_length_to_read_for_block_length (cipher_opening rfc4251 X) c) ct) = be32 w"
proof (cases s)
  case ClearKey
  with assms(2) have "c = ClearKey" by (cases c) auto
  with ClearKey assms(3) show ?thesis by (auto simp: cipher_sealing_def cipher_opening_def)
next
  case (GcmKey key nonce)
  with assms(2) have "c = GcmKey key nonce" by (cases c) auto
  with GcmKey assms(3) show ?thesis by (auto simp: cipher_sealing_def cipher_opening_def split: prod.splits)
next
  case (ChachaKey k1 k2)
  with assms(2) have "c = ChachaKey k1 k2" by (cases c) auto
  with ChachaKey assms(3) show ?thesis by (auto simp: cipher_sealing_def cipher_opening_def Let_def)
next
  case (BlockKey b m)
  then obtain b2 where c: "c = BlockKey b2 m" "in_step b b2" using assms(2) by (cases c) auto
  show ?thesis
  proof (cases "is_etm m")
    case True
    with BlockKey c assms(3) show ?thesis
      by (auto simp: cipher_sealing_def cipher_opening_def Let_def split: prod.splits)
  next
    case False
    obtain b' where e: "encrypt_data X b (be32 w @ pt) = (ct, b')"
      using assms(3) BlockKey False by (auto simp: cipher_sealing_def split: prod.splits)
    have "16 \<le> length (be32 w @ pt)"
      using encrypt_length [OF assms(1) c(2) e] assms(4) c by (simp add: cipher_opening_def)
    from decrypt_prefix [OF assms(1) c(2) e this] False c show ?thesis by (simp add: cipher_opening_def)
  qed
qed

lemma cipher_contract:
  assumes "crypto_ok X"
  shows "packet_cipher rfc4251 (cipher_sealing rfc4251 X) (cipher_opening rfc4251 X) paired_keys"
proof unfold_locales
  fix s c n pt ct tag s' payload m w
  show "padding_length (cipher_sealing rfc4251 X) s payload \<le> 255"
    using clear_padding_bounds [of payload] aead_padding_bounds [of 16 payload] aead_padding_bounds [of 8 payload]
    by (cases s) (auto simp: cipher_sealing_def intro: order_trans [OF conjunct2 [OF block_padding_bounds]])
  show "length (fill_padding (cipher_sealing rfc4251 X) s m) = m"
    using assms by (cases s) (simp_all add: cipher_sealing_def crypto_ok_def)
  assume pair: "paired_keys s c"
  show "packet_length_to_read_for_block_length (cipher_opening rfc4251 X) c
      \<le> 5 + length payload + padding_length (cipher_sealing rfc4251 X) s payload"
    using pair block_padding_fills [of payload] by (cases s; cases c) (auto simp: cipher_sealing_def cipher_opening_def)
  show "\<exists>r. decrypt_packet_length (cipher_opening rfc4251 X) c n
      (take (packet_length_to_read_for_block_length (cipher_opening rfc4251 X) c) ct) = be_write_u32 rfc4251 w @ r"
    if "seal (cipher_sealing rfc4251 X) s n (push_u32_be rfc4251 w @ pt) = (ct, tag, s')"
      "packet_length_to_read_for_block_length (cipher_opening rfc4251 X) c \<le> length ct"
    using length_recovered_any [OF assms pair _ that(2)] that(1) by (simp add: rfc4251_def)
  assume seal: "seal (cipher_sealing rfc4251 X) s n pt = (ct, tag, s')" "4 \<le> length pt"
  note sealed = cipher_open_sealed [OF assms pair seal]
  from sealed show "length ct = length pt" "length tag = open_tag_len (cipher_opening rfc4251 X) c"
    "\<exists>hd4 c'. open_packet (cipher_opening rfc4251 X) c n ct tag = Ok (hd4 @ drop 4 pt, drop 4 pt, c') \<and>
      length hd4 = 4 \<and> paired_keys s' c'" by blast+
qed

lemma make_key_paired:
  assumes "CIPHERS nm = Some alg" "make_key alg k n mk mac = Ok key"
  shows "paired_keys key key"
proof -
  have "alg = CbcCipher sz blk \<Longrightarrow> blk \<in> {8, 16}" for sz blk
    using assms(1) by (auto simp: CIPHERS_def split: if_splits)
  with assms(2) show ?thesis by (cases alg) (auto simp: obind_Ok_iff split: if_splits)
qed

section \<open>Properties\<close>

text \<open>
  C5: whichever cipher and MAC were negotiated, what one side seals the other side reads: two keys made
  from the same material carry any sequence of packets, each is read back as its payload and in order,
  whatever follows on the stream, and the keys and the sequence numbers stay in step.
\<close>

theorem cipher_stream_roundtrip:
  assumes "crypto_ok X" "CIPHERS nm = Some alg" "make_key alg k n mk mac = Ok key"
    and "\<forall>p \<in> set ps. length p \<le> 261000" "seqn rb = seqn b" "buf_len rb = 0"
  shows "\<exists>sealed s' b' c' rb'. write_packets rfc4251 (cipher_sealing rfc4251 X) key ps b = Ok (s', b')
    \<and> buffer b' = buffer b @ sealed
    \<and> read_packets rfc4251 (cipher_opening rfc4251 X) (length ps) key (sealed @ rest) rb = Ok (ps, rest, c', rb')
    \<and> seqn rb' = seqn b' \<and> paired_keys s' c'"
proof -
  note pc = cipher_contract [OF assms(1)]
  obtain s' b' where w: "write_packets rfc4251 (cipher_sealing rfc4251 X) key ps b = Ok (s', b')"
    using packet_cipher.write_packets_Ok [OF pc assms(4)] by blast
  from packet_cipher.write_read_all [OF pc make_key_paired [OF assms(2,3)] assms(4) w assms(5,6)] w
  show ?thesis by blast
qed

text \<open>Packages that satisfy their documentation: a cipher that does nothing, with tags of zeros.\<close>

definition null_crypto :: crypto where
  "null_crypto = \<lparr>gcm_encrypt = (\<lambda>_ _ _ p. (p, replicate 16 0)), gcm_decrypt = (\<lambda>_ _ _ c _. Some c),
     chacha20_stream = (\<lambda>_ _ _. 0), poly1305 = (\<lambda>_ _. replicate 16 0), ctr_stream = (\<lambda>_ _ _. 0),
     block_encrypt = (\<lambda>_ _ b. b), block_decrypt = (\<lambda>_ _ b. b), hmac = (\<lambda>m _ _. replicate m 0),
     fill_random = (\<lambda>n. replicate n 0)\<rparr>"

lemma null_crypto_ok: "crypto_ok null_crypto"
  by (simp add: crypto_ok_def null_crypto_def)

theorem cipher_stream_roundtrip_witness:
  "\<exists>sealed s' b' c' rb'. write_packets rfc4251 (cipher_sealing rfc4251 null_crypto)
      (BlockKey (Cbc 16 (replicate 32 1) (replicate 16 2) (replicate 16 2)) (CryptoMac 32 (replicate 32 3)))
      [[21], [1, 2, 3]] SSHBuffer_new = Ok (s', b')
    \<and> buffer b' = buffer SSHBuffer_new @ sealed
    \<and> read_packets rfc4251 (cipher_opening rfc4251 null_crypto) (length [[21 :: u8], [1, 2, 3]])
        (BlockKey (Cbc 16 (replicate 32 1) (replicate 16 2) (replicate 16 2)) (CryptoMac 32 (replicate 32 3)))
        (sealed @ [9]) SSHBuffer_new = Ok ([[21], [1, 2, 3]], [9], c', rb')
    \<and> seqn rb' = seqn b' \<and> paired_keys s' c'"
  by (rule cipher_stream_roundtrip [OF null_crypto_ok, of "''aes256-cbc''" "CbcCipher 32 16" "replicate 32 1"
      "replicate 16 2" "replicate 32 3" "(32, CryptoMac 32)"])
    (simp_all add: CIPHERS_def make_mac_def SSHBuffer_new_def)

lemma aead_padding_aligns:
  assumes "blk = 8 \<or> blk = 16"
  shows "(1 + length p + aead_padding_length blk p) mod blk = 0"
proof (cases "length p + 5 \<le> 16")
  case True
  then have "1 + length p + aead_padding_length blk p = 16" by (auto simp: aead_padding_length_def Let_def)
  with assms show ?thesis by auto
next
  case False
  have 8: "(k + (8 - k mod 8)) mod 8 = 0" "(k + (8 - k mod 8 + 8)) mod 8 = 0" for k :: nat by presburger+
  have 16: "(k + (16 - k mod 16)) mod 16 = 0" "(k + (16 - k mod 16 + 16)) mod 16 = 0" for k :: nat by presburger+
  from assms show ?thesis
  proof
    assume "blk = 8"
    with False 8 [of "1 + length p"] show ?thesis by (simp add: aead_padding_length_def Let_def add.assoc)
  next
    assume "blk = 16"
    with False 16 [of "1 + length p"] show ?thesis by (simp add: aead_padding_length_def Let_def add.assoc)
  qed
qed

text \<open>
  C35: the padding of every cipher is what RFC 4253, section 6, asks for: between 4 and 255 bytes, and the
  part of the packet that is encrypted fills whole blocks; with the AEAD ciphers and encrypt-then-MAC
  the length field is not part of it.
\<close>

theorem padding_conforms:
  "let pad = padding_length (cipher_sealing E X) key p;
       blk = (case key of ClearKey \<Rightarrow> 8 | ChachaKey _ _ \<Rightarrow> 8 | _ \<Rightarrow> 16);
       clear_length = (case key of ClearKey \<Rightarrow> False | BlockKey _ m \<Rightarrow> is_etm m | _ \<Rightarrow> True)
   in 4 \<le> pad \<and> pad \<le> 255 \<and> ((if clear_length then 0 else 4) + 1 + length p + pad) mod blk = 0"
proof (cases key)
  case ClearKey
  then show ?thesis
    using clear_padding_bounds [of p] clear_padding_aligns [of p] by (simp add: cipher_sealing_def add.assoc)
next
  case (GcmKey a b)
  then show ?thesis using aead_padding_aligns [of 16 p] GcmKey aead_padding_bounds [of 16 p] by (simp add: cipher_sealing_def)
next
  case (ChachaKey a b)
  then show ?thesis using aead_padding_aligns [of 8 p] ChachaKey aead_padding_bounds [of 8 p] by (simp add: cipher_sealing_def)
next
  case (BlockKey b m)
  have "((if is_etm m then 0 else 4) + 1 + length p + block_padding_length m p) mod 16 = 0"
  proof (cases "length p + 5 + mac_len m \<le> 16")
    case True
    then have "length p \<le> 11" by simp
    then show ?thesis using True by (cases "is_etm m") (auto simp: block_padding_length_def Let_def)
  next
    case False
    define k where "k = (if is_etm m then 0 else 4) + 1 + length p"
    have "block_padding_length m p = (if 16 - k mod 16 < 4 then 16 - k mod 16 + 16 else 16 - k mod 16)"
      using False by (simp add: block_padding_length_def Let_def k_def)
    moreover have "(k + (16 - k mod 16)) mod 16 = 0" "(k + (16 - k mod 16 + 16)) mod 16 = 0" by presburger+
    ultimately show ?thesis unfolding k_def [symmetric] by metis
  qed
  then show ?thesis using BlockKey block_padding_bounds [of m p] by (simp add: cipher_sealing_def)
qed

end
