(* ===== verification/Key_Exchange.thy ===== *)
theory Key_Exchange
  imports Ciphers Channel_Session
begin

text \<open>
  The key exchange. \<^verbatim>\<open>kex/mod.rs\<close> (the table \<open>KEXES\<close> and the derivation of the session keys),
  \<^verbatim>\<open>kex/curve25519.rs\<close>, \<^verbatim>\<open>kex/ecdh_nistp.rs\<close>, \<^verbatim>\<open>kex/dh/\<close>, \<^verbatim>\<open>kex/none.rs\<close>, and the two halves of the
  exchange: \<^verbatim>\<open>client/kex.rs\<close> with \<open>server_key_check\<close> of \<^verbatim>\<open>client/mod.rs\<close>, and \<^verbatim>\<open>server/kex.rs\<close>. The
  theorems: both sides derive mirrored keys and the same session identifier, and the packets that
  one side seals with them the other side reads; the key derivation always ends.
\<close>

section \<open>Parameters\<close>

text \<open>
  Hashing, the encoding of multiple-precision integers and the curve arithmetic come from other
  packages; a secret scalar is the bytes it was made of. \<open>entropy\<close> is what the random generators of one
  side return.
\<close>

datatype digest = Sha1 | Sha256 | Sha384 | Sha512
datatype curve = NistP256 | NistP384 | NistP521

record kex_lib =
  hash_of :: "digest \<Rightarrow> bytes \<Rightarrow> bytes"
  extend_ssh_mpint :: "bytes \<Rightarrow> bytes"
  x25519_base :: "bytes \<Rightarrow> bytes"
  x25519_mul :: "bytes \<Rightarrow> bytes \<Rightarrow> bytes"
  ec_public :: "curve \<Rightarrow> bytes \<Rightarrow> bytes"
  ec_valid :: "curve \<Rightarrow> bytes \<Rightarrow> bool"
  ec_shared :: "curve \<Rightarrow> bytes \<Rightarrow> bytes \<Rightarrow> bytes"

record entropy =
  rnd32 :: bytes
  rnd_scalar :: "curve \<Rightarrow> bytes"
  rnd_range :: "nat \<Rightarrow> nat \<Rightarrow> nat"

fun digest_len :: "digest \<Rightarrow> nat" where
  "digest_len Sha1 = 20" | "digest_len Sha256 = 32" | "digest_len Sha384 = 48" | "digest_len Sha512 = 64"

definition kex_lib_ok :: "kex_lib \<Rightarrow> bool" where
  "kex_lib_ok L \<longleftrightarrow> (\<forall>d x. length (hash_of L d x) = digest_len d)
     \<and> (\<forall>a b. x25519_mul L a (x25519_base L b) = x25519_mul L b (x25519_base L a))
     \<and> (\<forall>a. length (x25519_base L a) = 32)
     \<and> (\<forall>c a b. ec_shared L c a (ec_public L c b) = ec_shared L c b (ec_public L c a))
     \<and> (\<forall>c a. ec_valid L c (ec_public L c a) \<and> length (ec_public L c a) \<le> 133)"

section \<open>Diffie-Hellman groups\<close>

record dh_group =
  prime :: nat
  generator :: nat
  exp_size :: nat

definition DH_GROUP1 :: dh_group where
  "DH_GROUP1 = \<lparr>prime = 0xFFFFFFFFFFFFFFFFC90FDAA22168C234C4C6628B80DC1CD129024E088A67CC74020BBEA63B139B22514A08798E3404DDEF9519B3CD3A431B302B0A6DF25F14374FE1356D6D51C245E485B576625E7EC6F44C42E9A637ED6B0BFF5CB6F406B7EDEE386BFB5A899FA5AE9F24117C4B1FE649286651ECE65381FFFFFFFFFFFFFFFF,
     generator = 2, exp_size = 256\<rparr>"

definition DH_GROUP14 :: dh_group where
  "DH_GROUP14 = \<lparr>prime = 0xFFFFFFFFFFFFFFFFC90FDAA22168C234C4C6628B80DC1CD129024E088A67CC74020BBEA63B139B22514A08798E3404DDEF9519B3CD3A431B302B0A6DF25F14374FE1356D6D51C245E485B576625E7EC6F44C42E9A637ED6B0BFF5CB6F406B7EDEE386BFB5A899FA5AE9F24117C4B1FE649286651ECE45B3DC2007CB8A163BF0598DA48361C55D39A69163FA8FD24CF5F83655D23DCA3AD961C62F356208552BB9ED529077096966D670C354E4ABC9804F1746C08CA18217C32905E462E36CE3BE39E772C180E86039B2783A2EC07A28FB5C55DF06F4C52C9DE2BCBF6955817183995497CEA956AE515D2261898FA051015728E5A8AACAA68FFFFFFFFFFFFFFFF,
     generator = 2, exp_size = 256\<rparr>"

definition DH_GROUP16 :: dh_group where
  "DH_GROUP16 = \<lparr>prime = 0xFFFFFFFFFFFFFFFFC90FDAA22168C234C4C6628B80DC1CD129024E088A67CC74020BBEA63B139B22514A08798E3404DDEF9519B3CD3A431B302B0A6DF25F14374FE1356D6D51C245E485B576625E7EC6F44C42E9A637ED6B0BFF5CB6F406B7EDEE386BFB5A899FA5AE9F24117C4B1FE649286651ECE45B3DC2007CB8A163BF0598DA48361C55D39A69163FA8FD24CF5F83655D23DCA3AD961C62F356208552BB9ED529077096966D670C354E4ABC9804F1746C08CA18217C32905E462E36CE3BE39E772C180E86039B2783A2EC07A28FB5C55DF06F4C52C9DE2BCBF6955817183995497CEA956AE515D2261898FA051015728E5A8AAAC42DAD33170D04507A33A85521ABDF1CBA64ECFB850458DBEF0A8AEA71575D060C7DB3970F85A6E1E4C7ABF5AE8CDB0933D71E8C94E04A25619DCEE3D2261AD2EE6BF12FFA06D98A0864D87602733EC86A64521F2B18177B200CBBE117577A615D6C770988C0BAD946E208E24FA074E5AB3143DB5BFCE0FD108E4B82D120A92108011A723C12A787E6D788719A10BDBA5B2699C327186AF4E23C1A946834B6150BDA2583E9CA2AD44CE8DBBBC2DB04DE8EF92E8EFC141FBECAA6287C59474E6BC05D99B2964FA090C3A2233BA186515BE7ED1F612970CEE2D7AFB81BDD762170481CD0069127D5B05AA993B4EA988D8FDDC186FFB7DC90A6C08F4DF435C934063199FFFFFFFFFFFFFFFF,
     generator = 2, exp_size = 512\<rparr>"

text \<open>\<open>BigUint\<close>: a natural number, its big-endian bytes without leading zeros (one zero byte for 0), and \<open>modpow\<close>.\<close>

fun to_bytes_be :: "nat \<Rightarrow> bytes" where
  "to_bytes_be n = (if n < 256 then [of_nat n] else to_bytes_be (n div 256) @ [of_nat (n mod 256)])"

declare to_bytes_be.simps [simp del]

definition from_bytes_be :: "bytes \<Rightarrow> nat" where
  "from_bytes_be xs = foldl (\<lambda>a b. 256 * a + unat b) 0 xs"

definition modpow :: "nat \<Rightarrow> nat \<Rightarrow> nat \<Rightarrow> nat" where
  "modpow b e m = b ^ e mod m"

record dh =
  prime_num :: nat
  dh_generator :: nat
  dh_exp_size :: nat
  private_key :: nat
  dh_public_key :: nat
  dh_shared_secret :: nat

definition DH_new :: "dh_group \<Rightarrow> dh" where
  "DH_new grp = \<lparr>prime_num = prime grp, dh_generator = generator grp, dh_exp_size = exp_size grp,
     private_key = 0, dh_public_key = 0, dh_shared_secret = 0\<rparr>"

definition generate_private_key :: "entropy \<Rightarrow> bool \<Rightarrow> dh \<Rightarrow> dh" where
  "generate_private_key R is_server self =
     self\<lparr>private_key := rnd_range R (if is_server then 1 else 2) ((prime_num self - 1) div 2)\<rparr>"

definition generate_public_key :: "dh \<Rightarrow> dh" where
  "generate_public_key self =
     self\<lparr>dh_public_key := modpow (dh_generator self) (private_key self) (prime_num self)\<rparr>"

definition DH_compute_shared_secret :: "dh \<Rightarrow> nat \<Rightarrow> dh" where
  "DH_compute_shared_secret self other =
     self\<lparr>dh_shared_secret := modpow other (private_key self) (prime_num self)\<rparr>"

definition validate_shared_secret :: "dh \<Rightarrow> nat \<Rightarrow> bool" where
  "validate_shared_secret self s \<longleftrightarrow> 1 < s \<and> s < prime_num self - 1"

definition validate_public_key :: "dh \<Rightarrow> nat \<Rightarrow> bool" where
  "validate_public_key self k \<longleftrightarrow> 1 < k \<and> k < prime_num self - 1"

definition biguint_to_mpint :: "nat \<Rightarrow> bytes" where
  "biguint_to_mpint n =
    (let b = to_bytes_be n in (if b \<noteq> [] \<and> unat (hd b) > 127 then [0] else []) @ b)"

section \<open>Key exchange algorithms\<close>

text \<open>
  The boxed algorithms: the local secret where there is one, and the shared secret once it is known.
\<close>

datatype kex_alg =
  Curve25519Kex "bytes option" "bytes option"
| EcdhNistPKex curve "bytes option" "bytes option"
| DhGroupKex digest dh "bytes option"
| NoneKex

definition KEXES :: "name \<rightharpoonup> kex_alg" where
  "KEXES = map_of [(CURVE25519, Curve25519Kex None None), (CURVE25519_PRE_RFC_8731, Curve25519Kex None None),
     (DH_G16_SHA512, DhGroupKex Sha512 (DH_new DH_GROUP16) None),
     (DH_G14_SHA256, DhGroupKex Sha256 (DH_new DH_GROUP14) None),
     (''diffie-hellman-group14-sha1'', DhGroupKex Sha1 (DH_new DH_GROUP14) None),
     (''diffie-hellman-group1-sha1'', DhGroupKex Sha1 (DH_new DH_GROUP1) None),
     (''ecdh-sha2-nistp256'', EcdhNistPKex NistP256 None None),
     (''ecdh-sha2-nistp384'', EcdhNistPKex NistP384 None None),
     (''ecdh-sha2-nistp521'', EcdhNistPKex NistP521 None None), (''none'', NoneKex)]"

fun curve_digest :: "curve \<Rightarrow> digest" where
  "curve_digest NistP256 = Sha256" | "curve_digest NistP384 = Sha384" | "curve_digest NistP521 = Sha512"

fun skip_exchange :: "kex_alg \<Rightarrow> bool" where
  "skip_exchange NoneKex = True"
| "skip_exchange _ = False"

text \<open>The announced length of the client's key; reading it from fewer than four bytes panics.\<close>

definition announced_length :: "codec \<Rightarrow> bytes \<Rightarrow> (error, nat) outcome" where
  "announced_length E payload =
    (if payload = [] \<or> hd payload \<noteq> KEX_ECDH_INIT then Err Inconsistent
     else if length payload < 5 then Panic
     else Ok (unat (be_read_u32 E (tl payload))))"

definition curve25519_server_dh where [simp]:
  "curve25519_server_dh E L R loc ex payload =
    obind (announced_length E payload) (\<lambda>n.
    if n \<noteq> 32 then Err KexError
    else if length payload < 5 + n then Err Inconsistent
    else Ok (ex\<lparr>server_ephemeral := x25519_base L (rnd32 R)\<rparr>,
             Curve25519Kex loc (Some (x25519_mul L (rnd32 R) (take 32 (drop 5 payload))))))"

definition ecdh_server_dh where [simp]:
  "ecdh_server_dh E L R c loc ex payload =
    obind (announced_length E payload) (\<lambda>n.
    if length payload < 5 + n then Err Inconsistent
    else if \<not> ec_valid L c (take n (drop 5 payload)) then Err Inconsistent
    else Ok (ex\<lparr>server_ephemeral := ec_public L c (rnd_scalar R c)\<rparr>,
             EcdhNistPKex c loc (Some (ec_shared L c (rnd_scalar R c) (take n (drop 5 payload))))))"

definition dh_server_dh where [simp]:
  "dh_server_dh E R d g ex payload =
    obind (announced_length E payload) (\<lambda>n.
    if length payload < 5 + n then Err Inconsistent
    else
      (let g1 = generate_public_key (generate_private_key R True g);
           client = from_bytes_be (take n (drop 5 payload));
           g2 = DH_compute_shared_secret g1 client
       in if \<not> validate_public_key g1 (dh_public_key g1) then Err Inconsistent
          else if \<not> validate_public_key g1 client then Err Inconsistent
          else if \<not> validate_shared_secret g2 (dh_shared_secret g2) then Err Inconsistent
          else Ok (ex\<lparr>server_ephemeral := biguint_to_mpint (dh_public_key g1)\<rparr>,
                   DhGroupKex d g2 (Some (biguint_to_mpint (dh_shared_secret g2))))))"

fun server_dh :: "codec \<Rightarrow> kex_lib \<Rightarrow> entropy \<Rightarrow> kex_alg \<Rightarrow> exchange \<Rightarrow> bytes \<Rightarrow> (error, exchange \<times> kex_alg) outcome" where
  "server_dh E L R (Curve25519Kex loc _) ex payload = curve25519_server_dh E L R loc ex payload"
| "server_dh E L R (EcdhNistPKex c loc _) ex payload = ecdh_server_dh E L R c loc ex payload"
| "server_dh E L R (DhGroupKex d g sh) ex payload = dh_server_dh E R d g ex payload"
| "server_dh E L R NoneKex ex payload = Ok (ex, NoneKex)"

text \<open>\<open>client_dh\<close> fills the client's ephemeral key and appends the packet to the buffer.\<close>

definition init_packet :: "codec \<Rightarrow> bytes \<Rightarrow> bytes" where
  "init_packet E pub = KEX_ECDH_INIT # extend_ssh_string E pub"

definition curve25519_client_dh where [simp]:
  "curve25519_client_dh E L R sh buf =
    (let pub = x25519_base L (rnd32 R) in Ok (pub, buf @ init_packet E pub, Curve25519Kex (Some (rnd32 R)) sh))"

definition ecdh_client_dh where [simp]:
  "ecdh_client_dh E L R c sh buf =
    (let pub = ec_public L c (rnd_scalar R c)
     in Ok (pub, buf @ init_packet E pub, EcdhNistPKex c (Some (rnd_scalar R c)) sh))"

definition dh_client_dh where [simp]:
  "dh_client_dh E R d g sh buf =
    (let g1 = generate_public_key (generate_private_key R False g); pub = biguint_to_mpint (dh_public_key g1)
     in if \<not> validate_public_key g1 (dh_public_key g1) then Err Inconsistent
        else Ok (pub, buf @ init_packet E pub, DhGroupKex d g1 sh))"

fun client_dh :: "codec \<Rightarrow> kex_lib \<Rightarrow> entropy \<Rightarrow> kex_alg \<Rightarrow> bytes \<Rightarrow> bytes \<Rightarrow> (error, bytes \<times> bytes \<times> kex_alg) outcome" where
  "client_dh E L R (Curve25519Kex _ sh) eph buf = curve25519_client_dh E L R sh buf"
| "client_dh E L R (EcdhNistPKex c _ sh) eph buf = ecdh_client_dh E L R c sh buf"
| "client_dh E L R (DhGroupKex d g sh) eph buf = dh_client_dh E R d g sh buf"
| "client_dh E L R NoneKex eph buf = Ok (eph, buf, NoneKex)"

definition curve25519_shared_secret where [simp]:
  "curve25519_shared_secret L loc remote =
    (case loc of
       None \<Rightarrow> Err KexInitError
     | Some secret \<Rightarrow> if length remote \<noteq> 32 then Panic
                      else Ok (Curve25519Kex None (Some (x25519_mul L secret remote))))"

definition ecdh_shared_secret where [simp]:
  "ecdh_shared_secret L c loc remote =
    (case loc of
       None \<Rightarrow> Err KexInitError
     | Some secret \<Rightarrow> if \<not> ec_valid L c remote then Err KexInitError
                      else Ok (EcdhNistPKex c None (Some (ec_shared L c secret remote))))"

definition dh_group_shared_secret where [simp]:
  "dh_group_shared_secret d g remote =
    (let other = from_bytes_be remote; g1 = DH_compute_shared_secret g other
     in if \<not> validate_public_key g other then Err Inconsistent
        else if \<not> validate_shared_secret g1 (dh_shared_secret g1) then Err Inconsistent
        else Ok (DhGroupKex d g1 (Some (biguint_to_mpint (dh_shared_secret g1)))))"

fun compute_shared_secret :: "kex_lib \<Rightarrow> kex_alg \<Rightarrow> bytes \<Rightarrow> (error, kex_alg) outcome" where
  "compute_shared_secret L (Curve25519Kex loc _) remote = curve25519_shared_secret L loc remote"
| "compute_shared_secret L (EcdhNistPKex c loc _) remote = ecdh_shared_secret L c loc remote"
| "compute_shared_secret L (DhGroupKex d g _) remote = dh_group_shared_secret d g remote"
| "compute_shared_secret L NoneKex remote = Ok NoneKex"

text \<open>Every algorithm hashes the same fields, with its own digest and its own form of the secret.\<close>

definition hash_input :: "codec \<Rightarrow> kex_lib \<Rightarrow> bytes option \<Rightarrow> bytes \<Rightarrow> exchange \<Rightarrow> bytes" where
  "hash_input E L shared key ex =
     extend_ssh_string E (client_id ex) @ extend_ssh_string E (server_id ex)
     @ extend_ssh_string E (client_kex_init ex) @ extend_ssh_string E (server_kex_init ex)
     @ key @ extend_ssh_string E (client_ephemeral ex) @ extend_ssh_string E (server_ephemeral ex)
     @ (case shared of Some sh \<Rightarrow> extend_ssh_mpint L sh | None \<Rightarrow> [])"

definition curve25519_exchange_hash where [simp]:
  "curve25519_exchange_hash E L sh key ex = hash_of L Sha256 (hash_input E L sh key ex)"

definition ecdh_exchange_hash where [simp]:
  "ecdh_exchange_hash E L c sh key ex = hash_of L (curve_digest c) (hash_input E L sh key ex)"

definition dh_exchange_hash where [simp]:
  "dh_exchange_hash E L d sh key ex = hash_of L d (hash_input E L sh key ex)"

fun compute_exchange_hash :: "codec \<Rightarrow> kex_lib \<Rightarrow> kex_alg \<Rightarrow> bytes \<Rightarrow> exchange \<Rightarrow> bytes" where
  "compute_exchange_hash E L (Curve25519Kex _ sh) key ex = curve25519_exchange_hash E L sh key ex"
| "compute_exchange_hash E L (EcdhNistPKex c _ sh) key ex = ecdh_exchange_hash E L c sh key ex"
| "compute_exchange_hash E L (DhGroupKex d _ sh) key ex = dh_exchange_hash E L d sh key ex"
| "compute_exchange_hash E L NoneKex key ex = []"

section \<open>Session keys\<close>

text \<open>RFC 4253, section 7.2. The loop that lengthens a key ends because a hash is not empty.\<close>

definition secret_prefix :: "kex_lib \<Rightarrow> bytes option \<Rightarrow> bytes \<Rightarrow> bytes" where
  "secret_prefix L shared h = (case shared of Some sh \<Rightarrow> extend_ssh_mpint L sh | None \<Rightarrow> []) @ h"

fun lengthen_key :: "(bytes \<Rightarrow> bytes) \<Rightarrow> bytes \<Rightarrow> nat \<Rightarrow> nat \<Rightarrow> bytes \<Rightarrow> bytes option" where
  "lengthen_key hash pre len fuel key =
    (if len \<le> length key then Some key
     else case fuel of 0 \<Rightarrow> None | Suc f \<Rightarrow> lengthen_key hash pre len f (key @ hash (pre @ key)))"

declare lengthen_key.simps [simp del]

definition compute_key ::
  "kex_lib \<Rightarrow> digest \<Rightarrow> bytes option \<Rightarrow> bytes \<Rightarrow> bytes \<Rightarrow> char \<Rightarrow> nat \<Rightarrow> (error, bytes) outcome" where
  "compute_key L d shared sid h c len =
    (let pre = secret_prefix L shared h; k0 = hash_of L d (pre @ [of_char c] @ sid)
     in case lengthen_key (hash_of L d) pre len len k0 of
          None \<Rightarrow> Diverge
        | Some key \<Rightarrow> Ok (take len key))"

definition compute_keys ::
  "kex_lib \<Rightarrow> digest \<Rightarrow> bytes option \<Rightarrow> bytes \<Rightarrow> bytes \<Rightarrow> name \<Rightarrow> name \<Rightarrow> name \<Rightarrow> bool \<Rightarrow>
   (error, cipher_key \<times> cipher_key) outcome" where
  "compute_keys L d shared sid h cipher_name remote_to_local_mac local_to_remote_mac is_server =
    obind (ok_or UnknownAlgo (CIPHERS cipher_name)) (\<lambda>alg.
    obind (ok_or UnknownAlgo (MACS remote_to_local_mac)) (\<lambda>r2l_mac.
    obind (ok_or UnknownAlgo (MACS local_to_remote_mac)) (\<lambda>l2r_mac.
    let key = compute_key L d shared sid h
    in obind (key (if is_server then CHR ''D'' else CHR ''C'') (key_len alg)) (\<lambda>k1.
       obind (key (if is_server then CHR ''B'' else CHR ''A'') (nonce_len alg)) (\<lambda>n1.
       obind (key (if is_server then CHR ''F'' else CHR ''E'') (fst l2r_mac)) (\<lambda>m1.
       obind (make_key alg k1 n1 m1 l2r_mac) (\<lambda>local_to_remote.
       obind (key (if is_server then CHR ''C'' else CHR ''D'') (key_len alg)) (\<lambda>k2.
       obind (key (if is_server then CHR ''A'' else CHR ''B'') (nonce_len alg)) (\<lambda>n2.
       obind (key (if is_server then CHR ''E'' else CHR ''F'') (fst r2l_mac)) (\<lambda>m2.
       obind (make_key alg k2 n2 m2 r2l_mac) (\<lambda>remote_to_local.
       Ok (local_to_remote, remote_to_local))))))))))))"

definition curve25519_compute_keys where [simp]: "curve25519_compute_keys L sh = compute_keys L Sha256 sh"

definition ecdh_compute_keys where [simp]: "ecdh_compute_keys L c sh = compute_keys L (curve_digest c) sh"

definition dh_compute_keys where [simp]: "dh_compute_keys L d sh = compute_keys L d sh"

definition none_compute_keys where [simp]: "none_compute_keys L = compute_keys L Sha256 None"

fun alg_compute_keys :: "kex_lib \<Rightarrow> kex_alg \<Rightarrow> bytes \<Rightarrow> bytes \<Rightarrow> name \<Rightarrow> name \<Rightarrow> name \<Rightarrow> bool \<Rightarrow>
   (error, cipher_key \<times> cipher_key) outcome" where
  "alg_compute_keys L (Curve25519Kex _ sh) sid h = curve25519_compute_keys L sh sid h"
| "alg_compute_keys L (EcdhNistPKex c _ sh) sid h = ecdh_compute_keys L c sh sid h"
| "alg_compute_keys L (DhGroupKex d _ sh) sid h = dh_compute_keys L d sh sid h"
| "alg_compute_keys L NoneKex sid h = none_compute_keys L sid h"

text \<open>What an algorithm contributes to the hash and to the keys.\<close>

fun alg_digest :: "kex_alg \<Rightarrow> digest" where
  "alg_digest (Curve25519Kex _ _) = Sha256"
| "alg_digest (EcdhNistPKex c _ _) = curve_digest c"
| "alg_digest (DhGroupKex d _ _) = d"
| "alg_digest NoneKex = Sha256"

fun alg_shared :: "kex_alg \<Rightarrow> bytes option" where
  "alg_shared (Curve25519Kex _ sh) = sh"
| "alg_shared (EcdhNistPKex _ _ sh) = sh"
| "alg_shared (DhGroupKex _ _ sh) = sh"
| "alg_shared NoneKex = None"

lemma alg_compute_keys_eq: "alg_compute_keys L alg = compute_keys L (alg_digest alg) (alg_shared alg)"
  by (cases alg) (auto simp: fun_eq_iff)

section \<open>The messages of a key exchange\<close>

text \<open>
  The operations below give the packets they write instead of sealing them; the session seals them in
  that order. A host key is known to the client through the key package: parsing, the bytes that
  \<open>push_to\<close> writes, and the check of a signature; the server's key has a name, these bytes, and
  \<open>add_signature\<close>, which gives what it appends.
\<close>

record 'p host_lib =
  parse_host_key :: "name \<Rightarrow> bytes \<Rightarrow> 'p option"
  push_key :: "'p \<Rightarrow> bytes"
  verify_server_auth :: "'p \<Rightarrow> bytes \<Rightarrow> bytes \<Rightarrow> bool"

record server_key =
  sk_name :: name
  sk_blob :: bytes
  sk_sign :: "bytes \<Rightarrow> (error, bytes) outcome"

definition KexInit_client_write :: "codec \<Rightarrow> preferred \<Rightarrow> bytes \<Rightarrow> kex_init \<Rightarrow> bytes list \<times> kex_init" where
  "KexInit_client_write E prefs cookie self =
    (let packet = write_kex E prefs [] cookie None
     in ([packet], self\<lparr>ki_exchange := (ki_exchange self)\<lparr>client_kex_init := packet\<rparr>, ki_sent := True\<rparr>))"

definition KexInit_client_parse ::
  "codec \<Rightarrow> kex_lib \<Rightarrow> entropy \<Rightarrow> preferred \<Rightarrow> bytes \<Rightarrow> bytes \<Rightarrow> kex_init \<Rightarrow>
   (error, bytes list \<times> kex_alg kex_dh_done) outcome" where
  "KexInit_client_parse E L R prefs cookie buf self =
    obind (read_kex E False buf prefs None) (\<lambda>algo.
    let ex0 = ki_exchange self;
        self0 = self\<lparr>ki_exchange := ex0\<lparr>server_kex_init := server_kex_init ex0 @ buf\<rparr>\<rparr>;
        (written, self1) = (if ki_sent self0 then ([], self0) else KexInit_client_write E prefs cookie self0);
        ex1 = ki_exchange self1;
        i0 = length (client_kex_init ex1)
    in obind (ok_or UnknownAlgo (KEXES (names_kex algo))) (\<lambda>kex.
       obind (client_dh E L R kex (client_ephemeral ex1) (client_kex_init ex1)) (\<lambda>(eph, out, kex').
       Ok (written @ [drop i0 out],
           \<lparr>done_exchange = ex1\<lparr>client_ephemeral := eph, client_kex_init := take i0 out\<rparr>, done_kex = kex',
            done_key = 0, done_session_id = ki_session_id self1, done_names = algo\<rparr>))))"

definition server_key_check ::
  "codec \<Rightarrow> kex_lib \<Rightarrow> 'p host_lib \<Rightarrow> ('p \<Rightarrow> (error, bool) outcome) \<Rightarrow> bool \<Rightarrow> bytes \<Rightarrow> kex_alg kex_dh_done \<Rightarrow>
   (error, (kex_alg, cipher_key \<times> cipher_key) new_keys) outcome" where
  "server_key_check E L HL check_server_key is_rekey buf self =
    obind (read_or (read_string E (drop 1 buf))) (\<lambda>(raw, r).
    obind (read_or (parse_host_key HL (names_key (done_names self)) raw)) (\<lambda>pubkey.
    obind (if is_rekey then Ok True else check_server_key pubkey) (\<lambda>accepted.
    if \<not> accepted then Err UnknownKey
    else
      obind (read_or (read_string E r)) (\<lambda>(eph, r).
      let ex0 = done_exchange self; ex1 = ex0\<lparr>server_ephemeral := server_ephemeral ex0 @ eph\<rparr>
      in obind (read_or (read_string E r)) (\<lambda>(signature, _).
         obind (compute_shared_secret L (done_kex self) (server_ephemeral ex1)) (\<lambda>kex1.
         let h = compute_exchange_hash E L kex1 (push_key HL pubkey) ex1
         in obind (read_or (read_string E signature)) (\<lambda>(_, sr).
            obind (read_or (read_string E sr)) (\<lambda>(sg, _).
            if \<not> verify_server_auth HL pubkey h sg then Err WrongServerSig
            else obind (KexDhDone_compute_keys (alg_compute_keys L)
                     (self\<lparr>done_exchange := ex1, done_kex := kex1\<rparr>) h False) (\<lambda>nk.
                 Ok (nk\<lparr>nk_sent := True\<rparr>))))))))))"

definition KexInit_server_write ::
  "codec \<Rightarrow> preferred \<Rightarrow> bytes \<Rightarrow> server_key list \<Rightarrow> kex_init \<Rightarrow> bytes list \<times> kex_init" where
  "KexInit_server_write E prefs cookie keys self =
    (let packet = write_kex E prefs [] cookie (Some (map sk_name keys))
     in ([packet], self\<lparr>ki_exchange := (ki_exchange self)\<lparr>server_kex_init := packet\<rparr>, ki_sent := True\<rparr>))"

definition KexInit_server_parse ::
  "codec \<Rightarrow> preferred \<Rightarrow> bytes \<Rightarrow> server_key list \<Rightarrow> bytes \<Rightarrow> kex_init \<Rightarrow>
   (error, bytes list \<times> (kex_alg, cipher_key \<times> cipher_key) kex) outcome" where
  "KexInit_server_parse E prefs cookie keys buf self =
    (if buf \<noteq> [] \<and> hd buf = KEXINIT then
       obind (read_kex E True buf prefs (Some (map sk_name keys))) (\<lambda>algo.
       let ex0 = ki_exchange self;
           self0 = self\<lparr>ki_exchange := ex0\<lparr>client_kex_init := client_kex_init ex0 @ buf\<rparr>\<rparr>;
           (written, self1) = (if ki_sent self0 then ([], self0) else KexInit_server_write E prefs cookie keys self0);
           key = length (takeWhile (\<lambda>k. sk_name k \<noteq> names_key algo) keys)
       in if key < length keys
          then Ok (written, Dh \<lparr>dh_exchange = ki_exchange self1, dh_names = algo, dh_key = key,
                     dh_session_id = ki_session_id self1\<rparr>)
          else Err UnknownKey)
     else Ok ([], Init self))"

definition KexDh_parse ::
  "codec \<Rightarrow> kex_lib \<Rightarrow> entropy \<Rightarrow> server_key list \<Rightarrow> bytes \<Rightarrow> kex_dh \<Rightarrow>
   (error, bytes list \<times> (kex_alg, cipher_key \<times> cipher_key) kex) outcome" where
  "KexDh_parse E L R keys buf self =
    (if ignore_guessed (dh_names self)
     then Ok ([], Dh (self\<lparr>dh_names := (dh_names self)\<lparr>ignore_guessed := False\<rparr>\<rparr>))
     else if buf = [] \<or> hd buf \<noteq> KEX_ECDH_INIT then Panic
     else
       obind (read_or (read_string E (tl buf))) (\<lambda>(eph, _).
       let ex0 = dh_exchange self; ex1 = ex0\<lparr>client_ephemeral := client_ephemeral ex0 @ eph\<rparr>
       in obind (ok_or UnknownAlgo (KEXES (names_kex (dh_names self)))) (\<lambda>kex.
          obind (server_dh E L R kex ex1 buf) (\<lambda>(ex2, kex1).
          if length keys \<le> dh_key self then Panic
          else
            (let key = keys ! dh_key self; h = compute_exchange_hash E L kex1 (sk_blob key) ex2
             in obind (sk_sign key h) (\<lambda>signature.
                obind (KexDhDone_compute_keys (alg_compute_keys L)
                    \<lparr>done_exchange = ex2, done_kex = kex1, done_key = dh_key self,
                     done_session_id = dh_session_id self, done_names = dh_names self\<rparr> h True) (\<lambda>nk.
                Ok ([KEX_ECDH_REPLY # sk_blob key @ extend_ssh_string E (server_ephemeral ex2) @ signature, [NEWKEYS]],
                    KexKeys nk))))))))"

section \<open>Numbers on the wire\<close>

lemma from_bytes_snoc: "from_bytes_be (xs @ [b]) = 256 * from_bytes_be xs + unat b"
  by (simp add: from_bytes_be_def)

lemma from_to_bytes [simp]: "from_bytes_be (to_bytes_be n) = n"
proof (induction n rule: to_bytes_be.induct)
  case (1 n)
  then show ?case
    by (cases "n < 256") (subst to_bytes_be.simps, simp add: from_bytes_snoc from_bytes_be_def unat_of_nat)+
qed

lemma from_bytes_zero: "from_bytes_be (0 # xs) = from_bytes_be xs"
  by (simp add: from_bytes_be_def)

lemma decode_mpint [simp]: "from_bytes_be (biguint_to_mpint n) = n"
  by (simp add: biguint_to_mpint_def Let_def from_bytes_zero)

lemma length_to_bytes: "n < 256 ^ Suc k \<Longrightarrow> length (to_bytes_be n) \<le> Suc k"
proof (induction k arbitrary: n)
  case 0
  then show ?case by (simp add: to_bytes_be.simps [of n])
next
  case (Suc k)
  have "n div 256 < 256 ^ Suc k" using Suc.prems by (simp add: less_mult_imp_div_less mult.commute)
  from Suc.IH [OF this] show ?case by (simp add: to_bytes_be.simps [of n])
qed

lemma length_mpint: "n < 256 ^ Suc k \<Longrightarrow> length (biguint_to_mpint n) \<le> Suc (Suc k)"
  using length_to_bytes [of n k] by (simp add: biguint_to_mpint_def Let_def)

lemma mpint_mod_small:
  assumes "0 < p" "p < 256 ^ 512"
  shows "length (biguint_to_mpint (m mod p)) \<le> 513"
  using length_mpint [of "m mod p" 511] mod_less_divisor [OF assms(1), of m] assms(2) by simp

lemma modpow_commute: "modpow (modpow g a p) b p = modpow (modpow g b p) a p"
  by (simp add: modpow_def power_mod mult.commute flip: power_mult)

section \<open>Both sides compute the same secret\<close>

text \<open>The state of an algorithm before its secrets are made.\<close>

fun fresh_alg :: "kex_alg \<Rightarrow> bool" where
  "fresh_alg (Curve25519Kex loc sh) \<longleftrightarrow> loc = None \<and> sh = None"
| "fresh_alg (EcdhNistPKex c loc sh) \<longleftrightarrow> loc = None \<and> sh = None"
| "fresh_alg (DhGroupKex d g sh) \<longleftrightarrow> sh = None \<and> 0 < prime_num g \<and> prime_num g < 256 ^ 512"
| "fresh_alg NoneKex \<longleftrightarrow> True"

lemma KEXES_fresh: "KEXES nm = Some kx \<Longrightarrow> fresh_alg kx"
  by (auto simp: KEXES_def DH_new_def DH_GROUP1_def DH_GROUP14_def DH_GROUP16_def split: if_splits)

lemma init_packet_rfc:
  assumes "length pub < 2 ^ 32"
  shows "announced_length rfc4251 (init_packet rfc4251 pub) = Ok (length pub)"
    "length (init_packet rfc4251 pub) = 5 + length pub" "drop 5 (init_packet rfc4251 pub) = pub"
  using assms
  by (simp_all add: announced_length_def init_packet_def rfc4251_def rfc_string_def unat_of_nat_u32)

lemma dh_agrees:
  assumes "kex_lib_ok L" "fresh_alg kx" "\<not> skip_exchange kx"
    and c: "client_dh rfc4251 L Rc kx eph buf = Ok (pub, out, kc)"
    and s: "server_dh rfc4251 L Rs kx ex (init_packet rfc4251 pub) = Ok (ex', ks)"
  shows "\<exists>seph k. out = buf @ init_packet rfc4251 pub \<and> length pub < 2 ^ 32 \<and> ex' = ex\<lparr>server_ephemeral := seph\<rparr>
    \<and> length seph < 2 ^ 32 \<and> compute_shared_secret L kc seph = Ok k \<and> alg_shared k = alg_shared ks
    \<and> alg_digest k = alg_digest ks \<and> \<not> skip_exchange k \<and> \<not> skip_exchange ks"
proof (cases kx)
  case (Curve25519Kex loc sh)
  then have pub: "pub = x25519_base L (rnd32 Rc)" "length pub = 32"
    using c assms(1) by (auto simp: kex_lib_ok_def Let_def)
  have comm: "x25519_mul L (rnd32 Rc) (x25519_base L (rnd32 Rs)) = x25519_mul L (rnd32 Rs) (x25519_base L (rnd32 Rc))"
    and len: "length (x25519_base L (rnd32 Rs)) = 32"
    using assms(1) unfolding kex_lib_ok_def by blast+
  have l: "length pub < 2 ^ 32" using pub(2) by simp
  show ?thesis
    using c s Curve25519Kex pub init_packet_rfc [OF l] len comm
    by (intro exI [of _ "x25519_base L (rnd32 Rs)"]) (auto simp: Let_def)
next
  case (EcdhNistPKex cv loc sh)
  then have pub: "pub = ec_public L cv (rnd_scalar Rc cv)" using c by (auto simp: Let_def)
  have laws: "length (ec_public L cv a) < 2 ^ 32" "ec_valid L cv (ec_public L cv a)"
    "ec_shared L cv a (ec_public L cv b) = ec_shared L cv b (ec_public L cv a)" for a b
    using assms(1) unfolding kex_lib_ok_def by (auto intro: le_less_trans [of _ 133])
  have l: "length pub < 2 ^ 32" using pub laws(1) by simp
  show ?thesis
    using c s EcdhNistPKex pub init_packet_rfc [OF l] laws
    by (intro exI [of _ "ec_public L cv (rnd_scalar Rs cv)"]) (auto simp: Let_def split: if_splits)
next
  case (DhGroupKex d g sh)
  define gc where "gc = generate_public_key (generate_private_key Rc False g)"
  define gs where "gs = generate_public_key (generate_private_key Rs True g)"
  have p: "0 < prime_num g" "prime_num g < 256 ^ 512" using assms(2) DhGroupKex by auto
  have bound: "length (biguint_to_mpint (m mod prime_num g)) < 2 ^ 32" for m
    using le_less_trans [OF mpint_mod_small [OF p, of m], of "2 ^ 32"] by simp
  have pc: "pub = biguint_to_mpint (dh_public_key gc)" "kc = DhGroupKex d gc sh" "out = buf @ init_packet rfc4251 pub"
    "validate_public_key gc (dh_public_key gc)"
    using c DhGroupKex by (auto simp: gc_def Let_def split: if_splits)
  have l: "length pub < 2 ^ 32" using bound pc(1)
    by (auto simp: gc_def generate_public_key_def modpow_def generate_private_key_def)
  define gs2 where "gs2 = DH_compute_shared_secret gs (dh_public_key gc)"
  have ps: "ex' = ex\<lparr>server_ephemeral := biguint_to_mpint (dh_public_key gs)\<rparr>"
    "ks = DhGroupKex d gs2 (Some (biguint_to_mpint (dh_shared_secret gs2)))"
    "validate_public_key gs (dh_public_key gs)" "validate_shared_secret gs2 (dh_shared_secret gs2)"
    using s DhGroupKex init_packet_rfc [OF l] pc(1) by (auto simp: gs_def gs2_def Let_def split: if_splits)
  have same: "dh_shared_secret (DH_compute_shared_secret gc (dh_public_key gs)) = dh_shared_secret gs2"
    by (simp add: gs2_def gc_def gs_def DH_compute_shared_secret_def generate_public_key_def generate_private_key_def
        modpow_commute)
  have valid: "validate_public_key gc = validate_public_key gs"
    "validate_shared_secret (DH_compute_shared_secret gc (dh_public_key gs)) = validate_shared_secret gs2"
    by (simp_all add: gs2_def gc_def gs_def DH_compute_shared_secret_def generate_public_key_def
        generate_private_key_def validate_public_key_def validate_shared_secret_def fun_eq_iff)
  have "length (biguint_to_mpint (dh_public_key gs)) < 2 ^ 32"
    using bound by (auto simp: gs_def generate_public_key_def modpow_def generate_private_key_def)
  with pc ps l same valid show ?thesis
    by (intro exI [of _ "biguint_to_mpint (dh_public_key gs)"]) (simp add: Let_def)
qed (use assms(3) in simp)

section \<open>The derivation of keys\<close>

lemma lengthen_key_returns:
  assumes "\<And>x. hash x \<noteq> []" "len \<le> length key + fuel"
  shows "\<exists>r. lengthen_key hash pre len fuel key = Some (key @ r) \<and> len \<le> length (key @ r)"
  using assms(2)
proof (induction fuel arbitrary: key)
  case 0
  then show ?case by (intro exI [of _ "[]"]) (simp add: lengthen_key.simps)
next
  case (Suc fuel)
  show ?case
  proof (cases "len \<le> length key")
    case True
    then show ?thesis by (intro exI [of _ "[]"]) (simp add: lengthen_key.simps)
  next
    case False
    have "0 < length (hash (pre @ key))" using assms(1) by simp
    with Suc.prems have "len \<le> length (key @ hash (pre @ key)) + fuel"
      by (simp only: length_append)
    from Suc.IH [OF this] False show ?thesis by (auto simp: lengthen_key.simps [of _ _ _ "Suc fuel"])
  qed
qed

lemma compute_key_returns:
  assumes "kex_lib_ok L"
  shows "\<exists>k. compute_key L d sh sid h c len = Ok k \<and> length k = len"
proof -
  have "0 < digest_len d" by (cases d) simp_all
  then have ne: "hash_of L d x \<noteq> []" for x
    using assms unfolding kex_lib_ok_def by (metis length_greater_0_conv)
  let ?pre = "secret_prefix L sh h"
  let ?k0 = "hash_of L d (?pre @ [of_char c] @ sid)"
  obtain r where "lengthen_key (hash_of L d) ?pre len len ?k0 = Some (?k0 @ r)" "len \<le> length (?k0 @ r)"
    using lengthen_key_returns [of "hash_of L d" len ?k0 len ?pre] ne by auto
  then show ?thesis by (simp add: compute_key_def Let_def)
qed

lemma make_key_returns:
  assumes "length k = key_len alg" "length n = nonce_len alg" "MACS mnm = Some mac" "length m = fst mac"
  shows "\<exists>key. make_key alg k n m mac = Ok key"
proof -
  have "\<exists>t. make_mac mac m = Ok t" using assms(3,4) by (auto simp: MACS_def make_mac_def split: if_splits)
  then show ?thesis using assms by (cases alg) auto
qed

text \<open>The client's keys are the server's, in the other order.\<close>

lemma compute_keys_mirror:
  "compute_keys L d sh sid h c sm cm False = Ok (a, b) \<longleftrightarrow> compute_keys L d sh sid h c cm sm True = Ok (b, a)"
  by (auto simp: compute_keys_def Let_def obind_Ok_iff)

lemma compute_keys_returns:
  assumes "kex_lib_ok L" "CIPHERS c = Some alg" "MACS rm = Some r" "MACS lm = Some l"
  shows "\<exists>a b. compute_keys L d sh sid h c rm lm is_server = Ok (a, b)"
proof -
  note key = compute_key_returns [OF assms(1), of d sh sid h]
  have one: "\<exists>k n m x. compute_key L d sh sid h c1 (key_len alg) = Ok k \<and> compute_key L d sh sid h c2 (nonce_len alg) = Ok n
      \<and> compute_key L d sh sid h c3 (fst mac) = Ok m \<and> make_key alg k n m mac = Ok x"
    if "MACS nm = Some mac" for c1 c2 c3 nm mac
    using key [of c1 "key_len alg"] key [of c2 "nonce_len alg"] key [of c3 "fst mac"] make_key_returns [OF _ _ that]
    by blast
  define cs where "cs = (if is_server then ''DBFCAE'' else ''CAEDBF'')"
  show ?thesis
    using assms(2-4) one [OF assms(4), of "cs ! 0" "cs ! 1" "cs ! 2"] one [OF assms(3), of "cs ! 3" "cs ! 4" "cs ! 5"]
    by (cases is_server) (auto simp: compute_keys_def Let_def cs_def ok_or_def)
qed

lemma compute_keys_paired:
  assumes "compute_keys L d sh sid h c rm lm is_server = Ok (a, b)"
  shows "paired_keys a a \<and> paired_keys b b"
  using assms by (auto simp: compute_keys_def Let_def obind_Ok_iff ok_or_def split: option.splits dest: make_key_paired)

lemma exchange_hash_cong:
  assumes "alg_shared k = alg_shared k'" "alg_digest k = alg_digest k'" "\<not> skip_exchange k" "\<not> skip_exchange k'"
  shows "compute_exchange_hash E L k key ex = compute_exchange_hash E L k' key ex"
  using assms by (cases k; cases k') simp_all

section \<open>Both halves of the exchange\<close>

text \<open>
  What the key package documents of a host key: the blob is a string that parses, under the name of
  the key, to the public key whose blob it is; a signature is a string holding the name of an algorithm
  and the signature proper, and the public key verifies it.
\<close>

definition host_key_ok :: "'p host_lib \<Rightarrow> server_key \<Rightarrow> 'p \<Rightarrow> bool" where
  "host_key_ok HL key p \<longleftrightarrow>
     (\<exists>raw. sk_blob key = extend_ssh_string rfc4251 raw \<and> length raw < 2 ^ 32
        \<and> parse_host_key HL (sk_name key) raw = Some p)
     \<and> push_key HL p = sk_blob key
     \<and> (\<forall>h s. sk_sign key h = Ok s \<longrightarrow>
          (\<exists>ty sg. s = extend_ssh_string rfc4251 (extend_ssh_string rfc4251 ty @ extend_ssh_string rfc4251 sg)
             \<and> length ty < 2 ^ 31 \<and> length sg < 2 ^ 30 \<and> verify_server_auth HL p h sg))"

lemma client_pub_small:
  assumes "kex_lib_ok L" "fresh_alg kx" "\<not> skip_exchange kx" "client_dh E L R kx eph buf = Ok (pub, out, kc)"
  shows "length pub \<le> 513"
proof (cases kx)
  case (DhGroupKex d g sh)
  then have "0 < prime_num g" "prime_num g < 256 ^ 512" using assms(2) by auto
  from mpint_mod_small [OF this] show ?thesis
    using assms(4) DhGroupKex
    by (auto simp: Let_def generate_public_key_def modpow_def generate_private_key_def split: if_splits)
next
  case (EcdhNistPKex c loc sh)
  then have "length pub \<le> 133" using assms(1,4) by (auto simp: kex_lib_ok_def Let_def)
  then show ?thesis by simp
qed (use assms in \<open>auto simp: kex_lib_ok_def Let_def\<close>)

lemma read_rfc: "length s < 2 ^ 32 \<Longrightarrow> read_string rfc4251 (extend_ssh_string rfc4251 s) = Some (s, [])"
  using rfc.read_ssh_string [of s "[]"] by simp

definition same_result :: "(kex_alg, cipher_key \<times> cipher_key) new_keys \<Rightarrow> (kex_alg, cipher_key \<times> cipher_key) new_keys \<Rightarrow> bool" where
  "same_result nc ns \<longleftrightarrow> nk_session_id nc = nk_session_id ns \<and> nk_exchange nc = nk_exchange ns \<and> nk_names nc = nk_names ns
     \<and> fst (nk_cipher nc) = snd (nk_cipher ns) \<and> snd (nk_cipher nc) = fst (nk_cipher ns)"

lemma KexDhDone_mirror:
  assumes "KexDhDone_compute_keys (alg_compute_keys L) ds h True = Ok ns"
    and "done_exchange dc = done_exchange ds" "done_session_id dc = done_session_id ds" "done_names dc = done_names ds"
    "alg_shared (done_kex dc) = alg_shared (done_kex ds)" "alg_digest (done_kex dc) = alg_digest (done_kex ds)"
  shows "\<exists>nc. KexDhDone_compute_keys (alg_compute_keys L) dc h False = Ok nc \<and> same_result nc ns
    \<and> paired_keys (fst (nk_cipher nc)) (snd (nk_cipher ns)) \<and> paired_keys (fst (nk_cipher ns)) (snd (nk_cipher nc))"
proof -
  let ?n = "done_names ds" and ?sid = "case done_session_id ds of Some s \<Rightarrow> s | None \<Rightarrow> h"
  let ?K = "compute_keys L (alg_digest (done_kex ds)) (alg_shared (done_kex ds)) ?sid h (names_cipher ?n)"
  obtain b a where ab: "?K (client_mac ?n) (server_mac ?n) True = Ok (b, a)" "nk_cipher ns = (b, a)"
    "nk_session_id ns = ?sid" "nk_exchange ns = done_exchange ds" "nk_names ns = ?n"
    using assms(1) by (auto simp: KexDhDone_compute_keys_def alg_compute_keys_eq Let_def obind_Ok_iff)
  from ab(1) have "?K (server_mac ?n) (client_mac ?n) False = Ok (a, b)" by (simp only: compute_keys_mirror)
  with ab assms(2-) compute_keys_paired [OF ab(1)] show ?thesis
    by (simp add: KexDhDone_compute_keys_def alg_compute_keys_eq same_result_def)
qed

lemma reply_checked:
  assumes lib: "kex_lib_ok L" and kx: "KEXES (names_kex (dh_names ds)) = Some kx" "\<not> skip_exchange kx"
    and c: "client_dh rfc4251 L Rc kx eph buf = Ok (pub, out, done_kex dc)"
    and s: "KexDh_parse rfc4251 L Rs keys (init_packet rfc4251 pub) ds = Ok (replies, KexKeys ns)"
    and host: "host_key_ok HL (keys ! dh_key ds) p" "sk_name (keys ! dh_key ds) = names_key (dh_names ds)"
      "chk p = Ok True"
    and same: "done_names dc = dh_names ds" "done_session_id dc = dh_session_id ds"
      "done_exchange dc = (dh_exchange ds)\<lparr>client_ephemeral := pub\<rparr>"
    and fresh: "client_ephemeral (dh_exchange ds) = []" "server_ephemeral (dh_exchange ds) = []"
    and ng: "\<not> ignore_guessed (dh_names ds)"
  shows "\<exists>reply nc. replies = [reply, [NEWKEYS]] \<and> server_key_check rfc4251 L HL chk rek reply dc = Ok nc
    \<and> same_result nc ns
    \<and> paired_keys (fst (nk_cipher nc)) (snd (nk_cipher ns)) \<and> paired_keys (fst (nk_cipher ns)) (snd (nk_cipher nc))"
proof -
  let ?key = "keys ! dh_key ds" and ?E = rfc4251
  have pub: "length pub < 2 ^ 32" using client_pub_small [OF lib KEXES_fresh [OF kx(1)] kx(2) c] by simp
  let ?ex1 = "(dh_exchange ds)\<lparr>client_ephemeral := pub\<rparr>"
  have rd: "read_string ?E (tl (init_packet ?E pub)) = Some (pub, [])"
    using read_rfc [OF pub] by (simp add: init_packet_def)
  obtain ex2 ks signature where srv: "server_dh ?E L Rs kx ?ex1 (init_packet ?E pub) = Ok (ex2, ks)"
    "sk_sign ?key (compute_exchange_hash ?E L ks (sk_blob ?key) ex2) = Ok signature"
    "KexDhDone_compute_keys (alg_compute_keys L) \<lparr>done_exchange = ex2, done_kex = ks, done_key = dh_key ds,
       done_session_id = dh_session_id ds, done_names = dh_names ds\<rparr>
       (compute_exchange_hash ?E L ks (sk_blob ?key) ex2) True = Ok ns"
    "replies = [KEX_ECDH_REPLY # sk_blob ?key @ extend_ssh_string ?E (server_ephemeral ex2) @ signature, [NEWKEYS]]"
    using s ng kx(1) rd fresh
    by (auto simp: KexDh_parse_def init_packet_def obind_Ok_iff Let_def ok_or_def split: if_splits)
  obtain seph k where dh: "ex2 = ?ex1\<lparr>server_ephemeral := seph\<rparr>" "length seph < 2 ^ 32"
    "compute_shared_secret L (done_kex dc) seph = Ok k" "alg_shared k = alg_shared ks" "alg_digest k = alg_digest ks"
    "\<not> skip_exchange k" "\<not> skip_exchange ks"
    using dh_agrees [OF lib KEXES_fresh [OF kx(1)] kx(2) c srv(1)] by blast
  obtain raw where raw: "sk_blob ?key = extend_ssh_string ?E raw" "length raw < 2 ^ 32"
    "parse_host_key HL (names_key (dh_names ds)) raw = Some p" "push_key HL p = sk_blob ?key"
    using host(1,2) by (auto simp: host_key_ok_def)
  let ?h = "compute_exchange_hash ?E L ks (sk_blob ?key) ex2"
  have hash: "compute_exchange_hash ?E L k (sk_blob ?key) ex2 = ?h" by (rule exchange_hash_cong [OF dh(4-7)])
  obtain ty sg where sig: "signature = extend_ssh_string ?E (extend_ssh_string ?E ty @ extend_ssh_string ?E sg)"
    "length ty < 2 ^ 31" "length sg < 2 ^ 30" "verify_server_auth HL p ?h sg"
    using host(1) srv(2) unfolding host_key_ok_def by blast
  have inner: "length (extend_ssh_string ?E ty @ extend_ssh_string ?E sg) < 2 ^ 32"
    using sig(2,3) by (simp add: rfc.length_ssh_string)
  let ?dc = "dc\<lparr>done_exchange := ex2, done_kex := k\<rparr>"
  obtain nc where nc: "KexDhDone_compute_keys (alg_compute_keys L) ?dc ?h False = Ok nc" "same_result nc ns"
    "paired_keys (fst (nk_cipher nc)) (snd (nk_cipher ns))" "paired_keys (fst (nk_cipher ns)) (snd (nk_cipher nc))"
    using KexDhDone_mirror [OF srv(3), of ?dc] same dh(4,5) by auto
  have "server_key_check ?E L HL chk rek (hd replies) dc = Ok (nc\<lparr>nk_sent := True\<rparr>)"
    using raw host(3) dh same fresh sig hash nc(1) read_rfc [OF inner] read_rfc [of sg]
    by (simp add: server_key_check_def srv(4) rfc.read_ssh_string  Let_def)
  then show ?thesis using nc srv(4) by (intro exI [of _ "hd replies"] exI [of _ "nc\<lparr>nk_sent := True\<rparr>"])
      (simp add: same_result_def)
qed

section \<open>The exchange as a whole\<close>

text \<open>
  Both sides have sent their KEXINIT; the client answers the server's with its ephemeral key, the server
  answers that with its reply and NEWKEYS. The result is the client's state, what the server sent, and
  the server's keys.
\<close>

definition kex_run ::
  "kex_lib \<Rightarrow> entropy \<Rightarrow> entropy \<Rightarrow> preferred \<Rightarrow> preferred \<Rightarrow> bytes \<Rightarrow> bytes \<Rightarrow> server_key list \<Rightarrow> kex_init \<Rightarrow> kex_init \<Rightarrow>
   (error, kex_alg kex_dh_done \<times> bytes list \<times> (kex_alg, cipher_key \<times> cipher_key) new_keys) outcome" where
  "kex_run L Rc Rs pc ps cookie_c cookie_s keys client server =
    (let (cw, client1) = KexInit_client_write rfc4251 pc cookie_c client;
         (sw, server1) = KexInit_server_write rfc4251 ps cookie_s keys server
     in obind (KexInit_client_parse rfc4251 L Rc pc cookie_c (hd sw) client1) (\<lambda>(out, dc).
        obind (KexInit_server_parse rfc4251 ps cookie_s keys (hd cw) server1) (\<lambda>(_, st).
        case st of
          Dh ds \<Rightarrow> obind (KexDh_parse rfc4251 L Rs keys (last out) ds) (\<lambda>(replies, st').
            case st' of KexKeys ns \<Rightarrow> Ok (dc, replies, ns) | _ \<Rightarrow> Err Inconsistent)
        | _ \<Rightarrow> Err Inconsistent)))"

definition kex_start :: "bytes \<Rightarrow> bytes \<Rightarrow> bytes option \<Rightarrow> kex_init" where
  "kex_start cid sid session =
     \<lparr>ki_algo = None, ki_exchange = Exchange_new\<lparr>client_id := cid, server_id := sid\<rparr>, ki_session_id = session, ki_sent = False\<rparr>"

lemma takeWhile_index: "length (takeWhile (\<lambda>k. f k \<noteq> a) xs) < length xs \<Longrightarrow> f (xs ! length (takeWhile (\<lambda>k. f k \<noteq> a) xs)) = a"
  using nth_length_takeWhile [of "\<lambda>k. f k \<noteq> a" xs] by simp

lemma client_dh_ephemeral:
  assumes "client_dh E L R kx eph buf = Ok (pub, out, kc)" "\<not> skip_exchange kx"
  shows "out = buf @ init_packet E pub"
  using assms by (cases kx) (auto simp: Let_def split: if_splits)

lemma kex_case_Ok:
  "case_kex (\<lambda>_. Err e) f (\<lambda>_. Err e) (\<lambda>_. Err e) st = Ok y \<longleftrightarrow> (\<exists>ds. st = Dh ds \<and> f ds = Ok y)"
  "case_kex (\<lambda>_. Err e) (\<lambda>_. Err e) (\<lambda>_. Err e) g st = Ok y \<longleftrightarrow> (\<exists>ns. st = KexKeys ns \<and> g ns = Ok y)"
  by (cases st; auto)+

lemma kex_none: "KEXES nm = Some kx \<Longrightarrow> nm \<noteq> ''none'' \<Longrightarrow> \<not> skip_exchange kx"
  by (auto simp: KEXES_def split: if_splits)

text \<open>What both sides have done when a run has ended.\<close>

lemma kex_run_Ok:
  assumes lib: "kex_lib_ok L" and ok: "pref_ok pc" "pref_ok ps"
    and cookies: "length cookie_c = 16" "length cookie_s = 16"
    and common: "set (algos pc) \<inter> set (pref_kex ps) \<noteq> {}"
    and run: "kex_run L Rc Rs pc ps cookie_c cookie_s keys (kex_start cid sid sess) (kex_start cid sid sess) = Ok (dc, replies, ns)"
    and nn: "names_kex (nk_names ns) \<noteq> ''none''"
  obtains n kx pub ds where "KEXES (names_kex n) = Some kx" "\<not> skip_exchange kx" "\<not> ignore_guessed n"
    "client_dh rfc4251 L Rc kx [] (write_kex rfc4251 pc [] cookie_c None)
       = Ok (pub, write_kex rfc4251 pc [] cookie_c None @ init_packet rfc4251 pub, done_kex dc)"
    "\<And>ck. KexInit_client_parse rfc4251 L Rc pc ck (write_kex rfc4251 ps [] cookie_s (Some (map sk_name keys)))
       (snd (KexInit_client_write rfc4251 pc cookie_c (kex_start cid sid sess))) = Ok ([init_packet rfc4251 pub], dc)"
    "KexDh_parse rfc4251 L Rs keys (init_packet rfc4251 pub) ds = Ok (replies, KexKeys ns)"
    "done_names dc = n" "done_session_id dc = sess" "done_exchange dc = (dh_exchange ds)\<lparr>client_ephemeral := pub\<rparr>"
    "dh_names ds = n" "dh_session_id ds = sess" "dh_key ds < length keys" "sk_name (keys ! dh_key ds) = names_key n"
    "client_ephemeral (dh_exchange ds) = []" "server_ephemeral (dh_exchange ds) = []"
proof -
  let ?E = rfc4251
  let ?hk = "Some (map sk_name keys)"
  let ?ci = "write_kex ?E pc [] cookie_c None" and ?si = "write_kex ?E ps [] cookie_s ?hk"
  let ?ex = "Exchange_new\<lparr>client_id := cid, server_id := sid, client_kex_init := ?ci, server_kex_init := ?si\<rparr>"
  let ?client = "snd (KexInit_client_write ?E pc cookie_c (kex_start cid sid sess))"
  have agree: "read_kex ?E False ?si pc None = read_kex ?E True ?ci ps ?hk"
    by (rule kexinit_names_agree [OF rfc.ssh_encoding_axioms ok cookies common])
  obtain out w ds where
    c: "KexInit_client_parse ?E L Rc pc cookie_c ?si ?client = Ok (out, dc)"
    and s: "KexInit_server_parse ?E ps cookie_s keys ?ci (snd (KexInit_server_write ?E ps cookie_s keys (kex_start cid sid sess))) = Ok (w, Dh ds)"
    and d: "KexDh_parse ?E L Rs keys (last out) ds = Ok (replies, KexKeys ns)"
    using run by (auto simp: kex_run_def obind_Ok_iff Let_def KexInit_client_write_def KexInit_server_write_def kex_case_Ok)
  obtain n kx pub kc buf where n: "read_kex ?E True ?ci ps ?hk = Ok n" "KEXES (names_kex n) = Some kx"
    "client_dh ?E L Rc kx [] ?ci = Ok (pub, buf, kc)" "out = [drop (length ?ci) buf]"
    "dc = \<lparr>done_exchange = ?ex\<lparr>client_ephemeral := pub, client_kex_init := take (length ?ci) buf\<rparr>, done_kex = kc,
       done_key = 0, done_session_id = sess, done_names = n\<rparr>"
    using c unfolding KexInit_client_parse_def agree
    by (auto simp: KexInit_client_write_def kex_start_def Exchange_new_def Let_def obind_Ok_iff ok_or_def split: option.splits)
  have ds: "dh_exchange ds = ?ex" "dh_names ds = n" "dh_session_id ds = sess" "dh_key ds < length keys"
    "sk_name (keys ! dh_key ds) = names_key n"
    using s n(1) by (auto simp: KexInit_server_parse_def KexInit_server_write_def kex_start_def Exchange_new_def
        Let_def takeWhile_index split: if_splits)
  have "nk_names ns = dh_names ds"
    using d by (auto simp: KexDh_parse_def obind_Ok_iff Let_def KexDhDone_compute_keys_def split: if_splits)
  then have skip: "\<not> skip_exchange kx" using kex_none [OF n(2)] nn ds(2) by simp
  note buf = client_dh_ephemeral [OF n(3) skip]
  have ng: "\<not> ignore_guessed n"
    using n(1) rfc.read_write_kex [OF ok(1) cookies(1)] by (auto simp: obind_Ok_iff Let_def)
  have "KexInit_client_parse ?E L Rc pc ck ?si ?client = KexInit_client_parse ?E L Rc pc cookie_c ?si ?client" for ck
    by (simp add: KexInit_client_parse_def KexInit_client_write_def Let_def)
  with c n(4) buf have cp: "KexInit_client_parse ?E L Rc pc ck ?si ?client = Ok ([init_packet ?E pub], dc)" for ck by simp
  have d': "KexDh_parse ?E L Rs keys (init_packet ?E pub) ds = Ok (replies, KexKeys ns)" using d n(4) buf by simp
  have c': "client_dh ?E L Rc kx [] ?ci = Ok (pub, ?ci @ init_packet ?E pub, done_kex dc)" using n(3,5) buf by simp
  show thesis
    by (rule that [OF n(2) skip ng c' cp d']) (use n(5) buf ds in \<open>simp_all add: Exchange_new_def\<close>)
qed

lemma kex_run_agrees:
  assumes lib: "kex_lib_ok L" and ok: "pref_ok pc" "pref_ok ps"
    and cookies: "length cookie_c = 16" "length cookie_s = 16"
    and common: "set (algos pc) \<inter> set (pref_kex ps) \<noteq> {}"
    and run: "kex_run L Rc Rs pc ps cookie_c cookie_s keys (kex_start cid sid sess) (kex_start cid sid sess) = Ok (dc, replies, ns)"
    and nn: "names_kex (nk_names ns) \<noteq> ''none''"
    and host: "\<And>k. k \<in> set keys \<Longrightarrow> \<exists>p. host_key_ok HL k p \<and> chk p = Ok True"
  shows "\<exists>reply nc. replies = [reply, [NEWKEYS]] \<and> server_key_check rfc4251 L HL chk rek reply dc = Ok nc
    \<and> same_result nc ns
    \<and> paired_keys (fst (nk_cipher nc)) (snd (nk_cipher ns)) \<and> paired_keys (fst (nk_cipher ns)) (snd (nk_cipher nc))"
proof -
  obtain n kx pub ds where r: "KEXES (names_kex n) = Some kx" "\<not> skip_exchange kx" "\<not> ignore_guessed n"
    "client_dh rfc4251 L Rc kx [] (write_kex rfc4251 pc [] cookie_c None)
       = Ok (pub, write_kex rfc4251 pc [] cookie_c None @ init_packet rfc4251 pub, done_kex dc)"
    "KexDh_parse rfc4251 L Rs keys (init_packet rfc4251 pub) ds = Ok (replies, KexKeys ns)"
    "done_names dc = n" "done_session_id dc = sess" "done_exchange dc = (dh_exchange ds)\<lparr>client_ephemeral := pub\<rparr>"
    "dh_names ds = n" "dh_session_id ds = sess" "dh_key ds < length keys" "sk_name (keys ! dh_key ds) = names_key n"
    "client_ephemeral (dh_exchange ds) = []" "server_ephemeral (dh_exchange ds) = []"
    by (rule kex_run_Ok [OF lib ok cookies common run nn]) blast
  obtain p where p: "host_key_ok HL (keys ! dh_key ds) p" "chk p = Ok True" using host [of "keys ! dh_key ds"] r(11) by auto
  show ?thesis
    by (rule reply_checked [OF lib _ r(2,4,5) p(1), where chk = chk]) (use r p(2) in simp_all)
qed

section \<open>An exchange on a curve always completes\<close>

lemma server_inner_mem: "fst (server_inner c ss f) = Some (b, s) \<Longrightarrow> s \<in> set ss"
  by (induction ss arbitrary: f) (auto split: if_splits)

lemma server_outer_mem: "server_outer cs ss f = Some (b, s) \<Longrightarrow> s \<in> set ss"
proof (induction cs arbitrary: f)
  case (Cons c cs)
  then show ?case using server_inner_mem [of c ss f b s] by (auto split: prod.splits option.splits)
qed simp

lemma negotiated_key_available:
  assumes "read_kex E True buf p (Some hk) = Ok n"
  shows "names_key n \<in> set hk"
proof -
  obtain b s where "select True (possible_host_key_algos_for_keys p hk) s = Some (b, names_key n)"
    using assms by (auto simp: read_kex_def Let_def obind_Ok_iff ok_or_Ok_iff)
  from server_outer_mem [OF this [unfolded select_def Server_select_def if_True]]
  show ?thesis by (simp add: possible_host_key_algos_for_keys_def)
qed

lemma takeWhile_stops: "x \<in> set xs \<Longrightarrow> \<not> P x \<Longrightarrow> length (takeWhile P xs) < length xs"
  by (induction xs) auto

definition curve_kexes :: "name list" where
  "curve_kexes = [CURVE25519, CURVE25519_PRE_RFC_8731, ''ecdh-sha2-nistp256'', ''ecdh-sha2-nistp384'', ''ecdh-sha2-nistp521'']"

fun curve_alg :: "kex_alg \<Rightarrow> bool" where
  "curve_alg (Curve25519Kex _ _) = True"
| "curve_alg (EcdhNistPKex _ _ _) = True"
| "curve_alg _ = False"

lemma curve_kexes_known:
  assumes "nm \<in> set curve_kexes"
  shows "\<exists>kx. KEXES nm = Some kx \<and> curve_alg kx \<and> nm \<noteq> ''none''"
  using assms unfolding curve_kexes_def list.set
  by (elim insertE emptyE) (simp_all add: KEXES_def kex_name_defs)

lemma curve_dh_returns:
  assumes "kex_lib_ok L" "curve_alg kx"
  shows "\<exists>pub kc. client_dh rfc4251 L Rc kx eph buf = Ok (pub, buf @ init_packet rfc4251 pub, kc) \<and> length pub < 2 ^ 32
    \<and> (\<forall>ex. \<exists>seph ks. server_dh rfc4251 L Rs kx ex (init_packet rfc4251 pub) = Ok (ex\<lparr>server_ephemeral := seph\<rparr>, ks))"
proof (cases kx)
  case (Curve25519Kex loc sh)
  have "length (x25519_base L (rnd32 Rc)) = 32" using assms(1) by (simp add: kex_lib_ok_def)
  then show ?thesis using Curve25519Kex init_packet_rfc [of "x25519_base L (rnd32 Rc)"] by (auto simp: Let_def)
next
  case (EcdhNistPKex c loc sh)
  let ?pub = "ec_public L c (rnd_scalar Rc c)"
  have "length ?pub \<le> 133" "ec_valid L c ?pub" using assms(1) by (simp_all add: kex_lib_ok_def)
  then have "length ?pub < 2 ^ 32" "ec_valid L c ?pub" by simp_all
  then show ?thesis using EcdhNistPKex init_packet_rfc [of ?pub] by (auto simp: Let_def)
qed (use assms(2) in simp_all)

lemma KexDhDone_returns:
  assumes "kex_lib_ok L" "CIPHERS (names_cipher (done_names d)) \<noteq> None" "MACS (client_mac (done_names d)) \<noteq> None"
    "MACS (server_mac (done_names d)) \<noteq> None"
  shows "\<exists>nk. KexDhDone_compute_keys (alg_compute_keys L) d h srv = Ok nk \<and> nk_names nk = done_names d"
proof -
  obtain a where a: "CIPHERS (names_cipher (done_names d)) = Some a" using assms(2) by blast
  obtain r where r: "MACS (if srv then client_mac (done_names d) else server_mac (done_names d)) = Some r"
    using assms(3,4) by fastforce
  obtain l where l: "MACS (if srv then server_mac (done_names d) else client_mac (done_names d)) = Some l"
    using assms(3,4) by fastforce
  have "\<exists>a b. compute_keys L dg sh sid h (names_cipher (done_names d))
      (if srv then client_mac (done_names d) else server_mac (done_names d))
      (if srv then server_mac (done_names d) else client_mac (done_names d)) srv = Ok (a, b)" for dg sh sid
    by (rule compute_keys_returns [OF assms(1) a r l])
  then show ?thesis unfolding KexDhDone_compute_keys_def alg_compute_keys_eq Let_def by (metis obind.simps(1) new_keys.select_convs(2))
qed

lemma write_kex_head: "write_kex E p [] cookie ks \<noteq> [] \<and> hd (write_kex E p [] cookie ks) = 20"
  by (simp add: write_kex_def)

lemma kex_run_returns:
  assumes lib: "kex_lib_ok L" and ok: "pref_ok pc" "pref_ok ps"
    and cookies: "length cookie_c = 16" "length cookie_s = 16"
    and common: "set (algos pc) \<inter> set (pref_kex ps) \<noteq> {}"
    and n: "read_kex rfc4251 True (write_kex rfc4251 pc [] cookie_c None) ps (Some (map sk_name keys)) = Ok n"
    and known: "names_kex n \<in> set curve_kexes" "CIPHERS (names_cipher n) \<noteq> None" "MACS (client_mac n) \<noteq> None"
      "MACS (server_mac n) \<noteq> None"
    and signs: "\<And>k h. k \<in> set keys \<Longrightarrow> \<exists>s. sk_sign k h = Ok s"
  shows "\<exists>dc replies ns. kex_run L Rc Rs pc ps cookie_c cookie_s keys (kex_start cid sid sess) (kex_start cid sid sess)
      = Ok (dc, replies, ns) \<and> nk_names ns = n"
proof -
  let ?E = rfc4251
  let ?hk = "Some (map sk_name keys)"
  let ?ci = "write_kex ?E pc [] cookie_c None" and ?si = "write_kex ?E ps [] cookie_s ?hk"
  let ?ex = "Exchange_new\<lparr>client_id := cid, server_id := sid, client_kex_init := ?ci, server_kex_init := ?si\<rparr>"
  let ?i = "length (takeWhile (\<lambda>k. sk_name k \<noteq> names_key n) keys)"
  have agree: "read_kex ?E False ?si pc None = Ok n"
    using kexinit_names_agree [OF rfc.ssh_encoding_axioms ok cookies common] n by simp
  obtain kx where kx: "KEXES (names_kex n) = Some kx" "curve_alg kx" using curve_kexes_known [OF known(1)] by blast
  obtain pub kc where c: "client_dh ?E L Rc kx [] ?ci = Ok (pub, ?ci @ init_packet ?E pub, kc)" "length pub < 2 ^ 32"
    and srv: "\<forall>ex. \<exists>seph ks. server_dh ?E L Rs kx ex (init_packet ?E pub) = Ok (ex\<lparr>server_ephemeral := seph\<rparr>, ks)"
    using curve_dh_returns [OF lib kx(2)] by blast
  obtain seph ks where s: "server_dh ?E L Rs kx (?ex\<lparr>client_ephemeral := pub\<rparr>) (init_packet ?E pub)
      = Ok (?ex\<lparr>client_ephemeral := pub, server_ephemeral := seph\<rparr>, ks)"
    using srv [rule_format, of "?ex\<lparr>client_ephemeral := pub\<rparr>"] by blast
  have "names_key n \<in> set (map sk_name keys)" by (rule negotiated_key_available [OF n])
  then have i: "?i < length keys" by (auto intro: takeWhile_stops)
  let ?ds = "\<lparr>dh_exchange = ?ex, dh_names = n, dh_key = ?i, dh_session_id = sess\<rparr>"
  let ?h = "compute_exchange_hash ?E L ks (sk_blob (keys ! ?i)) (?ex\<lparr>client_ephemeral := pub, server_ephemeral := seph\<rparr>)"
  obtain sg where sg: "sk_sign (keys ! ?i) ?h = Ok sg" using signs [of "keys ! ?i"] i by (meson nth_mem)
  obtain ns where ns: "KexDhDone_compute_keys (alg_compute_keys L)
      \<lparr>done_exchange = ?ex\<lparr>client_ephemeral := pub, server_ephemeral := seph\<rparr>, done_kex = ks, done_key = ?i,
       done_session_id = sess, done_names = n\<rparr> ?h True = Ok ns" "nk_names ns = n"
    using KexDhDone_returns [OF lib, of "\<lparr>done_exchange = ?ex\<lparr>client_ephemeral := pub, server_ephemeral := seph\<rparr>,
      done_kex = ks, done_key = ?i, done_session_id = sess, done_names = n\<rparr>" ?h True] known by auto
  have ng: "\<not> ignore_guessed n"
    using n rfc.read_write_kex [OF ok(1) cookies(1)] by (auto simp: obind_Ok_iff Let_def)
  have "\<exists>r. KexDh_parse ?E L Rs keys (init_packet ?E pub) ?ds = Ok (r, KexKeys ns)"
    using ng c(2) kx(1) s i sg ns(1) read_rfc [of pub]
    by (simp add: KexDh_parse_def init_packet_def Let_def Exchange_new_def)
  moreover have "\<exists>w. KexInit_server_parse ?E ps cookie_s keys ?ci
      (snd (KexInit_server_write ?E ps cookie_s keys (kex_start cid sid sess))) = Ok (w, Dh ?ds)"
    using n i by (simp add: KexInit_server_parse_def KexInit_server_write_def kex_start_def Exchange_new_def write_kex_head Let_def)
  moreover have "\<exists>dc. KexInit_client_parse ?E L Rc pc cookie_c ?si
      (snd (KexInit_client_write ?E pc cookie_c (kex_start cid sid sess))) = Ok ([init_packet ?E pub], dc)"
    using agree kx(1) c(1) by (simp add: KexInit_client_parse_def KexInit_client_write_def kex_start_def Exchange_new_def Let_def)
  ultimately show ?thesis
    using ns(2) by (auto simp: kex_run_def KexInit_client_write_def KexInit_server_write_def Let_def)
qed

section \<open>Properties\<close>

text \<open>A key at one end carries any sequence of packets to the key at the other end.\<close>

definition carries :: "crypto \<Rightarrow> cipher_key \<Rightarrow> cipher_key \<Rightarrow> bool" where
  "carries X s c \<longleftrightarrow> (\<forall>ps b rb rest. (\<forall>p \<in> set ps. length p \<le> 261000) \<and> seqn rb = seqn b \<and> buf_len rb = 0 \<longrightarrow>
     (\<exists>sealed s' b' c' rb'. write_packets rfc4251 (cipher_sealing rfc4251 X) s ps b = Ok (s', b')
        \<and> buffer b' = buffer b @ sealed
        \<and> read_packets rfc4251 (cipher_opening rfc4251 X) (length ps) c (sealed @ rest) rb = Ok (ps, rest, c', rb')
        \<and> seqn rb' = seqn b'))"

lemma paired_carries:
  assumes "crypto_ok X" "paired_keys s c"
  shows "carries X s c"
  unfolding carries_def
proof (intro allI impI, elim conjE)
  fix ps :: "bytes list" and b rb :: sshbuffer and rest
  assume a: "\<forall>p \<in> set ps. length p \<le> 261000" "seqn rb = seqn b" "buf_len rb = 0"
  note pc = cipher_contract [OF assms(1)]
  obtain s' b' where w: "write_packets rfc4251 (cipher_sealing rfc4251 X) s ps b = Ok (s', b')"
    using packet_cipher.write_packets_Ok [OF pc a(1)] by blast
  from packet_cipher.write_read_all [OF pc assms(2) a(1) w a(2,3)] w
  show "\<exists>sealed s' b' c' rb'. write_packets rfc4251 (cipher_sealing rfc4251 X) s ps b = Ok (s', b')
        \<and> buffer b' = buffer b @ sealed
        \<and> read_packets rfc4251 (cipher_opening rfc4251 X) (length ps) c (sealed @ rest) rb = Ok (ps, rest, c', rb')
        \<and> seqn rb' = seqn b'" by blast
qed

lemma kex_run_transport:
  assumes "kex_lib_ok L" "crypto_ok X" "pref_ok pc" "pref_ok ps" "length cookie_c = 16" "length cookie_s = 16"
    "set (algos pc) \<inter> set (pref_kex ps) \<noteq> {}"
    "kex_run L Rc Rs pc ps cookie_c cookie_s keys (kex_start cid sid sess) (kex_start cid sid sess) = Ok (dc, replies, ns)"
    "names_kex (nk_names ns) \<noteq> ''none''" "\<And>k. k \<in> set keys \<Longrightarrow> \<exists>p. host_key_ok HL k p \<and> chk p = Ok True"
  shows "\<exists>reply nc. replies = [reply, [NEWKEYS]] \<and> server_key_check rfc4251 L HL chk rek reply dc = Ok nc
    \<and> same_result nc ns \<and> carries X (fst (nk_cipher nc)) (snd (nk_cipher ns))
    \<and> carries X (fst (nk_cipher ns)) (snd (nk_cipher nc))"
  using kex_run_agrees [OF assms(1,3-9), where chk = chk and HL = HL and rek = rek] assms(10) paired_carries [OF assms(2)]
  by blast

text \<open>
  C4: the two halves of a key exchange agree. Whatever the two sides prefer and whatever random values
  they draw, once the server has answered the client's ephemeral key, the client accepts that
  answer, if its handler trusts the host key: it verifies the signature, has the same session identifier, the same
  algorithms and the same transcript as the server, and the keys it writes with are those the server
  reads with and conversely, so that every packet sealed after the exchange is read by the peer.
\<close>

theorem kex_agreement:
  assumes "kex_lib_ok L" "crypto_ok X" "pref_ok pc" "pref_ok ps" "length cookie_c = 16" "length cookie_s = 16"
    "set (algos pc) \<inter> set (pref_kex ps) \<noteq> {}"
    "kex_run L Rc Rs pc ps cookie_c cookie_s keys (kex_start cid sid sess) (kex_start cid sid sess) = Ok (dc, replies, ns)"
    "names_kex (nk_names ns) \<noteq> ''none''" "\<And>k. k \<in> set keys \<Longrightarrow> \<exists>p. host_key_ok HL k p \<and> chk p = Ok True"
  shows "\<exists>reply nc. replies = [reply, [NEWKEYS]] \<and> server_key_check rfc4251 L HL chk rek reply dc = Ok nc
    \<and> same_result nc ns \<and> carries X (fst (nk_cipher nc)) (snd (nk_cipher ns))
    \<and> carries X (fst (nk_cipher ns)) (snd (nk_cipher nc))"
  using assms by (rule kex_run_transport)

text \<open>Packages that satisfy their documentation, and a host key of theirs.\<close>

definition demo_kex_lib :: kex_lib where
  "demo_kex_lib = \<lparr>hash_of = (\<lambda>d x. replicate (digest_len d) (of_nat (length x))), extend_ssh_mpint = rfc_string,
     x25519_base = (\<lambda>_. replicate 32 9), x25519_mul = (\<lambda>_ _. [7]), ec_public = (\<lambda>_ _. [4]),
     ec_valid = (\<lambda>_ b. b = [4]), ec_shared = (\<lambda>_ _ _. [8])\<rparr>"

definition demo_entropy :: entropy where
  "demo_entropy = \<lparr>rnd32 = replicate 32 1, rnd_scalar = (\<lambda>_. [1]), rnd_range = (\<lambda>lo _. lo)\<rparr>"

definition demo_server_key :: server_key where
  "demo_server_key = \<lparr>sk_name = ''ssh-ed25519'', sk_blob = rfc_string [1, 2],
     sk_sign = (\<lambda>h. Ok (rfc_string (rfc_string (bs ''ssh-ed25519'') @ rfc_string [5])))\<rparr>"

definition demo_host_lib :: "bytes host_lib" where
  "demo_host_lib = \<lparr>parse_host_key = (\<lambda>_ raw. Some raw), push_key = rfc_string, verify_server_auth = (\<lambda>_ _ sg. sg = [5])\<rparr>"

definition demo_pref :: preferred where
  "demo_pref = \<lparr>pref_kex = [CURVE25519], pref_key = [''ssh-ed25519''],
     pref_cipher = [''aes256-ctr''], pref_mac = [''hmac-sha2-256''], pref_compression = [''none'']\<rparr>"

lemma demo_ok:
  "kex_lib_ok demo_kex_lib" "host_key_ok demo_host_lib demo_server_key [1, 2]" "pref_ok demo_pref"
  "set (algos demo_pref) \<inter> set (pref_kex demo_pref) \<noteq> {}"
proof -
  show "host_key_ok demo_host_lib demo_server_key [1, 2]"
    unfolding host_key_ok_def by (force simp: demo_host_lib_def demo_server_key_def rfc4251_def bs_def)
  show "pref_ok demo_pref" by (simp add: pref_ok_def list_fits_def name_ok_def demo_pref_def kex_name_defs bs_def)
qed (simp_all add: kex_lib_ok_def demo_kex_lib_def demo_pref_def algos_def kex_name_defs extension_names_def)

definition demo_negotiated :: names where
  "demo_negotiated = \<lparr>names_kex = CURVE25519, names_key = ''ssh-ed25519'', names_cipher = ''aes256-ctr'',
     client_mac = ''hmac-sha2-256'', server_mac = ''hmac-sha2-256'', server_compression = Compression_None,
     client_compression = Compression_None, ignore_guessed = False, strict_kex = False\<rparr>"

lemma demo_names:
  "read_kex rfc4251 True (write_kex rfc4251 demo_pref [] (replicate 16 9) None) demo_pref (Some [''ssh-ed25519'']) = Ok demo_negotiated"
proof -
  have "length (replicate 16 (9 :: u8)) = 16" by simp
  note rw = rfc.read_write_kex [OF demo_ok(3) this]
  show ?thesis
    unfolding rw
    by (simp add: demo_pref_def kex_offer_def key_offer_def possible_host_key_algos_for_keys_def select_wire name_ok_def
        bs_def select_mac_def select_compression_def Compression_new_def demo_negotiated_def kex_name_defs ZLIB_def ZLIB_LEGACY_def)
qed

lemma demo_kex_run:
  "\<exists>dc replies ns. kex_run demo_kex_lib Rc Rs demo_pref demo_pref (replicate 16 9) (replicate 16 7) [demo_server_key]
     (kex_start cid sid sess) (kex_start cid sid sess) = Ok (dc, replies, ns) \<and> names_kex (nk_names ns) = CURVE25519"
proof -
  let ?n = demo_negotiated
  have n: "read_kex rfc4251 True (write_kex rfc4251 demo_pref [] (replicate 16 9) None) demo_pref
      (Some (map sk_name [demo_server_key])) = Ok ?n" "names_kex ?n \<in> set curve_kexes"
    "CIPHERS (names_cipher ?n) \<noteq> None" "MACS (client_mac ?n) \<noteq> None" "MACS (server_mac ?n) \<noteq> None"
    using demo_names by (simp_all add: demo_server_key_def CIPHERS_def MACS_def demo_negotiated_def curve_kexes_def)
  have "\<exists>s. sk_sign k h = Ok s" if "k \<in> set [demo_server_key]" for k h using that by (simp add: demo_server_key_def)
  then obtain dc replies ns where "kex_run demo_kex_lib Rc Rs demo_pref demo_pref (replicate 16 9) (replicate 16 7)
      [demo_server_key] (kex_start cid sid sess) (kex_start cid sid sess) = Ok (dc, replies, ns)" "nk_names ns = ?n"
    using kex_run_returns [OF demo_ok(1,3,3) _ _ demo_ok(4) n, of "replicate 16 7" Rc Rs cid sid sess] by auto
  then show ?thesis by (simp add: demo_negotiated_def)
qed

theorem kex_agreement_witness:
  "\<exists>dc replies ns reply nc.
     kex_run demo_kex_lib demo_entropy demo_entropy demo_pref demo_pref (replicate 16 9) (replicate 16 7) [demo_server_key]
       (kex_start [1] [2] None) (kex_start [1] [2] None) = Ok (dc, replies, ns)
     \<and> replies = [reply, [NEWKEYS]]
     \<and> server_key_check rfc4251 demo_kex_lib demo_host_lib (\<lambda>_. Ok True) False reply dc = Ok nc
     \<and> same_result nc ns \<and> carries null_crypto (fst (nk_cipher nc)) (snd (nk_cipher ns))
     \<and> carries null_crypto (fst (nk_cipher ns)) (snd (nk_cipher nc))"
proof -
  obtain dc replies ns where run: "kex_run demo_kex_lib demo_entropy demo_entropy demo_pref demo_pref (replicate 16 9)
      (replicate 16 7) [demo_server_key] (kex_start [1] [2] None) (kex_start [1] [2] None) = Ok (dc, replies, ns)"
    "names_kex (nk_names ns) = CURVE25519"
    using demo_kex_run [of demo_entropy demo_entropy "[1]" "[2]" None] by blast
  have "\<exists>reply nc. replies = [reply, [NEWKEYS]]
      \<and> server_key_check rfc4251 demo_kex_lib demo_host_lib (\<lambda>_. Ok True) False reply dc = Ok nc
      \<and> same_result nc ns \<and> carries null_crypto (fst (nk_cipher nc)) (snd (nk_cipher ns))
      \<and> carries null_crypto (fst (nk_cipher ns)) (snd (nk_cipher nc))"
    by (rule kex_agreement [OF demo_ok(1) null_crypto_ok demo_ok(3,3) _ _ demo_ok(4) run(1)])
      (use run(2) demo_ok(2) in \<open>auto simp: kex_name_defs\<close>)
  with run(1) show ?thesis by blast
qed

text \<open>
  an exchange over a curve completes: when the KEXINITs have names in common, the negotiated key exchange
  uses a curve and the algorithms are in the tables, and the host keys sign, both sides reach the end of
  the exchange, with the algorithms that were negotiated, the same session identifier and mirrored keys.
\<close>

theorem curve_kex_completes:
  assumes "kex_lib_ok L" "crypto_ok X" "pref_ok pc" "pref_ok ps" "length cookie_c = 16" "length cookie_s = 16"
    "set (algos pc) \<inter> set (pref_kex ps) \<noteq> {}"
    "read_kex rfc4251 True (write_kex rfc4251 pc [] cookie_c None) ps (Some (map sk_name keys)) = Ok n"
    "names_kex n \<in> set curve_kexes" "CIPHERS (names_cipher n) \<noteq> None" "MACS (client_mac n) \<noteq> None" "MACS (server_mac n) \<noteq> None"
    "\<And>k h. k \<in> set keys \<Longrightarrow> \<exists>s. sk_sign k h = Ok s"
    "\<And>k. k \<in> set keys \<Longrightarrow> \<exists>p. host_key_ok HL k p \<and> chk p = Ok True"
  shows "\<exists>dc reply ns nc.
     kex_run L Rc Rs pc ps cookie_c cookie_s keys (kex_start cid sid sess) (kex_start cid sid sess)
       = Ok (dc, [reply, [NEWKEYS]], ns)
     \<and> server_key_check rfc4251 L HL chk rek reply dc = Ok nc \<and> nk_names ns = n \<and> same_result nc ns"
proof -
  obtain dc replies ns where run: "kex_run L Rc Rs pc ps cookie_c cookie_s keys (kex_start cid sid sess)
      (kex_start cid sid sess) = Ok (dc, replies, ns)" "nk_names ns = n"
    using kex_run_returns [OF assms(1,3-13)] by blast
  have nn: "names_kex (nk_names ns) \<noteq> ''none''" using curve_kexes_known [OF assms(9)] run(2) by auto
  from kex_run_transport [OF assms(1-7) run(1) nn assms(14), where rek = rek] run show ?thesis by blast
qed

theorem curve_kex_completes_witness:
  "\<exists>dc reply ns nc.
     kex_run demo_kex_lib demo_entropy demo_entropy demo_pref demo_pref (replicate 16 9) (replicate 16 7) [demo_server_key]
       (kex_start [1] [2] None) (kex_start [1] [2] None) = Ok (dc, [reply, [NEWKEYS]], ns)
     \<and> server_key_check rfc4251 demo_kex_lib demo_host_lib (\<lambda>_. Ok True) False reply dc = Ok nc
     \<and> nk_names ns = demo_negotiated \<and> same_result nc ns"
  by (rule curve_kex_completes [OF demo_ok(1) null_crypto_ok demo_ok(3,3) _ _ demo_ok(4)])
    (use demo_ok(2) demo_names in \<open>auto simp: demo_server_key_def demo_negotiated_def curve_kexes_def CIPHERS_def MACS_def\<close>)

text \<open>
  C34: whatever the peers negotiate among the algorithms of the tables, and whatever the secret and the hash, the
  derivation of the session keys ends and gives two keys of the right sizes: the loop that lengthens a
  key never runs more often than the key has bytes.
\<close>

theorem compute_keys_total:
  assumes "kex_lib_ok L" "CIPHERS c = Some alg" "MACS rm = Some r" "MACS lm = Some l"
  shows "\<exists>a b. compute_keys L d sh sid h c rm lm is_server = Ok (a, b)"
  using assms by (rule compute_keys_returns)

theorem compute_keys_total_witness:
  "\<exists>a b. compute_keys demo_kex_lib Sha1 (Some [1]) [2] [3] ''chacha20-poly1305@openssh.com'' mac_NONE ''hmac-sha2-512'' True = Ok (a, b)"
  by (rule compute_keys_total [OF demo_ok(1), of _ ChachaCipher _ "(0, \<lambda>_. NoMac)" _ "(64, CryptoMac 64)"])
    (simp_all add: CIPHERS_def MACS_def mac_NONE_def)

text \<open>
  the server's answer can end the client's task: with the Curve25519 exchange, an ephemeral key that
  does not have 32 bytes is copied into an array of 32 without a check of its length, and the copy panics; the
  signature has not been looked at by then.
\<close>

theorem curve25519_reply_panics:
  assumes "done_kex dc = Curve25519Kex (Some secret) sh" "server_ephemeral (done_exchange dc) = []"
    and "parse_host_key HL (names_key (done_names dc)) raw = Some p" "chk p = Ok True"
    and "length raw < 2 ^ 32" "length eph < 2 ^ 32" "length sg < 2 ^ 32" "length eph \<noteq> 32"
  shows "server_key_check rfc4251 L HL chk rek
    (KEX_ECDH_REPLY # extend_ssh_string rfc4251 raw @ extend_ssh_string rfc4251 eph @ extend_ssh_string rfc4251 sg) dc = Panic"
  using assms read_rfc [OF assms(7)] by (simp add: server_key_check_def rfc.read_ssh_string Let_def)

theorem curve25519_reply_panics_witness:
  "server_key_check rfc4251 demo_kex_lib demo_host_lib (\<lambda>_. Ok True) False
    (KEX_ECDH_REPLY # extend_ssh_string rfc4251 [1, 2] @ extend_ssh_string rfc4251 [3] @ extend_ssh_string rfc4251 [])
    \<lparr>done_exchange = Exchange_new, done_kex = Curve25519Kex (Some (replicate 32 1)) None, done_key = 0,
     done_session_id = None, done_names = demo_negotiated\<rparr> = Panic"
  by (rule curve25519_reply_panics [of _ "replicate 32 1" None _ _ "[1, 2]"])
    (simp_all add: Exchange_new_def demo_host_lib_def)

end
