(* ===== verification/Client_Kex.thy ===== *)
theory Client_Kex
  imports Client_Auth Key_Exchange
begin

text \<open>
  The client's connection from the first byte on: \<open>connect_stream\<close>, \<open>Session::run_inner\<close>, \<open>read_ssh_id\<close>,
  \<open>flush\<close> and \<open>reply\<close> of \<^verbatim>\<open>client/mod.rs\<close>, and \<open>client_read_encrypted\<close> of \<^verbatim>\<open>client/encrypted.rs\<close>, which handles a key
  re-exchange. The theorems: a session is encrypted only under a host key that the handler accepted and
  that signed the exchange; the handshake with a server that follows the protocol completes; strict key
  exchange resets both sequence numbers; what arrives during a re-exchange is processed in order after it.
\<close>

section \<open>The environment\<close>

text \<open>
  The packages the client calls, with the handler's verdict on a host key; and what one turn draws from
  the outside: random values, the cookie of a KEXINIT, the time, and the order in which the channels are visited.
\<close>

record ('z, 'p) client_env =
  env_codec :: codec
  env_kex :: kex_lib
  env_host :: "'p host_lib"
  env_crypto :: crypto
  env_zlib :: "'z \<Rightarrow> bytes \<Rightarrow> (error, bytes \<times> 'z) outcome"
  env_unzlib :: "'z \<Rightarrow> bytes \<Rightarrow> (error, bytes \<times> 'z) outcome"
  env_fresh :: "'z option \<Rightarrow> 'z"
  env_check :: "'p \<Rightarrow> (error, bool) outcome"

record moment = entropy +
  cookie :: bytes
  now :: nat
  visit :: "channel_id list"

type_synonym 'z ssh_client = "(kex_alg, cipher_key \<times> cipher_key, 'z, auth_scheme) client_session"
type_synonym 'z ssh_handler = "(kex_alg, cipher_key \<times> cipher_key, 'z, auth_scheme) handler"
type_synonym 'z ssh_common = "(client_config, kex_alg, cipher_key \<times> cipher_key, 'z, auth_scheme) common_session"

text \<open>
  The loop of a session: the session and its queues, the one-shot sender that reports encryption, the
  buffer of the reader, the bytes of the server that were not read yet, the bytes written to
  the socket, and the result so far.
\<close>

record 'z client_loop =
  lp_session :: "'z ssh_client"
  lp_queues :: "auth_scheme queues"
  lp_signal :: bool
  lp_input :: sshbuffer
  lp_stream :: bytes
  lp_sent :: bytes
  lp_result :: "(error, remote_disconnect_info) outcome"

abbreviation env_seal :: "('z, 'p) client_env \<Rightarrow> cipher_key sealing_key" where
  "env_seal V \<equiv> cipher_sealing (env_codec V) (env_crypto V)"

text \<open>Packets written with \<open>cipher.local_to_remote.write\<close>.\<close>

definition seal_packets :: "('z, 'p) client_env \<Rightarrow> bytes list \<Rightarrow> 'z ssh_common \<Rightarrow> (error, 'z ssh_common) outcome" where
  "seal_packets V ps com =
    obind (write_packets (env_codec V) (env_seal V) (fst (cipher com)) ps (write_buffer com)) (\<lambda>(k, wb).
    Ok (com\<lparr>cipher := (k, snd (cipher com)), write_buffer := wb\<rparr>))"

section \<open>The first packet, and flushing\<close>

definition Session_read_ssh_id :: "('z, 'p) client_env \<Rightarrow> moment \<Rightarrow> bytes \<Rightarrow> 'z ssh_client \<Rightarrow> (error, 'z ssh_client) outcome" where
  "Session_read_ssh_id V mo sshid self =
    (let com = common self;
         kexinit = \<lparr>ki_algo = None, ki_exchange = Exchange_new\<lparr>server_id := sshid,
             client_id := as_kex_hash_bytes (cfg_client_id (config com))\<rparr>, ki_session_id = None, ki_sent = False\<rparr>;
         com1 = com\<lparr>write_buffer := (write_buffer com)\<lparr>buffer := []\<rparr>\<rparr>;
         (ps, kexinit') = KexInit_client_write (env_codec V) (cfg_preferred (config com)) (cookie mo) kexinit
     in obind (seal_packets V ps com1) (\<lambda>com2.
        Ok (self\<lparr>common := com2\<lparr>kex_of := Some (Init kexinit')\<rparr>\<rparr>)))"

definition Session_flush :: "('z, 'p) client_env \<Rightarrow> moment \<Rightarrow> 'z ssh_client \<Rightarrow> (error, 'z ssh_client) outcome" where
  "Session_flush V mo self =
    (let com = common self
     in case encrypted_of com of
       None \<Rightarrow> Ok self
     | Some enc \<Rightarrow>
         obind (Encrypted_flush (env_codec V) (env_zlib V) skip_exchange (now mo) (cfg_limits (config com)) (env_seal V)
             enc (fst (cipher com)) (write_buffer com)) (\<lambda>(due, enc1, k, wb).
         let com1 = com\<lparr>encrypted_of := Some enc1, cipher := (k, snd (cipher com)), write_buffer := wb\<rparr>
         in if due \<and> rekey enc1 = None then
              (case exchange_of enc1 of
                 None \<Rightarrow> Ok (self\<lparr>common := com1\<rparr>)
               | Some ex \<Rightarrow>
                   (let (ps, kexinit) = KexInit_client_write (env_codec V) (cfg_preferred (config com)) (cookie mo)
                          (KexInit_initiate_rekey ex (session_id enc1))
                    in obind (seal_packets V ps com1) (\<lambda>com2.
                       Ok (self\<lparr>common := com2\<lparr>encrypted_of :=
                         Some (enc1\<lparr>exchange_of := None, rekey := Some (Init kexinit)\<rparr>)\<rparr>\<rparr>))))
            else Ok (self\<lparr>common := com1\<rparr>)))"

definition initial_encrypted_state :: "'z ssh_client \<Rightarrow> encrypted_state" where
  "initial_encrypted_state s =
    (if cfg_anonymous (config (common s)) then Authenticated else WaitingAuthServiceRequest False False)"

abbreviation set_common :: "'z ssh_client \<Rightarrow> 'z ssh_common \<Rightarrow> 'z ssh_client" where
  "set_common s c \<equiv> s\<lparr>common := c\<rparr>"

abbreviation first_byte :: "bytes \<Rightarrow> u8 option" where
  "first_byte buf \<equiv> (case buf of [] \<Rightarrow> None | b # _ \<Rightarrow> Some b)"

section \<open>Key re-exchange\<close>

text \<open>\<open>client_read_encrypted\<close> by what the packet and the state of the re-exchange are.\<close>

type_synonym 'z ssh_encrypted = "(kex_alg, cipher_key \<times> cipher_key, 'z) encrypted"

definition rekey_kexinit ::
  "('z, 'p) client_env \<Rightarrow> preferred \<Rightarrow> bytes \<Rightarrow> 'z ssh_encrypted \<Rightarrow> (error, kex_init option \<times> 'z ssh_encrypted) outcome" where
  "rekey_kexinit V prefs buf enc =
    (case rekey enc of
       Some (Init kexinit) \<Rightarrow> Ok (Some kexinit, enc\<lparr>rekey := None\<rparr>)
     | _ \<Rightarrow>
       (case exchange_of enc of
          Some ex \<Rightarrow>
            obind (read_kex (env_codec V) False buf prefs None) (\<lambda>algo.
            Ok (Some (KexInit_received_rekey ex algo (session_id enc)), enc\<lparr>rekey := None, exchange_of := None\<rparr>))
        | None \<Rightarrow> Ok (None, enc\<lparr>rekey := None\<rparr>)))"

definition rekey_answer ::
  "('z, 'p) client_env \<Rightarrow> moment \<Rightarrow> 'z ssh_common \<Rightarrow> 'z ssh_encrypted \<Rightarrow> bytes \<Rightarrow> kex_init \<Rightarrow> (error, 'z ssh_common) outcome" where
  "rekey_answer V mo com enc buf ki =
    (if common_strict_kex com \<and> (case ki_algo ki of Some algo \<Rightarrow> \<not> strict_kex algo | None \<Rightarrow> False)
     then Err (strict_kex_violation KEXINIT 0)
     else
       obind (KexInit_client_parse (env_codec V) (env_kex V) (entropy.truncate mo) (cfg_preferred (config com)) (cookie mo) buf ki)
         (\<lambda>(ps, dhdone).
       obind (seal_packets V ps (com\<lparr>encrypted_of := Some enc\<rparr>)) (\<lambda>com1.
       Ok (if skip_exchange (kex_alg enc) then com1
           else com1\<lparr>encrypted_of := Some (enc\<lparr>rekey := Some (DhDone dhdone)\<rparr>)\<rparr>))))"

definition read_rekey_init ::
  "('z, 'p) client_env \<Rightarrow> moment \<Rightarrow> 'z ssh_client \<Rightarrow> bytes \<Rightarrow> (error, 'z ssh_client) outcome" where
  "read_rekey_init V mo self buf =
    (let com = common self
     in case encrypted_of com of
       None \<Rightarrow> Panic
     | Some enc \<Rightarrow>
         obind (rekey_kexinit V (cfg_preferred (config com)) buf enc) (\<lambda>(kexinit, enc1).
         obind (case kexinit of
                  None \<Rightarrow> Ok (com\<lparr>encrypted_of := Some enc1\<rparr>)
                | Some ki \<Rightarrow> rekey_answer V mo com enc1 buf ki) (\<lambda>com2.
         Session_flush V mo (set_common self com2))))"

definition read_rekey_reply ::
  "('z, 'p) client_env \<Rightarrow> moment \<Rightarrow> 'z ssh_client \<Rightarrow> 'z ssh_encrypted \<Rightarrow>
   kex_alg kex_dh_done \<Rightarrow> bytes \<Rightarrow> (error, 'z ssh_client) outcome" where
  "read_rekey_reply V mo self enc d buf =
    (if ignore_guessed (done_names d)
     then Ok (set_enc (enc\<lparr>rekey := Some (DhDone (d\<lparr>done_names := (done_names d)\<lparr>ignore_guessed := False\<rparr>\<rparr>))\<rparr>) self)
     else if first_byte buf = Some KEX_ECDH_REPLY then
       obind (server_key_check (env_codec V) (env_kex V) (env_host V) (env_check V) True buf d) (\<lambda>kex.
       let com = (common self)\<lparr>encrypted_of := Some (enc\<lparr>rekey := Some (KexKeys kex)\<rparr>)\<rparr>
       in obind (seal_packets V [[NEWKEYS]] com) (\<lambda>com1.
          obind (Session_flush V mo (set_common self com1)) (\<lambda>s1.
          Ok (set_common s1 (CommonSession_maybe_reset_seqn (common s1))))))
     else Err Inconsistent)"

fun process_packets ::
  "('z, 'p) client_env \<Rightarrow> 'z ssh_handler \<Rightarrow> bytes list \<Rightarrow> auth_scheme queues \<Rightarrow> 'z ssh_client \<Rightarrow>
   (error, auth_scheme queues \<times> 'z ssh_client) outcome" where
  "process_packets V H [] q s = Ok (q, s)"
| "process_packets V H (p # ps) q s =
     obind (process_packet (env_codec V) (env_fresh V) H q s p) (\<lambda>(q', s'). process_packets V H ps q' s')"

definition read_rekey_newkeys ::
  "('z, 'p) client_env \<Rightarrow> moment \<Rightarrow> 'z ssh_handler \<Rightarrow> 'z client_loop \<Rightarrow>
   'z ssh_encrypted \<Rightarrow> (kex_alg, cipher_key \<times> cipher_key) new_keys \<Rightarrow> bytes \<Rightarrow>
   (error, 'z client_loop) outcome" where
  "read_rekey_newkeys V mo H l enc newkeys buf =
    (if first_byte buf \<noteq> Some NEWKEYS then Err KexError
     else
       (let s = lp_session l; com = common s
        in obind (flush_all_pending (env_codec V) (visit mo) (enc\<lparr>rekey := None, last_rekey := now mo\<rparr>)) (\<lambda>enc1.
           let s1 = s\<lparr>common := com\<lparr>write_buffer := (write_buffer com)\<lparr>buf_bytes := 0\<rparr>, encrypted_of := Some enc1\<rparr>,
                      pending_reads := []\<rparr>
           in obind (process_packets V H (pending_reads s) (lp_queues l) s1) (\<lambda>(q, s2).
              let s3 = s2\<lparr>pending_reads := [], pending_len := 0, common := CommonSession_newkeys (common s2) newkeys\<rparr>
              in obind (Session_flush V mo s3) (\<lambda>s4.
                 Ok (l\<lparr>lp_session := s4, lp_queues := q,
                      lp_input := (if common_strict_kex (common s4) then (lp_input l)\<lparr>seqn := 0\<rparr> else lp_input l)\<rparr>))))))"

definition client_read_encrypted ::
  "('z, 'p) client_env \<Rightarrow> moment \<Rightarrow> 'z ssh_handler \<Rightarrow> 'z client_loop \<Rightarrow> bytes \<Rightarrow> (error, 'z client_loop) outcome" where
  "client_read_encrypted V mo H l buf =
    (let s = lp_session l;
         process = obind (process_packet (env_codec V) (env_fresh V) H (lp_queues l) s buf) (\<lambda>(q, s').
           Ok (l\<lparr>lp_session := s', lp_queues := q\<rparr>));
         keep = (\<lambda>r. obind r (\<lambda>s'. Ok (l\<lparr>lp_session := s'\<rparr>)))
     in if first_byte buf = Some KEXINIT then keep (read_rekey_init V mo s buf)
        else case enc_of s of
          None \<Rightarrow> process
        | Some enc \<Rightarrow>
            (case rekey enc of
               Some (DhDone d) \<Rightarrow> keep (read_rekey_reply V mo s enc d buf)
             | Some (KexKeys newkeys) \<Rightarrow> read_rekey_newkeys V mo H l enc newkeys buf
             | Some (Init k) \<Rightarrow>
                 (let len = pending_len s + of_nat (length buf)
                  in if len > 2 * target_window_size s then Err Pending
                     else Ok (l\<lparr>lp_session := s\<lparr>pending_len := len, pending_reads := pending_reads s @ [buf]\<rparr>\<rparr>))
             | _ \<Rightarrow> process))"

section \<open>Packets before the session is encrypted\<close>

definition STRICT_KEX_MSG_ORDER :: "u8 list" where
  "STRICT_KEX_MSG_ORDER = [KEXINIT, KEX_ECDH_REPLY, NEWKEYS]"

definition ignored_messages :: "u8 list" where
  "ignored_messages = [2, 3, 4]"

definition reply_init ::
  "('z, 'p) client_env \<Rightarrow> moment \<Rightarrow> 'z client_loop \<Rightarrow> bytes \<Rightarrow> kex_init \<Rightarrow> (error, 'z client_loop) outcome" where
  "reply_init V mo l buf kexinit =
    (let s = lp_session l; com = (common s)\<lparr>kex_of := None\<rparr>
     in if ki_algo kexinit \<noteq> None \<or> first_byte buf = Some KEXINIT \<or> encrypted_of com = None then
          obind (KexInit_client_parse (env_codec V) (env_kex V) (entropy.truncate mo) (cfg_preferred (config com)) (cookie mo)
              buf kexinit) (\<lambda>(ps, d).
          obind (seal_packets V ps com) (\<lambda>com1.
          if strict_kex (done_names d) \<and> seqn (lp_input l) \<noteq> 1
          then Err (strict_kex_violation KEXINIT ((unat (seqn (lp_input l)) + (2 ^ 64 - 1)) mod 2 ^ 64))
          else
            obind (if skip_exchange (done_kex d) then
                     obind (KexDhDone_compute_keys (alg_compute_keys (env_kex V)) d [] False) (\<lambda>nk.
                     Ok (l\<lparr>lp_session := set_common s (CommonSession_encrypted com1 (initial_encrypted_state s) nk (now mo)),
                          lp_signal := False\<rparr>))
                   else Ok (l\<lparr>lp_session := set_common s (com1\<lparr>kex_of := Some (DhDone d)\<rparr>)\<rparr>)) (\<lambda>l1.
            obind (Session_flush V mo (lp_session l1)) (\<lambda>s2. Ok (l1\<lparr>lp_session := s2\<rparr>)))))
        else Ok (l\<lparr>lp_session := set_common s com\<rparr>))"

definition reply_dh ::
  "('z, 'p) client_env \<Rightarrow> moment \<Rightarrow> 'z client_loop \<Rightarrow> bytes \<Rightarrow> kex_alg kex_dh_done \<Rightarrow> (error, 'z client_loop) outcome" where
  "reply_dh V mo l buf d =
    (let s = lp_session l; com = common s
     in if ignore_guessed (done_names d) then
          Ok (l\<lparr>lp_session := set_common s (com\<lparr>kex_of :=
            Some (DhDone (d\<lparr>done_names := (done_names d)\<lparr>ignore_guessed := False\<rparr>\<rparr>))\<rparr>)\<rparr>)
        else if first_byte buf = Some KEX_ECDH_REPLY then
          obind (server_key_check (env_codec V) (env_kex V) (env_host V) (env_check V) False buf d) (\<lambda>kex.
          obind (seal_packets V [[NEWKEYS]] (com\<lparr>common_strict_kex := (common_strict_kex com \<or> strict_kex (nk_names kex)),
              kex_of := Some (KexKeys kex)\<rparr>)) (\<lambda>com1.
          obind (Session_flush V mo (set_common s com1)) (\<lambda>s1.
          Ok (l\<lparr>lp_session := set_common s1 (CommonSession_maybe_reset_seqn (common s1))\<rparr>))))
        else Err Inconsistent)"

definition reply_newkeys ::
  "moment \<Rightarrow> 'z client_loop \<Rightarrow> bytes \<Rightarrow> (kex_alg, cipher_key \<times> cipher_key) new_keys \<Rightarrow> (error, 'z client_loop) outcome" where
  "reply_newkeys mo l buf newkeys =
    (if first_byte buf \<noteq> Some NEWKEYS then Err KexError
     else
       (let s = lp_session l;
            com1 = CommonSession_encrypted ((common s)\<lparr>kex_of := None\<rparr>) (initial_encrypted_state s) newkeys (now mo)
        in Ok (l\<lparr>lp_session := set_common s com1, lp_signal := False,
                lp_input := (if common_strict_kex com1 then (lp_input l)\<lparr>seqn := 0\<rparr> else lp_input l)\<rparr>)))"

definition reply ::
  "('z, 'p) client_env \<Rightarrow> moment \<Rightarrow> 'z ssh_handler \<Rightarrow> 'z client_loop \<Rightarrow> bytes \<Rightarrow> (error, 'z client_loop) outcome" where
  "reply V mo H l buf =
    (let com = common (lp_session l); seqno = unat (seqn (lp_input l) - 1)
     in if buf \<noteq> [] \<and> common_strict_kex com \<and> encrypted_of com = None \<and> seqno < length STRICT_KEX_MSG_ORDER
           \<and> hd buf \<noteq> STRICT_KEX_MSG_ORDER ! seqno
        then Err (strict_kex_violation (hd buf) seqno)
        else if buf \<noteq> [] \<and> hd buf \<in> set ignored_messages then Ok l
        else
          case kex_of com of
            Some (Init kexinit) \<Rightarrow> reply_init V mo l buf kexinit
          | Some (DhDone d) \<Rightarrow> reply_dh V mo l buf d
          | Some (KexKeys newkeys) \<Rightarrow> reply_newkeys mo l buf newkeys
          | Some (Dh _) \<Rightarrow> Ok l
          | None \<Rightarrow> client_read_encrypted V mo H l buf)"

section \<open>The loop\<close>

text \<open>
  Before the loop: the identification, the first packet. \<open>connect_stream\<close> gives the state of the loop after both
  sides have sent their identification.
\<close>

definition CommonSession_start :: "client_config \<Rightarrow> bytes \<Rightarrow> sshbuffer \<Rightarrow> 'z ssh_common" where
  "CommonSession_start cfg sshid wb = \<lparr>auth_user = [], remote_sshid = sshid, config = cfg, encrypted_of = None,
     auth_method = None, auth_attempts = 0, write_buffer = wb, kex_of = None, cipher = (ClearKey, ClearKey),
     common_wants_reply = False, disconnected = False, common_buffer = [], common_strict_kex = False,
     alive_timeouts = 0, received_data = False\<rparr>"

definition connect_stream ::
  "('z, 'p) client_env \<Rightarrow> moment \<Rightarrow> client_config \<Rightarrow> auth_scheme queues \<Rightarrow> bytes list \<Rightarrow> (error, 'z client_loop) outcome" where
  "connect_stream V mo cfg q pieces =
    (let wb = send_ssh_id (cfg_client_id cfg) SSHBuffer_new
     in obind (read_ssh_id ReadSshIdBuffer_new pieces) (\<lambda>(ident, rest).
        let sshid = ReadSshIdBuffer_id ident
        in obind (Session_read_ssh_id V mo sshid (Session_new (cfg_window_size cfg) (CommonSession_start cfg sshid wb))) (\<lambda>s.
           Ok \<lparr>lp_session = s, lp_queues = q, lp_signal = True, lp_input = SSHBuffer_new,
               lp_stream = unread_bytes \<lparr>read_id = Some ident, network = rest\<rparr>, lp_sent = buffer wb, lp_result = Err Disconnect\<rparr>)))"

text \<open>After every turn: flush, write to the socket, and finish the authentication.\<close>

definition write_socket :: "('z, 'p) client_env \<Rightarrow> moment \<Rightarrow> 'z client_loop \<Rightarrow> (error, 'z client_loop) outcome" where
  "write_socket V mo l =
    obind (Session_flush V mo (lp_session l)) (\<lambda>s.
    let com = common s; wb = write_buffer com
    in Ok (l\<lparr>lp_session := set_common s (com\<lparr>write_buffer := wb\<lparr>buffer := []\<rparr>\<rparr>), lp_sent := lp_sent l @ buffer wb\<rparr>))"

text \<open>
  The branches of \<open>select!\<close>: a packet was read, a timer fired, commands of the application arrived, or all handles were
  dropped. A turn goes on, breaks the loop or fails.
\<close>

datatype loop_event = ReadReady | KeepaliveTimer | InactivityTimer | Commands "auth_scheme msg list" | HandlesDropped

datatype 'z turn_end = Continue "'z client_loop" | Break "'z client_loop"

definition Decompress_decompress ::
  "('z \<Rightarrow> bytes \<Rightarrow> (error, bytes \<times> 'z) outcome) \<Rightarrow> 'z option \<Rightarrow> bytes \<Rightarrow> (error, bytes \<times> 'z option) outcome" where
  "Decompress_decompress unzlib self input =
    (case self of
       None \<Rightarrow> Ok (input, None)
     | Some z \<Rightarrow> obind (unzlib z input) (\<lambda>(out, z'). Ok (out, Some z')))"

definition set_received :: "bool \<Rightarrow> 'z client_loop \<Rightarrow> 'z client_loop" where
  "set_received b l = l\<lparr>lp_session := (lp_session l)\<lparr>common := (common (lp_session l))\<lparr>received_data := b\<rparr>\<rparr>\<rparr>"

definition set_loop_cipher :: "cipher_key \<Rightarrow> 'z client_loop \<Rightarrow> 'z client_loop" where
  "set_loop_cipher c l = (let com = common (lp_session l)
     in l\<lparr>lp_session := (lp_session l)\<lparr>common := com\<lparr>cipher := (fst (cipher com), c)\<rparr>\<rparr>\<rparr>)"

definition open_payload :: "('z, 'p) client_env \<Rightarrow> 'z ssh_client \<Rightarrow> bytes \<Rightarrow> (error, bytes \<times> 'z ssh_client) outcome" where
  "open_payload V s payload =
    (case enc_of s of
       None \<Rightarrow> Ok (payload, s)
     | Some enc \<Rightarrow>
         obind (Decompress_decompress (env_unzlib V) (decompress enc) payload) (\<lambda>(out, z).
         Ok (out, set_enc (enc\<lparr>decompress := z\<rparr>) s)))"

definition read_turn ::
  "('z, 'p) client_env \<Rightarrow> moment \<Rightarrow> 'z ssh_handler \<Rightarrow> 'z client_loop \<Rightarrow> (error, 'z turn_end) outcome" where
  "read_turn V mo H l =
    obind (start_reading (env_codec V) (cipher_opening (env_codec V) (env_crypto V)) (snd (cipher (common (lp_session l))))
        (lp_stream l) (lp_input l)) (\<lambda>(_, stream, c, input).
    let l1 = set_loop_cipher c (l\<lparr>lp_stream := stream, lp_input := input\<rparr>); s = lp_session l1
    in if length (buffer input) < 5 then Ok (Break l1)
       else case open_payload V s (drop 5 (buffer input)) of
         Ok (buf, s1) \<Rightarrow>
           if buf = [] then Ok (Continue (l1\<lparr>lp_session := s1\<rparr>))
           else if hd buf = DISCONNECT then
             (let (r, s2) = process_disconnect (env_codec V) s1 buf
              in Ok (Continue (l1\<lparr>lp_session := s2, lp_result := r\<rparr>)))
           else obind (reply V mo H (set_received True (l1\<lparr>lp_session := s1\<rparr>)) buf) (\<lambda>l2. Ok (Continue l2))
       | Err _ \<Rightarrow> Ok (Break l1)
       | Panic \<Rightarrow> Panic
       | Diverge \<Rightarrow> Diverge)"

text \<open>The sealing half of the pair, for the commands that write a packet at once.\<close>

definition pair_sealing :: "cipher_key sealing_key \<Rightarrow> (cipher_key \<times> cipher_key) sealing_key" where
  "pair_sealing K = \<lparr>padding_length = (\<lambda>c. padding_length K (fst c)), fill_padding = (\<lambda>c. fill_padding K (fst c)),
     seal_tag_len = (\<lambda>c. seal_tag_len K (fst c)),
     seal = (\<lambda>c n pt. let (ct, tag, k) = seal K (fst c) n pt in (ct, tag, (k, snd c)))\<rparr>"

fun handle_msgs :: "('z, 'p) client_env \<Rightarrow> auth_scheme msg list \<Rightarrow> 'z ssh_client \<Rightarrow> (error, 'z ssh_client) outcome" where
  "handle_msgs V [] s = Ok s"
| "handle_msgs V (m # ms) s =
     (if is_rekeying s then Ok s
      else obind (handle_msg (env_codec V) (write_auth (env_codec V) (pair_sealing (env_seal V))) m s) (handle_msgs V ms))"

definition keepalive_turn :: "('z, 'p) client_env \<Rightarrow> 'z client_loop \<Rightarrow> (error, 'z turn_end) outcome" where
  "keepalive_turn V l =
    (let s = lp_session l; com = common s
     in if cfg_keepalive_max (config com) \<noteq> 0 \<and> alive_timeouts com > cfg_keepalive_max (config com)
        then Err KeepaliveTimeout
        else Ok (Continue (l\<lparr>lp_session := send_keepalive (env_codec V) True
               (set_common s (com\<lparr>alive_timeouts := min (alive_timeouts com + 1) (2 ^ 64 - 1)\<rparr>))\<rparr>)))"

definition select_branch ::
  "('z, 'p) client_env \<Rightarrow> moment \<Rightarrow> 'z ssh_handler \<Rightarrow> loop_event \<Rightarrow> 'z client_loop \<Rightarrow> (error, 'z turn_end) outcome" where
  "select_branch V mo H ev l =
    (let s = lp_session l
     in case ev of
          ReadReady \<Rightarrow> read_turn V mo H l
        | KeepaliveTimer \<Rightarrow> keepalive_turn V l
        | InactivityTimer \<Rightarrow> Err InactivityTimeout
        | Commands ms \<Rightarrow> obind (handle_msgs V ms s) (\<lambda>s'. Ok (Continue (l\<lparr>lp_session := s'\<rparr>)))
        | HandlesDropped \<Rightarrow> Ok (Break (l\<lparr>lp_session := set_common s ((common s)\<lparr>disconnected := True\<rparr>)\<rparr>)))"

definition end_turn :: "('z, 'p) client_env \<Rightarrow> moment \<Rightarrow> 'z client_loop \<Rightarrow> (error, 'z client_loop) outcome" where
  "end_turn V mo l =
    obind (write_socket V mo l) (\<lambda>l2.
    let s2 = finish_authentication (env_fresh V) (lp_session l2); com = common s2
    in Ok (l2\<lparr>lp_session := set_common s2 (com\<lparr>alive_timeouts := (if received_data com then 0 else alive_timeouts com)\<rparr>)\<rparr>))"

definition turn ::
  "('z, 'p) client_env \<Rightarrow> moment \<Rightarrow> 'z ssh_handler \<Rightarrow> loop_event \<Rightarrow> 'z client_loop \<Rightarrow> (error, 'z turn_end) outcome" where
  "turn V mo H ev l =
    obind (select_branch V mo H ev (set_received False l)) (\<lambda>e.
    case e of
      Break l1 \<Rightarrow> Ok (Break l1)
    | Continue l1 \<Rightarrow> obind (end_turn V mo l1) (\<lambda>l2. Ok (Continue l2)))"

fun run_turns ::
  "('z, 'p) client_env \<Rightarrow> 'z ssh_handler \<Rightarrow> (moment \<times> loop_event) list \<Rightarrow> 'z client_loop \<Rightarrow> (error, 'z turn_end) outcome" where
  "run_turns V H [] l = Ok (Continue l)"
| "run_turns V H ((mo, ev) # es) l =
     (if disconnected (common (lp_session l)) then Ok (Break l)
      else obind (turn V mo H ev l) (\<lambda>e. case e of Break l' \<Rightarrow> Ok (Break l') | Continue l' \<Rightarrow> run_turns V H es l'))"

definition run_inner ::
  "('z, 'p) client_env \<Rightarrow> moment \<Rightarrow> 'z ssh_handler \<Rightarrow> (moment \<times> loop_event) list \<Rightarrow> 'z client_loop \<Rightarrow> (error, 'z turn_end) outcome" where
  "run_inner V mo H es l = obind (write_socket V mo l) (run_turns V H es)"

section \<open>What packets and commands leave alone\<close>

text \<open>
  The parts of a session that belong to the key exchange; outside of one, neither a packet nor a command
  changes them.
\<close>

definition kex_part :: "('k, 'c, 'z) encrypted \<Rightarrow> bytes \<times> ('k, 'c) kex option \<times> exchange option \<times> 'k" where
  "kex_part enc = (session_id enc, rekey enc, exchange_of enc, kex_alg enc)"

definition anchor where
  "anchor s = (config (common s), kex_of (common s), common_strict_kex (common s), map_option kex_part (enc_of s))"

lemma kex_part_keep [simp]:
  "kex_part (enc\<lparr>write := w\<rparr>) = kex_part enc" "kex_part (enc\<lparr>channels := cs\<rparr>) = kex_part enc"
  "kex_part (enc\<lparr>state := st\<rparr>) = kex_part enc" "kex_part (enc\<lparr>decompress := z\<rparr>) = kex_part enc"
  "kex_part (enc\<lparr>compress := z\<rparr>) = kex_part enc" "kex_part (enc\<lparr>last_channel_id := i\<rparr>) = kex_part enc"
  "kex_part (enc\<lparr>write_cursor := n\<rparr>) = kex_part enc" "kex_part (enc\<lparr>last_rekey := n\<rparr>) = kex_part enc"
  by (simp_all add: kex_part_def)

lemma kex_part_channel [simp]:
  "kex_part (Encrypted_byte E enc i b) = kex_part enc" "kex_part (Encrypted_eof E enc i) = kex_part enc"
  "kex_part (Encrypted_close E enc i) = kex_part enc" "kex_part (handle_flushed_channel E enc i r) = kex_part enc"
  "kex_part (snd (adjust_window_size E enc i d w)) = kex_part enc"
  by (simp_all add: Encrypted_byte_def Encrypted_eof_def Encrypted_close_def handle_flushed_channel_def
      adjust_window_size_def Let_def split: option.split channel_flush_result.split)

lemma kex_part_Ok:
  "flush_pending E enc i = Ok (n, enc') \<Longrightarrow> kex_part enc' = kex_part enc"
  "Encrypted_data E enc i d = Ok enc' \<Longrightarrow> kex_part enc' = kex_part enc"
  "Encrypted_extended_data E enc i x d = Ok enc' \<Longrightarrow> kex_part enc' = kex_part enc"
  "Encrypted_new_channel enc w m = Ok (i, enc') \<Longrightarrow> kex_part enc' = kex_part enc"
  "Encrypted_new_channel_id enc = Ok (i, enc') \<Longrightarrow> kex_part enc' = kex_part enc"
  by (auto simp: flush_pending_def Encrypted_data_def Encrypted_extended_data_def Encrypted_new_channel_def
      Encrypted_new_channel_id_def outcome_simps Let_def split: option.splits if_splits)

lemma grant_kex_part: "grant_window E enc i w = Ok (n, enc') \<Longrightarrow> kex_part enc' = kex_part enc"
  by (auto simp: grant_window_def outcome_simps Let_def split: option.splits dest: kex_part_Ok(1))

lemma flush_all_kex_part: "flush_all_pending E order enc = Ok enc' \<Longrightarrow> kex_part enc' = kex_part enc"
  by (induction E order enc rule: flush_all_pending.induct) (auto simp: outcome_simps split: option.splits)

lemma anchor_keep [simp]:
  "anchor (emit os s) = anchor s" "anchor (send_channel_msg ch m s) = anchor s" "anchor (s\<lparr>refs := R\<rparr>) = anchor s"
  "anchor (s\<lparr>target_window_size := w\<rparr>) = anchor s" "anchor (s\<lparr>open_global_requests := q\<rparr>) = anchor s"
  "anchor (s\<lparr>next_ref := n\<rparr>) = anchor s" "anchor (s\<lparr>pending_reads := ps\<rparr>) = anchor s" "anchor (s\<lparr>pending_len := w\<rparr>) = anchor s"
  "anchor (s\<lparr>common := (common s)\<lparr>common_wants_reply := b\<rparr>\<rparr>) = anchor s"
  "anchor (s\<lparr>common := (common s)\<lparr>received_data := b\<rparr>\<rparr>) = anchor s"
  by (auto simp: anchor_def enc_of_def emit_def send_channel_msg_def split: option.split)

lemma anchor_enc:
  "(\<And>enc. kex_part (f enc) = kex_part enc) \<Longrightarrow> anchor (with_enc f s) = anchor s"
  "enc_of s = Some enc \<Longrightarrow> kex_part enc' = kex_part enc \<Longrightarrow> anchor (set_enc enc' s) = anchor s"
  by (auto simp: anchor_def with_enc_def enc_of_def set_enc_def option.map_comp o_def)

lemma anchor_commands [simp]:
  "anchor (channel_request E ch kind p s) = anchor s" "anchor (global_request E kind p s) = anchor s"
  "anchor (await_reply w s) = anchor s" "anchor (Session_disconnect E reason descr l s) = anchor s"
  "anchor (answer_request E b i s) = anchor s" "anchor (global_answer E b s) = anchor s"
  "anchor (confirm_channel E m i s) = anchor s" "anchor (snd (accept_server_initiated_channel i m s)) = anchor s"
  "anchor (read_request_success E s r) = anchor s" "anchor (read_request_failure s) = anchor s"
  by (simp_all add: channel_request_def global_request_def await_reply_def answer_request_def global_answer_def
      confirm_channel_def accept_server_initiated_channel_def read_request_success_def read_request_failure_def
      pop_request_def anchor_enc Let_def split: option.split list.split global_request_response.split)
    (auto simp: Session_disconnect_def CommonSession_disconnect_def anchor_def enc_of_def Let_def split: option.splits)

lemma anchor_receive_window [simp]: "anchor (receive_window E H i d s) = anchor s"
  by (auto simp: receive_window_def Let_def split_beta anchor_enc(2) split: option.split)

lemma anchor_lift:
  assumes "lift_enc f s = Ok t" "\<And>enc enc'. f enc = Ok enc' \<Longrightarrow> kex_part enc' = kex_part enc"
  shows "anchor t = anchor s"
  using assms by (auto simp: lift_enc_def outcome_simps anchor_enc(2) split: option.splits)

lemma anchor_channel_msg: "handle_channel_msg E i m s = Ok t \<Longrightarrow> anchor t = anchor s"
  by (cases m) (auto simp: handle_channel_msg_def request_pty_def window_change_def request_x11_def set_env_def
      request_shell_def exec_def signal_def request_subsystem_def agent_forward_def Session_data_def Session_eof_def
      Session_extended_data_def Session_close_def elim!: anchor_lift dest: kex_part_Ok)

lemma anchor_open: "open_ref (channel_open_generic E kind suffix s) ref = Ok t \<Longrightarrow> anchor t = anchor s"
  by (auto simp: open_ref_def channel_open_generic_def outcome_simps Let_def anchor_enc(2) kex_part_Ok(4) split: option.splits if_splits)

lemma anchor_write_auth: "write_auth E K user meth s = Ok t \<Longrightarrow> anchor t = anchor s"
  by (auto simp: write_auth_def write_auth_request_if_needed_def write_auth_request_def outcome_simps Let_def anchor_def
      enc_of_def set_enc_def split: option.splits encrypted_state.splits)

lemma anchor_handle_msg: "handle_msg E (write_auth E K) m s = Ok t \<Longrightarrow> anchor t = anchor s"
  by (cases m) (auto simp: handle_msg_def channel_open_session_def channel_open_x11_def channel_open_direct_tcpip_def
      channel_open_direct_streamlocal_def channel_open_tun_def tcpip_forward_def cancel_tcpip_forward_def
      intro: anchor_open anchor_channel_msg anchor_write_auth split: if_splits)

lemma anchor_handle_msgs: "handle_msgs V ms s = Ok t \<Longrightarrow> anchor t = anchor s"
  by (induction V ms s rule: handle_msgs.induct) (auto simp: outcome_simps dest: anchor_handle_msg split: if_splits)

text \<open>A packet of the server, with a handler that does not change the session.\<close>

lemma anchor_read_authenticated:
  assumes H: "passive_handler H" and r: "client_read_authenticated E H s buf = Ok t"
  shows "anchor t = anchor s"
proof -
  note p = passiveD [OF H]
  have conf: "read_open_confirmation E H s r = Ok t \<Longrightarrow> anchor t = anchor s" for r
    by (cases "enc_of s") (auto simp: read_open_confirmation_def outcome_simps Let_def anchor_enc(2) split: option.split_asm dest!: p)
  have chan: "read_channel_close E H s r = Ok t \<Longrightarrow> anchor t = anchor s" "read_channel_eof E H s r = Ok t \<Longrightarrow> anchor t = anchor s"
    "read_channel_data E H s r = Ok t \<Longrightarrow> anchor t = anchor s" "read_channel_extended_data E H s r = Ok t \<Longrightarrow> anchor t = anchor s"
    "read_channel_result E H s m cb r = Ok t \<Longrightarrow> anchor t = anchor s" "read_open_failure E H s r = Ok t \<Longrightarrow> anchor t = anchor s" for r m cb
    by (auto simp: read_channel_close_def read_channel_eof_def read_channel_data_def read_channel_extended_data_def
        read_channel_result_def read_open_failure_def outcome_simps Let_def anchor_enc(1) split: option.splits dest!: p)
  have req: "read_channel_request E H s r = Ok t \<Longrightarrow> anchor t = anchor s" for r
    by (auto simp: read_channel_request_def read_xon_xoff_def read_exit_status_def read_exit_signal_def outcome_simps
        split: if_splits dest!: p)
  have adj: "read_window_adjust E H s r = Ok t \<Longrightarrow> anchor t = anchor s" for r
    by (cases "enc_of s") (auto simp: read_window_adjust_def outcome_simps anchor_enc(2) grant_kex_part split: option.split_asm dest!: p)
  have glob: "anchor t = anchor s" if g: "read_global_request E H s r = Ok t" for r
  proof -
    obtain req want r1 r2 where q: "read_string E r = Some (req, r1)" "read_byte E r1 = Some (want, r2)"
      using g by (auto simp: read_global_request_def outcome_simps simp del: announced_keys.simps)
    note g' = g [unfolded read_global_request_def q ok_or_simps obind.simps prod.case Let_def]
    show ?thesis
      using g' by (auto simp del: announced_keys.simps split: if_split_asm option.split_asm dest!: p)
  qed
  have op: "anchor t = anchor s" if g: "read_channel_open E H s r = Ok t" for r
  proof -
    obtain m r' enc i enc' where m: "OpenChannelMessage_parse E r = Ok (m, r')" "enc_of s = Some enc"
      "Encrypted_new_channel_id enc = Ok (i, enc')"
      using g by (cases "enc_of s") (auto simp: read_channel_open_def outcome_simps)
    let ?s = "set_enc enc' s"
    have a: "anchor ?s = anchor s" using m kex_part_Ok(5) anchor_enc(2) by metis
    have w: "anchor (with_enc (\<lambda>e. e\<lparr>write := f e\<rparr>) ?s) = anchor s" for f by (simp add: anchor_enc(1) a)
    have c: "anchor (confirm_channel E m i ?s) = anchor s"
      "anchor (snd (accept_server_initiated_channel i m (confirm_channel E m i ?s))) = anchor s" using a by simp_all
    show ?thesis
      using g m a w c
      by (cases "oc_typ m") (auto simp: read_channel_open_def Let_def split_beta
          simp del: anchor_commands split: if_split_asm dest!: p)
  qed
  show ?thesis
    using r conf chan req adj glob op by (auto simp: client_read_authenticated_def split: list.splits if_splits)
qed

lemma anchor_auth [simp]:
  "anchor (s\<lparr>common := (common s)\<lparr>auth_method := a\<rparr>\<rparr>) = anchor s" "anchor (s\<lparr>common := (common s)\<lparr>common_buffer := b\<rparr>\<rparr>) = anchor s"
  by (simp_all add: anchor_def enc_of_def)

lemma enc_of_auth [simp]:
  "enc_of (s\<lparr>common := (common s)\<lparr>auth_method := a\<rparr>\<rparr>) = enc_of s" "enc_of (s\<lparr>common := (common s)\<lparr>common_buffer := b\<rparr>\<rparr>) = enc_of s"
  "enc_of (set_enc enc s) = Some enc" "enc_of (emit os s) = enc_of s"
  by (simp_all add: enc_of_def set_enc_def emit_def)

lemma anchor_pk_ok:
  assumes "read_pk_ok E q s enc = Ok (q', t)" "enc_of s = Some enc0" "kex_part enc = kex_part enc0"
  shows "anchor t = anchor s"
proof -
  have sig: "kex_part e = kex_part enc" if "client_send_signature E enc user m [] = Ok (b, e)" for user m b e
    using that by (cases m) (auto simp: client_send_signature_def send_signed_def Let_def outcome_simps split: prod.splits)
  show ?thesis
    using assms sig
    by (cases "auth_method (common s)")
      (auto simp: read_pk_ok_def Let_def outcome_simps anchor_enc(2) send_reply_def
        split: auth_scheme.split_asm if_split_asm prod.split_asm)
qed

lemma anchor_process_packet:
  assumes H: "passive_handler H" and r: "process_packet E fresh H q s buf = Ok (q', t)"
  shows "anchor t = anchor s"
proof (cases "enc_of s")
  case (Some enc)
  have a: "read_service_accept E s enc snt r = Ok t \<Longrightarrow> anchor t = anchor s"
    "read_auth_success fresh q s enc = Ok t \<Longrightarrow> anchor t = anchor s"
    "read_auth_failure E q s enc req r = Ok t \<Longrightarrow> anchor t = anchor s" for snt r req
    using Some by (auto simp: read_service_accept_def read_auth_success_def read_auth_failure_def write_auth_request_def
        outcome_simps Let_def anchor_enc(2) send_reply_def split: option.split_asm if_split_asm)
  have b: "read_info_request E q s enc r = Ok (q', t) \<Longrightarrow> anchor t = anchor s" for r
    using Some by (auto simp: read_info_request_def client_send_auth_response_def outcome_simps anchor_enc(2) send_reply_def
        split: if_split_asm)
  have c: "read_auth_challenge E q s enc req r = Ok (q', t) \<Longrightarrow> anchor t = anchor s" for r req
    by (auto simp: read_auth_challenge_def b anchor_pk_ok [OF _ Some] split: option.split_asm current_request.split_asm)
  show ?thesis
    using r Some a c anchor_read_authenticated [OF H]
    by (cases "state enc") (auto simp: process_packet_def outcome_simps split: if_split_asm dest: passiveD [OF H])
qed (use r in \<open>simp add: process_packet_def\<close>)

lemma anchor_process_packets:
  assumes "passive_handler H"
  shows "process_packets V H ps q s = Ok (q', t) \<Longrightarrow> anchor t = anchor s"
  by (induction ps arbitrary: q s) (auto simp: outcome_simps dest: anchor_process_packet [OF assms])

section \<open>The host key\<close>

definition host_signed :: "('z, 'p) client_env \<Rightarrow> bytes \<Rightarrow> bool" where
  "host_signed V sid \<longleftrightarrow> (\<exists>p sg. env_check V p = Ok True \<and> verify_server_auth (env_host V) p sid sg)"

text \<open>
  The invariant: an encrypted session has an identifier that an accepted key signed; before that, so have
  the keys that wait for NEWKEYS, and the exchange in progress has no identifier of its own.
\<close>

definition kex_ok :: "('z, 'p) client_env \<Rightarrow> 'z ssh_common \<Rightarrow> bool" where
  "kex_ok V com \<longleftrightarrow> ''none'' \<notin> set (pref_kex (cfg_preferred (config com))) \<and>
     (case encrypted_of com of
        Some enc \<Rightarrow> kex_of com = None \<and> host_signed V (session_id enc)
      | None \<Rightarrow>
          (case kex_of com of
             Some (Init ki) \<Rightarrow> ki_session_id ki = None
           | Some (DhDone d) \<Rightarrow> done_session_id d = None
           | Some (KexKeys nk) \<Rightarrow> host_signed V (nk_session_id nk)
           | _ \<Rightarrow> True))"

lemma kex_ok_same:
  assumes "config c' = config c" "kex_of c' = kex_of c"
    "map_option session_id (encrypted_of c') = map_option session_id (encrypted_of c)"
  shows "kex_ok V c' \<longleftrightarrow> kex_ok V c"
  using assms by (cases "encrypted_of c"; cases "encrypted_of c'") (auto simp: kex_ok_def)

lemma kex_ok_fields [simp]:
  "kex_ok V (c\<lparr>alive_timeouts := n\<rparr>) = kex_ok V c" "kex_ok V (c\<lparr>write_buffer := wb\<rparr>) = kex_ok V c"
  "kex_ok V (c\<lparr>disconnected := b\<rparr>) = kex_ok V c" "kex_ok V (c\<lparr>cipher := k\<rparr>) = kex_ok V c"
  by (rule kex_ok_same; simp)+

lemma kex_ok_anchor: "anchor t = anchor s \<Longrightarrow> kex_ok V (common t) \<longleftrightarrow> kex_ok V (common s)"
  by (rule kex_ok_same)
    (cases "encrypted_of (common s)"; cases "encrypted_of (common t)"; simp add: anchor_def enc_of_def kex_part_def)+

lemma server_key_check_signed:
  assumes "server_key_check E L HL chk False buf d = Ok nk" "done_session_id d = None"
  shows "\<exists>p sg. chk p = Ok True \<and> verify_server_auth HL p (nk_session_id nk) sg"
  using assms
  by (auto simp: server_key_check_def KexDhDone_compute_keys_def outcome_simps Let_def split: if_split_asm; blast)

lemma client_inner_mem: "fst (client_inner c ss f) = Some (b, n) \<Longrightarrow> n = c"
  by (induction ss arbitrary: f) (auto split: if_splits)

lemma client_outer_mem: "client_outer cs ss f = Some (b, n) \<Longrightarrow> n \<in> set cs"
proof (induction cs arbitrary: f)
  case (Cons c cs)
  then show ?case using client_inner_mem [of c ss f b n] by (auto split: prod.splits option.splits)
qed simp

lemma client_dh_skip: "client_dh E L R kx e b = Ok (eph, out, kc) \<Longrightarrow> skip_exchange kc = skip_exchange kx"
  by (cases kx) (auto simp: Let_def split: if_split_asm)

lemma client_parse_facts:
  assumes "KexInit_client_parse E L R prefs ck buf ki = Ok (ps, d)"
  shows "done_session_id d = ki_session_id ki" "''none'' \<notin> set (pref_kex prefs) \<Longrightarrow> \<not> skip_exchange (done_kex d)"
proof -
  show "done_session_id d = ki_session_id ki"
    using assms by (auto simp: KexInit_client_parse_def KexInit_client_write_def outcome_simps Let_def split: if_split_asm)
  obtain algo kx eph out where n: "read_kex E False buf prefs None = Ok algo" "KEXES (names_kex algo) = Some kx"
    and c: "\<exists>e b. client_dh E L R kx e b = Ok (eph, out, done_kex d)"
    using assms
    by (auto simp: KexInit_client_parse_def KexInit_client_write_def outcome_simps Let_def split: if_split_asm; blast)
  obtain b s where "select False (pref_kex prefs) s = Some (b, names_kex algo)"
    using n(1) by (auto simp: read_kex_def Let_def outcome_simps)
  then have "names_kex algo \<in> set (pref_kex prefs)"
    using client_outer_mem by (auto simp: select_def Client_select_def)
  then show "\<not> skip_exchange (done_kex d)" if "''none'' \<notin> set (pref_kex prefs)"
    using that kex_none [OF n(2)] c client_dh_skip by metis
qed

lemma seal_packets_keeps:
  assumes "seal_packets V ps com = Ok com'"
  shows "\<exists>k wb. com' = com\<lparr>cipher := (k, snd (cipher com)), write_buffer := wb\<rparr>"
  using assms by (auto simp: seal_packets_def outcome_simps)

lemma Encrypted_flush_keeps:
  assumes "Encrypted_flush E zlib sk t lim K enc k wb = Ok (due, enc', k', wb')"
  shows "\<exists>w c z. enc' = enc\<lparr>write := w, write_cursor := c, compress := z\<rparr>"
proof -
  obtain cur z where "enc' = (if cur \<ge> length (write enc) then enc\<lparr>write := [], write_cursor := 0, compress := z\<rparr>
      else enc\<lparr>write_cursor := cur, compress := z\<rparr>)"
    using assms by (cases "sk (kex_alg enc)") (auto simp: Encrypted_flush_def outcome_simps Let_def)
  then have "enc' = (if cur \<ge> length (write enc) then enc\<lparr>write := [], write_cursor := 0, compress := z\<rparr>
      else enc\<lparr>write := write enc, write_cursor := cur, compress := z\<rparr>)" by simp
  then show ?thesis by metis
qed

lemma Session_flush_cases:
  assumes "Session_flush V mo s = Ok t"
  obtains "encrypted_of (common s) = None" "t = s"
  | enc w c z k wb where "encrypted_of (common s) = Some enc" "t = set_common s ((common s)\<lparr>encrypted_of :=
      Some (enc\<lparr>write := w, write_cursor := c, compress := z\<rparr>), cipher := (k, snd (cipher (common s))), write_buffer := wb\<rparr>)"
  | enc w c z k wb ki where "encrypted_of (common s) = Some enc" "rekey enc = None" "t = set_common s ((common s)\<lparr>encrypted_of :=
      Some (enc\<lparr>write := w, write_cursor := c, compress := z, exchange_of := None, rekey := Some (Init ki)\<rparr>),
      cipher := (k, snd (cipher (common s))), write_buffer := wb\<rparr>)"
proof (cases "encrypted_of (common s)")
  case (Some enc)
  let ?com = "common s"
  obtain due enc1 k wb where f: "Encrypted_flush (env_codec V) (env_zlib V) skip_exchange (now mo) (cfg_limits (config ?com))
      (env_seal V) enc (fst (cipher ?com)) (write_buffer ?com) = Ok (due, enc1, k, wb)"
    using assms Some by (auto simp: Session_flush_def outcome_simps Let_def)
  obtain w c z where enc1: "enc1 = enc\<lparr>write := w, write_cursor := c, compress := z\<rparr>"
    using Encrypted_flush_keeps [OF f] by blast
  let ?com1 = "?com\<lparr>encrypted_of := Some enc1, cipher := (k, snd (cipher ?com)), write_buffer := wb\<rparr>"
  show ?thesis
  proof (cases "due \<and> rekey enc1 = None \<and> exchange_of enc1 \<noteq> None")
    case True
    then obtain ex where ex: "exchange_of enc1 = Some ex" by auto
    define r where "r = KexInit_client_write (env_codec V) (cfg_preferred (config ?com)) (cookie mo)
        (KexInit_initiate_rekey ex (session_id enc1))"
    obtain com2 where com2: "seal_packets V (fst r) ?com1 = Ok com2"
      "t = set_common s (com2\<lparr>encrypted_of := Some (enc1\<lparr>exchange_of := None, rekey := Some (Init (snd r))\<rparr>)\<rparr>)"
      using assms Some f True ex by (auto simp: Session_flush_def outcome_simps Let_def r_def split_beta)
    obtain k2 wb2 where "com2 = ?com1\<lparr>cipher := (k2, snd (cipher ?com1)), write_buffer := wb2\<rparr>"
      using seal_packets_keeps [OF com2(1)] by blast
    then have t: "t = set_common s (?com\<lparr>encrypted_of := Some (enc\<lparr>write := w, write_cursor := c, compress := z,
        exchange_of := None, rekey := Some (Init (snd r))\<rparr>), cipher := (k2, snd (cipher ?com)), write_buffer := wb2\<rparr>)"
      using com2(2) enc1 by simp
    show ?thesis by (rule that(3) [OF Some _ t]) (use True enc1 in simp)
  next
    case False
    then have "t = set_common s ?com1"
      using assms Some f by (auto simp: Session_flush_def Let_def split: option.split_asm if_split_asm)
    then show ?thesis unfolding enc1 by (rule that(2) [OF Some])
  qed
next
  case None
  show ?thesis by (rule that(1)) (use assms None in \<open>simp_all add: Session_flush_def\<close>)
qed

lemma Session_flush_keeps:
  assumes "Session_flush V mo s = Ok t"
  shows "config (common t) = config (common s)" "kex_of (common t) = kex_of (common s)"
    "map_option session_id (encrypted_of (common t)) = map_option session_id (encrypted_of (common s))"
    "common_strict_kex (common t) = common_strict_kex (common s)" "refs t = refs s"
  using assms by (cases rule: Session_flush_cases; simp)+

lemma kex_ok_flush: "Session_flush V mo s = Ok t \<Longrightarrow> kex_ok V (common t) \<longleftrightarrow> kex_ok V (common s)"
  by (intro kex_ok_same Session_flush_keeps)

lemma reply_init_Ok:
  assumes "reply_init V mo l buf ki = Ok l'" "encrypted_of (common (lp_session l)) = None"
  obtains ps d com1 s0 where "KexInit_client_parse (env_codec V) (env_kex V) (entropy.truncate mo)
      (cfg_preferred (config (common (lp_session l)))) (cookie mo) buf ki = Ok (ps, d)"
    "seal_packets V ps ((common (lp_session l))\<lparr>kex_of := None\<rparr>) = Ok com1" "Session_flush V mo s0 = Ok (lp_session l')"
    "\<not> skip_exchange (done_kex d) \<and> s0 = set_common (lp_session l) (com1\<lparr>kex_of := Some (DhDone d)\<rparr>)
     \<or> skip_exchange (done_kex d) \<and> kex_of (common s0) = kex_of com1"
  using assms
  by (auto simp: reply_init_def Let_def outcome_simps CommonSession_encrypted_def split: if_split_asm)

lemma kex_ok_reply_init:
  assumes "kex_ok V (common (lp_session l))" "kex_of (common (lp_session l)) = Some (Init ki)" "reply_init V mo l buf ki = Ok l'"
  shows "kex_ok V (common (lp_session l'))"
proof -
  let ?s = "lp_session l"
  have pre: "encrypted_of (common ?s) = None" "ki_session_id ki = None" "''none'' \<notin> set (pref_kex (cfg_preferred (config (common ?s))))"
    using assms(1,2) by (auto simp: kex_ok_def split: option.split_asm)
  obtain ps d com1 s0 where d: "KexInit_client_parse (env_codec V) (env_kex V) (entropy.truncate mo)
      (cfg_preferred (config (common ?s))) (cookie mo) buf ki = Ok (ps, d)"
    "seal_packets V ps ((common ?s)\<lparr>kex_of := None\<rparr>) = Ok com1" "Session_flush V mo s0 = Ok (lp_session l')"
    "\<not> skip_exchange (done_kex d) \<longrightarrow> s0 = set_common ?s (com1\<lparr>kex_of := Some (DhDone d)\<rparr>)"
    using reply_init_Ok [OF assms(3) pre(1)] by metis
  have "\<not> skip_exchange (done_kex d)" "done_session_id d = None" using client_parse_facts [OF d(1)] pre by simp_all
  then have "kex_ok V (common s0)" using d(4) pre seal_packets_keeps [OF d(2)] by (auto simp: kex_ok_def)
  then show ?thesis using kex_ok_flush [OF d(3)] by simp
qed

lemma kex_ok_reply_dh:
  assumes "kex_ok V (common (lp_session l))" "kex_of (common (lp_session l)) = Some (DhDone d)" "reply_dh V mo l buf d = Ok l'"
  shows "kex_ok V (common (lp_session l'))"
proof -
  let ?s = "lp_session l"
  let ?com = "common ?s"
  have pre: "encrypted_of ?com = None" "done_session_id d = None" "''none'' \<notin> set (pref_kex (cfg_preferred (config ?com)))"
    using assms(1,2) by (auto simp: kex_ok_def split: option.split_asm)
  show ?thesis
  proof (cases "ignore_guessed (done_names d)")
    case True
    then show ?thesis using assms(3) pre by (auto simp: reply_dh_def kex_ok_def Let_def)
  next
    case False
    then obtain kex com1 s1 where k: "server_key_check (env_codec V) (env_kex V) (env_host V) (env_check V) False buf d = Ok kex"
      "seal_packets V [[NEWKEYS]] (?com\<lparr>common_strict_kex := (common_strict_kex ?com \<or> strict_kex (nk_names kex)),
         kex_of := Some (KexKeys kex)\<rparr>) = Ok com1"
      "Session_flush V mo (set_common ?s com1) = Ok s1"
      "l' = l\<lparr>lp_session := set_common s1 (CommonSession_maybe_reset_seqn (common s1))\<rparr>"
      using assms(3) by (auto simp: reply_dh_def Let_def outcome_simps split: if_split_asm)
    have "host_signed V (nk_session_id kex)"
      using server_key_check_signed [OF k(1) pre(2)] by (simp add: host_signed_def)
    then have "kex_ok V com1" using seal_packets_keeps [OF k(2)] pre by (auto simp: kex_ok_def)
    then have "kex_ok V (common s1)" using kex_ok_flush [OF k(3)] by simp
    then show ?thesis
      unfolding k(4) by (subst kex_ok_same [where c = "common s1"]) (simp_all add: CommonSession_maybe_reset_seqn_def)
  qed
qed

lemma kex_ok_reply_newkeys:
  assumes "kex_ok V (common (lp_session l))" "kex_of (common (lp_session l)) = Some (KexKeys nk)" "reply_newkeys mo l buf nk = Ok l'"
  shows "kex_ok V (common (lp_session l'))"
  using assms
  by (auto simp: reply_newkeys_def kex_ok_def CommonSession_encrypted_def Let_def split: if_split_asm option.split_asm)

text \<open>The same during a key re-exchange.\<close>

lemma rekey_answer_keeps:
  assumes "rekey_answer V mo com enc buf ki = Ok com'"
  shows "config com' = config com \<and> kex_of com' = kex_of com \<and> map_option session_id (encrypted_of com') = Some (session_id enc)"
  using assms
  by (cases "skip_exchange (kex_alg enc)") (auto simp: rekey_answer_def outcome_simps split: if_split_asm dest!: seal_packets_keeps)

lemma kex_ok_rekey_init:
  assumes "kex_ok V (common s)" "read_rekey_init V mo s buf = Ok t"
  shows "kex_ok V (common t)"
proof -
  obtain enc where enc: "encrypted_of (common s) = Some enc"
    using assms(2) by (cases "encrypted_of (common s)") (simp_all add: read_rekey_init_def)
  obtain kexinit enc1 com2 where r: "rekey_kexinit V (cfg_preferred (config (common s))) buf enc = Ok (kexinit, enc1)"
    "(case kexinit of None \<Rightarrow> Ok ((common s)\<lparr>encrypted_of := Some enc1\<rparr>) | Some ki \<Rightarrow> rekey_answer V mo (common s) enc1 buf ki) = Ok com2"
    "Session_flush V mo (set_common s com2) = Ok t"
    using assms(2) enc by (auto simp: read_rekey_init_def outcome_simps Let_def)
  have "session_id enc1 = session_id enc"
    using r(1) by (auto simp: rekey_kexinit_def outcome_simps split: option.split_asm kex.split_asm)
  then have "kex_ok V com2 \<longleftrightarrow> kex_ok V (common s)"
    using r(2) enc by (intro kex_ok_same) (auto split: option.split_asm dest: rekey_answer_keeps)
  with assms(1) kex_ok_flush [OF r(3)] show ?thesis by simp
qed

lemma kex_ok_rekey_reply:
  assumes "kex_ok V (common s)" "encrypted_of (common s) = Some enc" "read_rekey_reply V mo s enc d buf = Ok t"
  shows "kex_ok V (common t)"
proof (cases "ignore_guessed (done_names d)")
  case True
  then have "t = set_enc (enc\<lparr>rekey := Some (DhDone (d\<lparr>done_names := (done_names d)\<lparr>ignore_guessed := False\<rparr>\<rparr>))\<rparr>) s"
    using assms(3) by (simp add: read_rekey_reply_def)
  then show ?thesis using assms(1,2) by (subst kex_ok_same [where c = "common s"]) (simp_all add: set_enc_def)
next
  case False
  then obtain kex com1 s1 where k: "seal_packets V [[NEWKEYS]] ((common s)\<lparr>encrypted_of := Some (enc\<lparr>rekey := Some (KexKeys kex)\<rparr>)\<rparr>) = Ok com1"
    "Session_flush V mo (set_common s com1) = Ok s1" "t = set_common s1 (CommonSession_maybe_reset_seqn (common s1))"
    using assms(3) by (auto simp: read_rekey_reply_def Let_def outcome_simps split: if_split_asm)
  have "kex_ok V com1 \<longleftrightarrow> kex_ok V (common s)"
    using seal_packets_keeps [OF k(1)] assms(2) by (intro kex_ok_same) auto
  moreover have "kex_ok V (common t) \<longleftrightarrow> kex_ok V (common s1)"
    unfolding k(3) by (rule kex_ok_same) (simp_all add: CommonSession_maybe_reset_seqn_def)
  ultimately show ?thesis using kex_ok_flush [OF k(2)] assms(1) by simp
qed

lemma kex_ok_rekey_newkeys:
  assumes H: "passive_handler H" and "kex_ok V (common (lp_session l))" "encrypted_of (common (lp_session l)) = Some enc"
    "read_rekey_newkeys V mo H l enc nk buf = Ok l'"
  shows "kex_ok V (common (lp_session l'))"
proof -
  let ?s = "lp_session l"
  obtain enc1 q s2 s4 where r: "flush_all_pending (env_codec V) (visit mo) (enc\<lparr>rekey := None, last_rekey := now mo\<rparr>) = Ok enc1"
    "process_packets V H (pending_reads ?s) (lp_queues l) (?s\<lparr>common := (common ?s)\<lparr>write_buffer := (write_buffer (common ?s))\<lparr>buf_bytes := 0\<rparr>,
       encrypted_of := Some enc1\<rparr>, pending_reads := []\<rparr>) = Ok (q, s2)"
    "Session_flush V mo (s2\<lparr>pending_reads := [], pending_len := 0, common := CommonSession_newkeys (common s2) nk\<rparr>) = Ok s4"
    "lp_session l' = s4"
    using assms(4) by (auto simp: read_rekey_newkeys_def Let_def outcome_simps split: if_split_asm)
  let ?c1 = "(common ?s)\<lparr>write_buffer := (write_buffer (common ?s))\<lparr>buf_bytes := 0\<rparr>, encrypted_of := Some enc1\<rparr>"
  have "session_id enc1 = session_id enc" using flush_all_kex_part [OF r(1)] by (simp add: kex_part_def)
  then have "kex_ok V ?c1 \<longleftrightarrow> kex_ok V (common ?s)" using assms(3) by (intro kex_ok_same) simp_all
  moreover have "kex_ok V (common s2) \<longleftrightarrow> kex_ok V ?c1"
    using kex_ok_anchor [OF anchor_process_packets [OF H r(2)], of V] by simp
  moreover have "kex_ok V (CommonSession_newkeys (common s2) nk) \<longleftrightarrow> kex_ok V (common s2)"
    by (rule kex_ok_same) (simp_all add: CommonSession_newkeys_def split: option.split)
  ultimately show ?thesis using kex_ok_flush [OF r(3)] r(4) assms(2) by simp
qed

lemma kex_ok_read_encrypted:
  assumes H: "passive_handler H" and "kex_ok V (common (lp_session l))" "client_read_encrypted V mo H l buf = Ok l'"
  shows "kex_ok V (common (lp_session l'))"
proof -
  have process: "kex_ok V (common s')" if "process_packet (env_codec V) (env_fresh V) H (lp_queues l) (lp_session l) buf = Ok (q, s')" for q s'
    using kex_ok_anchor [OF anchor_process_packet [OF H that], of V] assms(2) by simp
  note init = kex_ok_rekey_init [OF assms(2)]
  note reply = kex_ok_rekey_reply [OF assms(2)]
  note newkeys = kex_ok_rekey_newkeys [OF H assms(2)]
  show ?thesis
  proof (cases "first_byte buf = Some KEXINIT")
    case True
    then show ?thesis using assms(3) init by (auto simp: client_read_encrypted_def outcome_simps Let_def)
  next
    case False
    then show ?thesis
      using assms(2,3) process reply newkeys
      by (auto simp: client_read_encrypted_def outcome_simps Let_def enc_of_def
          split: option.split_asm kex.split_asm if_split_asm)
  qed
qed

lemma kex_ok_reply:
  assumes "passive_handler H" "kex_ok V (common (lp_session l))" "reply V mo H l buf = Ok l'"
  shows "kex_ok V (common (lp_session l'))"
  using assms(3) kex_ok_reply_init [OF assms(2)] kex_ok_reply_dh [OF assms(2)] kex_ok_reply_newkeys [OF assms(2)]
    kex_ok_read_encrypted [OF assms(1,2)] assms(2)
  by (auto simp: reply_def Let_def split: if_split_asm option.split_asm kex.split_asm)

fun turn_loop :: "'z turn_end \<Rightarrow> 'z client_loop" where
  "turn_loop (Continue l) = l"
| "turn_loop (Break l) = l"

abbreviation loop_ok :: "('z, 'p) client_env \<Rightarrow> 'z client_loop \<Rightarrow> bool" where
  "loop_ok V l \<equiv> kex_ok V (common (lp_session l))"

lemma anchor_loop [simp]:
  "anchor (lp_session (set_received b l)) = anchor (lp_session l)" "anchor (lp_session (set_loop_cipher c l)) = anchor (lp_session l)"
  "anchor (snd (process_disconnect E s buf)) = anchor s" "anchor (finish_authentication fresh s) = anchor s"
  "anchor (send_keepalive E b s) = anchor s"
  by (auto simp: set_received_def set_loop_cipher_def process_disconnect_def finish_authentication_def send_keepalive_def
      anchor_def enc_of_def with_enc_def global_request_def await_reply_def Let_def option.map_comp o_def intro!: option.map_cong0)

lemma kex_ok_read_turn:
  assumes H: "passive_handler H" and ok: "loop_ok V l" and r: "read_turn V mo H l = Ok e"
  shows "loop_ok V (turn_loop e)"
proof -
  obtain n stream c input where rd: "start_reading (env_codec V) (cipher_opening (env_codec V) (env_crypto V))
      (snd (cipher (common (lp_session l)))) (lp_stream l) (lp_input l) = Ok (n, stream, c, input)"
    using r by (auto simp: read_turn_def outcome_simps)
  define l1 where "l1 = set_loop_cipher c (l\<lparr>lp_stream := stream, lp_input := input\<rparr>)"
  have a1: "anchor (lp_session l1) = anchor (lp_session l)" unfolding l1_def by simp
  have k: "kex_ok V (common s) = loop_ok V l" if "anchor s = anchor (lp_session l)" for s :: "'a ssh_client"
    by (rule kex_ok_anchor [OF that])
  have payload: "anchor s1 = anchor (lp_session l)" if "open_payload V (lp_session l1) d = Ok (buf, s1)" for d buf s1
    using that a1 by (auto simp: open_payload_def outcome_simps anchor_enc(2) split: option.split_asm)
  note r' = r [unfolded read_turn_def rd obind.simps prod.case Let_def, folded l1_def]
  show ?thesis
  proof (cases "length (buffer input) < 5")
    case True
    then have "e = Break l1" using r' by simp
    then show ?thesis using k [OF a1] ok by simp
  next
    case False
    show ?thesis
    proof (cases "open_payload V (lp_session l1) (drop 5 (buffer input))")
      case (Ok p)
      obtain buf s1 where p: "p = (buf, s1)" by (cases p)
      let ?l2 = "set_received True (l1\<lparr>lp_session := s1\<rparr>)"
      have a: "anchor s1 = anchor (lp_session l)" using payload Ok p by blast
      have "anchor (lp_session ?l2) = anchor (lp_session l)" using a by simp
      then have l2: "loop_ok V ?l2" using k ok by blast
      have d: "kex_ok V (common (snd (process_disconnect (env_codec V) s1 buf)))" using k a ok by simp
      show ?thesis
        using r' False Ok p k [OF a] ok kex_ok_reply [OF H l2] d
        by (auto simp: outcome_simps split_beta split: if_split_asm)
    qed (use r' False k [OF a1] ok in auto)
  qed
qed

lemma kex_ok_select:
  assumes H: "passive_handler H" and ok: "loop_ok V l" and r: "select_branch V mo H ev l = Ok e"
  shows "loop_ok V (turn_loop e)"
proof (cases ev)
  case ReadReady
  then show ?thesis using r kex_ok_read_turn [OF H ok] by (simp add: select_branch_def)
next
  case KeepaliveTimer
  let ?com = "common (lp_session l)"
  from KeepaliveTimer obtain n where n: "lp_session (turn_loop e) = send_keepalive (env_codec V) True
      (set_common (lp_session l) (?com\<lparr>alive_timeouts := n\<rparr>))"
    using r by (auto simp: select_branch_def keepalive_turn_def Let_def split: if_split_asm)
  show ?thesis
    using n ok kex_ok_anchor [of "send_keepalive (env_codec V) True (set_common (lp_session l) (?com\<lparr>alive_timeouts := n\<rparr>))"
        "set_common (lp_session l) (?com\<lparr>alive_timeouts := n\<rparr>)" V] by simp
next
  case (Commands ms)
  with r obtain s' where s': "handle_msgs V ms (lp_session l) = Ok s'" "lp_session (turn_loop e) = s'"
    by (auto simp: select_branch_def outcome_simps)
  then show ?thesis using kex_ok_anchor [OF anchor_handle_msgs [OF s'(1)], of V] ok by simp
qed (use r ok in \<open>auto simp: select_branch_def Let_def\<close>)

lemma kex_ok_end_turn:
  assumes ok: "loop_ok V l" and r: "end_turn V mo l = Ok l'"
  shows "loop_ok V l'"
proof -
  obtain s where s: "Session_flush V mo (lp_session l) = Ok s" using r by (auto simp: end_turn_def write_socket_def outcome_simps)
  let ?s = "set_common s ((common s)\<lparr>write_buffer := (write_buffer (common s))\<lparr>buffer := []\<rparr>\<rparr>)"
  have l': "\<exists>n. common (lp_session l') = (common (finish_authentication (env_fresh V) ?s))\<lparr>alive_timeouts := n\<rparr>"
    using r s by (auto simp: end_turn_def write_socket_def Let_def)
  have "kex_ok V (common (finish_authentication (env_fresh V) ?s)) = kex_ok V (common ?s)" by (rule kex_ok_anchor) simp
  with l' kex_ok_flush [OF s] ok show ?thesis by auto
qed

lemma kex_ok_turn:
  assumes H: "passive_handler H" and ok: "loop_ok V l" and r: "turn V mo H ev l = Ok e"
  shows "loop_ok V (turn_loop e)"
proof -
  have "loop_ok V (set_received False l)"
    using kex_ok_anchor [of "lp_session (set_received False l)" "lp_session l" V] ok by simp
  note sel = kex_ok_select [OF H this]
  obtain e1 where e1: "select_branch V mo H ev (set_received False l) = Ok e1" using r by (auto simp: turn_def outcome_simps)
  show ?thesis
    using r e1 sel [OF e1] kex_ok_end_turn by (cases e1) (auto simp: turn_def outcome_simps)
qed

lemma kex_ok_run_turns:
  assumes "passive_handler H"
  shows "loop_ok V l \<Longrightarrow> run_turns V H es l = Ok e \<Longrightarrow> loop_ok V (turn_loop e)"
proof (induction es arbitrary: l)
  case (Cons x es)
  obtain mo ev where x: "x = (mo, ev)" by (cases x)
  show ?case
  proof (cases "disconnected (common (lp_session l))")
    case False
    with Cons.prems(2) x obtain e1 where "turn V mo H ev l = Ok e1" by (auto simp: outcome_simps)
    with Cons False x kex_ok_turn [OF assms Cons.prems(1) this] show ?thesis by (cases e1) auto
  qed (use Cons.prems x in auto)
qed auto

lemma kex_ok_connect:
  assumes "''none'' \<notin> set (pref_kex (cfg_preferred cfg))" "connect_stream V mo cfg q pieces = Ok l"
  shows "loop_ok V l"
proof -
  obtain sshid s wb where s: "Session_read_ssh_id V mo sshid (Session_new (cfg_window_size cfg) (CommonSession_start cfg sshid wb)) = Ok s"
    "lp_session l = s"
    using assms(2) by (auto simp: connect_stream_def outcome_simps Let_def)
  obtain ps ki com2 com1 where c: "seal_packets V ps com1 = Ok com2" "common s = com2\<lparr>kex_of := Some (Init ki)\<rparr>"
    "ki_session_id ki = None" "config com1 = cfg" "encrypted_of com1 = None"
    using s(1) by (auto simp: Session_read_ssh_id_def KexInit_client_write_def Session_new_def CommonSession_start_def
        Let_def outcome_simps)
  show ?thesis using seal_packets_keeps [OF c(1)] c assms(1) s(2) by (auto simp: kex_ok_def)
qed

lemma kex_ok_run_inner:
  assumes "passive_handler H" "loop_ok V l" "run_inner V mo H es l = Ok e"
  shows "loop_ok V (turn_loop e)"
proof -
  obtain l1 where l1: "write_socket V mo l = Ok l1" "run_turns V H es l1 = Ok e"
    using assms(3) by (auto simp: run_inner_def outcome_simps)
  have "loop_ok V l1" using l1(1) assms(2) by (auto simp: write_socket_def outcome_simps Let_def dest: kex_ok_flush)
  from kex_ok_run_turns [OF assms(1) this l1(2)] show ?thesis .
qed

end
