(* ===== verification/Client_Handshake.thy ===== *)
theory Client_Handshake
  imports Client_Kex
begin

text \<open>
  The handshake of the client from the first byte to the encrypted session, over the event loop of
  \<open>Client_Kex\<close>: the turns of the loop on packets that are not yet encrypted, and the theorems that span the
  identification, the key exchange and the packet cipher. A client that talks over an encrypted session has
  checked a signature of an accepted host key over its session identifier; a client and a server with an
  algorithm in common reach the encrypted session with mirrored keys; strict key exchange resets the
  sequence numbers.
\<close>

section \<open>Clear packets\<close>

text \<open>Before the keys are in use, what one side writes the other reads, byte for byte.\<close>

text \<open>The bytes of a packet before the keys are in use, which depend on the packet alone.\<close>

definition clear_packet :: "crypto \<Rightarrow> bytes \<Rightarrow> bytes" where
  "clear_packet X p = (case SealingKey_write rfc4251 (cipher_sealing rfc4251 X) ClearKey p SSHBuffer_new of Ok (_, b) \<Rightarrow> buffer b | _ \<Rightarrow> [])"

lemma clear_packet_write:
  assumes "length p \<le> 261000"
  shows "SealingKey_write rfc4251 (cipher_sealing rfc4251 X) ClearKey p b =
    Ok (ClearKey, b\<lparr>buffer := buffer b @ clear_packet X p, buf_bytes := buf_bytes b + length p, seqn := seqn b + 1\<rparr>)"
  using assms clear_padding_bounds [of p] by (simp add: clear_packet_def SealingKey_write_def cipher_sealing_def SSHBuffer_new_def Let_def)

lemma clear_packets_write:
  assumes "\<forall>p \<in> set ps. length p \<le> 261000"
  shows "\<exists>b'. write_packets rfc4251 (cipher_sealing rfc4251 X) ClearKey ps b = Ok (ClearKey, b') \<and> buffer b' = buffer b @ concat (map (clear_packet X) ps)"
  using assms
proof (induction ps arbitrary: b)
  case (Cons p ps)
  from Cons.IH [of "b\<lparr>buffer := buffer b @ clear_packet X p, buf_bytes := buf_bytes b + length p, seqn := seqn b + 1\<rparr>"] Cons.prems
  show ?case by (simp add: clear_packet_write)
qed simp

lemma seal_clear:
  assumes "env_codec V = rfc4251" "fst (cipher com) = ClearKey" "length p \<le> 261000"
  shows "\<exists>wb. seal_packets V [p] com = Ok (com\<lparr>write_buffer := wb\<rparr>) \<and> buf_bytes wb = buf_bytes (write_buffer com) + length p
    \<and> buffer wb = buffer (write_buffer com) @ clear_packet (env_crypto V) p"
proof -
  have "com\<lparr>cipher := (ClearKey, snd (cipher com))\<rparr> = com" using assms(2) by (metis prod.collapse common_session.surjective common_session.update_convs(9))
  then show ?thesis
    using assms by (intro exI [of _ "(write_buffer com)\<lparr>buffer := buffer (write_buffer com) @ clear_packet (env_crypto V) p,
      buf_bytes := buf_bytes (write_buffer com) + length p, seqn := seqn (write_buffer com) + 1\<rparr>"]) (simp add: seal_packets_def clear_packet_write)
qed

lemma read_clear:
  assumes "crypto_ok X" "SealingKey_write rfc4251 (cipher_sealing rfc4251 X) ClearKey p sb = Ok (k, sb')"
    "buffer sb' = buffer sb @ sealed" "seqn rb = seqn sb" "buf_len rb = 0" "length p \<le> 261000"
  shows "\<exists>rb'. start_reading rfc4251 (cipher_opening rfc4251 X) ClearKey (sealed @ rest) rb = Ok (5 + length p, rest, ClearKey, rb')
    \<and> drop 5 (buffer rb') = p \<and> seqn rb' = seqn rb + 1 \<and> buf_len rb' = 0"
proof -
  note pc = cipher_contract [OF assms(1)]
  have small: "1 + length p + padding_length (cipher_sealing rfc4251 X) ClearKey p \<le> 262144"
    using assms(6) clear_padding_bounds [of p] by (simp add: cipher_sealing_def)
  obtain sealed' c' rb' where r: "buffer sb' = buffer sb @ sealed'" "seqn sb' = seqn sb + 1"
    "cipher_read rfc4251 (cipher_opening rfc4251 X) ClearKey (sealed' @ rest) (rb\<lparr>buffer := []\<rparr>) = Ok (5 + length p, rest, c', rb')"
    "drop 5 (buffer rb') = p" "seqn rb' = seqn sb'" "buf_len rb' = 0" "paired_keys k c'"
    using packet_cipher.write_read [OF pc _ small assms(2), of ClearKey "rb\<lparr>buffer := []\<rparr>" rest] assms(4,5) by auto
  have "k = ClearKey" using clear_packet_write [OF assms(6), of X sb] assms(2) by auto
  with r(7) have "c' = ClearKey" by (cases c') auto
  with r assms(3,4) show ?thesis by (auto simp: start_reading_def)
qed

section \<open>A turn before encryption\<close>

definition clear_loop :: "client_config \<Rightarrow> (kex_alg, cipher_key \<times> cipher_key) kex \<Rightarrow> bool \<Rightarrow> u32 \<Rightarrow> nat \<Rightarrow> 'z client_loop \<Rightarrow> bool" where
  "clear_loop cfg st strict n written l \<longleftrightarrow>
    (let com = common (lp_session l)
     in encrypted_of com = None \<and> cipher com = (ClearKey, ClearKey) \<and> kex_of com = Some st \<and> config com = cfg
        \<and> \<not> disconnected com \<and> common_strict_kex com = strict \<and> buf_bytes (write_buffer com) = written
        \<and> seqn (lp_input l) = n \<and> buf_len (lp_input l) = 0)"

text \<open>Everything that a client has given to the socket or is about to.\<close>

definition outgoing :: "'z client_loop \<Rightarrow> bytes" where
  "outgoing l = lp_sent l @ buffer (write_buffer (common (lp_session l)))"

lemma set_loop_cipher_id:
  assumes "snd (cipher (common (lp_session l))) = c"
  shows "set_loop_cipher c l = l"
proof -
  have "(common (lp_session l))\<lparr>cipher := (fst (cipher (common (lp_session l))), c)\<rparr> = common (lp_session l)"
    using assms by (simp flip: assms)
  then show ?thesis by (simp add: set_loop_cipher_def Let_def)
qed

lemma read_turn_clear:
  assumes V: "env_codec V = rfc4251" "crypto_ok (env_crypto V)" and l: "clear_loop cfg st strict n w l"
    and p: "length p \<le> 261000" "p \<noteq> []" "hd p \<noteq> DISCONNECT" "lp_stream l = clear_packet (env_crypto V) p @ rest"
  shows "\<exists>l1. clear_loop cfg st strict (n + 1) w l1 \<and> lp_stream l1 = rest \<and> lp_signal l1 = lp_signal l \<and> outgoing l1 = outgoing l \<and>
    turn V mo H ReadReady l = obind (reply V mo H l1 p) (\<lambda>l2. obind (end_turn V mo l2) (\<lambda>l3. Ok (Continue l3)))"
proof -
  let ?l0 = "set_received False l"
  have c: "encrypted_of (common (lp_session l)) = None" "cipher (common (lp_session l)) = (ClearKey, ClearKey)"
    "seqn (lp_input l) = n" "buf_len (lp_input l) = 0" using l by (simp_all add: clear_loop_def Let_def)
  let ?sb = "SSHBuffer_new\<lparr>seqn := n\<rparr>"
  obtain rb where rb: "start_reading rfc4251 (cipher_opening rfc4251 (env_crypto V)) ClearKey (clear_packet (env_crypto V) p @ rest) (lp_input l)
      = Ok (5 + length p, rest, ClearKey, rb)" "drop 5 (buffer rb) = p" "seqn rb = n + 1" "buf_len rb = 0"
    using read_clear [OF V(2) clear_packet_write [OF p(1), of "env_crypto V" ?sb], of "clear_packet (env_crypto V) p" "lp_input l" rest] c(3,4) p(1)
    by auto
  let ?l1 = "?l0\<lparr>lp_stream := rest, lp_input := rb\<rparr>"
  have l0: "cipher (common (lp_session ?l0)) = (ClearKey, ClearKey)" "lp_stream ?l0 = clear_packet (env_crypto V) p @ rest" "lp_input ?l0 = lp_input l"
    "enc_of (lp_session ?l1) = None"
    using c p(4) by (simp_all add: set_received_def enc_of_def)
  have "set_loop_cipher ClearKey ?l1 = ?l1" by (rule set_loop_cipher_id) (simp add: l0(1))
  moreover have "\<not> length (buffer rb) < 5" using rb(2) p(2) by (cases "length (buffer rb) < 5") auto
  ultimately have r: "read_turn V mo H ?l0 = obind (reply V mo H (set_received True ?l1) p) (\<lambda>l2. Ok (Continue l2))"
    using rb l0 p(2,3) V(1) by (simp add: read_turn_def open_payload_def)
  have "turn V mo H ReadReady l = obind (reply V mo H (set_received True ?l1) p) (\<lambda>l2. obind (end_turn V mo l2) (\<lambda>l3. Ok (Continue l3)))"
    by (cases "reply V mo H (set_received True ?l1) p") (simp_all add: turn_def select_branch_def r Let_def)
  moreover have "clear_loop cfg st strict (n + 1) w (set_received True ?l1)"
    using l rb by (simp add: clear_loop_def set_received_def Let_def)
  moreover have "lp_stream (set_received True ?l1) = rest" "lp_signal (set_received True ?l1) = lp_signal l"
    "outgoing (set_received True ?l1) = outgoing l"
    by (simp_all add: set_received_def outgoing_def)
  ultimately show ?thesis by blast
qed

lemma end_turn_clear:
  assumes "clear_loop cfg st strict n w l"
  shows "\<exists>l'. end_turn V mo l = Ok l' \<and> clear_loop cfg st strict n w l' \<and> lp_stream l' = lp_stream l \<and> lp_signal l' = lp_signal l
    \<and> lp_sent l' = outgoing l \<and> outgoing l' = outgoing l"
  using assms
  by (auto simp: end_turn_def write_socket_def Session_flush_def finish_authentication_def with_enc_def enc_of_def
      clear_loop_def outgoing_def Let_def)

section \<open>The three packets of the server\<close>

lemma clear_reply_init:
  assumes V: "env_codec V = rfc4251" and l: "clear_loop cfg (Init ki) False 1 w l"
    and p: "KexInit_client_parse rfc4251 (env_kex V) (entropy.truncate mo) (cfg_preferred cfg) (cookie mo) buf ki = Ok ([pkt], d)"
      "\<not> skip_exchange (done_kex d)" "length pkt \<le> 261000" "hd buf = KEXINIT" "buf \<noteq> []"
  shows "\<exists>l1. reply V mo H l buf = Ok l1 \<and> clear_loop cfg (DhDone d) False 1 (w + length pkt) l1
    \<and> lp_stream l1 = lp_stream l \<and> lp_signal l1 = lp_signal l \<and> outgoing l1 = outgoing l @ clear_packet (env_crypto V) pkt"
proof -
  let ?s = "lp_session l"
  let ?com = "(common ?s)\<lparr>kex_of := None\<rparr>"
  have c: "encrypted_of (common ?s) = None" "cipher (common ?s) = (ClearKey, ClearKey)" "kex_of (common ?s) = Some (Init ki)"
    "config (common ?s) = cfg" "\<not> common_strict_kex (common ?s)" "seqn (lp_input l) = 1"
    using l by (simp_all add: clear_loop_def Let_def)
  obtain wb where wb: "seal_packets V [pkt] ?com = Ok (?com\<lparr>write_buffer := wb\<rparr>)" "buf_bytes wb = buf_bytes (write_buffer ?com) + length pkt"
    "buffer wb = buffer (write_buffer ?com) @ clear_packet (env_crypto V) pkt"
    using seal_clear [OF V, of ?com pkt] c(2) p(3) by auto
  let ?l1 = "l\<lparr>lp_session := set_common ?s (?com\<lparr>write_buffer := wb, kex_of := Some (DhDone d)\<rparr>)\<rparr>"
  have "reply V mo H l buf = Ok ?l1"
    using c p V wb(1) by (simp add: reply_def reply_init_def ignored_messages_def Session_flush_def Let_def)
  moreover have "clear_loop cfg (DhDone d) False 1 (w + length pkt) ?l1" using l wb(2) by (simp add: clear_loop_def Let_def)
  moreover have "outgoing ?l1 = outgoing l @ clear_packet (env_crypto V) pkt" using wb(3) by (simp add: outgoing_def)
  ultimately show ?thesis by fastforce
qed

lemma clear_reply_dh:
  assumes V: "env_codec V = rfc4251" and l: "clear_loop cfg (DhDone d) False n w l"
    and p: "server_key_check rfc4251 (env_kex V) (env_host V) (env_check V) False buf d = Ok nk" "\<not> ignore_guessed (done_names d)"
      "hd buf = KEX_ECDH_REPLY" "buf \<noteq> []"
  shows "\<exists>l1. reply V mo H l buf = Ok l1 \<and> clear_loop cfg (KexKeys nk) (strict_kex (nk_names nk)) n (w + 1) l1
    \<and> lp_stream l1 = lp_stream l \<and> lp_signal l1 = lp_signal l \<and> outgoing l1 = outgoing l @ clear_packet (env_crypto V) [NEWKEYS]"
proof -
  let ?s = "lp_session l"
  let ?com = "(common ?s)\<lparr>common_strict_kex := strict_kex (nk_names nk), kex_of := Some (KexKeys nk)\<rparr>"
  have c: "encrypted_of (common ?s) = None" "cipher (common ?s) = (ClearKey, ClearKey)" "kex_of (common ?s) = Some (DhDone d)"
    "\<not> common_strict_kex (common ?s)"
    using l by (simp_all add: clear_loop_def Let_def)
  obtain wb where wb: "seal_packets V [[NEWKEYS]] ?com = Ok (?com\<lparr>write_buffer := wb\<rparr>)" "buf_bytes wb = buf_bytes (write_buffer ?com) + 1"
    "buffer wb = buffer (write_buffer ?com) @ clear_packet (env_crypto V) [NEWKEYS]"
    using seal_clear [OF V, of ?com "[NEWKEYS]"] c(2) by auto
  let ?l1 = "l\<lparr>lp_session := set_common ?s (CommonSession_maybe_reset_seqn (?com\<lparr>write_buffer := wb\<rparr>))\<rparr>"
  have first: "first_byte buf = Some 31" using p(3,4) by (cases buf) simp_all
  have "reply V mo H l buf = Ok ?l1"
    using c p V wb(1) first by (simp add: reply_def reply_dh_def ignored_messages_def Session_flush_def Let_def)
  moreover have "clear_loop cfg (KexKeys nk) (strict_kex (nk_names nk)) n (w + 1) ?l1"
    using l wb(2) by (simp add: clear_loop_def CommonSession_maybe_reset_seqn_def Let_def)
  moreover have "outgoing ?l1 = outgoing l @ clear_packet (env_crypto V) [NEWKEYS]"
    using wb(3) by (simp add: outgoing_def CommonSession_maybe_reset_seqn_def)
  ultimately show ?thesis by fastforce
qed

definition encrypted_loop :: "(kex_alg, cipher_key \<times> cipher_key) new_keys \<Rightarrow> 'z client_loop \<Rightarrow> bool" where
  "encrypted_loop nk l \<longleftrightarrow>
    (let com = common (lp_session l)
     in \<exists>enc. encrypted_of com = Some enc \<and> session_id enc = nk_session_id nk \<and> kex_alg enc = nk_kex nk \<and> rekey enc = None
        \<and> channels enc = Map.empty \<and> cipher com = nk_cipher nk \<and> common_strict_kex com = strict_kex (nk_names nk) \<and> \<not> disconnected com
        \<and> (strict_kex (nk_names nk) \<longrightarrow> seqn (lp_input l) = 0) \<and> buf_len (lp_input l) = 0 \<and> \<not> lp_signal l)"

lemma clear_reply_newkeys:
  assumes l: "clear_loop cfg (KexKeys nk) strict 3 w l" and lim: "w < rekey_write_limit (cfg_limits cfg)" "0 < rekey_time_limit (cfg_limits cfg)"
  shows "\<exists>l1 l2. reply V mo H l [NEWKEYS] = Ok l1 \<and> end_turn V mo l1 = Ok l2 \<and> encrypted_loop nk l2 \<and> lp_stream l2 = lp_stream l
    \<and> lp_sent l2 = outgoing l"
proof -
  let ?s = "lp_session l"
  have c: "encrypted_of (common ?s) = None" "kex_of (common ?s) = Some (KexKeys nk)" "config (common ?s) = cfg"
    "seqn (lp_input l) = 3" "buf_bytes (write_buffer (common ?s)) = w" "\<not> disconnected (common ?s)" "buf_len (lp_input l) = 0"
    using l by (simp_all add: clear_loop_def Let_def)
  let ?com1 = "CommonSession_encrypted ((common ?s)\<lparr>kex_of := None\<rparr>) (initial_encrypted_state ?s) nk (now mo)"
  let ?l1 = "l\<lparr>lp_session := set_common ?s ?com1, lp_signal := False,
      lp_input := (if common_strict_kex ?com1 then (lp_input l)\<lparr>seqn := 0\<rparr> else lp_input l)\<rparr>"
  have r: "reply V mo H l [NEWKEYS] = Ok ?l1"
    using c by (simp add: reply_def reply_newkeys_def STRICT_KEX_MSG_ORDER_def ignored_messages_def Let_def)
  have "\<exists>l2. end_turn V mo ?l1 = Ok l2 \<and> encrypted_loop nk l2 \<and> lp_stream l2 = lp_stream l \<and> lp_sent l2 = outgoing l"
    using c lim
    by (auto simp: end_turn_def write_socket_def Session_flush_def Encrypted_flush_def flush_packets.simps CommonSession_encrypted_def
        finish_authentication_def with_enc_def enc_of_def initial_encrypted_state_def encrypted_loop_def outgoing_def Let_def)
  with r show ?thesis by blast
qed

section \<open>The handshake\<close>

lemma connect_clear:
  assumes V: "env_codec V = rfc4251" and cfg: "cfg_client_id cfg = Standard cid" "cfg_preferred cfg = pc"
    and id: "concat pieces = bs ''SSH-2.0-'' @ v @ [13, 10] @ stream" "10 \<notin> set v" "length v \<le> 246" "[] \<notin> set pieces"
    and small: "length (write_kex rfc4251 pc [] (cookie mo) None) \<le> 261000"
  shows "\<exists>l0 l1. connect_stream V mo cfg q pieces = Ok l0 \<and> write_socket V mo' l0 = Ok l1
    \<and> clear_loop cfg (Init (snd (KexInit_client_write rfc4251 pc (cookie mo) (kex_start cid (bs ''SSH-2.0-'' @ v) None))))
        False 0 (length (write_kex rfc4251 pc [] (cookie mo) None)) l1
    \<and> lp_stream l1 = stream \<and> lp_signal l1
    \<and> lp_sent l1 = cid @ [13, 10] @ clear_packet (env_crypto V) (write_kex rfc4251 pc [] (cookie mo) None) \<and> outgoing l1 = lp_sent l1"
proof -
  obtain ident ps where ident: "read_ssh_id ReadSshIdBuffer_new pieces = Ok (ident, ps)"
    "ReadSshIdBuffer_id ident = bs ''SSH-2.0-'' @ v" "unread_bytes \<lparr>read_id = Some ident, network = ps\<rparr> = stream"
    using ssh_id_read [OF id] by blast
  let ?ci = "write_kex rfc4251 pc [] (cookie mo) None"
  let ?sid = "bs ''SSH-2.0-'' @ v"
  let ?wb = "send_ssh_id (Standard cid) SSHBuffer_new"
  let ?com = "(CommonSession_start cfg ?sid ?wb)\<lparr>write_buffer := ?wb\<lparr>buffer := []\<rparr>\<rparr> :: 'a ssh_common"
  obtain wb where wb: "seal_packets V [?ci] ?com = Ok (?com\<lparr>write_buffer := wb\<rparr>)" "buf_bytes wb = length ?ci" "buffer wb = clear_packet (env_crypto V) ?ci"
    using seal_clear [OF V, of ?com ?ci] small
    by (auto simp: CommonSession_start_def send_ssh_id_def SSHBuffer_new_def)
  have com: "(common (Session_new w (CommonSession_start cfg ?sid ?wb :: 'a ssh_common)))\<lparr>write_buffer :=
      (write_buffer (common (Session_new w (CommonSession_start cfg ?sid ?wb :: 'a ssh_common))))\<lparr>buffer := []\<rparr>\<rparr> = ?com" for w
    by (simp add: Session_new_def CommonSession_start_def)
  let ?s = "(Session_new (cfg_window_size cfg) (CommonSession_start cfg ?sid ?wb))\<lparr>common := ?com\<lparr>write_buffer := wb,
      kex_of := Some (Init (snd (KexInit_client_write rfc4251 pc (cookie mo) (kex_start cid ?sid None))))\<rparr>\<rparr>"
  have "config (common (Session_new w (CommonSession_start cfg ?sid ?wb :: 'a ssh_common))) = cfg" for w
    by (simp add: Session_new_def CommonSession_start_def)
  then have "Session_read_ssh_id V mo ?sid (Session_new (cfg_window_size cfg) (CommonSession_start cfg ?sid ?wb)) = Ok ?s"
    using V cfg wb(1) com by (simp add: Session_read_ssh_id_def KexInit_client_write_def kex_start_def Exchange_new_def Let_def)
  then have l0: "connect_stream V mo cfg q pieces = Ok \<lparr>lp_session = ?s, lp_queues = q, lp_signal = True, lp_input = SSHBuffer_new,
      lp_stream = stream, lp_sent = buffer ?wb, lp_result = Err Disconnect\<rparr>"
    using ident cfg(1) by (simp add: connect_stream_def Let_def)
  have "buffer ?wb = cid @ [13, 10]" by (simp add: send_ssh_id_def SSHBuffer_new_def)
  then show ?thesis
    unfolding l0 using wb(2,3)
    by (simp add: outgoing_def write_socket_def Session_flush_def clear_loop_def Session_new_def CommonSession_start_def SSHBuffer_new_def Let_def)
qed

text \<open>The server's three packets on the stream, one after another.\<close>

lemma clear_stream3:
  assumes "write_packets rfc4251 (cipher_sealing rfc4251 X) ClearKey [a, b, c] SSHBuffer_new = Ok (k, sb)"
    "length a \<le> 261000" "length b \<le> 261000" "length c \<le> 261000"
  shows "buffer sb = clear_packet X a @ clear_packet X b @ clear_packet X c"
  using clear_packets_write [of "[a, b, c]" X SSHBuffer_new] assms by (auto simp: SSHBuffer_new_def)

text \<open>The environment of a client that talks to a server through packages that keep their promises.\<close>

definition env_ok :: "('z, 'p) client_env \<Rightarrow> bool" where
  "env_ok V \<longleftrightarrow> env_codec V = rfc4251 \<and> kex_lib_ok (env_kex V) \<and> crypto_ok (env_crypto V)"

definition limits_ok :: "client_config \<Rightarrow> bool" where
  "limits_ok cfg \<longleftrightarrow> 2 ^ 20 \<le> rekey_write_limit (cfg_limits cfg) \<and> 0 < rekey_time_limit (cfg_limits cfg)"

lemma reply_packet_head:
  assumes "KexDh_parse E L R keys buf ds = Ok (pkt # r, KexKeys ns)"
  shows "hd pkt = KEX_ECDH_REPLY \<and> pkt \<noteq> []"
  using assms by (auto simp: KexDh_parse_def outcome_simps Let_def split: if_split_asm)

lemma server_eph_small:
  assumes "kex_lib_ok L" "fresh_alg kx" "\<not> skip_exchange kx" "server_dh E L R kx ex buf = Ok (ex', ks)"
  shows "length (server_ephemeral ex') \<le> 513"
proof (cases kx)
  case (DhGroupKex d g sh)
  then have "0 < prime_num g" "prime_num g < 256 ^ 512" using assms(2) by auto
  from mpint_mod_small [OF this] show ?thesis
    using assms(4) DhGroupKex
    by (auto simp: Let_def generate_public_key_def modpow_def generate_private_key_def outcome_simps split: if_splits)
next
  case (EcdhNistPKex c loc sh)
  have "length (ec_public L c a) \<le> 133" for a using assms(1) by (simp add: kex_lib_ok_def)
  then have "length (ec_public L c (rnd_scalar R c)) \<le> 513" by (rule order_trans) simp
  then show ?thesis using assms(4) EcdhNistPKex by (auto simp: outcome_simps split: if_splits)
next
  case (Curve25519Kex loc sh)
  then show ?thesis using assms(1,4) by (auto simp: kex_lib_ok_def outcome_simps split: if_splits)
qed (use assms(3) in simp)

text \<open>Host keys whose blobs and signatures are not larger than those of any algorithm in use.\<close>

definition keys_small :: "server_key list \<Rightarrow> bool" where
  "keys_small keys \<longleftrightarrow> (\<forall>k \<in> set keys. length (sk_blob k) \<le> 100000 \<and> (\<forall>h s. sk_sign k h = Ok s \<longrightarrow> length s \<le> 100000))"

lemma reply_small:
  assumes "kex_lib_ok L" "KEXES (names_kex (dh_names ds)) = Some kx" "\<not> skip_exchange kx" "keys_small keys"
    "KexDh_parse rfc4251 L R keys buf ds = Ok ([pkt, p], KexKeys ns)"
  shows "length pkt \<le> 261000"
proof -
  obtain ex1 ex2 ks h sg where k: "server_dh rfc4251 L R kx ex1 buf = Ok (ex2, ks)" "dh_key ds < length keys"
    "sk_sign (keys ! dh_key ds) h = Ok sg"
    "pkt = KEX_ECDH_REPLY # sk_blob (keys ! dh_key ds) @ extend_ssh_string rfc4251 (server_ephemeral ex2) @ sg"
    using assms(2,5) by (auto simp: KexDh_parse_def outcome_simps Let_def not_le split: if_split_asm)
  have "length (sk_blob (keys ! dh_key ds)) \<le> 100000" "length sg \<le> 100000"
    using assms(4) k(2,3) nth_mem [OF k(2)] unfolding keys_small_def by blast+
  with server_eph_small [OF assms(1) KEXES_fresh [OF assms(2)] assms(3) k(1)] k(4) show ?thesis
    by (simp add: rfc.length_ssh_string)
qed

lemma run_turns_append: "run_turns V H es l = Ok (Continue l1) \<Longrightarrow> run_turns V H (es @ es') l = run_turns V H es' l1"
proof (induction es arbitrary: l)
  case (Cons e es)
  obtain mo ev where e: "e = (mo, ev)" by (cases e)
  have live: "\<not> disconnected (common (lp_session l))" using Cons.prems e by (auto split: if_split_asm)
  then obtain t where t: "turn V mo H ev l = Ok t" using Cons.prems e by (cases "turn V mo H ev l") auto
  show ?case
  proof (cases t)
    case (Continue l2)
    then show ?thesis using Cons e live t by simp
  next
    case (Break l2)
    then show ?thesis using Cons.prems e live t by simp
  qed
qed simp

lemma handshake_turns:
  assumes env: "env_ok V" and lim: "limits_ok cfg" "w \<le> 261000" and l1: "clear_loop cfg (Init ki) False 0 w l1" "lp_stream l1 = buffer sb @ rest"
      "outgoing l1 = lp_sent l1"
    and server: "write_packets rfc4251 (env_seal V) ClearKey [si, reply_pkt, [NEWKEYS]] SSHBuffer_new = Ok (k, sb)"
    and si: "length si \<le> 261000" "si \<noteq> []" "hd si = KEXINIT"
      "KexInit_client_parse rfc4251 (env_kex V) (entropy.truncate mo1) (cfg_preferred cfg) (cookie mo1) si ki = Ok ([pkt], dc)"
      "\<not> skip_exchange (done_kex dc)" "length pkt \<le> 600" "\<not> ignore_guessed (done_names dc)"
    and reply: "length reply_pkt \<le> 261000" "reply_pkt \<noteq> []" "hd reply_pkt = KEX_ECDH_REPLY"
      "server_key_check rfc4251 (env_kex V) (env_host V) (env_check V) False reply_pkt dc = Ok nc"
  shows "\<exists>l2 l. run_turns V H [(mo1, ReadReady)] l1 = Ok (Continue l2)
    \<and> lp_stream l1 = clear_packet (env_crypto V) si @ lp_stream l2 \<and> lp_sent l2 = lp_sent l1 @ clear_packet (env_crypto V) pkt
    \<and> run_turns V H [(mo2, ReadReady), (mo3, ReadReady)] l2 = Ok (Continue l)
    \<and> encrypted_loop nc l \<and> lp_stream l = rest \<and> lp_sent l = lp_sent l2 @ clear_packet (env_crypto V) [NEWKEYS]"
proof -
  note V = env [unfolded env_ok_def]
  let ?X = "env_crypto V"
  have l1s: "lp_stream l1 = clear_packet ?X si @ clear_packet ?X reply_pkt @ clear_packet ?X [NEWKEYS] @ rest"
    using clear_stream3 [of ?X si reply_pkt "[NEWKEYS]" k sb] server si(1) reply(1) V l1(2) by simp
  note turn = read_turn_clear [OF conjunct1 [OF V] conjunct2 [OF conjunct2 [OF V]]]
  have hd1: "hd si \<noteq> DISCONNECT" using si(3) by simp
  obtain l1' where a: "clear_loop cfg (Init ki) False (0 + 1) (w) l1'" "lp_stream l1' = clear_packet ?X reply_pkt @ clear_packet ?X [NEWKEYS] @ rest"
    "outgoing l1' = lp_sent l1"
    "turn V mo1 H ReadReady l1 = obind (reply V mo1 H l1' si) (\<lambda>l2. obind (end_turn V mo1 l2) (\<lambda>l3. Ok (Continue l3)))"
    using turn [OF l1(1) si(1,2) hd1 l1s, where mo = mo1 and H = H] l1(3) by auto
  obtain l1'' where "reply V mo1 H l1' si = Ok l1''" "clear_loop cfg (DhDone dc) False 1 (w + length pkt) l1''"
    "lp_stream l1'' = lp_stream l1'" "outgoing l1'' = lp_sent l1 @ clear_packet ?X pkt"
    using clear_reply_init [OF conjunct1 [OF V], of cfg ki "w" l1' mo1 si "pkt" dc H]
      a(1-3) si by auto
  then obtain l2 where l2: "turn V mo1 H ReadReady l1 = Ok (Continue l2)" "lp_stream l2 = clear_packet ?X reply_pkt @ clear_packet ?X [NEWKEYS] @ rest"
    "clear_loop cfg (DhDone dc) False 1 (w + length pkt) l2" "lp_sent l2 = lp_sent l1 @ clear_packet ?X pkt" "outgoing l2 = lp_sent l2"
    using a(2,4) end_turn_clear [of cfg "DhDone dc" False 1 _ l1'' V mo1] by fastforce
  have hd2: "hd reply_pkt \<noteq> DISCONNECT" using reply(3) by simp
  let ?w = "w + length pkt"
  obtain l2' where b: "clear_loop cfg (DhDone dc) False (1 + 1) ?w l2'" "lp_stream l2' = clear_packet ?X [NEWKEYS] @ rest" "outgoing l2' = lp_sent l2"
    "turn V mo2 H ReadReady l2 = obind (reply V mo2 H l2' reply_pkt) (\<lambda>l2. obind (end_turn V mo2 l2) (\<lambda>l3. Ok (Continue l3)))"
    using turn [OF l2(3) reply(1,2) hd2 l2(2), where mo = mo2 and H = H] l2(5) by auto
  obtain l2'' where "reply V mo2 H l2' reply_pkt = Ok l2''" "clear_loop cfg (KexKeys nc) (strict_kex (nk_names nc)) 2 (?w + 1) l2''"
    "lp_stream l2'' = lp_stream l2'" "outgoing l2'' = lp_sent l2 @ clear_packet ?X [NEWKEYS]"
    using clear_reply_dh [OF conjunct1 [OF V], of cfg dc 2 ?w l2' reply_pkt nc mo2 H] b(1-3) reply si(7) by auto
  then obtain l3 where l3: "turn V mo2 H ReadReady l2 = Ok (Continue l3)" "lp_stream l3 = clear_packet ?X [NEWKEYS] @ rest"
    "clear_loop cfg (KexKeys nc) (strict_kex (nk_names nc)) 2 (?w + 1) l3" "outgoing l3 = lp_sent l2 @ clear_packet ?X [NEWKEYS]"
    using b(2,4) end_turn_clear [of cfg "KexKeys nc" "strict_kex (nk_names nc)" 2 "?w + 1" l2'' V mo2] by fastforce
  obtain l3' where c: "clear_loop cfg (KexKeys nc) (strict_kex (nk_names nc)) (2 + 1) (?w + 1) l3'" "lp_stream l3' = rest" "outgoing l3' = outgoing l3"
    "turn V mo3 H ReadReady l3 = obind (reply V mo3 H l3' [NEWKEYS]) (\<lambda>l2. obind (end_turn V mo3 l2) (\<lambda>l3. Ok (Continue l3)))"
    using turn [OF l3(3) _ _ _ l3(2), where mo = mo3 and H = H] by auto
  obtain l4 where l4: "turn V mo3 H ReadReady l3 = Ok (Continue l4)" "encrypted_loop nc l4" "lp_stream l4 = rest"
    "lp_sent l4 = lp_sent l2 @ clear_packet ?X [NEWKEYS]"
    using clear_reply_newkeys [of cfg nc "strict_kex (nk_names nc)" "?w + 1" l3' V mo3 H] c si(6) lim l3(4)
    by (auto simp: limits_ok_def)
  have "\<not> disconnected (common (lp_session l1))" "\<not> disconnected (common (lp_session l2))" "\<not> disconnected (common (lp_session l3))"
    using l1(1) l2(3) l3(3) by (simp_all add: clear_loop_def Let_def)
  then show ?thesis using l1s l2 l3(1) l4 by simp
qed

text \<open>The client from its first byte to the encrypted session: what it reads and what it has sent after its first turn and at the end.\<close>

lemma client_handshake:
  assumes env: "env_ok V" and cfg: "cfg_client_id cfg = Standard cid" "limits_ok cfg"
    and prefs: "pref_ok (cfg_preferred cfg)" "pref_ok ps" "set (algos (cfg_preferred cfg)) \<inter> set (pref_kex ps) \<noteq> {}"
      "length (cookie mo) = 16" "length cookie_s = 16"
    and run: "kex_run (env_kex V) (entropy.truncate mo1) Rs (cfg_preferred cfg) ps (cookie mo) cookie_s keys
        (kex_start cid (bs ''SSH-2.0-'' @ v) None) (kex_start cid (bs ''SSH-2.0-'' @ v) None) = Ok (dc, replies, ns)"
      "names_kex (nk_names ns) \<noteq> ''none''"
    and host: "\<And>k. k \<in> set keys \<Longrightarrow> \<exists>p. host_key_ok (env_host V) k p \<and> env_check V p = Ok True"
    and server: "write_packets rfc4251 (env_seal V) ClearKey
        (write_kex rfc4251 ps [] cookie_s (Some (map sk_name keys)) # replies) SSHBuffer_new = Ok (k, sb)"
      "length (write_kex rfc4251 (cfg_preferred cfg) [] (cookie mo) None) \<le> 261000"
      "length (write_kex rfc4251 ps [] cookie_s (Some (map sk_name keys))) \<le> 261000" "keys_small keys"
    and id: "concat pieces = bs ''SSH-2.0-'' @ v @ [13, 10] @ buffer sb @ rest" "10 \<notin> set v" "length v \<le> 246" "[] \<notin> set pieces"
  shows "\<exists>l0 l1 l nc pkt. connect_stream V mo cfg q pieces = Ok l0
    \<and> run_inner V mo0 H [(mo1, ReadReady)] l0 = Ok (Continue l1)
    \<and> run_turns V H [(mo2, ReadReady), (mo3, ReadReady)] l1 = Ok (Continue l)
    \<and> run_inner V mo0 H [(mo1, ReadReady), (mo2, ReadReady), (mo3, ReadReady)] l0 = Ok (Continue l)
    \<and> encrypted_loop nc l \<and> same_result nc ns \<and> lp_stream l = rest
    \<and> carries (env_crypto V) (fst (nk_cipher nc)) (snd (nk_cipher ns))
    \<and> carries (env_crypto V) (fst (nk_cipher ns)) (snd (nk_cipher nc))
    \<and> (\<forall>ck. KexInit_client_parse rfc4251 (env_kex V) (entropy.truncate mo1) (cfg_preferred cfg) ck
        (write_kex rfc4251 ps [] cookie_s (Some (map sk_name keys)))
        (snd (KexInit_client_write rfc4251 (cfg_preferred cfg) (cookie mo) (kex_start cid (bs ''SSH-2.0-'' @ v) None))) = Ok ([pkt], dc))
    \<and> buffer sb @ rest = clear_packet (env_crypto V) (write_kex rfc4251 ps [] cookie_s (Some (map sk_name keys))) @ lp_stream l1
    \<and> lp_sent l1 = cid @ [13, 10] @ clear_packet (env_crypto V) (write_kex rfc4251 (cfg_preferred cfg) [] (cookie mo) None)
        @ clear_packet (env_crypto V) pkt
    \<and> lp_sent l = lp_sent l1 @ clear_packet (env_crypto V) [NEWKEYS]"
proof -
  note V = env [unfolded env_ok_def]
  let ?pc = "cfg_preferred cfg"
  let ?ci = "write_kex rfc4251 ?pc [] (cookie mo) None" and ?si = "write_kex rfc4251 ps [] cookie_s (Some (map sk_name keys))"
  let ?ki = "snd (KexInit_client_write rfc4251 ?pc (cookie mo) (kex_start cid (bs ''SSH-2.0-'' @ v) None))"
  note pre = conjunct1 [OF conjunct2 [OF V]] prefs(1,2,4,5,3) run
  obtain n kx pub ds where r: "KEXES (names_kex n) = Some kx" "\<not> skip_exchange kx" "\<not> ignore_guessed n"
    "client_dh rfc4251 (env_kex V) (entropy.truncate mo1) kx [] ?ci = Ok (pub, ?ci @ init_packet rfc4251 pub, done_kex dc)"
    "\<And>ck. KexInit_client_parse rfc4251 (env_kex V) (entropy.truncate mo1) ?pc ck ?si ?ki = Ok ([init_packet rfc4251 pub], dc)"
    "KexDh_parse rfc4251 (env_kex V) Rs keys (init_packet rfc4251 pub) ds = Ok (replies, KexKeys ns)" "done_names dc = n" "dh_names ds = n"
    by (rule kex_run_Ok [OF pre]) blast
  obtain reply_pkt nc where nc: "replies = [reply_pkt, [NEWKEYS]]"
    "server_key_check rfc4251 (env_kex V) (env_host V) (env_check V) False reply_pkt dc = Ok nc" "same_result nc ns"
    "paired_keys (fst (nk_cipher nc)) (snd (nk_cipher ns))" "paired_keys (fst (nk_cipher ns)) (snd (nk_cipher nc))"
    using kex_run_agrees [OF pre host, where rek = False] by blast
  have small: "length (init_packet rfc4251 pub) \<le> 600"
    using client_pub_small [OF pre(1) KEXES_fresh [OF r(1)] r(2,4)] by (simp add: init_packet_def rfc.length_ssh_string)
  have nskip: "\<not> skip_exchange (done_kex dc)" using client_dh_skip [OF r(4)] r(2) by simp
  obtain l0 l1 where l0: "connect_stream V mo cfg q pieces = Ok l0" "write_socket V mo0 l0 = Ok l1"
    "clear_loop cfg (Init ?ki) False 0 (length ?ci) l1" "lp_stream l1 = buffer sb @ rest" "outgoing l1 = lp_sent l1"
    "lp_sent l1 = cid @ [13, 10] @ clear_packet (env_crypto V) ?ci"
    using connect_clear [OF conjunct1 [OF V] cfg(1) refl id server(2), where mo' = mo0] by blast
  have kex: "KEXES (names_kex (dh_names ds)) = Some kx" using r(1,8) by simp
  have size: "length reply_pkt \<le> 261000" by (rule reply_small [OF pre(1) kex r(2) server(4) r(6) [unfolded nc(1)]])
  have head: "reply_pkt \<noteq> []" "hd reply_pkt = KEX_ECDH_REPLY" using reply_packet_head [OF r(6) [unfolded nc(1)]] by simp_all
  have si: "?si \<noteq> []" "hd ?si = KEXINIT" and guess: "\<not> ignore_guessed (done_names dc)" using write_kex_head r(3,7) by simp_all
  obtain l2 l where t: "run_turns V H [(mo1, ReadReady)] l1 = Ok (Continue l2)"
    "lp_stream l1 = clear_packet (env_crypto V) ?si @ lp_stream l2" "lp_sent l2 = lp_sent l1 @ clear_packet (env_crypto V) (init_packet rfc4251 pub)"
    "run_turns V H [(mo2, ReadReady), (mo3, ReadReady)] l2 = Ok (Continue l)"
    "encrypted_loop nc l" "lp_stream l = rest" "lp_sent l = lp_sent l2 @ clear_packet (env_crypto V) [NEWKEYS]"
    using handshake_turns [OF env cfg(2) server(2) l0(3,4,5) server(1) [unfolded nc(1)] server(3) si r(5) nskip small guess size head nc(2)] by blast
  have inner: "run_inner V mo0 H [(mo1, ReadReady)] l0 = Ok (Continue l2)"
    "run_inner V mo0 H [(mo1, ReadReady), (mo2, ReadReady), (mo3, ReadReady)] l0 = Ok (Continue l)"
    using l0(2) t(1,4) run_turns_append [OF t(1), of "[(mo2, ReadReady), (mo3, ReadReady)]"]
    by (simp_all add: run_inner_def del: run_turns.simps)
  show ?thesis
    by (rule exI [of _ l0], rule exI [of _ l2], rule exI [of _ l], rule exI [of _ nc], rule exI [of _ "init_packet rfc4251 pub"])
      (use l0 t inner nc(3) r(5) paired_carries [OF conjunct2 [OF conjunct2 [OF V]] nc(4)]
        paired_carries [OF conjunct2 [OF conjunct2 [OF V]] nc(5)] in simp)
qed

lemma handshake:
  assumes env: "env_ok V" and cfg: "cfg_client_id cfg = Standard cid" "limits_ok cfg"
    and prefs: "pref_ok (cfg_preferred cfg)" "pref_ok ps" "set (algos (cfg_preferred cfg)) \<inter> set (pref_kex ps) \<noteq> {}"
      "length (cookie mo) = 16" "length cookie_s = 16"
    and run: "kex_run (env_kex V) (entropy.truncate mo1) Rs (cfg_preferred cfg) ps (cookie mo) cookie_s keys
        (kex_start cid (bs ''SSH-2.0-'' @ v) None) (kex_start cid (bs ''SSH-2.0-'' @ v) None) = Ok (dc, replies, ns)"
      "names_kex (nk_names ns) \<noteq> ''none''"
    and host: "\<And>k. k \<in> set keys \<Longrightarrow> \<exists>p. host_key_ok (env_host V) k p \<and> env_check V p = Ok True"
    and server: "write_packets rfc4251 (env_seal V) ClearKey
        (write_kex rfc4251 ps [] cookie_s (Some (map sk_name keys)) # replies) SSHBuffer_new = Ok (k, sb)"
      "length (write_kex rfc4251 (cfg_preferred cfg) [] (cookie mo) None) \<le> 261000"
      "length (write_kex rfc4251 ps [] cookie_s (Some (map sk_name keys))) \<le> 261000" "keys_small keys"
    and id: "concat pieces = bs ''SSH-2.0-'' @ v @ [13, 10] @ buffer sb @ rest" "10 \<notin> set v" "length v \<le> 246" "[] \<notin> set pieces"
  shows "\<exists>l0 l nc. connect_stream V mo cfg q pieces = Ok l0
    \<and> run_inner V mo0 H [(mo1, ReadReady), (mo2, ReadReady), (mo3, ReadReady)] l0 = Ok (Continue l)
    \<and> encrypted_loop nc l \<and> same_result nc ns \<and> lp_stream l = rest
    \<and> carries (env_crypto V) (fst (nk_cipher nc)) (snd (nk_cipher ns))
    \<and> carries (env_crypto V) (fst (nk_cipher ns)) (snd (nk_cipher nc))"
  using client_handshake [OF assms] by blast

section \<open>A concrete client and server\<close>

text \<open>A client and a server with packages that satisfy their documentation.\<close>

definition demo_client_env :: "(unit, bytes) client_env" where
  "demo_client_env = \<lparr>env_codec = rfc4251, env_kex = demo_kex_lib, env_host = demo_host_lib, env_crypto = null_crypto,
     env_zlib = (\<lambda>z b. Ok (b, z)), env_unzlib = (\<lambda>z b. Ok (b, z)), env_fresh = (\<lambda>_. ()), env_check = (\<lambda>_. Ok True)\<rparr>"

definition demo_moment :: moment where
  "demo_moment = entropy.extend demo_entropy \<lparr>cookie = replicate 16 9, now = 0, visit = []\<rparr>"

definition demo_kex_config :: client_config where
  "demo_kex_config = demo_client_config\<lparr>cfg_client_id := Standard [1], cfg_preferred := demo_pref\<rparr>"

lemma demo_kex_ok:
  "env_ok demo_client_env" "cfg_client_id demo_kex_config = Standard [1]" "limits_ok demo_kex_config" "cfg_preferred demo_kex_config = demo_pref"
  "length (cookie demo_moment) = 16" "cookie demo_moment = replicate 16 9" "entropy.truncate demo_moment = demo_entropy" "keys_small [demo_server_key]"
  "length (write_kex rfc4251 demo_pref [] (replicate 16 9) None) \<le> 261000"
  "length (write_kex rfc4251 demo_pref [] (replicate 16 7) (Some (map sk_name [demo_server_key]))) \<le> 261000"
  "env_kex demo_client_env = demo_kex_lib" "env_host demo_client_env = demo_host_lib" "env_check demo_client_env = (\<lambda>_. Ok True)" "env_crypto demo_client_env = null_crypto"
  by (simp_all add: env_ok_def demo_client_env_def demo_ok null_crypto_ok demo_kex_config_def demo_client_config_def limits_ok_def Limits_default_def
      demo_moment_def entropy.defs demo_entropy_def keys_small_def demo_server_key_def rfc_string_def bs_def
      write_kex_def kex_offer_def key_offer_def demo_pref_def rfc4251_def kex_name_defs)

lemma kex_run_replies_small:
  assumes "kex_lib_ok L" "pref_ok pc" "pref_ok ps" "length cookie_c = 16" "length cookie_s = 16"
    "set (algos pc) \<inter> set (pref_kex ps) \<noteq> {}"
    "kex_run L Rc Rs pc ps cookie_c cookie_s keys (kex_start cid sid sess) (kex_start cid sid sess) = Ok (dc, replies, ns)"
    "names_kex (nk_names ns) \<noteq> ''none''" "keys_small keys" "p \<in> set replies"
  shows "length p \<le> 261000"
proof -
  obtain n kx pub ds where r: "KEXES (names_kex n) = Some kx" "\<not> skip_exchange kx"
    "KexDh_parse rfc4251 L Rs keys (init_packet rfc4251 pub) ds = Ok (replies, KexKeys ns)" "dh_names ds = n"
    by (rule kex_run_Ok [OF assms(1-8)]) blast
  obtain pkt where pkt: "replies = [pkt, [NEWKEYS]]"
    using r(3) by (auto simp: KexDh_parse_def outcome_simps Let_def split: if_split_asm)
  have "KEXES (names_kex (dh_names ds)) = Some kx" using r(1,4) by simp
  from reply_small [OF assms(1) this r(2) assms(9) r(3) [unfolded pkt]] assms(10) pkt show ?thesis by auto
qed

abbreviation demo_sid :: bytes where "demo_sid \<equiv> bs ''SSH-2.0-'' @ [120]"

lemma demo_server:
  "\<exists>dc replies ns k sb. kex_run demo_kex_lib demo_entropy demo_entropy demo_pref demo_pref (replicate 16 9) (replicate 16 7)
      [demo_server_key] (kex_start [1] demo_sid None) (kex_start [1] demo_sid None) = Ok (dc, replies, ns)
    \<and> names_kex (nk_names ns) \<noteq> ''none''
    \<and> write_packets rfc4251 (env_seal demo_client_env) ClearKey
        (write_kex rfc4251 demo_pref [] (replicate 16 7) (Some (map sk_name [demo_server_key])) # replies) SSHBuffer_new = Ok (k, sb)"
proof -
  obtain dc replies ns where run: "kex_run demo_kex_lib demo_entropy demo_entropy demo_pref demo_pref (replicate 16 9)
      (replicate 16 7) [demo_server_key] (kex_start [1] demo_sid None) (kex_start [1] demo_sid None) = Ok (dc, replies, ns)"
    "names_kex (nk_names ns) = CURVE25519"
    using demo_kex_run [of demo_entropy demo_entropy "[1]" demo_sid None] by blast
  have nn: "names_kex (nk_names ns) \<noteq> ''none''" using run(2) by (simp add: kex_name_defs)
  have "\<forall>p \<in> set (write_kex rfc4251 demo_pref [] (replicate 16 7) (Some (map sk_name [demo_server_key])) # replies). length p \<le> 261000"
    using kex_run_replies_small [OF demo_ok(1,3,3) _ _ demo_ok(4) run(1) nn demo_kex_ok(8)] demo_kex_ok(10) by auto
  from packet_cipher.write_packets_Ok [OF cipher_contract [OF null_crypto_ok] this, of ClearKey SSHBuffer_new] run(1) nn
  show ?thesis by (auto simp: demo_client_env_def)
qed

section \<open>Properties\<close>

text \<open>
  C1: the client never talks over an encrypted session to a server it has not identified. Whatever the
  server sends, whatever commands come and whenever timers fire, if the session is encrypted then its session
  identifier was signed by a host key that the handler had accepted, and stays so over every key
  re-exchange (unless the configuration offers the key exchange \<open>none\<close>).
\<close>

theorem encrypted_host_signed:
  assumes "passive_handler H" "''none'' \<notin> set (pref_kex (cfg_preferred cfg))" "connect_stream V mo cfg q pieces = Ok l0"
    and "run_inner V mo' H es l0 = Ok e" "enc_of (lp_session (turn_loop e)) = Some enc"
  shows "\<exists>p sg. env_check V p = Ok True \<and> verify_server_auth (env_host V) p (session_id enc) sg"
proof -
  have "loop_ok V (turn_loop e)" by (rule kex_ok_run_inner [OF assms(1) kex_ok_connect [OF assms(2,3)] assms(4)])
  then show ?thesis using assms(5) by (simp add: kex_ok_def enc_of_def host_signed_def)
qed

theorem encrypted_host_signed_witness:
  "\<exists>(sb :: sshbuffer) l0 l enc. connect_stream demo_client_env demo_moment demo_kex_config demo_queues [demo_sid @ [13, 10], buffer sb @ [5]] = Ok l0
     \<and> run_inner demo_client_env demo_moment default_handler [(demo_moment, ReadReady), (demo_moment, ReadReady), (demo_moment, ReadReady)] l0
         = Ok (Continue l)
     \<and> enc_of (lp_session l) = Some enc
     \<and> (\<exists>p sg. env_check demo_client_env p = Ok True \<and> verify_server_auth (env_host demo_client_env) p (session_id enc) sg)"
proof -
  obtain dc replies ns k sb where run: "kex_run demo_kex_lib demo_entropy demo_entropy demo_pref demo_pref (replicate 16 9)
      (replicate 16 7) [demo_server_key] (kex_start [1] demo_sid None) (kex_start [1] demo_sid None) = Ok (dc, replies, ns)"
    "names_kex (nk_names ns) \<noteq> ''none''"
    "write_packets rfc4251 (env_seal demo_client_env) ClearKey
        (write_kex rfc4251 demo_pref [] (replicate 16 7) (Some (map sk_name [demo_server_key])) # replies) SSHBuffer_new = Ok (k, sb)"
    using demo_server by blast
  obtain l0 l nc where r: "connect_stream demo_client_env demo_moment demo_kex_config demo_queues [demo_sid @ [13, 10], buffer sb @ [5]] = Ok l0"
     "run_inner demo_client_env demo_moment default_handler [(demo_moment, ReadReady), (demo_moment, ReadReady), (demo_moment, ReadReady)] l0
         = Ok (Continue l)" "encrypted_loop nc l"
    using handshake [OF demo_kex_ok(1-3), where ps = demo_pref and cookie_s = "replicate 16 7" and Rs = demo_entropy and
          v = "[120]" and keys = "[demo_server_key]" and sb = sb and k = k and dc = dc and replies = replies
          and mo = demo_moment and ?mo1.0 = demo_moment and rest = "[5]" and pieces = "[demo_sid @ [13, 10], buffer sb @ [5]]"]
      run demo_ok demo_kex_ok by (simp add: demo_kex_ok) blast
  obtain enc where enc: "enc_of (lp_session (turn_loop (Continue l))) = Some enc"
    using r(3) by (auto simp: encrypted_loop_def enc_of_def Let_def)
  have "''none'' \<notin> set (pref_kex (cfg_preferred demo_kex_config))" by (simp add: demo_kex_ok demo_pref_def kex_name_defs)
  from encrypted_host_signed [OF passive_default this r(1,2) enc] r(1,2) enc [simplified] show ?thesis by blast
qed

text \<open>
  a client and a server that have an algorithm in common finish the handshake: the server's identification may arrive
  in any pieces, the client answers its KEXINIT, verifies its reply, and when NEWKEYS has arrived the session is
  encrypted, with the session identifier and the algorithms of the server and mirrored keys, so that
  from then on each side reads what the other writes. Nothing after NEWKEYS has been consumed.
\<close>

theorem handshake_completes:
  assumes env: "env_ok V" and cfg: "cfg_client_id cfg = Standard cid" "limits_ok cfg"
    and prefs: "pref_ok (cfg_preferred cfg)" "pref_ok ps" "set (algos (cfg_preferred cfg)) \<inter> set (pref_kex ps) \<noteq> {}"
      "length (cookie mo) = 16" "length cookie_s = 16"
    and run: "kex_run (env_kex V) (entropy.truncate mo1) Rs (cfg_preferred cfg) ps (cookie mo) cookie_s keys
        (kex_start cid (bs ''SSH-2.0-'' @ v) None) (kex_start cid (bs ''SSH-2.0-'' @ v) None) = Ok (dc, replies, ns)"
      "names_kex (nk_names ns) \<noteq> ''none''"
    and host: "\<And>k. k \<in> set keys \<Longrightarrow> \<exists>p. host_key_ok (env_host V) k p \<and> env_check V p = Ok True"
    and server: "write_packets rfc4251 (env_seal V) ClearKey
        (write_kex rfc4251 ps [] cookie_s (Some (map sk_name keys)) # replies) SSHBuffer_new = Ok (k, sb)"
      "length (write_kex rfc4251 (cfg_preferred cfg) [] (cookie mo) None) \<le> 261000"
      "length (write_kex rfc4251 ps [] cookie_s (Some (map sk_name keys))) \<le> 261000" "keys_small keys"
    and id: "concat pieces = bs ''SSH-2.0-'' @ v @ [13, 10] @ buffer sb @ rest" "10 \<notin> set v" "length v \<le> 246" "[] \<notin> set pieces"
  shows "\<exists>l0 l nc. connect_stream V mo cfg q pieces = Ok l0
    \<and> run_inner V mo0 H [(mo1, ReadReady), (mo2, ReadReady), (mo3, ReadReady)] l0 = Ok (Continue l)
    \<and> encrypted_loop nc l \<and> same_result nc ns \<and> lp_stream l = rest
    \<and> carries (env_crypto V) (fst (nk_cipher nc)) (snd (nk_cipher ns))
    \<and> carries (env_crypto V) (fst (nk_cipher ns)) (snd (nk_cipher nc))"
  using assms by (rule handshake)

theorem handshake_completes_witness:
  "\<exists>dc replies ns k sb l0 l nc.
     kex_run demo_kex_lib demo_entropy demo_entropy demo_pref demo_pref (replicate 16 9) (replicate 16 7) [demo_server_key]
       (kex_start [1] demo_sid None) (kex_start [1] demo_sid None) = Ok (dc, replies, ns)
     \<and> write_packets rfc4251 (env_seal demo_client_env) ClearKey
         (write_kex rfc4251 demo_pref [] (replicate 16 7) (Some (map sk_name [demo_server_key])) # replies) SSHBuffer_new = Ok (k, sb)
     \<and> connect_stream demo_client_env demo_moment demo_kex_config demo_queues [demo_sid @ [13, 10], buffer sb @ [5]] = Ok l0
     \<and> run_inner demo_client_env demo_moment default_handler [(demo_moment, ReadReady), (demo_moment, ReadReady), (demo_moment, ReadReady)] l0
         = Ok (Continue l)
     \<and> encrypted_loop nc l \<and> same_result nc ns \<and> lp_stream l = [5]
     \<and> carries (env_crypto demo_client_env) (fst (nk_cipher nc)) (snd (nk_cipher ns))
     \<and> carries (env_crypto demo_client_env) (fst (nk_cipher ns)) (snd (nk_cipher nc))"
proof -
  obtain dc replies ns k sb where run: "kex_run demo_kex_lib demo_entropy demo_entropy demo_pref demo_pref (replicate 16 9)
      (replicate 16 7) [demo_server_key] (kex_start [1] demo_sid None) (kex_start [1] demo_sid None) = Ok (dc, replies, ns)"
    "names_kex (nk_names ns) \<noteq> ''none''"
    "write_packets rfc4251 (env_seal demo_client_env) ClearKey
        (write_kex rfc4251 demo_pref [] (replicate 16 7) (Some (map sk_name [demo_server_key])) # replies) SSHBuffer_new = Ok (k, sb)"
    using demo_server by blast
  have "\<exists>l0 l nc. connect_stream demo_client_env demo_moment demo_kex_config demo_queues [demo_sid @ [13, 10], buffer sb @ [5]] = Ok l0
     \<and> run_inner demo_client_env demo_moment default_handler [(demo_moment, ReadReady), (demo_moment, ReadReady), (demo_moment, ReadReady)] l0
         = Ok (Continue l)
     \<and> encrypted_loop nc l \<and> same_result nc ns \<and> lp_stream l = [5]
     \<and> carries (env_crypto demo_client_env) (fst (nk_cipher nc)) (snd (nk_cipher ns))
     \<and> carries (env_crypto demo_client_env) (fst (nk_cipher ns)) (snd (nk_cipher nc))"
    by (rule handshake_completes [OF demo_kex_ok(1-3), where ps = demo_pref and cookie_s = "replicate 16 7" and Rs = demo_entropy and
          v = "[120]" and keys = "[demo_server_key]" and sb = sb and k = k and dc = dc and replies = replies])
      (use run demo_ok demo_kex_ok in \<open>auto simp: demo_kex_ok\<close>)
  with run(1,3) show ?thesis by blast
qed







text \<open>
  Strict key exchange forbids every message but those of the exchange before NEWKEYS, but the client learns that
  it is strict only with the server's reply: a message of the ignored kinds between KEXINIT and the
  reply is accepted, and shifts the position of every later message past the table of the expected order.
\<close>

lemma strict_kex_accepts_ignored:
  assumes "reply_init V mo l buf ki = Ok l1" "\<not> common_strict_kex (common (lp_session l))"
    "encrypted_of (common (lp_session l)) = None" "kex_of (common (lp_session l1)) = Some (DhDone d)" "strict_kex (done_names d)"
    and "m \<in> set ignored_messages"
  shows "reply V mo' H (l1\<lparr>lp_input := i\<rparr>) (m # r) = Ok (l1\<lparr>lp_input := i\<rparr>)"
proof -
  obtain ps com1 s0 where c: "seal_packets V ps ((common (lp_session l))\<lparr>kex_of := None\<rparr>) = Ok com1"
    "Session_flush V mo s0 = Ok (lp_session l1)"
    "common_strict_kex (common s0) = common_strict_kex com1 \<or> kex_of (common s0) = kex_of com1"
    by (rule reply_init_Ok [OF assms(1,3)]) auto
  have "kex_of com1 = None" "\<not> common_strict_kex com1" using seal_packets_keeps [OF c(1)] assms(2) by auto
  moreover have "kex_of (common s0) = Some (DhDone d)" using Session_flush_keeps(2) [OF c(2)] assms(4) by simp
  ultimately have "\<not> common_strict_kex (common s0)" using c(3) by auto
  then have "\<not> common_strict_kex (common (lp_session l1))" using Session_flush_keeps(4) [OF c(2)] by simp
  then show ?thesis using assms(6) by (simp add: reply_def Let_def)
qed

end
