(* ===== verification/Server_Session.thy ===== *)
theory Server_Session
  imports Client_Handshake
begin

text \<open>
  The server's session: its state, the application's handler (\<^verbatim>\<open>crates/russh/src/server/mod.rs\<close>), the requests and
  answers it writes (\<^verbatim>\<open>server/session.rs\<close>) and the messages of an authenticated client
  (\<open>server_read_authenticated\<close> of \<^verbatim>\<open>server/encrypted.rs\<close>). As for the client, a \<open>ChannelRef\<close> is a number and what is sent
  through the channels of the runtime is recorded in an outbox; their receivers are alive. The handler
  may be a different one for every packet, which is how it changes its mind.
\<close>

section \<open>What the application answers\<close>

text \<open>
  \<open>Auth\<close>, and the questions of the trait \<open>Handler\<close>: about a user who authenticates, and about what an authenticated
  client asks for. The keys of clients come from the key package: reading one, choosing the hash of an RSA
  signature, and checking a signature.
\<close>

datatype auth_answer =
  Auth_Reject "u32 option" | Auth_Accept | Auth_UnsupportedMethod | Auth_Partial bytes bytes "(bytes \<times> bool) list"

datatype 'p auth_question =
  AskNone bytes | AskPassword bytes bytes | AskPublicKeyOffered bytes 'p | AskPublicKey bytes 'p
| AskKeyboardInteractive bytes bytes "bytes list option"

datatype server_question =
  AskOpenSession nat | AskOpenX11 nat bytes u32 | AskOpenDirectTcpip nat tcp_channel_info
| AskOpenForwardedTcpip nat tcp_channel_info | AskAgent channel_id | AskCancelTcpipForward bytes u32

datatype server_callback =
  SbAuthSucceeded | SbClose channel_id | SbEof channel_id | SbOpenConfirmation channel_id u32 u32
| SbData channel_id bytes | SbExtendedData channel_id u32 bytes | SbWindowAdjusted channel_id u32
| SbPty channel_id bytes u32 u32 u32 u32 "(pty \<times> u32) list" | SbX11 channel_id bool bytes bytes u32
| SbEnv channel_id bytes bytes | SbShell channel_id | SbExec channel_id bytes | SbSubsystem channel_id bytes
| SbWindowChange channel_id u32 u32 u32 u32 | SbSignal channel_id sig

datatype 'p key_parse = KeyParsed 'p | KeyRejected | KeyFailed error

record 'p client_key_lib =
  parse_client_key :: "bytes \<Rightarrow> bytes \<Rightarrow> 'p key_parse"
  set_signature_hash :: "bytes \<Rightarrow> 'p \<Rightarrow> 'p"
  verify_client_auth :: "'p \<Rightarrow> bytes \<Rightarrow> bytes \<Rightarrow> bool"

section \<open>State\<close>

text \<open>The delay of a rejection does not change the session and is left out.\<close>

record server_config =
  sc_server_id :: ssh_id
  sc_methods :: u32
  sc_auth_banner :: "bytes option"
  sc_keys :: "server_key list"
  sc_limits :: limits
  sc_window_size :: u32
  sc_maximum_packet_size :: u32
  sc_preferred :: preferred
  sc_max_auth_attempts :: nat
  sc_inactivity_timeout :: "nat option"
  sc_keepalive_interval :: "nat option"
  sc_keepalive_max :: nat

type_synonym 'z server_common = "(server_config, kex_alg, cipher_key \<times> cipher_key, 'z, unit) common_session"

record 'z server_session =
  s_common :: "'z server_common"
  s_refs :: "channel_id \<rightharpoonup> nat"
  s_next_ref :: nat
  s_target_window_size :: u32
  s_pending_reads :: "bytes list"
  s_pending_len :: u32
  s_open_global_requests :: "global_request_response list"
  s_outbox :: "session_out list"

record ('z, 'p) server_handler =
  sh_call :: "server_callback \<Rightarrow> 'z server_session \<Rightarrow> (error, 'z server_session) outcome"
  sh_ask :: "server_question \<Rightarrow> 'z server_session \<Rightarrow> (error, bool \<times> 'z server_session) outcome"
  sh_tcpip_forward :: "bytes \<Rightarrow> u32 \<Rightarrow> 'z server_session \<Rightarrow> (error, bool \<times> u32 \<times> 'z server_session) outcome"
  sh_adjust_window :: "channel_id \<Rightarrow> u32 \<Rightarrow> u32"
  sh_holds :: "nat \<Rightarrow> bool"
  sh_auth :: "'p auth_question \<Rightarrow> (error, auth_answer) outcome"

text \<open>
  The default implementations: keys may be offered, everything else is refused. \<open>sh_holds\<close> tells whether the application still
  holds a channel.
\<close>

fun default_auth :: "'p auth_question \<Rightarrow> (error, auth_answer) outcome" where
  "default_auth (AskPublicKeyOffered _ _) = Ok Auth_Accept"
| "default_auth _ = Ok (Auth_Reject None)"

definition default_server_handler :: "('z, 'p) server_handler" where
  "default_server_handler = \<lparr>sh_call = (\<lambda>_ s. Ok s), sh_ask = (\<lambda>_ s. Ok (False, s)),
     sh_tcpip_forward = (\<lambda>_ port s. Ok (False, port, s)), sh_adjust_window = (\<lambda>_ w. w), sh_holds = (\<lambda>_. True), sh_auth = default_auth\<rparr>"

text \<open>The packages that the server uses.\<close>

record ('z, 'p) server_env =
  sv_codec :: codec
  sv_kex :: kex_lib
  sv_crypto :: crypto
  sv_zlib :: "'z \<Rightarrow> bytes \<Rightarrow> (error, bytes \<times> 'z) outcome"
  sv_unzlib :: "'z \<Rightarrow> bytes \<Rightarrow> (error, bytes \<times> 'z) outcome"
  sv_fresh :: "'z option \<Rightarrow> 'z"
  sv_keys :: "'p client_key_lib"

definition s_enc :: "'z server_session \<Rightarrow> 'z ssh_encrypted option" where
  "s_enc s = encrypted_of (s_common s)"

definition s_set_enc :: "'z ssh_encrypted \<Rightarrow> 'z server_session \<Rightarrow> 'z server_session" where
  "s_set_enc enc s = s\<lparr>s_common := (s_common s)\<lparr>encrypted_of := Some enc\<rparr>\<rparr>"

definition s_with_enc :: "('z ssh_encrypted \<Rightarrow> 'z ssh_encrypted) \<Rightarrow> 'z server_session \<Rightarrow> 'z server_session" where
  "s_with_enc f s = s\<lparr>s_common := (s_common s)\<lparr>encrypted_of := map_option f (s_enc s)\<rparr>\<rparr>"

definition s_emit :: "session_out list \<Rightarrow> 'z server_session \<Rightarrow> 'z server_session" where
  "s_emit os s = s\<lparr>s_outbox := s_outbox s @ os\<rparr>"

definition s_to_channel :: "channel_id \<Rightarrow> channel_msg \<Rightarrow> 'z server_session \<Rightarrow> 'z server_session" where
  "s_to_channel i m s = (case s_refs s i of Some ref \<Rightarrow> s_emit [ToChannel ref m] s | None \<Rightarrow> s)"

text \<open>One packet appended to what is to be encrypted.\<close>

abbreviation s_push :: "codec \<Rightarrow> bytes \<Rightarrow> 'z ssh_encrypted \<Rightarrow> 'z ssh_encrypted" where
  "s_push E p enc \<equiv> enc\<lparr>write := push_packet E (write enc) p\<rparr>"

definition Server_is_rekeying :: "'z server_session \<Rightarrow> bool" where
  "Server_is_rekeying s = (case s_enc s of Some enc \<Rightarrow> rekey enc \<noteq> None | None \<Rightarrow> True)"

section \<open>Flushing\<close>

definition s_seal_packets :: "('z, 'p) server_env \<Rightarrow> bytes list \<Rightarrow> 'z server_common \<Rightarrow> (error, 'z server_common) outcome" where
  "s_seal_packets V ps com =
    obind (write_packets (sv_codec V) (cipher_sealing (sv_codec V) (sv_crypto V)) (fst (cipher com)) ps (write_buffer com))
      (\<lambda>(k, wb). Ok (com\<lparr>cipher := (k, snd (cipher com)), write_buffer := wb\<rparr>))"

definition Server_flush :: "('z, 'p) server_env \<Rightarrow> moment \<Rightarrow> 'z server_session \<Rightarrow> (error, 'z server_session) outcome" where
  "Server_flush V mo self =
    (let com = s_common self; cfg = config com
     in case encrypted_of com of
       None \<Rightarrow> Ok self
     | Some enc \<Rightarrow>
         obind (Encrypted_flush (sv_codec V) (sv_zlib V) skip_exchange (now mo) (sc_limits cfg)
             (cipher_sealing (sv_codec V) (sv_crypto V)) enc (fst (cipher com)) (write_buffer com)) (\<lambda>(due, enc1, k, wb).
         let com1 = com\<lparr>encrypted_of := Some enc1, cipher := (k, snd (cipher com)), write_buffer := wb\<rparr>
         in if due \<and> rekey enc1 = None then
              (case exchange_of enc1 of
                 None \<Rightarrow> Ok (self\<lparr>s_common := com1\<rparr>)
               | Some ex \<Rightarrow>
                   (let (ps, kexinit) = KexInit_server_write (sv_codec V) (sc_preferred cfg) (cookie mo) (sc_keys cfg)
                          (KexInit_initiate_rekey ex (session_id enc1))
                    in obind (s_seal_packets V ps com1) (\<lambda>com2.
                       Ok (self\<lparr>s_common := com2\<lparr>encrypted_of :=
                         Some (enc1\<lparr>exchange_of := None, rekey := Some (Init kexinit)\<rparr>)\<rparr>\<rparr>))))
            else Ok (self\<lparr>s_common := com1\<rparr>)))"

definition Server_flush_pending where
  "Server_flush_pending E channel s =
    (case s_enc s of
       Some enc \<Rightarrow> obind (flush_pending E enc channel) (\<lambda>(n, enc'). Ok (n, s_set_enc enc' s))
     | None \<Rightarrow> Ok (0, s))"

definition Server_sender_window_size where
  "Server_sender_window_size channel s =
     (case s_enc s of Some enc \<Rightarrow> Encrypted_sender_window_size enc channel | None \<Rightarrow> 0)"

definition Server_has_pending_data where
  "Server_has_pending_data channel s = (case s_enc s of Some enc \<Rightarrow> has_pending_data enc channel | None \<Rightarrow> False)"

definition s_channel :: "channel_id \<Rightarrow> 'z server_session \<Rightarrow> channel_params option" where
  "s_channel i s = (case s_enc s of Some enc \<Rightarrow> channels enc i | None \<Rightarrow> None)"

definition writable_packet_size :: "channel_id \<Rightarrow> 'z server_session \<Rightarrow> u32" where
  "writable_packet_size i s =
    (case s_channel i s of Some c \<Rightarrow> min (sender_window_size c) (sender_maximum_packet_size c) | None \<Rightarrow> 0)"

definition Server_window_size :: "channel_id \<Rightarrow> 'z server_session \<Rightarrow> u32" where
  "Server_window_size i s = (case s_channel i s of Some c \<Rightarrow> sender_window_size c | None \<Rightarrow> 0)"

definition max_packet_size :: "channel_id \<Rightarrow> 'z server_session \<Rightarrow> u32" where
  "max_packet_size i s = (case s_channel i s of Some c \<Rightarrow> sender_maximum_packet_size c | None \<Rightarrow> 0)"

section \<open>Requests and answers\<close>

definition request_success :: "codec \<Rightarrow> 'z server_session \<Rightarrow> 'z server_session" where
  "request_success E s =
    (if common_wants_reply (s_common s) \<and> s_enc s \<noteq> None
     then s_with_enc (s_push E [REQUEST_SUCCESS]) (s\<lparr>s_common := (s_common s)\<lparr>common_wants_reply := False\<rparr>\<rparr>)
     else s)"

definition request_failure :: "codec \<Rightarrow> 'z server_session \<Rightarrow> 'z server_session" where
  "request_failure E s =
    (if s_enc s \<noteq> None
     then s_with_enc (s_push E [REQUEST_FAILURE]) (s\<lparr>s_common := (s_common s)\<lparr>common_wants_reply := False\<rparr>\<rparr>)
     else s)"

text \<open>\<open>channel_success\<close> and \<open>channel_failure\<close> assert that the channel is confirmed.\<close>

definition channel_answer :: "codec \<Rightarrow> u8 \<Rightarrow> channel_id \<Rightarrow> 'z server_session \<Rightarrow> (error, 'z server_session) outcome" where
  "channel_answer E answer i s =
    (case s_channel i s of
       None \<Rightarrow> Ok s
     | Some c \<Rightarrow>
         if \<not> confirmed c then Panic
         else if wants_reply c then
           Ok (s_with_enc (\<lambda>enc. s_push E (answer # push_u32_be E (recipient_channel c))
                 (enc\<lparr>channels := (channels enc)(i \<mapsto> c\<lparr>wants_reply := False\<rparr>)\<rparr>)) s)
         else Ok s)"

definition Server_channel_success where
  "Server_channel_success E i s = channel_answer E CHANNEL_SUCCESS i s"

definition Server_channel_failure where
  "Server_channel_failure E i s = channel_answer E CHANNEL_FAILURE i s"

fun open_failure_code :: "channel_open_failure \<Rightarrow> u32" where
  "open_failure_code AdministrativelyProhibited = 1"
| "open_failure_code ConnectFailed = 2"
| "open_failure_code UnknownChannelType = 3"
| "open_failure_code ResourceShortage = 4"
| "open_failure_code Unknown = 0"

definition Server_channel_open_failure where
  "Server_channel_open_failure E i reason descr language s =
     s_with_enc (s_push E (CHANNEL_OPEN_FAILURE # push_u32_be E i @ push_u32_be E (open_failure_code reason)
       @ extend_ssh_string E descr @ extend_ssh_string E language)) s"

text \<open>Unlike the client, the server writes EOF and CLOSE at once.\<close>

definition Server_byte :: "codec \<Rightarrow> channel_id \<Rightarrow> u8 \<Rightarrow> 'z server_session \<Rightarrow> 'z server_session" where
  "Server_byte E i b s = s_with_enc (\<lambda>enc. Encrypted_byte E enc i b) s"

definition Server_close where
  "Server_close E i s = Server_byte E i CHANNEL_CLOSE s"

definition Server_eof where
  "Server_eof E i s = Server_byte E i CHANNEL_EOF s"

definition s_lift_enc ::
  "('z ssh_encrypted \<Rightarrow> (error, 'z ssh_encrypted) outcome) \<Rightarrow> 'z server_session \<Rightarrow> (error, 'z server_session) outcome" where
  "s_lift_enc f s = (case s_enc s of Some enc \<Rightarrow> obind (f enc) (\<lambda>enc'. Ok (s_set_enc enc' s)) | None \<Rightarrow> Panic)"

definition Server_data where
  "Server_data E channel d s = s_lift_enc (\<lambda>enc. Encrypted_data E enc channel d) s"

definition Server_extended_data where
  "Server_extended_data E channel ext d s = s_lift_enc (\<lambda>enc. Encrypted_extended_data E enc channel ext d) s"

text \<open>The requests of a server about a channel, which ask for no reply.\<close>

definition Server_channel_request :: "codec \<Rightarrow> channel_id \<Rightarrow> bytes \<Rightarrow> bytes \<Rightarrow> 'z server_session \<Rightarrow> (error, 'z server_session) outcome" where
  "Server_channel_request E i kind payload s =
    (case s_channel i s of
       None \<Rightarrow> Ok s
     | Some c \<Rightarrow>
         if \<not> confirmed c then Panic
         else Ok (s_with_enc (s_push E (CHANNEL_REQUEST # push_u32_be E (recipient_channel c)
                @ extend_ssh_string E kind @ 0 # payload)) s))"

definition xon_xoff_request where
  "xon_xoff_request E i client_can_do s = Server_channel_request E i (bs ''xon-xoff'') [bool_byte client_can_do] s"

definition exit_status_request where
  "exit_status_request E i exit_status s = Server_channel_request E i (bs ''exit-status'') (push_u32_be E exit_status) s"

definition exit_signal_request where
  "exit_signal_request E i sg core_dumped error_message language_tag s =
     Server_channel_request E i (bs ''exit-signal'')
       (extend_ssh_string E (Sig_name sg) @ bool_byte core_dumped # extend_ssh_string E error_message
        @ extend_ssh_string E language_tag) s"

definition s_global_request :: "codec \<Rightarrow> global_request_response option \<Rightarrow> bytes \<Rightarrow> bytes \<Rightarrow> 'z server_session \<Rightarrow> 'z server_session" where
  "s_global_request E awaited kind payload s =
    (if s_enc s = None then s
     else s_with_enc (s_push E (GLOBAL_REQUEST # extend_ssh_string E kind @ payload))
            (case awaited of Some w \<Rightarrow> s\<lparr>s_open_global_requests := s_open_global_requests s @ [w]\<rparr> | None \<Rightarrow> s))"

definition keepalive_request where
  "keepalive_request E s = s_global_request E (Some Keepalive) (bs ''keepalive@openssh.com'') [1] s"

definition Server_tcpip_forward where
  "Server_tcpip_forward E reply_channel address port s =
     s_global_request E (map_option TcpIpForward reply_channel) (bs ''tcpip-forward'')
       (bool_byte (reply_channel \<noteq> None) # extend_ssh_string E address @ push_u32_be E port) s"

definition Server_cancel_tcpip_forward where
  "Server_cancel_tcpip_forward E reply_channel address port s =
     s_global_request E (map_option CancelTcpIpForward reply_channel) (bs ''cancel-tcpip-forward'')
       (bool_byte (reply_channel \<noteq> None) # extend_ssh_string E address @ push_u32_be E port) s"

definition Server_channel_open_generic ::
  "codec \<Rightarrow> bytes \<Rightarrow> bytes \<Rightarrow> 'z server_session \<Rightarrow> (error, channel_id \<times> 'z server_session) outcome" where
  "Server_channel_open_generic E kind suffix s =
    (case s_enc s of
       None \<Rightarrow> Err Inconsistent
     | Some enc \<Rightarrow>
         if state enc = Authenticated \<or> state enc = InitCompression then
           (let window = sc_window_size (config (s_common s)); maxpacket = sc_maximum_packet_size (config (s_common s))
            in obind (Encrypted_new_channel enc window maxpacket) (\<lambda>(i, enc').
               Ok (i, s_set_enc (s_push E (open_body E kind i window maxpacket suffix) enc') s)))
         else Err Inconsistent)"

definition Server_channel_open_session where
  "Server_channel_open_session E s = Server_channel_open_generic E (bs ''session'') [] s"

definition Server_channel_open_direct_tcpip where
  "Server_channel_open_direct_tcpip E d s = Server_channel_open_generic E (bs ''direct-tcpip'') (tcpip_suffix E d) s"

definition Server_channel_open_forwarded_tcpip where
  "Server_channel_open_forwarded_tcpip E d s = Server_channel_open_generic E (bs ''forwarded-tcpip'') (tcpip_suffix E d) s"

definition Server_channel_open_x11 where
  "Server_channel_open_x11 E addr port s =
     Server_channel_open_generic E (bs ''x11'') (extend_ssh_string E addr @ push_u32_be E port) s"

definition Server_channel_open_agent where
  "Server_channel_open_agent E s = Server_channel_open_generic E (bs ''auth-agent@openssh.com'') [] s"

text \<open>RFC 8308: the signature algorithms, for a client that has announced that it reads them.\<close>

definition maybe_send_ext_info :: "codec \<Rightarrow> 'z server_session \<Rightarrow> 'z server_session" where
  "maybe_send_ext_info E s =
    (case s_enc s of
       None \<Rightarrow> s
     | Some enc \<Rightarrow>
         (case exchange_of enc of
            None \<Rightarrow> s
          | Some ex \<Rightarrow>
              (case read_string E (drop 17 (client_kex_init ex)) of
                 None \<Rightarrow> s
               | Some (kex_string, _) \<Rightarrow>
                   if Server_select [EXTENSION_SUPPORT_AS_CLIENT] kex_string = None then s
                   else s_set_enc (s_push E (EXT_INFO # push_u32_be E 1 @ extend_ssh_string E (bs ''server-sig-algs'')
                          @ extend_list E (map bs (pref_key (sc_preferred (config (s_common s)))))) enc) s)))"

section \<open>Channel requests of an authenticated client\<close>

text \<open>
  The terminal modes: a code and its value in five bytes each, up to code 0. An unknown code leaves its slot
  empty. Reading a value from fewer than four bytes panics, and so does handing on more than the 130 slots.
\<close>

definition Pty_from_u8 :: "u8 \<Rightarrow> pty option" where
  "Pty_from_u8 x =
    (if unat x \<in> {1..18} \<union> {30..42} \<union> {50..62} \<union> {70..75} \<union> {90..93} \<union> {128, 129} then Some x else None)"

fun read_modes :: "codec \<Rightarrow> bytes \<Rightarrow> (error, (pty \<times> u32) list) outcome" where
  "read_modes E [] = Ok []"
| "read_modes E (code # r) =
    (if code = 0 then Ok []
     else if length r < 4 then Panic
     else obind (read_modes E (drop 4 r)) (\<lambda>ms.
       Ok ((case Pty_from_u8 code of Some c \<Rightarrow> (c, be_read_u32 E r) | None \<Rightarrow> (0, 0)) # ms)))"

definition read_pty_req where
  "read_pty_req E H s i r =
    obind (read_str E r) (\<lambda>(term, r).
    obind (read_or (read_u32 E r)) (\<lambda>(col_width, r).
    obind (read_or (read_u32 E r)) (\<lambda>(row_height, r).
    obind (read_or (read_u32 E r)) (\<lambda>(pix_width, r).
    obind (read_or (read_u32 E r)) (\<lambda>(pix_height, r).
    obind (read_or (read_string E r)) (\<lambda>(mode_string, _).
    obind (read_modes E mode_string) (\<lambda>modes.
    let s1 = s_to_channel i (RequestPty True term col_width row_height pix_width pix_height
               (take 130 modes @ replicate (130 - length modes) (0, 0))) s
    in if 130 < length modes then Panic
       else sh_call H (SbPty i term col_width row_height pix_width pix_height modes) s1)))))))"

definition read_x11_req where
  "read_x11_req E H s i r =
    obind (read_or (read_byte E r)) (\<lambda>(single, r).
    obind (read_str E r) (\<lambda>(protocol, r).
    obind (read_str E r) (\<lambda>(x11_cookie, r).
    obind (read_or (read_u32 E r)) (\<lambda>(screen, _).
    sh_call H (SbX11 i (single \<noteq> 0) protocol x11_cookie screen)
      (s_to_channel i (RequestX11 True (single \<noteq> 0) protocol x11_cookie screen) s)))))"

definition read_env_req where
  "read_env_req E H s i r =
    obind (read_str E r) (\<lambda>(var, r).
    obind (read_str E r) (\<lambda>(val, _).
    sh_call H (SbEnv i var val) (s_to_channel i (SetEnv True var val) s)))"

text \<open>The answer to a request for an agent is that of a global request.\<close>

definition read_agent_req where
  "read_agent_req E H s i =
    obind (sh_ask H (AskAgent i) (s_to_channel i (AgentForward True) s)) (\<lambda>(response, s1).
    Ok (if response then request_success E s1 else request_failure E s1))"

definition read_window_change where
  "read_window_change E H s i r =
    obind (read_or (read_u32 E r)) (\<lambda>(col_width, r).
    obind (read_or (read_u32 E r)) (\<lambda>(row_height, r).
    obind (read_or (read_u32 E r)) (\<lambda>(pix_width, r).
    obind (read_or (read_u32 E r)) (\<lambda>(pix_height, _).
    sh_call H (SbWindowChange i col_width row_height pix_width pix_height)
      (s_to_channel i (WindowChange col_width row_height pix_width pix_height) s)))))"

definition s_mark_reply :: "channel_id \<Rightarrow> bool \<Rightarrow> 'z server_session \<Rightarrow> 'z server_session" where
  "s_mark_reply i want s = s_with_enc (\<lambda>enc. case channels enc i of
     Some c \<Rightarrow> enc\<lparr>channels := (channels enc)(i \<mapsto> c\<lparr>wants_reply := want\<rparr>)\<rparr> | None \<Rightarrow> enc) s"

definition Server_read_channel_request ::
  "codec \<Rightarrow> ('z, 'p) server_handler \<Rightarrow> 'z server_session \<Rightarrow> bytes \<Rightarrow> (error, 'z server_session) outcome" where
  "Server_read_channel_request E H s0 r =
    obind (read_or (read_u32 E r)) (\<lambda>(i, r).
    obind (read_or (read_string E r)) (\<lambda>(req, r).
    obind (read_or (read_byte E r)) (\<lambda>(want, r).
    let s = s_mark_reply i (want \<noteq> 0) s0
    in if req = bs ''pty-req'' then read_pty_req E H s i r
       else if req = bs ''x11-req'' then read_x11_req E H s i r
       else if req = bs ''env'' then read_env_req E H s i r
       else if req = bs ''shell'' then sh_call H (SbShell i) (s_to_channel i (RequestShell True) s)
       else if req = bs ''auth-agent-req@openssh.com'' then read_agent_req E H s i
       else if req = bs ''exec'' then
         obind (read_or (read_string E r)) (\<lambda>(command, _).
         sh_call H (SbExec i command) (s_to_channel i (Exec True command) s))
       else if req = bs ''subsystem'' then
         obind (read_str E r) (\<lambda>(name, _).
         sh_call H (SbSubsystem i name) (s_to_channel i (RequestSubsystem True name) s))
       else if req = bs ''window-change'' then read_window_change E H s i r
       else if req = bs ''signal'' then
         obind (read_or (read_string E r)) (\<lambda>(name, _).
         obind (Sig_from_name name) (\<lambda>sg.
         sh_call H (SbSignal i sg) (s_to_channel i (Signal sg) s)))
       else Server_channel_failure E i s)))"

section \<open>Global requests of an authenticated client\<close>

definition read_tcpip_forward where
  "read_tcpip_forward E H s r =
    obind (read_str E r) (\<lambda>(address, r).
    obind (read_or (read_u32 E r)) (\<lambda>(port, _).
    obind (sh_tcpip_forward H address port s) (\<lambda>(granted, returned_port, s1).
    Ok (s_with_enc (s_push E (if granted
          then REQUEST_SUCCESS # (if common_wants_reply (s_common s1) \<and> port = 0 \<and> returned_port \<noteq> 0
                                  then push_u32_be E returned_port else [])
          else [REQUEST_FAILURE])) s1))))"

definition read_cancel_tcpip_forward where
  "read_cancel_tcpip_forward E H s r =
    obind (read_str E r) (\<lambda>(address, r).
    obind (read_or (read_u32 E r)) (\<lambda>(port, _).
    obind (sh_ask H (AskCancelTcpipForward address port) s) (\<lambda>(granted, s1).
    Ok (s_with_enc (s_push E [if granted then REQUEST_SUCCESS else REQUEST_FAILURE]) s1))))"

definition Server_read_global_request ::
  "codec \<Rightarrow> ('z, 'p) server_handler \<Rightarrow> 'z server_session \<Rightarrow> bytes \<Rightarrow> (error, 'z server_session) outcome" where
  "Server_read_global_request E H s0 r =
    obind (read_or (read_string E r)) (\<lambda>(req, r).
    obind (read_or (read_byte E r)) (\<lambda>(want, r).
    let s = s0\<lparr>s_common := (s_common s0)\<lparr>common_wants_reply := (want \<noteq> 0)\<rparr>\<rparr>
    in if req = bs ''tcpip-forward'' then read_tcpip_forward E H s r
       else if req = bs ''cancel-tcpip-forward'' then read_cancel_tcpip_forward E H s r
       else Ok (s_with_enc (s_push E [REQUEST_FAILURE]) s)))"

definition s_pop_request where
  "s_pop_request s = s\<lparr>s_open_global_requests := tl (s_open_global_requests s)\<rparr>"

definition Server_read_request_success where
  "Server_read_request_success E s r =
    (case s_open_global_requests s of
       [] \<Rightarrow> s
     | Keepalive # _ \<Rightarrow> s_pop_request s
     | TcpIpForward w # _ \<Rightarrow>
         s_emit [ReplyPort w (if r = [] then Some 0 else map_option fst (read_u32 E r))] (s_pop_request s)
     | CancelTcpIpForward w # _ \<Rightarrow> s_emit [ReplyCancelled w True] (s_pop_request s))"

definition Server_read_request_failure where
  "Server_read_request_failure s =
    (case s_open_global_requests s of
       [] \<Rightarrow> s
     | Keepalive # _ \<Rightarrow> s_pop_request s
     | TcpIpForward w # _ \<Rightarrow> s_emit [ReplyPort w None] (s_pop_request s)
     | CancelTcpIpForward w # _ \<Rightarrow> s_emit [ReplyCancelled w False] (s_pop_request s))"

section \<open>Channels opened by the client\<close>

definition SSH_OPEN_ADMINISTRATIVELY_PROHIBITED :: u8 where [simp]: "SSH_OPEN_ADMINISTRATIVELY_PROHIBITED = 1"

definition client_channel :: "server_config \<Rightarrow> open_channel_message \<Rightarrow> channel_id \<Rightarrow> channel_params" where
  "client_channel cfg m i = \<lparr>recipient_channel = oc_recipient_channel m, sender_channel = i,
     recipient_window_size = oc_recipient_window_size m, sender_window_size = sc_window_size cfg,
     recipient_maximum_packet_size = oc_recipient_maximum_packet_size m,
     sender_maximum_packet_size = sc_maximum_packet_size cfg, confirmed = True, wants_reply = False,
     pending_data = [], pending_eof = False, pending_close = False\<rparr>"

definition finalize_channel_open ::
  "codec \<Rightarrow> open_channel_message \<Rightarrow> channel_params \<Rightarrow> bool \<Rightarrow> 'z server_session \<Rightarrow> 'z server_session" where
  "finalize_channel_open E m c allowed s =
    s_with_enc (\<lambda>enc.
      if allowed then enc\<lparr>write := OpenChannelMessage_confirm E m (write enc) (sender_channel c) (sender_window_size c)
            (sender_maximum_packet_size c), channels := (channels enc)(sender_channel c \<mapsto> c)\<rparr>
      else enc\<lparr>write := OpenChannelMessage_fail E m (write enc) SSH_OPEN_ADMINISTRATIVELY_PROHIBITED (bs ''Rejected'')\<rparr>) s"

fun open_question :: "nat \<Rightarrow> channel_type \<Rightarrow> server_question option" where
  "open_question ref SessionChannel = Some (AskOpenSession ref)"
| "open_question ref (X11 addr port) = Some (AskOpenX11 ref addr port)"
| "open_question ref (DirectTcpip d) = Some (AskOpenDirectTcpip ref d)"
| "open_question ref (ForwardedTcpIp d) = Some (AskOpenForwardedTcpip ref d)"
| "open_question ref AgentForwardChannel = None"
| "open_question ref (UnknownType _) = None"

definition server_handle_channel_open ::
  "codec \<Rightarrow> ('z, 'p) server_handler \<Rightarrow> 'z server_session \<Rightarrow> bytes \<Rightarrow> (error, 'z server_session) outcome" where
  "server_handle_channel_open E H s r =
    obind (OpenChannelMessage_parse E r) (\<lambda>(m, _).
    case s_enc s of
      None \<Rightarrow> Panic
    | Some enc \<Rightarrow>
        obind (Encrypted_new_channel_id enc) (\<lambda>(i, enc').
        let ref = s_next_ref s; c = client_channel (config (s_common s)) m i;
            s1 = s_set_enc enc' (s\<lparr>s_next_ref := ref + 1\<rparr>)
        in case open_question ref (oc_typ m) of
             Some q \<Rightarrow>
               obind (sh_ask H q (s_emit [NewChannel ref i (recipient_maximum_packet_size c) (recipient_window_size c)] s1))
                 (\<lambda>(allowed, s2).
               Ok (finalize_channel_open E m c allowed (s2\<lparr>s_refs := (s_refs s2)(i \<mapsto> ref)\<rparr>)))
           | None \<Rightarrow>
               Ok (s_with_enc (\<lambda>enc. enc\<lparr>write :=
                 (if oc_typ m = AgentForwardChannel
                  then OpenChannelMessage_fail E m (write enc) SSH_OPEN_ADMINISTRATIVELY_PROHIBITED (bs ''Unsupported channel type'')
                  else OpenChannelMessage_unknown_type E m (write enc))\<rparr>) s1)))"

section \<open>Messages of an authenticated client\<close>

definition Server_read_channel_close where
  "Server_read_channel_close E H s r =
    obind (read_or (read_u32 E r)) (\<lambda>(i, _).
    let s1 = s_with_enc (\<lambda>enc. enc\<lparr>channels := (channels enc)(i := None)\<rparr>) s
    in sh_call H (SbClose i) (s1\<lparr>s_refs := (s_refs s1)(i := None)\<rparr>))"

definition Server_read_channel_eof where
  "Server_read_channel_eof E H s r =
    obind (read_or (read_u32 E r)) (\<lambda>(i, _). sh_call H (SbEof i) (s_to_channel i Eof s))"

definition s_receive_window where
  "s_receive_window E H i d s =
    (case s_enc s of
       None \<Rightarrow> s
     | Some enc \<Rightarrow>
         (let (adjusted, enc') = adjust_window_size E enc i d (s_target_window_size s);
              s1 = s_set_enc enc' s; next_window = sh_adjust_window H i (s_target_window_size s)
          in if adjusted \<and> next_window > 0 then s1\<lparr>s_target_window_size := next_window\<rparr> else s1))"

definition Server_read_data ::
  "('z, 'p) server_env \<Rightarrow> moment \<Rightarrow> ('z, 'p) server_handler \<Rightarrow> bool \<Rightarrow> 'z server_session \<Rightarrow> bytes \<Rightarrow> (error, 'z server_session) outcome" where
  "Server_read_data V mo H extended s r =
    (let E = sv_codec V
     in obind (read_or (read_u32 E r)) (\<lambda>(i, r).
        obind (if extended then obind (read_or (read_u32 E r)) (\<lambda>(x, r). Ok (Some x, r)) else Ok (None, r)) (\<lambda>(ext, r).
        obind (read_or (read_string E r)) (\<lambda>(d, _).
        obind (Server_flush V mo (s_receive_window E H i d s)) (\<lambda>s1.
        case ext of
          Some x \<Rightarrow> sh_call H (SbExtendedData i x d) (s_to_channel i (ExtendedData d x) s1)
        | None \<Rightarrow> sh_call H (SbData i d) (s_to_channel i (Data d) s1))))))"

definition Server_read_window_adjust where
  "Server_read_window_adjust E H s r =
    obind (read_or (read_u32 E r)) (\<lambda>(i, r).
    obind (read_or (read_u32 E r)) (\<lambda>(amount, _).
    obind (case s_enc s of
             None \<Rightarrow> Ok (0, s)
           | Some enc \<Rightarrow>
               (case channels enc i of
                  None \<Rightarrow> Err WrongChannel
                | Some c \<Rightarrow>
                    (let size = recipient_window_size c + amount
                     in obind (flush_pending E (enc\<lparr>channels := (channels enc)(i \<mapsto> c\<lparr>recipient_window_size := size\<rparr>)\<rparr>) i)
                          (\<lambda>(_, enc'). Ok (size, s_set_enc enc' s))))) (\<lambda>(new_size, s1).
    sh_call H (SbWindowAdjusted i new_size)
      (case s_refs s1 i of
         Some ref \<Rightarrow> s_emit [SetWindow ref new_size, ToChannel ref (WindowAdjusted new_size)] s1
       | None \<Rightarrow> s1))))"

definition Server_read_open_confirmation where
  "Server_read_open_confirmation E H s r =
    obind (ChannelOpenConfirmation_parse E r) (\<lambda>(m, _).
    let i = coc_recipient_channel m
    in case s_enc s of
         None \<Rightarrow> Err Inconsistent
       | Some enc \<Rightarrow>
           (case channels enc i of
              None \<Rightarrow> Err Inconsistent
            | Some c \<Rightarrow>
                sh_call H (SbOpenConfirmation i (maximum_packet_size m) (initial_window_size m))
                  (s_to_channel i (Open i (maximum_packet_size m) (initial_window_size m))
                    (s_set_enc (enc\<lparr>channels := (channels enc)(i \<mapsto> ChannelParams_confirm c m)\<rparr>) s))))"

text \<open>A failure that the application no longer waits for, because it has dropped the channel, is an error.\<close>

definition Server_read_open_failure where
  "Server_read_open_failure E H s r =
    obind (read_or (read_u32 E r)) (\<lambda>(i, r).
    obind (read_or (read_u32 E r)) (\<lambda>(code, r).
    obind (read_str E r) (\<lambda>(_, r).
    obind (read_str E r) (\<lambda>(_, _).
    let reason = (case ChannelOpenFailure_from_u32 code of Some f \<Rightarrow> f | None \<Rightarrow> Unknown);
        s1 = s_with_enc (\<lambda>enc. enc\<lparr>channels := (channels enc)(i := None)\<rparr>) s
    in case s_refs s1 i of
         Some ref \<Rightarrow>
           if sh_holds H ref then Ok (s_emit [ToChannel ref (OpenFailure reason)] (s1\<lparr>s_refs := (s_refs s1)(i := None)\<rparr>))
           else Err SendError
       | None \<Rightarrow> Ok s1))))"

definition server_read_authenticated ::
  "('z, 'p) server_env \<Rightarrow> moment \<Rightarrow> ('z, 'p) server_handler \<Rightarrow> 'z server_session \<Rightarrow> bytes \<Rightarrow> (error, 'z server_session) outcome" where
  "server_read_authenticated V mo H s buf =
    (let E = sv_codec V
     in case buf of
       [] \<Rightarrow> Ok s
     | b # r \<Rightarrow>
         if b = CHANNEL_OPEN then server_handle_channel_open E H s r
         else if b = CHANNEL_CLOSE then Server_read_channel_close E H s r
         else if b = CHANNEL_EOF then Server_read_channel_eof E H s r
         else if b = CHANNEL_EXTENDED_DATA then Server_read_data V mo H True s r
         else if b = CHANNEL_DATA then Server_read_data V mo H False s r
         else if b = CHANNEL_WINDOW_ADJUST then Server_read_window_adjust E H s r
         else if b = CHANNEL_OPEN_CONFIRMATION then Server_read_open_confirmation E H s r
         else if b = CHANNEL_REQUEST then Server_read_channel_request E H s r
         else if b = GLOBAL_REQUEST then Server_read_global_request E H s r
         else if b = CHANNEL_OPEN_FAILURE then Server_read_open_failure E H s r
         else if b = REQUEST_SUCCESS then Ok (Server_read_request_success E s r)
         else if b = REQUEST_FAILURE then Ok (Server_read_request_failure s)
         else Ok s)"

end
