(* ===== verification/Server_Auth.thy ===== *)
theory Server_Auth
  imports Server_Session
begin

text \<open>
  The server's side of authentication (\<open>server/encrypted.rs\<close>): the request for the service, the methods \<open>none\<close>,
  \<open>password\<close>, \<open>publickey\<close> and \<open>keyboard-interactive\<close>, and \<open>process_packet\<close>, which chooses by the state of the session. The answers
  of the application are the field \<open>sh_auth\<close> of its handler; keys and their signatures are those of the key package.
  Proved: whom the server authenticates, and that a client and a server which know the same key
  authenticate each other over exactly the packets that both sides write.
\<close>

section \<open>Authentication\<close>

unbundle bit_operations_syntax

text \<open>The methods that a set contains, in the order of their declaration.\<close>

definition MethodSet_iter :: "u32 \<Rightarrow> u32 list" where
  "MethodSet_iter m = filter (\<lambda>f. m AND f = f)
     [METHOD_NONE, METHOD_PASSWORD, METHOD_PUBLICKEY, METHOD_HOSTBASED, METHOD_KEYBOARD_INTERACTIVE]"

definition server_accept_service :: "codec \<Rightarrow> bytes option \<Rightarrow> u32 \<Rightarrow> bytes \<Rightarrow> auth_request \<times> bytes" where
  "server_accept_service E banner ms w =
    (let w1 = push_packet E w (SERVICE_ACCEPT # extend_ssh_string E (bs ''ssh-userauth''));
         w2 = (case banner of
                 Some text \<Rightarrow> push_packet E w1 (USERAUTH_BANNER # extend_ssh_string E text @ extend_ssh_string E [])
               | None \<Rightarrow> w1)
     in (\<lparr>methods = ms, partial_success = False, current = None, rejection_count = 0\<rparr>, w2))"

definition reject_auth_request :: "codec \<Rightarrow> bytes \<Rightarrow> auth_request \<Rightarrow> auth_request \<times> bytes" where
  "reject_auth_request E w req =
    (req\<lparr>current := None, rejection_count := rejection_count req + 1\<rparr>,
     push_packet E w (USERAUTH_FAILURE # extend_list E (map MethodSet_bytes (MethodSet_iter (methods req)))
       @ [bool_byte (partial_success req)]))"

definition server_auth_request_success :: "codec \<Rightarrow> bytes \<Rightarrow> bytes" where
  "server_auth_request_success E w = push_packet E w [USERAUTH_SUCCESS]"

definition s_reject :: "codec \<Rightarrow> 'z ssh_encrypted \<Rightarrow> auth_request \<Rightarrow> 'z ssh_encrypted" where
  "s_reject E enc req =
    (let (req', w) = reject_auth_request E (write enc) req in enc\<lparr>state := WaitingAuthRequest req', write := w\<rparr>)"

definition s_accept :: "codec \<Rightarrow> 'z ssh_encrypted \<Rightarrow> 'z ssh_encrypted" where
  "s_accept E enc = enc\<lparr>write := server_auth_request_success E (write enc), state := InitCompression\<rparr>"

text \<open>A rejection names the methods that remain, or takes those of \<open>otherwise\<close>.\<close>

fun proceed_with :: "auth_answer \<Rightarrow> u32 \<Rightarrow> auth_request \<Rightarrow> auth_request" where
  "proceed_with (Auth_Reject (Some ms)) otherwise req = req\<lparr>methods := ms, partial_success := False\<rparr>"
| "proceed_with _ otherwise req = req\<lparr>methods := otherwise, partial_success := False\<rparr>"

text \<open>The methods \<open>password\<close> and \<open>none\<close>: the answer decides, and a rejected method is not offered again.\<close>

definition simple_answer ::
  "codec \<Rightarrow> 'z ssh_encrypted \<Rightarrow> auth_request \<Rightarrow> u32 \<Rightarrow> bytes \<Rightarrow> auth_answer \<Rightarrow> 'z ssh_encrypted \<times> bytes" where
  "simple_answer E enc req meth user answer =
    (if answer = Auth_Accept then (s_accept E enc, user)
     else (s_reject E enc (proceed_with answer (methods req AND NOT meth) req), []))"

definition reply_userauth_info_response ::
  "codec \<Rightarrow> auth_request \<Rightarrow> bytes \<Rightarrow> auth_answer \<Rightarrow> (error, bool \<times> auth_request \<times> bytes) outcome" where
  "reply_userauth_info_response E req w answer =
    (case answer of
       Auth_Accept \<Rightarrow> Ok (True, req, server_auth_request_success E w)
     | Auth_Reject _ \<Rightarrow> Ok (False, reject_auth_request E w (proceed_with answer (methods req) req))
     | Auth_Partial nm instructions prompts \<Rightarrow>
         Ok (False, req, push_packet E w (USERAUTH_INFO_REQUEST # extend_ssh_string E nm @ extend_ssh_string E instructions
           @ extend_ssh_string E [] @ push_u32_be E (of_nat (length prompts))
           @ concat (map (\<lambda>(a, b). extend_ssh_string E a @ [bool_byte b]) prompts)))
     | Auth_UnsupportedMethod \<Rightarrow> Panic)"

fun read_responses :: "codec \<Rightarrow> nat \<Rightarrow> bytes \<Rightarrow> bytes list" where
  "read_responses E 0 r = []"
| "read_responses E (Suc n) r = (case read_string E r of None \<Rightarrow> [] | Some (x, r') \<Rightarrow> x # read_responses E n r')"

definition read_userauth_info_response ::
  "codec \<Rightarrow> ('z, 'p) server_handler \<Rightarrow> bytes \<Rightarrow> auth_request \<Rightarrow> bytes \<Rightarrow> bytes \<Rightarrow>
   (error, bool \<times> auth_request \<times> bytes) outcome" where
  "read_userauth_info_response E H w req user b =
    (case current req of
       Some (CurrentKeyboardInteractive submethods) \<Rightarrow>
         obind (read_or (read_u32 E (drop 1 b))) (\<lambda>(n, r).
         obind (sh_auth H (AskKeyboardInteractive user submethods (Some (read_responses E (unat n) r)))) (\<lambda>answer.
         reply_userauth_info_response E req w answer))
     | _ \<Rightarrow> Ok (False, reject_auth_request E w req))"

text \<open>
  The method \<open>publickey\<close>. \<open>buf\<close> is the whole packet, \<open>r\<close> what follows the name of the method. What a client signs is
  the session identifier and the packet up to its key.
\<close>

definition offered_before :: "auth_request \<Rightarrow> bool" where
  "offered_before req = (case current req of Some (CurrentPublicKey _ _ sent_pk_ok) \<Rightarrow> sent_pk_ok | _ \<Rightarrow> False)"

definition s_verify_signature ::
  "codec \<Rightarrow> 'p client_key_lib \<Rightarrow> ('z, 'p) server_handler \<Rightarrow> 'z ssh_encrypted \<Rightarrow> auth_request \<Rightarrow> bytes \<Rightarrow> bytes \<Rightarrow> bytes \<Rightarrow> 'p \<Rightarrow> bool \<Rightarrow> bytes \<Rightarrow>
   (error, 'z ssh_encrypted \<times> bytes) outcome" where
  "s_verify_signature E K H enc req user init sg pk is_valid known =
    (if is_valid \<and> verify_client_auth K pk (extend_ssh_string E (session_id enc) @ init) sg then
       obind (sh_auth H (AskPublicKey user pk)) (\<lambda>answer.
       if answer = Auth_Accept then Ok (s_accept E enc, known)
       else Ok (s_reject E enc (proceed_with answer (methods req) req), []))
     else Ok (s_reject E enc req, known))"

definition s_signed_request ::
  "codec \<Rightarrow> 'p client_key_lib \<Rightarrow> ('z, 'p) server_handler \<Rightarrow> 'z ssh_encrypted \<Rightarrow> auth_request \<Rightarrow> bytes \<Rightarrow> bytes \<Rightarrow> bytes \<Rightarrow> bytes \<Rightarrow> 'p \<Rightarrow>
   (error, 'z ssh_encrypted \<times> bytes) outcome" where
  "s_signed_request E K H enc req known user init r pk0 =
    obind (read_or (read_string E r)) (\<lambda>(signature, _).
    obind (read_or (read_string E signature)) (\<lambda>(algo, sr).
    obind (read_or (read_string E sr)) (\<lambda>(sg, _).
    let pk = set_signature_hash K algo pk0
    in obind (if offered_before req \<and> user = known then Ok (True, known)
              else if known = [] then
                obind (sh_auth H (AskPublicKeyOffered user pk)) (\<lambda>answer. Ok (answer = Auth_Accept, user))
              else Ok (False, known)) (\<lambda>(is_valid, known1).
       s_verify_signature E K H enc req user init sg pk is_valid known1))))"

definition s_offered_request ::
  "codec \<Rightarrow> ('z, 'p) server_handler \<Rightarrow> 'z ssh_encrypted \<Rightarrow> auth_request \<Rightarrow> bytes \<Rightarrow> bytes \<Rightarrow> bytes \<Rightarrow> 'p \<Rightarrow>
   (error, 'z ssh_encrypted \<times> bytes) outcome" where
  "s_offered_request E H enc req user algo key pk =
    obind (sh_auth H (AskPublicKeyOffered user pk)) (\<lambda>answer.
    if answer = Auth_Accept then
      Ok (enc\<lparr>write := push_packet E (write enc) (USERAUTH_PK_OK # extend_ssh_string E algo @ extend_ssh_string E key),
              state := WaitingAuthRequest (req\<lparr>current := Some (CurrentPublicKey key algo True)\<rparr>)\<rparr>, user)
    else Ok (s_reject E enc (proceed_with answer (methods req) req), []))"

definition server_read_auth_request_pk ::
  "codec \<Rightarrow> 'p client_key_lib \<Rightarrow> ('z, 'p) server_handler \<Rightarrow> 'z ssh_encrypted \<Rightarrow> auth_request \<Rightarrow> bytes \<Rightarrow> bytes \<Rightarrow> bytes \<Rightarrow> bytes \<Rightarrow>
   (error, 'z ssh_encrypted \<times> bytes) outcome" where
  "server_read_auth_request_pk E K H enc req buf known user r =
    obind (read_or (read_byte E r)) (\<lambda>(is_real, r).
    obind (read_or (read_string E r)) (\<lambda>(algo, r).
    obind (read_or (read_string E r)) (\<lambda>(key, r).
    case parse_client_key K algo key of
      KeyFailed e \<Rightarrow> Err e
    | KeyRejected \<Rightarrow> Ok (s_reject E enc req, known)
    | KeyParsed pk \<Rightarrow>
        if is_real \<noteq> 0 then s_signed_request E K H enc req known user (take (length buf - length r) buf) r pk
        else s_offered_request E H enc req user algo key pk)))"

definition server_read_auth_request ::
  "codec \<Rightarrow> 'p client_key_lib \<Rightarrow> ('z, 'p) server_handler \<Rightarrow> 'z ssh_encrypted \<Rightarrow> auth_request \<Rightarrow> bytes \<Rightarrow> bytes \<Rightarrow>
   (error, 'z ssh_encrypted \<times> bytes) outcome" where
  "server_read_auth_request E K H enc req known buf =
    obind (read_str E (drop 1 buf)) (\<lambda>(user, r).
    obind (read_or (read_string E r)) (\<lambda>(service_name, r).
    obind (read_or (read_string E r)) (\<lambda>(meth, r).
    if service_name \<noteq> bs ''ssh-connection'' then Err Inconsistent
    else if meth = bs ''password'' then
      obind (read_or (read_byte E r)) (\<lambda>(_, r).
      obind (read_str E r) (\<lambda>(password, _).
      obind (sh_auth H (AskPassword user password)) (\<lambda>answer.
      Ok (simple_answer E enc req METHOD_PASSWORD user answer))))
    else if meth = bs ''publickey'' then server_read_auth_request_pk E K H enc req buf known user r
    else if meth = bs ''none'' then
      obind (sh_auth H (AskNone user)) (\<lambda>answer. Ok (simple_answer E enc req METHOD_NONE known answer))
    else if meth = bs ''keyboard-interactive'' then
      obind (read_or (read_string E r)) (\<lambda>(_, r).
      obind (read_str E r) (\<lambda>(submethods, _).
      obind (sh_auth H (AskKeyboardInteractive user submethods None)) (\<lambda>answer.
      obind (reply_userauth_info_response E (req\<lparr>current := Some (CurrentKeyboardInteractive submethods)\<rparr>) (write enc) answer)
        (\<lambda>(accepted, req', w).
      Ok (enc\<lparr>state := (if accepted then InitCompression else WaitingAuthRequest req'), write := w\<rparr>, user)))))
    else Ok (s_reject E enc req, known))))"

section \<open>A packet by the state of the session\<close>

definition s_authenticated :: "('z, 'p) server_env \<Rightarrow> ('z, 'p) server_handler \<Rightarrow> 'z server_session \<Rightarrow> (error, 'z server_session) outcome" where
  "s_authenticated V H s =
     sh_call H SbAuthSucceeded (s_with_enc (\<lambda>enc. enc\<lparr>decompress :=
       init_stream (sv_fresh V) (enc_client_compression enc) (decompress enc)\<rparr>) s)"

definition Server_process_packet ::
  "('z, 'p) server_env \<Rightarrow> moment \<Rightarrow> ('z, 'p) server_handler \<Rightarrow> 'z server_session \<Rightarrow> bytes \<Rightarrow> (error, 'z server_session) outcome" where
  "Server_process_packet V mo H s buf =
    (let E = sv_codec V; com = s_common s
     in case s_enc s of
       None \<Rightarrow> Panic
     | Some enc \<Rightarrow>
         (case state enc of
            WaitingAuthServiceRequest snt _ \<Rightarrow>
              if first_byte buf = Some SERVICE_REQUEST then
                obind (read_or (read_string E (drop 1 buf))) (\<lambda>(request, _).
                if request = bs ''ssh-userauth'' then
                  (let (req, w) = server_accept_service E (sc_auth_banner (config com)) (sc_methods (config com)) (write enc)
                   in Ok (s_set_enc (enc\<lparr>write := w, state := WaitingAuthRequest req\<rparr>) s))
                else Ok s)
              else Ok s
          | WaitingAuthRequest req \<Rightarrow>
              if first_byte buf = Some USERAUTH_REQUEST then
                obind (server_read_auth_request E (sv_keys V) H enc req (auth_user com) buf) (\<lambda>(enc', user).
                let s1 = (s_set_enc enc' s);
                    s2 = s1\<lparr>s_common := (s_common s1)\<lparr>auth_user := user, auth_attempts := auth_attempts com + 1\<rparr>\<rparr>
                in if state enc' = InitCompression then s_authenticated V H s2 else Ok s2)
              else if first_byte buf = Some USERAUTH_INFO_RESPONSE then
                obind (read_userauth_info_response E H (write enc) req (auth_user com) buf) (\<lambda>(accepted, req', w).
                if accepted then s_authenticated V H (s_set_enc (enc\<lparr>state := InitCompression, write := w\<rparr>) s)
                else Ok (s_set_enc (enc\<lparr>state := WaitingAuthRequest req', write := w\<rparr>) s))
              else Ok s
          | InitCompression \<Rightarrow>
              server_read_authenticated V mo H (s_set_enc (enc\<lparr>compress := init_stream (sv_fresh V) (enc_server_compression enc)
                (compress enc), state := Authenticated\<rparr>) s) buf
          | Authenticated \<Rightarrow> server_read_authenticated V mo H s buf))"

section \<open>Runs\<close>

text \<open>The packets of a client, each with the handler as it is then.\<close>

fun server_packets ::
  "('z, 'p) server_env \<Rightarrow> (moment \<times> ('z, 'p) server_handler \<times> bytes) list \<Rightarrow> 'z server_session \<Rightarrow> (error, 'z server_session) outcome" where
  "server_packets V [] s = Ok s"
| "server_packets V ((mo, H, buf) # es) s = obind (Server_process_packet V mo H s buf) (server_packets V es)"

text \<open>
  What authenticates a user: a packet in which that user asks, with a method that the application accepts for the
  user, and with the method \<open>publickey\<close> also a signature of the accepted key over the session identifier and
  the packet up to its key.
\<close>

definition auth_fields :: "codec \<Rightarrow> bytes \<Rightarrow> (error, bytes \<times> bytes \<times> bytes) outcome" where
  "auth_fields E buf =
    obind (read_str E (drop 1 buf)) (\<lambda>(user, r).
    obind (read_or (read_string E r)) (\<lambda>(service_name, r).
    obind (read_or (read_string E r)) (\<lambda>(meth, r).
    if service_name = bs ''ssh-connection'' then Ok (user, meth, r) else Err Inconsistent)))"

definition signed_by :: "('z, 'p) server_env \<Rightarrow> bytes \<Rightarrow> bytes \<Rightarrow> bytes \<Rightarrow> 'p \<Rightarrow> bool" where
  "signed_by V sid buf r pk \<longleftrightarrow>
    (\<exists>flag r1 algo r2 key r3 pk0 signature r4 hash sr sg sr'. read_byte (sv_codec V) r = Some (flag, r1) \<and> flag \<noteq> 0
       \<and> read_string (sv_codec V) r1 = Some (algo, r2) \<and> read_string (sv_codec V) r2 = Some (key, r3)
       \<and> parse_client_key (sv_keys V) algo key = KeyParsed pk0 \<and> read_string (sv_codec V) r3 = Some (signature, r4)
       \<and> read_string (sv_codec V) signature = Some (hash, sr) \<and> read_string (sv_codec V) sr = Some (sg, sr')
       \<and> pk = set_signature_hash (sv_keys V) hash pk0
       \<and> verify_client_auth (sv_keys V) pk (extend_ssh_string (sv_codec V) sid @ take (length buf - length r3) buf) sg)"

definition grants :: "('z, 'p) server_env \<Rightarrow> bytes \<Rightarrow> ('z, 'p) server_handler \<Rightarrow> bytes \<Rightarrow> bool" where
  "grants V sid H buf \<longleftrightarrow>
    (\<exists>user meth r. auth_fields (sv_codec V) buf = Ok (user, meth, r) \<and> first_byte buf = Some USERAUTH_REQUEST \<and>
       (meth = bs ''none'' \<and> sh_auth H (AskNone user) = Ok Auth_Accept
        \<or> meth = bs ''password'' \<and> (\<exists>flag r1 password r2. read_byte (sv_codec V) r = Some (flag, r1)
             \<and> read_str (sv_codec V) r1 = Ok (password, r2) \<and> sh_auth H (AskPassword user password) = Ok Auth_Accept)
        \<or> meth = bs ''publickey'' \<and> (\<exists>pk. sh_auth H (AskPublicKey user pk) = Ok Auth_Accept \<and> signed_by V sid buf r pk)
        \<or> meth = bs ''keyboard-interactive'' \<and> (\<exists>submethods. sh_auth H (AskKeyboardInteractive user submethods None) = Ok Auth_Accept)))
    \<or> (\<exists>user submethods n r. first_byte buf = Some USERAUTH_INFO_RESPONSE \<and> read_u32 (sv_codec V) (drop 1 buf) = Some (n, r)
         \<and> sh_auth H (AskKeyboardInteractive user submethods (Some (read_responses (sv_codec V) (unat n) r))) = Ok Auth_Accept)"

definition still_waiting :: "bytes \<Rightarrow> 'z server_session \<Rightarrow> bool" where
  "still_waiting sid s \<longleftrightarrow> (\<exists>enc. s_enc s = Some enc \<and> waiting (state enc) \<and> session_id enc = sid)"

lemma s_enc_simps [simp]:
  "s_enc (s_set_enc enc s) = Some enc" "s_enc (s_emit os s) = s_enc s" "s_enc (s_to_channel i m s) = s_enc s"
  "s_enc (s_with_enc f s) = map_option f (s_enc s)"
  by (simp_all add: s_enc_def s_set_enc_def s_emit_def s_to_channel_def s_with_enc_def split: option.split)

lemma s_reject_waits [simp]: "waiting (state (s_reject E enc req))" "session_id (s_reject E enc req) = session_id enc"
  "state (s_reject E enc req) \<noteq> InitCompression"
  by (simp_all add: s_reject_def reject_auth_request_def)

lemma read_or_Ok: "read_or x = Ok y \<longleftrightarrow> x = Some y"
  by (cases x) simp_all

lemma obind_OkE: "obind m f = Ok y \<Longrightarrow> (\<And>x. m = Ok x \<Longrightarrow> f x = Ok y \<Longrightarrow> P) \<Longrightarrow> P"
  by (auto simp: obind_Ok_iff)

lemma signed_request_grants:
  assumes "s_signed_request E K H enc req known user init r pk0 = Ok (enc', known')"
  shows "waiting (state enc') \<and> session_id enc' = session_id enc
    \<or> (\<exists>signature r' hash sr sg sr'. read_string E r = Some (signature, r') \<and> read_string E signature = Some (hash, sr)
         \<and> read_string E sr = Some (sg, sr') \<and> sh_auth H (AskPublicKey user (set_signature_hash K hash pk0)) = Ok Auth_Accept
         \<and> verify_client_auth K (set_signature_hash K hash pk0) (extend_ssh_string E (session_id enc) @ init) sg)"
proof -
  obtain signature r' algo sr sg sr' ok known1 where rd: "read_string E r = Some (signature, r')" "read_string E signature = Some (algo, sr)"
    "read_string E sr = Some (sg, sr')"
    and "s_verify_signature E K H enc req user init sg (set_signature_hash K algo pk0) ok known1 = Ok (enc', known')"
    using assms unfolding s_signed_request_def Let_def by (elim obind_OkE) (auto elim!: obind_OkE simp: read_or_Ok)
  then show ?thesis by (auto simp: s_verify_signature_def obind_Ok_iff split: if_split_asm)
qed

lemma publickey_grants:
  assumes "server_read_auth_request_pk (sv_codec V) (sv_keys V) H enc req buf known user r = Ok (enc', known')"
  shows "waiting (state enc') \<and> session_id enc' = session_id enc
    \<or> (\<exists>pk. sh_auth H (AskPublicKey user pk) = Ok Auth_Accept \<and> signed_by V (session_id enc) buf r pk)"
proof -
  let ?E = "sv_codec V" and ?K = "sv_keys V"
  obtain real r1 algo r2 key r' where rd: "read_byte ?E r = Some (real, r1)" "read_string ?E r1 = Some (algo, r2)"
    "read_string ?E r2 = Some (key, r')" and c: "(case parse_client_key ?K algo key of
      KeyFailed e \<Rightarrow> Err e
    | KeyRejected \<Rightarrow> Ok (s_reject ?E enc req, known)
    | KeyParsed pk \<Rightarrow>
        if real \<noteq> (0 :: u8) then s_signed_request ?E ?K H enc req known user (take (length buf - length r') buf) r' pk
        else s_offered_request ?E H enc req user algo key pk) = Ok (enc', known')"
    using assms unfolding server_read_auth_request_pk_def by (elim obind_OkE) (auto elim!: obind_OkE simp: read_or_Ok)
  show ?thesis
  proof (cases "parse_client_key ?K algo key")
    case (KeyParsed pk0)
    show ?thesis
    proof (cases "real = 0")
      case True
      then show ?thesis using c KeyParsed by (auto simp: s_offered_request_def obind_Ok_iff split: if_split_asm)
    next
      case False
      with c KeyParsed have "s_signed_request ?E ?K H enc req known user (take (length buf - length r') buf) r' pk0 = Ok (enc', known')" by simp
      from signed_request_grants [OF this] KeyParsed False rd show ?thesis unfolding signed_by_def by blast
    qed
  qed (use c in auto)
qed

lemma info_response_grants:
  assumes "reply_userauth_info_response E req w answer = Ok (True, req', w')"
  shows "answer = Auth_Accept"
  using assms by (auto simp: reply_userauth_info_response_def reject_auth_request_def split: auth_answer.split_asm)

lemma request_grants:
  assumes "server_read_auth_request (sv_codec V) (sv_keys V) H enc req known buf = Ok (enc', known')" "session_id enc = sid"
    and "first_byte buf = Some USERAUTH_REQUEST"
  shows "waiting (state enc') \<and> session_id enc' = sid \<or> grants V sid H buf"
proof -
  let ?E = "sv_codec V"
  obtain user r service r1 meth r2 where rd: "read_str ?E (drop 1 buf) = Ok (user, r)"
    "read_or (read_string ?E r) = Ok (service, r1)" "read_or (read_string ?E r1) = Ok (meth, r2)" "service = bs ''ssh-connection''"
    using assms(1) by (auto simp: server_read_auth_request_def outcome_simps split: if_split_asm)
  then have f: "auth_fields ?E buf = Ok (user, meth, r2)" by (simp add: auth_fields_def)
  consider (pk) "server_read_auth_request_pk ?E (sv_keys V) H enc req buf known user r2 = Ok (enc', known')" "meth = bs ''publickey''"
    | (none) answer u where "sh_auth H (AskNone user) = Ok answer" "simple_answer ?E enc req METHOD_NONE u answer = (enc', known')"
        "meth = bs ''none''"
    | (password) flag r3 pass r4 answer u where "read_byte ?E r2 = Some (flag, r3)" "read_str ?E r3 = Ok (pass, r4)"
        "sh_auth H (AskPassword user pass) = Ok answer" "simple_answer ?E enc req METHOD_PASSWORD u answer = (enc', known')"
        "meth = bs ''password''"
    | (interactive) submethods answer req1 accepted req' w where "sh_auth H (AskKeyboardInteractive user submethods None) = Ok answer"
        "reply_userauth_info_response ?E req1 (write enc) answer = Ok (accepted, req', w)"
        "enc' = enc\<lparr>state := (if accepted then InitCompression else WaitingAuthRequest req'), write := w\<rparr>"
        "meth = bs ''keyboard-interactive''"
    | (rejected) "enc' = s_reject ?E enc req"
    using assms(1) rd unfolding server_read_auth_request_def obind_Ok_iff
    by (auto simp: obind_Ok_iff read_or_Ok split: if_split_asm)
  then show ?thesis
  proof cases
    case pk
    from publickey_grants [OF this(1)] assms(2,3) f pk(2) show ?thesis unfolding grants_def by blast
  next
    case none
    then show ?thesis using f assms(2,3) by (auto simp: simple_answer_def grants_def split: if_split_asm)
  next
    case password
    then show ?thesis using f assms(2,3) by (cases "answer = Auth_Accept") (fastforce simp: simple_answer_def grants_def)+
  next
    case interactive
    then show ?thesis using f assms(2,3) by (cases accepted) (auto simp: grants_def dest!: info_response_grants)
  next
    case rejected
    then show ?thesis using assms(2) by simp
  qed
qed

lemma process_grants:
  assumes "Server_process_packet V mo H s buf = Ok s'" "still_waiting sid s"
  shows "still_waiting sid s' \<or> grants V sid H buf"
proof -
  let ?E = "sv_codec V"
  obtain enc where enc: "s_enc s = Some enc" "waiting (state enc)" "session_id enc = sid"
    using assms(2) by (auto simp: still_waiting_def)
  show ?thesis
  proof (cases "state enc")
    case (WaitingAuthServiceRequest a b)
    then show ?thesis using assms(1) enc
      by (auto simp: Server_process_packet_def server_accept_service_def still_waiting_def Let_def obind_Ok_iff split: if_split_asm)
  next
    case (WaitingAuthRequest req)
    note st = this
    consider (request) enc' user where "server_read_auth_request ?E (sv_keys V) H enc req (auth_user (s_common s)) buf = Ok (enc', user)"
        "first_byte buf = Some USERAUTH_REQUEST" "state enc' = InitCompression \<or> s_enc s' = Some enc'"
      | (response) accepted req' w where "read_userauth_info_response ?E H (write enc) req (auth_user (s_common s)) buf = Ok (accepted, req', w)"
        "first_byte buf = Some USERAUTH_INFO_RESPONSE" "accepted \<or> s_enc s' = Some (enc\<lparr>state := WaitingAuthRequest req', write := w\<rparr>)"
      | (none) "s' = s"
      using assms(1) enc(1) st by (auto simp: Server_process_packet_def s_enc_def s_set_enc_def Let_def obind_Ok_iff split: if_split_asm)
    then show ?thesis
    proof cases
      case request
      then show ?thesis using request_grants [OF request(1) enc(3) request(2)] by (auto simp: still_waiting_def)
    next
      case response
      then show ?thesis
        using enc(3)
        by (auto dest!: info_response_grants simp: read_userauth_info_response_def reject_auth_request_def still_waiting_def grants_def obind_Ok_iff read_or_Ok
            split: option.split_asm current_request.split_asm)
    next
      case none
      then show ?thesis using assms(2) by simp
    qed
  qed (use enc in auto)
qed

lemma packets_grant:
  assumes "server_packets V es s = Ok s'" "still_waiting sid s" "\<not> still_waiting sid s'"
  shows "\<exists>(mo, H, buf) \<in> set es. grants V sid H buf"
  using assms
proof (induction V es s rule: server_packets.induct)
  case (2 V mo H buf es s)
  then obtain s1 where "Server_process_packet V mo H s buf = Ok s1" "server_packets V es s1 = Ok s'" by (auto simp: obind_Ok_iff)
  with 2 process_grants [of V mo H s buf s1 sid] show ?case by (cases "still_waiting sid s1") auto
qed auto

section \<open>Authentication with a key, on both sides\<close>

text \<open>
  What a client's key and the server's key package have to do with each other: the server reads the key that the client
  names, and verifies what it signs.
\<close>

definition keys_match :: "'p client_key_lib \<Rightarrow> key_pair \<Rightarrow> 'p \<Rightarrow> bytes \<Rightarrow> 'p \<Rightarrow> bytes \<Rightarrow> bool" where
  "keys_match K key pk algo pk' d \<longleftrightarrow>
    (\<exists>blob sg. key_blob key = rfc_string blob \<and> length blob < 2 ^ 32 \<and> parse_client_key K (key_name key) blob = KeyParsed pk
       \<and> length (key_name key) < 2 ^ 32 \<and> length (rfc_string algo @ rfc_string sg) < 2 ^ 32
       \<and> add_self_signature key d = Ok (rfc_string (rfc_string algo @ rfc_string sg))
       \<and> set_signature_hash K algo pk = pk' \<and> verify_client_auth K pk' d sg)"

lemma rfc_codec: "extend_ssh_string rfc4251 = rfc_string"
  by (simp add: rfc4251_def)

lemma rfc_reads:
  assumes "length x < 2 ^ 32"
  shows "read_string rfc4251 (rfc_string x @ y) = Some (x, y)" "read_string rfc4251 (rfc_string x) = Some (x, [])"
  using rfc.read_ssh_string [OF assms] read_rfc [OF assms] by (simp_all add: rfc_codec)

lemma service_request_rfc: "read_string rfc4251 (drop (Suc 0) service_request) = Some (bs ''ssh-userauth'', [])"
proof -
  have "length (bs ''ssh-userauth'') < 2 ^ 32" by simp
  from rfc_reads(2) [OF this] show ?thesis by (simp add: service_request_def rfc_string_def be32_def)
qed

lemma server_service:
  assumes "sv_codec V = rfc4251" "s_enc s = Some enc" "state enc = WaitingAuthServiceRequest a b" "sc_auth_banner (config (s_common s)) = None"
  shows "Server_process_packet V mo H s service_request = Ok (s_set_enc (enc\<lparr>write :=
      push_packet rfc4251 (write enc) (SERVICE_ACCEPT # rfc_string (bs ''ssh-userauth'')), state := WaitingAuthRequest \<lparr>methods = sc_methods (config (s_common s)),
      partial_success = False, current = None, rejection_count = 0\<rparr>\<rparr>) s)"
  using assms service_request_rfc
  by (simp add: Server_process_packet_def Let_def service_request_def server_accept_service_def rfc_codec)

lemma auth_prefix_reads:
  assumes "length user < 2 ^ 32" "utf8_valid user" "meth = bs ''publickey''"
  shows "read_str rfc4251 (drop 1 (auth_prefix rfc4251 user meth @ r))
      = Ok (user, rfc_string (bs ''ssh-connection'') @ rfc_string meth @ r)"
    "read_string rfc4251 (rfc_string (bs ''ssh-connection'') @ r') = Some (bs ''ssh-connection'', r')"
    "read_string rfc4251 (rfc_string meth @ r') = Some (meth, r')"
proof -
  show "read_str rfc4251 (drop 1 (auth_prefix rfc4251 user meth @ r))
      = Ok (user, rfc_string (bs ''ssh-connection'') @ rfc_string meth @ r)"
    using assms by (simp add: auth_prefix_def rfc_codec read_str_def rfc_reads from_utf8_or_def from_utf8_def)
qed (use assms in \<open>simp_all add: rfc_reads\<close>)

lemma server_pk_request:
  assumes "sv_codec V = rfc4251" "s_enc s = Some enc" "state enc = WaitingAuthRequest req"
    and "length user < 2 ^ 32" "utf8_valid user"
    and "server_read_auth_request_pk rfc4251 (sv_keys V) H enc req (auth_prefix rfc4251 user (bs ''publickey'') @ r)
          (auth_user (s_common s)) user r = Ok (enc', known)"
  shows "Server_process_packet V mo H s (auth_prefix rfc4251 user (bs ''publickey'') @ r) =
    (let s1 = s_set_enc enc' s; s2 = s1\<lparr>s_common := (s_common s1)\<lparr>auth_user := known, auth_attempts := auth_attempts (s_common s) + 1\<rparr>\<rparr>
     in if state enc' = InitCompression then s_authenticated V H s2 else Ok s2)"
proof -
  note rd = auth_prefix_reads [OF assms(4,5) refl]
  have pk: "bs ''publickey'' \<noteq> bs ''password''" by (simp add: bs_def)
  have "server_read_auth_request rfc4251 (sv_keys V) H enc req (auth_user (s_common s)) (auth_prefix rfc4251 user (bs ''publickey'') @ r)
      = Ok (enc', known)"
    unfolding server_read_auth_request_def rd(1) using pk by (simp add: rd(2,3) assms(6))
  then show ?thesis using assms(1-3) by (simp add: Server_process_packet_def auth_prefix_def Let_def)
qed

lemma rfc_read_byte: "read_byte rfc4251 (x # r) = Some (x, r)"
  by (simp add: rfc4251_def)

lemma server_offer:
  assumes "keys_match K key pk algo pk' d" "sh_auth H (AskPublicKeyOffered user pk) = Ok Auth_Accept"
  obtains blob where "key_blob key = rfc_string blob"
    "server_read_auth_request_pk rfc4251 K H enc req buf known user (0 # rfc_string (key_name key) @ key_blob key)
      = Ok (enc\<lparr>write := write enc @ framed rfc4251 [USERAUTH_PK_OK # rfc_string (key_name key) @ key_blob key],
                state := WaitingAuthRequest (req\<lparr>current := Some (CurrentPublicKey blob (key_name key) True)\<rparr>)\<rparr>, user)"
proof -
  obtain blob where b: "key_blob key = rfc_string blob" "length blob < 2 ^ 32" "parse_client_key K (key_name key) blob = KeyParsed pk"
    "length (key_name key) < 2 ^ 32" using assms(1) unfolding keys_match_def by blast
  show ?thesis
    using b(2-4) assms(2)
    by (intro that [OF b(1)]) (simp add: server_read_auth_request_pk_def rfc_read_byte rfc_reads b(1) s_offered_request_def rfc_codec
        push_packet_framed)
qed

lemma server_signature:
  assumes "keys_match K key pk algo pk' (rfc_string (session_id enc) @ signed_request rfc4251 user key)"
    and "sh_auth H (AskPublicKey user pk') = Ok Auth_Accept" "offered_before req"
    and "add_self_signature key (rfc_string (session_id enc) @ signed_request rfc4251 user key) = Ok sg"
  shows "server_read_auth_request_pk rfc4251 K H enc req (signed_request rfc4251 user key @ sg) user user
      (1 # rfc_string (key_name key) @ key_blob key @ sg)
    = Ok (enc\<lparr>write := write enc @ framed rfc4251 [[USERAUTH_SUCCESS]], state := InitCompression\<rparr>, user)"
proof -
  obtain blob s where b: "key_blob key = rfc_string blob" "length blob < 2 ^ 32" "parse_client_key K (key_name key) blob = KeyParsed pk"
    "length (key_name key) < 2 ^ 32" "length (rfc_string algo @ rfc_string s) < 2 ^ 32"
    "sg = rfc_string (rfc_string algo @ rfc_string s)" "set_signature_hash K algo pk = pk'"
    "verify_client_auth K pk' (rfc_string (session_id enc) @ signed_request rfc4251 user key) s"
    using assms(1,4) unfolding keys_match_def by auto
  have "length algo < 2 ^ 32" "length s < 2 ^ 32" using b(5) by (simp_all add: rfc_string_def)
  with b(2-5) show ?thesis
    using assms(2,3) b(8)
    by (simp add: server_read_auth_request_pk_def rfc_read_byte rfc_reads b(1,6,7) s_signed_request_def s_verify_signature_def
        Let_def rfc_codec s_accept_def server_auth_request_success_def push_packet_framed)
qed

definition server_answers :: "key_pair \<Rightarrow> bytes list" where
  "server_answers key = [SERVICE_ACCEPT # rfc_string (bs ''ssh-userauth''),
     USERAUTH_PK_OK # rfc_string (key_name key) @ key_blob key, [USERAUTH_SUCCESS]]"

definition pk_offer :: "bytes \<Rightarrow> key_pair \<Rightarrow> bytes" where
  "pk_offer user key = auth_prefix rfc4251 user (bs ''publickey'') @ 0 # rfc_string (key_name key) @ key_blob key"

lemma server_offer_run:
  assumes "sv_codec V = rfc4251" "s_enc s = Some enc" "state enc = WaitingAuthServiceRequest a b" "sc_auth_banner (config (s_common s)) = None"
    and "length user < 2 ^ 32" "utf8_valid user" "keys_match (sv_keys V) key pk algo pk' d"
    and "sh_auth H (AskPublicKeyOffered user pk) = Ok Auth_Accept"
  obtains s2 enc2 req where "server_packets V [(m1, H, service_request), (m2, H, pk_offer user key)] s = Ok s2" "s_enc s2 = Some enc2"
    "auth_user (s_common s2) = user" "state enc2 = WaitingAuthRequest req" "offered_before req" "session_id enc2 = session_id enc"
    "write enc2 = write enc @ framed rfc4251 (take 2 (server_answers key))"
proof -
  define req0 where "req0 = \<lparr>methods = sc_methods (config (s_common s)), partial_success = False, current = None, rejection_count = 0\<rparr>"
  define enc1 where "enc1 = enc\<lparr>write := push_packet rfc4251 (write enc) (SERVICE_ACCEPT # rfc_string (bs ''ssh-userauth'')),
    state := WaitingAuthRequest req0\<rparr>"
  note step1 = server_service [OF assms(1-4), of m1 H, folded req0_def, folded enc1_def]
  define s1 where "s1 = s_set_enc enc1 s"
  obtain blob where off: "server_read_auth_request_pk rfc4251 (sv_keys V) H enc1 req0 (pk_offer user key)
       (auth_user (s_common s1)) user (0 # rfc_string (key_name key) @ key_blob key)
      = Ok (enc1\<lparr>write := write enc1 @ framed rfc4251 [USERAUTH_PK_OK # rfc_string (key_name key) @ key_blob key],
                state := WaitingAuthRequest (req0\<lparr>current := Some (CurrentPublicKey blob (key_name key) True)\<rparr>)\<rparr>, user)"
    by (rule server_offer [OF assms(7,8)])
  have "s_enc s1 = Some enc1" "state enc1 = WaitingAuthRequest req0" by (simp_all add: s1_def enc1_def)
  note step2 = server_pk_request [OF assms(1) this assms(5,6) off [unfolded pk_offer_def], of m2, folded pk_offer_def]
  define req1 where "req1 = req0\<lparr>current := Some (CurrentPublicKey blob (key_name key) True)\<rparr>"
  define enc2 where "enc2 = enc1\<lparr>write := write enc1 @ framed rfc4251 [USERAUTH_PK_OK # rfc_string (key_name key) @ key_blob key],
    state := WaitingAuthRequest req1\<rparr>"
  show ?thesis
  proof (rule that [of _ enc2 req1])
    show "server_packets V [(m1, H, service_request), (m2, H, pk_offer user key)] s = Ok (s_set_enc enc2 s1\<lparr>s_common :=
        (s_common (s_set_enc enc2 s1))\<lparr>auth_user := user, auth_attempts := auth_attempts (s_common s1) + 1\<rparr>\<rparr>)"
      using step1 step2 by (simp add: s1_def Let_def enc2_def req1_def)
  qed (simp_all add: s_enc_def s_set_enc_def enc2_def enc1_def req1_def offered_before_def server_answers_def push_packet_framed
      framed_append [symmetric])
qed

lemma server_signature_run:
  assumes "sv_codec V = rfc4251" "s_enc s = Some enc" "state enc = WaitingAuthRequest req" "offered_before req" "auth_user (s_common s) = user"
    and "length user < 2 ^ 32" "utf8_valid user"
    and "keys_match (sv_keys V) key pk algo pk' (rfc_string (session_id enc) @ signed_request rfc4251 user key)"
    and "add_self_signature key (rfc_string (session_id enc) @ signed_request rfc4251 user key) = Ok sg"
    and "sh_auth H (AskPublicKey user pk') = Ok Auth_Accept" "\<And>s. sh_call H SbAuthSucceeded s = Ok s"
  shows "\<exists>s' enc'. Server_process_packet V mo H s (signed_request rfc4251 user key @ sg) = Ok s'
      \<and> s_enc s' = Some enc' \<and> state enc' = InitCompression \<and> auth_user (s_common s') = user
      \<and> write enc' = write enc @ framed rfc4251 [[USERAUTH_SUCCESS]]"
proof -
  define enc3 where "enc3 = enc\<lparr>write := write enc @ framed rfc4251 [[USERAUTH_SUCCESS]], state := InitCompression\<rparr>"
  have sgn: "server_read_auth_request_pk rfc4251 (sv_keys V) H enc req
      (auth_prefix rfc4251 user (bs ''publickey'') @ 1 # rfc_string (key_name key) @ key_blob key @ sg)
      (auth_user (s_common s)) user (1 # rfc_string (key_name key) @ key_blob key @ sg) = Ok (enc3, user)"
    using server_signature [of "sv_keys V" key pk algo pk' enc user H req sg] assms(4,5,8-10)
    by (simp add: enc3_def signed_request_def rfc_codec)
  from server_pk_request [OF assms(1-3) assms(6,7) sgn, of mo] assms(11) show ?thesis
    by (simp add: s_authenticated_def s_enc_def s_set_enc_def s_with_enc_def enc3_def signed_request_def rfc_codec Let_def)
qed

lemma server_packets_append: "server_packets V (es @ fs) s = obind (server_packets V es s) (server_packets V fs)"
proof (induction V es s rule: server_packets.induct)
  case (2 V mo H buf es s)
  then show ?case by (cases "Server_process_packet V mo H s buf") simp_all
qed simp

lemma server_publickey_run:
  assumes "sv_codec V = rfc4251" "s_enc s = Some enc" "state enc = WaitingAuthServiceRequest a b" "sc_auth_banner (config (s_common s)) = None"
    and "length user < 2 ^ 32" "utf8_valid user"
    and "keys_match (sv_keys V) key pk algo pk' (rfc_string (session_id enc) @ signed_request rfc4251 user key)"
    and "add_self_signature key (rfc_string (session_id enc) @ signed_request rfc4251 user key) = Ok sg"
    and "sh_auth H (AskPublicKeyOffered user pk) = Ok Auth_Accept" "sh_auth H (AskPublicKey user pk') = Ok Auth_Accept"
    and "\<And>s. sh_call H SbAuthSucceeded s = Ok s"
  shows "\<exists>s' enc'. server_packets V [(m1, H, service_request), (m2, H, pk_offer user key),
        (m3, H, signed_request rfc4251 user key @ sg)] s = Ok s'
      \<and> s_enc s' = Some enc' \<and> state enc' = InitCompression \<and> auth_user (s_common s') = user
      \<and> write enc' = write enc @ framed rfc4251 (server_answers key)"
proof -
  obtain s2 enc2 req where s2: "server_packets V [(m1, H, service_request), (m2, H, pk_offer user key)] s = Ok s2" "s_enc s2 = Some enc2"
    "auth_user (s_common s2) = user" "state enc2 = WaitingAuthRequest req" "offered_before req" "session_id enc2 = session_id enc"
    "write enc2 = write enc @ framed rfc4251 (take 2 (server_answers key))"
    by (rule server_offer_run [OF assms(1-7) assms(9)])
  from assms(7,8) s2(6) have k: "keys_match (sv_keys V) key pk algo pk' (rfc_string (session_id enc2) @ signed_request rfc4251 user key)"
    "add_self_signature key (rfc_string (session_id enc2) @ signed_request rfc4251 user key) = Ok sg" by simp_all
  obtain s3 enc3 where s3: "Server_process_packet V m3 H s2 (signed_request rfc4251 user key @ sg) = Ok s3" "s_enc s3 = Some enc3"
    "state enc3 = InitCompression" "auth_user (s_common s3) = user" "write enc3 = write enc2 @ framed rfc4251 [[USERAUTH_SUCCESS]]"
    using server_signature_run [OF assms(1) s2(2,4,5,3) assms(5,6) k assms(10,11), of m3] by blast
  have "server_answers key = take 2 (server_answers key) @ [[USERAUTH_SUCCESS]]" by (simp add: server_answers_def)
  then have "write enc3 = write enc @ framed rfc4251 (server_answers key)" using s2(7) s3(5) framed_append by (metis append_assoc)
  then show ?thesis
    using s2(1) s3 server_packets_append [of V "[(m1, H, service_request), (m2, H, pk_offer user key)]" "[(m3, H, signed_request rfc4251 user key @ sg)]" s]
    by simp
qed

lemma publickey_meets:
  assumes "sv_codec V = rfc4251" "s_enc s = Some senc" "state senc = WaitingAuthServiceRequest a b" "sc_auth_banner (config (s_common s)) = None"
    and "session_id senc = nk_session_id nk" "write senc = []" "length user < 2 ^ 32" "utf8_valid user"
    and "keys_match (sv_keys V) key pk algo pk' (rfc_string (nk_session_id nk) @ signed_request rfc4251 user key)"
    and "sh_auth SH (AskPublicKeyOffered user pk) = Ok Auth_Accept" "sh_auth SH (AskPublicKey user pk') = Ok Auth_Accept"
    and "\<And>s. sh_call SH SbAuthSucceeded s = Ok s"
    and "handle_alive q" "SealingKey_write rfc4251 K (nk_cipher nk) service_request (write_buffer com) = Ok (c, wb)"
  shows "\<exists>signed t enc s' senc'.
      run (client_event_step rfc4251 K fresh H) (q, Session_new target (CommonSession_encrypted com (WaitingAuthServiceRequest False False) nk start))
        (Cmd (Authenticate user (Method_PublicKey key)) # map Packet (server_answers key) @ [Turn]) (q, t)
    \<and> enc_of t = Some enc \<and> state enc = Authenticated \<and> write_buffer (common t) = wb
    \<and> write enc = framed rfc4251 [pk_offer user key, signed]
    \<and> server_packets V [(m1, SH, service_request), (m2, SH, pk_offer user key), (m3, SH, signed)] s = Ok s'
    \<and> s_enc s' = Some senc' \<and> state senc' = InitCompression \<and> auth_user (s_common s') = user
    \<and> write senc' = framed rfc4251 (server_answers key)"
proof -
  let ?d = "rfc_string (nk_session_id nk) @ signed_request rfc4251 user key"
  obtain sg where sg: "add_self_signature key ?d = Ok sg" using assms(9) unfolding keys_match_def by auto
  from publickey_run [OF rfc.ssh_encoding_axioms assms(13,14), of key user sg fresh H target start "rfc_string (key_name key) @ key_blob key"] sg
  obtain t enc where t: "run (client_event_step rfc4251 K fresh H) (q, Session_new target (CommonSession_encrypted com (WaitingAuthServiceRequest False False) nk start))
        (Cmd (Authenticate user (Method_PublicKey key)) # map Packet (server_answers key) @ [Turn]) (q, t)"
    "enc_of t = Some enc" "state enc = Authenticated" "write_buffer (common t) = wb"
    "write enc = framed rfc4251 [pk_offer user key, signed_request rfc4251 user key @ sg]"
    by (auto simp add: server_answers_def rfc_codec pk_offer_def simp del: run_Cons)
  from server_publickey_run [OF assms(1-4) assms(7,8), of key pk algo pk' sg SH m1 m2 m3] assms(5,6,9-12) sg
  obtain s' senc' where "server_packets V [(m1, SH, service_request), (m2, SH, pk_offer user key),
        (m3, SH, signed_request rfc4251 user key @ sg)] s = Ok s'"
      "s_enc s' = Some senc'" "state senc' = InitCompression" "auth_user (s_common s') = user"
      "write senc' = framed rfc4251 (server_answers key)" by auto
  with t show ?thesis by blast
qed

section \<open>A concrete server\<close>

text \<open>
  A key package in which the bytes of a key are the key and a signature names the key and the length of what it signs;
  an application that accepts joe with the key 9.
\<close>

definition demo_client_keys :: "bytes client_key_lib" where
  "demo_client_keys = \<lparr>parse_client_key = (\<lambda>_ blob. KeyParsed blob), set_signature_hash = (\<lambda>_ pk. pk),
     verify_client_auth = (\<lambda>pk d sg. sg = pk @ be32 (of_nat (length d)))\<rparr>"

definition demo_pair :: key_pair where
  "demo_pair = \<lparr>key_name = bs ''ssh-ed25519'', key_blob = rfc_string [9],
     add_self_signature = (\<lambda>d. Ok (rfc_string (rfc_string (bs ''ssh-ed25519'') @ rfc_string (9 # be32 (of_nat (length d))))))\<rparr>"

fun demo_answer :: "bytes auth_question \<Rightarrow> (error, auth_answer) outcome" where
  "demo_answer (AskPublicKeyOffered user pk) = Ok (if user = bs ''joe'' \<and> pk = [9] then Auth_Accept else Auth_Reject None)"
| "demo_answer (AskPublicKey user pk) = Ok (if user = bs ''joe'' \<and> pk = [9] then Auth_Accept else Auth_Reject None)"
| "demo_answer _ = Ok (Auth_Reject None)"

definition demo_server_handler :: "(unit, bytes) server_handler" where
  "demo_server_handler = default_server_handler\<lparr>sh_auth := demo_answer\<rparr>"

definition demo_server_env :: "(unit, bytes) server_env" where
  "demo_server_env = \<lparr>sv_codec = rfc4251, sv_kex = demo_kex_lib, sv_crypto = null_crypto,
     sv_zlib = (\<lambda>z d. Ok (d, z)), sv_unzlib = (\<lambda>z d. Ok (d, z)), sv_fresh = (\<lambda>_. ()), sv_keys = demo_client_keys\<rparr>"

definition demo_server_config :: server_config where
  "demo_server_config = \<lparr>sc_server_id = Standard demo_sid, sc_methods = METHOD_PUBLICKEY, sc_auth_banner = None,
     sc_keys = [demo_server_key], sc_limits = Limits_default, sc_window_size = 2097152, sc_maximum_packet_size = 32768,
     sc_preferred = demo_pref, sc_max_auth_attempts = 10, sc_inactivity_timeout = None, sc_keepalive_interval = None,
     sc_keepalive_max = 3\<rparr>"

definition demo_server_common :: "unit server_common" where
  "demo_server_common = \<lparr>auth_user = [], remote_sshid = [], config = demo_server_config, encrypted_of = None,
     auth_method = None, auth_attempts = 0, write_buffer = SSHBuffer_new, kex_of = None, cipher = (ClearKey, ClearKey),
     common_wants_reply = False, disconnected = False, common_buffer = [], common_strict_kex = False,
     alive_timeouts = 0, received_data = False\<rparr>"

definition demo_server_keys :: "(kex_alg, cipher_key \<times> cipher_key) new_keys" where
  "demo_server_keys = \<lparr>nk_exchange = Exchange_new, nk_names = demo_negotiated, nk_kex = NoneKex, nk_key = 0,
     nk_cipher = (ClearKey, ClearKey), nk_session_id = [1, 2, 3], nk_sent = True\<rparr>"

definition demo_server_start :: "unit server_session" where
  "demo_server_start = \<lparr>s_common = CommonSession_encrypted demo_server_common (WaitingAuthServiceRequest False False) demo_server_keys 0,
     s_refs = Map.empty, s_next_ref = 0, s_target_window_size = 100, s_pending_reads = [], s_pending_len = 0,
     s_open_global_requests = [], s_outbox = []\<rparr>"

lemma demo_keys_match:
  "keys_match demo_client_keys demo_pair [9] (bs ''ssh-ed25519'') [9] (rfc_string [1, 2, 3] @ signed_request rfc4251 (bs ''joe'') demo_pair)"
  unfolding keys_match_def
  by (intro exI conjI) (simp_all add: demo_pair_def demo_client_keys_def rfc_string_def)

lemma demo_sshd:
  "sv_codec demo_server_env = rfc4251" "sv_keys demo_server_env = demo_client_keys"
  "s_enc demo_server_start = encrypted_of (CommonSession_encrypted demo_server_common (WaitingAuthServiceRequest False False) demo_server_keys 0)"
  "sc_auth_banner (config (s_common demo_server_start)) = None"
  "sh_auth demo_server_handler = demo_answer" "sh_call demo_server_handler b s = Ok s"
  by (simp_all add: demo_server_env_def demo_server_start_def s_enc_def CommonSession_encrypted_def demo_server_common_def
      demo_server_config_def demo_server_handler_def default_server_handler_def)

lemma demo_server_enc:
  obtains enc where "s_enc demo_server_start = Some enc" "state enc = WaitingAuthServiceRequest False False"
    "session_id enc = [1, 2, 3]" "write enc = []"
  by (simp add: demo_sshd(3) CommonSession_encrypted_def demo_server_keys_def)

lemma joe_utf8: "length (bs ''joe'') < 2 ^ 32" "utf8_valid (bs ''joe'')"
  by (simp, simp add: bs_def in_range_def)

lemma demo_server_run:
  "\<exists>es s' enc. server_packets demo_server_env es demo_server_start = Ok s' \<and> s_enc s' = Some enc \<and> state enc = InitCompression"
proof -
  obtain enc where enc: "s_enc demo_server_start = Some enc" "state enc = WaitingAuthServiceRequest False False"
    "session_id enc = [1, 2, 3]" "write enc = []" by (rule demo_server_enc)
  obtain sg where "add_self_signature demo_pair (rfc_string [1, 2, 3] @ signed_request rfc4251 (bs ''joe'') demo_pair) = Ok sg"
    by (simp add: demo_pair_def)
  with server_publickey_run [OF demo_sshd(1) enc(1,2) demo_sshd(4) joe_utf8, of demo_pair "[9]" "bs ''ssh-ed25519''" "[9]" sg demo_server_handler]
  show ?thesis using demo_keys_match enc(3) by (simp add: demo_sshd(2,5,6) del: server_packets.simps) blast
qed

section \<open>Properties\<close>

text \<open>
  C3: The server authenticates nobody without a grant: from a session that has just become encrypted, for every
  sequence of packets and every answers of the application, a session that no longer waits for authentication
  has read a packet which the application accepted: its user without a method, with the password it carries, with its
  interactive answers, or with a key whose signature, read from the packet, is verified over the session identifier and
  the packet up to and with that key.
\<close>

theorem server_authenticated_granted:
  assumes "server_packets V es s = Ok s'" "s_common s = CommonSession_encrypted com (WaitingAuthServiceRequest a b) nk start"
    and "s_enc s' = Some enc" "state enc = InitCompression \<or> state enc = Authenticated"
  shows "\<exists>(mo, H, buf) \<in> set es. grants V (nk_session_id nk) H buf"
proof (rule packets_grant [OF assms(1)])
  show "still_waiting (nk_session_id nk) s" using assms(2) by (simp add: still_waiting_def s_enc_def CommonSession_encrypted_def)
  show "\<not> still_waiting (nk_session_id nk) s'" using assms(3,4) by (auto simp: still_waiting_def)
qed

text \<open>
  C16: Authentication with a key succeeds between the two sides: a client that holds the key, and a server whose
  application accepts the key for the user, with the packages for keys in agreement and the same session identifier. The server
  reads the request for the service, the offer of the key and the signed request, which are what the client writes, and
  writes the three answers which are what the client reads; at the end the client is authenticated and the server has
  accepted the user.
\<close>

theorem publickey_both_sides:
  assumes "sv_codec V = rfc4251" "s_enc s = Some senc" "state senc = WaitingAuthServiceRequest a b" "sc_auth_banner (config (s_common s)) = None"
    and "session_id senc = nk_session_id nk" "write senc = []" "length user < 2 ^ 32" "utf8_valid user"
    and "keys_match (sv_keys V) key pk algo pk' (rfc_string (nk_session_id nk) @ signed_request rfc4251 user key)"
    and "sh_auth SH (AskPublicKeyOffered user pk) = Ok Auth_Accept" "sh_auth SH (AskPublicKey user pk') = Ok Auth_Accept"
    and "\<And>s. sh_call SH SbAuthSucceeded s = Ok s"
    and "handle_alive q" "SealingKey_write rfc4251 K (nk_cipher nk) service_request (write_buffer com) = Ok (c, wb)"
  shows "\<exists>signed t enc s' senc'.
      run (client_event_step rfc4251 K fresh H) (q, Session_new target (CommonSession_encrypted com (WaitingAuthServiceRequest False False) nk start))
        (Cmd (Authenticate user (Method_PublicKey key)) # map Packet (server_answers key) @ [Turn]) (q, t)
    \<and> enc_of t = Some enc \<and> state enc = Authenticated \<and> write_buffer (common t) = wb
    \<and> write enc = framed rfc4251 [pk_offer user key, signed]
    \<and> server_packets V [(m1, SH, service_request), (m2, SH, pk_offer user key), (m3, SH, signed)] s = Ok s'
    \<and> s_enc s' = Some senc' \<and> state senc' = InitCompression \<and> auth_user (s_common s') = user
    \<and> write senc' = framed rfc4251 (server_answers key)"
  by (rule publickey_meets [OF assms])

theorem publickey_both_sides_witness:
  "\<exists>signed t enc s' senc'.
      run (client_event_step rfc4251 clear_sealing (\<lambda>_. ()) default_handler) (demo_queues, demo_start (WaitingAuthServiceRequest False False))
        (Cmd (Authenticate (bs ''joe'') (Method_PublicKey demo_pair)) # map Packet (server_answers demo_pair) @ [Turn]) (demo_queues, t)
    \<and> enc_of t = Some enc \<and> state enc = Authenticated
    \<and> server_packets demo_server_env [(demo_moment, demo_server_handler, service_request), (demo_moment, demo_server_handler, pk_offer (bs ''joe'') demo_pair),
        (demo_moment, demo_server_handler, signed)] demo_server_start = Ok s'
    \<and> s_enc s' = Some senc' \<and> state senc' = InitCompression \<and> auth_user (s_common s') = bs ''joe''"
proof -
  obtain c wb where "SealingKey_write rfc4251 clear_sealing (nk_cipher demo_keys) service_request
      (write_buffer demo_common) = Ok (c, wb)" using demo_sealed by blast
  note w = this
  obtain enc where enc: "s_enc demo_server_start = Some enc" "state enc = WaitingAuthServiceRequest False False"
    "session_id enc = nk_session_id demo_keys" "write enc = []"
    using demo_server_enc by (auto simp: demo_keys_def)
  have k: "keys_match (sv_keys demo_server_env) demo_pair [9] (bs ''ssh-ed25519'') [9]
      (rfc_string (nk_session_id demo_keys) @ signed_request rfc4251 (bs ''joe'') demo_pair)"
    using demo_keys_match by (simp add: demo_sshd(2) demo_keys_def)
  from publickey_both_sides [OF demo_sshd(1) enc(1,2) demo_sshd(4) enc(3,4) joe_utf8 k _ _ demo_sshd(6) _ w,
      of demo_queues "\<lambda>_. ()" default_handler 100 0 demo_moment demo_moment demo_moment]
  show ?thesis by (simp add: demo_sshd(5) demo_queues_def demo_start_def del: run_Cons server_packets.simps) blast
qed

theorem server_authenticated_granted_witness:
  "\<exists>es s' enc. server_packets demo_server_env es demo_server_start = Ok s' \<and> s_enc s' = Some enc \<and> state enc = InitCompression
    \<and> (\<exists>(mo, H, buf) \<in> set es. grants demo_server_env [1, 2, 3] H buf)"
proof -
  obtain es s' enc where r: "server_packets demo_server_env es demo_server_start = Ok s'" "s_enc s' = Some enc" "state enc = InitCompression"
    using demo_server_run by blast
  have s: "s_common demo_server_start = CommonSession_encrypted demo_server_common (WaitingAuthServiceRequest False False) demo_server_keys 0"
    by (simp add: demo_server_start_def)
  from server_authenticated_granted [OF r(1) s r(2) disjI1 [OF r(3)]]
  have "\<exists>(mo, H, buf) \<in> set es. grants demo_server_env [1, 2, 3] H buf" by (simp add: demo_server_keys_def)
  with r show ?thesis by blast
qed

end
