(* ===== verification/Server_Channels.thy ===== *)
theory Server_Channels
  imports Server_Auth
begin

text \<open>
  Channels between a client and a server of the library: what the client writes, read by the server. The terminal of \<open>request_pty\<close>
  with its modes.
\<close>

section \<open>A terminal requested by the client\<close>

definition mode_bytes :: "(pty \<times> u32) list \<Rightarrow> bytes" where
  "mode_bytes ms = concat (map (\<lambda>(code, value). code # be32 value) ms) @ [0]"

definition known_modes :: "(pty \<times> u32) list \<Rightarrow> bool" where
  "known_modes ms = list_all (\<lambda>(code, _). Pty_from_u8 code = Some code) ms"

lemma length_mode_bytes: "length (mode_bytes ms) = 1 + 5 * length ms"
  by (induction ms) (auto simp: mode_bytes_def)

lemma be_read_u32_rfc: "be_read_u32 rfc4251 (be32 w @ r) = w"
  by (simp add: rfc4251_def)

lemma read_modes_inverse: "known_modes ms \<Longrightarrow> read_modes rfc4251 (mode_bytes ms) = Ok ms"
proof (induction ms)
  case (Cons m ms)
  obtain code w where m: "m = (code, w)" by (cases m)
  with Cons.prems have code: "Pty_from_u8 code = Some code" "code \<noteq> 0" and ms: "known_modes ms"
    by (auto simp: known_modes_def Pty_from_u8_def split: if_split_asm)
  have "mode_bytes (m # ms) = code # be32 w @ mode_bytes ms" by (simp add: mode_bytes_def m)
  with code Cons.IH [OF ms] show ?case by (simp add: be_read_u32_rfc m)
qed (simp add: mode_bytes_def known_modes_def)

lemma read_modes_slots:
  "known_modes ms \<Longrightarrow> length ms < 2 ^ 29 \<Longrightarrow>
   read_string rfc4251 (be32 (of_nat (1 + 5 * length ms)) @ mode_bytes ms) = Some (mode_bytes ms, [])"
  using rfc_read_string_inverse [of "mode_bytes ms" "[]"] by (simp add: rfc4251_def rfc_string_def length_mode_bytes)

definition pty_packet :: "channel_id \<Rightarrow> bool \<Rightarrow> bytes \<Rightarrow> u32 \<Rightarrow> u32 \<Rightarrow> u32 \<Rightarrow> u32 \<Rightarrow> (pty \<times> u32) list \<Rightarrow> bytes" where
  "pty_packet i want term w h pw ph ms = CHANNEL_REQUEST # be32 i @ rfc_string (bs ''pty-req'') @ bool_byte want # rfc_string term
     @ be32 w @ be32 h @ be32 pw @ be32 ph @ be32 (of_nat (1 + 5 * length ms)) @ mode_bytes ms"

lemma request_pty_packet:
  assumes "enc_of c = Some cenc" "channels cenc ch = Some p"
  shows "enc_of (request_pty rfc4251 ch want term w h pw ph ms c) =
    Some (cenc\<lparr>write := write cenc @ framed rfc4251 [pty_packet (recipient_channel p) want term w h pw ph ms]\<rparr>)"
  using assms by (simp add: request_pty_def channel_request_def with_enc_def enc_of_def pty_packet_def rfc4251_def mode_bytes_def
      push_packet_framed)

lemma read_pty_packet:
  assumes "sv_codec V = rfc4251" "known_modes ms" "length ms < 2 ^ 29" "length term < 2 ^ 32" "utf8_valid term"
  shows "server_read_authenticated V mo H s (pty_packet i want term w h pw ph ms) =
    (if 130 < length ms then Panic
     else sh_call H (SbPty i term w h pw ph ms) (s_to_channel i (RequestPty True term w h pw ph (ms @ replicate (130 - length ms) (0, 0)))
       (s_mark_reply i want s)))"
proof -
  have rd: "read_u32 rfc4251 (be32 x @ r) = Some (x, r)" "read_string rfc4251 (rfc_string term @ r) = Some (term, r)"
    "read_string rfc4251 (rfc_string (bs ''pty-req'') @ r) = Some (bs ''pty-req'', r)" "read_byte rfc4251 (y # r) = Some (y, r)" for x r y
    using assms(4) rfc_read_string_inverse by (simp_all add: rfc4251_def)
  have byte: "(bool_byte want \<noteq> 0) = want" by (simp add: bool_byte_def)
  show ?thesis
    using assms(5) read_modes_slots [OF assms(2,3)] read_modes_inverse [OF assms(2)]
    by (simp add: server_read_authenticated_def assms(1) pty_packet_def Server_read_channel_request_def read_pty_req_def rd read_str_def
        from_utf8_or_def from_utf8_def Let_def byte)
qed

text \<open>
  C37: A terminal that the client requests is the terminal that the server's application is asked for, with its size and its
  modes: the packet that \<open>request_pty\<close> writes for up to 130 known modes is read as exactly these modes, the same
  that the channel receives, in 130 slots.
\<close>

theorem pty_request_received:
  assumes "enc_of c = Some cenc" "channels cenc ch = Some p" "recipient_channel p = i" "sv_codec V = rfc4251"
    and "known_modes ms" "length ms \<le> 130" "length term < 2 ^ 32" "utf8_valid term"
  shows "enc_of (request_pty rfc4251 ch want term w h pw ph ms c) =
      Some (cenc\<lparr>write := write cenc @ framed rfc4251 [pty_packet i want term w h pw ph ms]\<rparr>)
    \<and> server_read_authenticated V mo H s (pty_packet i want term w h pw ph ms) =
      sh_call H (SbPty i term w h pw ph ms) (s_to_channel i (RequestPty True term w h pw ph (ms @ replicate (130 - length ms) (0, 0)))
        (s_mark_reply i want s))"
  using request_pty_packet [OF assms(1,2)] read_pty_packet [OF assms(4,5) _ assms(7,8)] assms(3,6) by simp

text \<open>
  C38: A client that requests a terminal with more than 130 modes stops the server's session: slicing the 130 slots panics.
\<close>

theorem pty_request_panics:
  assumes "sv_codec V = rfc4251" "known_modes ms" "130 < length ms" "length ms < 2 ^ 29" "length term < 2 ^ 32" "utf8_valid term"
  shows "server_read_authenticated V mo H s (pty_packet i want term w h pw ph ms) = Panic"
  using read_pty_packet [OF assms(1,2,4-6)] assms(3) by simp



section \<open>Witnesses\<close>

definition demo_client_channel :: "(unit, unit, unit, auth_scheme) client_session" where
  "demo_client_channel = (case enc_of (demo_start Authenticated) of
     Some enc \<Rightarrow> set_enc (enc\<lparr>channels := [3 \<mapsto> demo_channel]\<rparr>) (demo_start Authenticated) | None \<Rightarrow> demo_start Authenticated)"

lemma demo_client_channel_enc:
  "\<exists>enc. enc_of demo_client_channel = Some enc \<and> channels enc 3 = Some demo_channel \<and> write enc = []"
  by (simp add: demo_client_channel_def enc_of_def demo_start_def Session_new_def CommonSession_encrypted_def set_enc_def)

lemma xterm_utf8: "length (bs ''xterm'') < 2 ^ 32" "utf8_valid (bs ''xterm'')"
  by (simp, simp add: bs_def in_range_def)

theorem pty_request_received_witness:
  "(\<exists>cenc. enc_of (request_pty rfc4251 3 True (bs ''xterm'') 80 24 0 0 [(1, 3), (53, 1)] demo_client_channel) = Some cenc
     \<and> write cenc = framed rfc4251 [pty_packet 7 True (bs ''xterm'') 80 24 0 0 [(1, 3), (53, 1)]])
   \<and> server_read_authenticated demo_server_env demo_moment demo_server_handler demo_server_start
       (pty_packet 7 True (bs ''xterm'') 80 24 0 0 [(1, 3), (53, 1)]) =
     Ok (s_to_channel 7 (RequestPty True (bs ''xterm'') 80 24 0 0 ([(1, 3), (53, 1)] @ replicate 128 (0, 0)))
       (s_mark_reply 7 True demo_server_start))"
proof -
  obtain enc where enc: "enc_of demo_client_channel = Some enc" "channels enc 3 = Some demo_channel" "write enc = []"
    using demo_client_channel_enc by blast
  have "known_modes [(1, 3), (53, 1)]" "recipient_channel demo_channel = 7"
    by (simp_all add: known_modes_def Pty_from_u8_def demo_channel_def)
  from pty_request_received [OF enc(1,2) this(2) demo_sshd(1) this(1) _ xterm_utf8, of True 80 24 0 0 demo_moment demo_server_handler
      demo_server_start] enc(3)
  show ?thesis by (simp add: demo_sshd(6))
qed

theorem pty_request_panics_witness:
  "server_read_authenticated demo_server_env demo_moment demo_server_handler demo_server_start
     (pty_packet 7 True (bs ''xterm'') 80 24 0 0 (replicate 131 (1, 0))) = Panic"
proof -
  have "known_modes (replicate 131 (1, 0))" by (simp add: known_modes_def list_all_iff Pty_from_u8_def)
  from pty_request_panics [OF demo_sshd(1) this _ _ xterm_utf8] show ?thesis by simp
qed

end
