(* ===== verification/Server_Loop.thy ===== *)
theory Server_Loop
  imports Server_Channels Client_Handle
begin

text \<open>
  A connection of the server (\<open>server/mod.rs\<close>, \<open>server/session.rs\<close>, \<open>server/encrypted.rs\<close>): the identification, the key exchange and
  the re-exchange by packet and state, the messages of a \<open>Handle\<close>, and the loop around \<open>select!\<close>. A turn draws the
  handler as it is then, so the application may change its mind between turns. Proved: in every run, only a request
  that the application grants ends the wait for authentication.
\<close>

section \<open>Packets before the session is encrypted\<close>

record 'z server_loop =
  sl_session :: "'z server_session"
  sl_input :: sshbuffer
  sl_stream :: bytes
  sl_sent :: bytes

abbreviation s_set_common :: "'z server_session \<Rightarrow> 'z server_common \<Rightarrow> 'z server_session" where
  "s_set_common s c \<equiv> s\<lparr>s_common := c\<rparr>"

definition SERVER_STRICT_KEX_MSG_ORDER :: "u8 list" where
  "SERVER_STRICT_KEX_MSG_ORDER = [KEXINIT, KEX_ECDH_INIT, NEWKEYS]"

definition server_reply_init ::
  "('z, 'p) server_env \<Rightarrow> moment \<Rightarrow> 'z server_loop \<Rightarrow> bytes \<Rightarrow> kex_init \<Rightarrow> (error, 'z server_loop) outcome" where
  "server_reply_init V mo l buf kexinit =
    (let s = sl_session l; com = s_common s; cfg = config com
     in if ki_algo kexinit \<noteq> None \<or> first_byte buf = Some KEXINIT then
          obind (KexInit_server_parse (sv_codec V) (sc_preferred cfg) (cookie mo) (sc_keys cfg) buf kexinit) (\<lambda>(ps, kex).
          obind (s_seal_packets V ps com) (\<lambda>com1.
          let strict = (case kex of Dh d \<Rightarrow> strict_kex (dh_names d) | _ \<Rightarrow> common_strict_kex com1)
          in if strict \<and> seqn (sl_input l) \<noteq> 1
             then Err (strict_kex_violation KEXINIT ((unat (seqn (sl_input l)) + (2 ^ 64 - 1)) mod 2 ^ 64))
             else Ok (l\<lparr>sl_session := s_set_common s (com1\<lparr>kex_of := Some kex, common_strict_kex := strict\<rparr>)\<rparr>)))
        else Ok l)"

definition server_reply_dh ::
  "('z, 'p) server_env \<Rightarrow> moment \<Rightarrow> 'z server_loop \<Rightarrow> bytes \<Rightarrow> kex_dh \<Rightarrow> (error, 'z server_loop) outcome" where
  "server_reply_dh V mo l buf kexdh =
    (let s = sl_session l; com = s_common s
     in obind (KexDh_parse (sv_codec V) (sv_kex V) (entropy.truncate mo) (sc_keys (config com)) buf kexdh) (\<lambda>(ps, kex).
        obind (s_seal_packets V ps com) (\<lambda>com1.
        let com2 = com1\<lparr>kex_of := Some kex\<rparr>
        in Ok (l\<lparr>sl_session := s_set_common s (case kex of KexKeys _ \<Rightarrow> CommonSession_maybe_reset_seqn com2 | _ \<Rightarrow> com2)\<rparr>))))"

definition server_reply_newkeys ::
  "('z, 'p) server_env \<Rightarrow> moment \<Rightarrow> 'z server_loop \<Rightarrow> bytes \<Rightarrow> (kex_alg, cipher_key \<times> cipher_key) new_keys \<Rightarrow>
   (error, 'z server_loop) outcome" where
  "server_reply_newkeys V mo l buf newkeys =
    (if first_byte buf \<noteq> Some NEWKEYS then Err KexError
     else
       (let s = sl_session l;
            com = CommonSession_encrypted ((s_common s)\<lparr>kex_of := None\<rparr>) (WaitingAuthServiceRequest False False) newkeys (now mo);
            s1 = maybe_send_ext_info (sv_codec V) (s_set_common s com)
        in Ok (l\<lparr>sl_session := s1,
                sl_input := (if common_strict_kex (s_common s1) then (sl_input l)\<lparr>seqn := 0\<rparr> else sl_input l)\<rparr>)))"

section \<open>Key re-exchange\<close>

text \<open>\<open>server_read_encrypted\<close> by what the packet and the state of the re-exchange are.\<close>

definition server_rekey_kexinit ::
  "('z, 'p) server_env \<Rightarrow> server_config \<Rightarrow> bytes \<Rightarrow> 'z ssh_encrypted \<Rightarrow> (error, kex_init option \<times> 'z ssh_encrypted) outcome" where
  "server_rekey_kexinit V cfg buf enc =
    (case rekey enc of
       Some (Init kexinit) \<Rightarrow> Ok (Some kexinit, enc\<lparr>rekey := None\<rparr>)
     | _ \<Rightarrow>
       (case exchange_of enc of
          Some ex \<Rightarrow>
            obind (read_kex (sv_codec V) True buf (sc_preferred cfg) (Some (map sk_name (sc_keys cfg)))) (\<lambda>algo.
            Ok (Some (KexInit_received_rekey ex algo (session_id enc)), enc\<lparr>rekey := None, exchange_of := None\<rparr>))
        | None \<Rightarrow> Ok (None, enc\<lparr>rekey := None\<rparr>)))"

definition server_rekey_answer ::
  "('z, 'p) server_env \<Rightarrow> moment \<Rightarrow> 'z server_common \<Rightarrow> 'z ssh_encrypted \<Rightarrow> bytes \<Rightarrow> kex_init \<Rightarrow> (error, 'z server_common) outcome" where
  "server_rekey_answer V mo com enc buf ki =
    obind (KexInit_server_parse (sv_codec V) (sc_preferred (config com)) (cookie mo) (sc_keys (config com)) buf ki) (\<lambda>(ps, kex).
    obind (s_seal_packets V ps com) (\<lambda>com1.
    Ok (com1\<lparr>encrypted_of := Some (enc\<lparr>rekey := Some kex\<rparr>),
         common_strict_kex := (common_strict_kex com1 \<or> (case kex of Dh d \<Rightarrow> strict_kex (dh_names d) | _ \<Rightarrow> False))\<rparr>)))"

definition server_rekey_init ::
  "('z, 'p) server_env \<Rightarrow> moment \<Rightarrow> 'z server_session \<Rightarrow> 'z ssh_encrypted \<Rightarrow> bytes \<Rightarrow> (error, 'z server_session) outcome" where
  "server_rekey_init V mo s enc buf =
    (let com = s_common s
     in obind (server_rekey_kexinit V (config com) buf enc) (\<lambda>(kexinit, enc1).
        obind (case kexinit of
                 None \<Rightarrow> Ok (com\<lparr>encrypted_of := Some enc1\<rparr>)
               | Some ki \<Rightarrow> server_rekey_answer V mo com enc1 buf ki) (\<lambda>com1.
        Server_flush V mo (s_set_common s com1))))"

definition server_rekey_dh ::
  "('z, 'p) server_env \<Rightarrow> moment \<Rightarrow> 'z server_session \<Rightarrow> 'z ssh_encrypted \<Rightarrow> bytes \<Rightarrow> kex_dh \<Rightarrow> (error, 'z server_session) outcome" where
  "server_rekey_dh V mo s enc buf kexdh =
    (let com = s_common s
     in obind (KexDh_parse (sv_codec V) (sv_kex V) (entropy.truncate mo) (sc_keys (config com)) buf kexdh) (\<lambda>(ps, kex).
        obind (s_seal_packets V ps com) (\<lambda>com1.
        let com2 = com1\<lparr>encrypted_of := Some (enc\<lparr>rekey := Some kex\<rparr>)\<rparr>
        in Server_flush V mo (s_set_common s (case kex of KexKeys _ \<Rightarrow> CommonSession_maybe_reset_seqn com2 | _ \<Rightarrow> com2)))))"

fun Server_process_packets ::
  "('z, 'p) server_env \<Rightarrow> moment \<Rightarrow> ('z, 'p) server_handler \<Rightarrow> bytes list \<Rightarrow> 'z server_session \<Rightarrow> (error, 'z server_session) outcome" where
  "Server_process_packets V mo H [] s = Ok s"
| "Server_process_packets V mo H (p # ps) s = obind (Server_process_packet V mo H s p) (Server_process_packets V mo H ps)"

definition server_rekey_newkeys ::
  "('z, 'p) server_env \<Rightarrow> moment \<Rightarrow> ('z, 'p) server_handler \<Rightarrow> 'z server_loop \<Rightarrow> 'z ssh_encrypted \<Rightarrow> bytes \<Rightarrow>
   (kex_alg, cipher_key \<times> cipher_key) new_keys \<Rightarrow> (error, 'z server_loop) outcome" where
  "server_rekey_newkeys V mo H l enc buf newkeys =
    (if first_byte buf \<noteq> Some NEWKEYS then Err KexError
     else
       (let s = sl_session l; com = s_common s
        in obind (flush_all_pending (sv_codec V) (visit mo) (enc\<lparr>rekey := None, last_rekey := now mo\<rparr>)) (\<lambda>enc1.
           let s1 = s\<lparr>s_common := com\<lparr>write_buffer := (write_buffer com)\<lparr>buf_bytes := 0\<rparr>, encrypted_of := Some enc1\<rparr>,
                      s_pending_reads := []\<rparr>
           in obind (Server_process_packets V mo H (s_pending_reads s) s1) (\<lambda>s2.
              let s3 = s2\<lparr>s_pending_reads := [], s_pending_len := 0, s_common := CommonSession_newkeys (s_common s2) newkeys\<rparr>;
                  input = (if common_strict_kex (s_common s3) then (sl_input l)\<lparr>seqn := 0\<rparr> else sl_input l)
              in obind (Server_flush V mo s3) (\<lambda>s4. Ok (l\<lparr>sl_session := s4, sl_input := input\<rparr>))))))"

definition server_rekey_pending :: "'z server_loop \<Rightarrow> bytes \<Rightarrow> kex_init \<Rightarrow> (error, 'z server_loop) outcome" where
  "server_rekey_pending l buf k =
    (let s = sl_session l; len = s_pending_len s + of_nat (length buf)
     in if common_strict_kex (s_common s) \<and> (case ki_algo k of Some algo \<Rightarrow> \<not> strict_kex algo | None \<Rightarrow> False)
        then Err (strict_kex_violation KEXINIT 0)
        else if len > 2 * s_target_window_size s then Err Pending
        else Ok (l\<lparr>sl_session := s\<lparr>s_pending_len := len, s_pending_reads := s_pending_reads s @ [buf]\<rparr>\<rparr>))"

definition server_read_encrypted ::
  "('z, 'p) server_env \<Rightarrow> moment \<Rightarrow> ('z, 'p) server_handler \<Rightarrow> 'z server_loop \<Rightarrow> bytes \<Rightarrow> (error, 'z server_loop) outcome" where
  "server_read_encrypted V mo H l buf =
    (let s = sl_session l; keep = (\<lambda>r. obind r (\<lambda>s'. Ok (l\<lparr>sl_session := s'\<rparr>)))
     in case s_enc s of
          None \<Rightarrow> Panic
        | Some enc \<Rightarrow>
            if first_byte buf = Some KEXINIT then keep (server_rekey_init V mo s enc buf)
            else (case rekey enc of
                    Some (Dh kexdh) \<Rightarrow> keep (server_rekey_dh V mo s enc buf kexdh)
                  | Some (KexKeys newkeys) \<Rightarrow> server_rekey_newkeys V mo H l enc buf newkeys
                  | Some (Init k) \<Rightarrow> server_rekey_pending l buf k
                  | _ \<Rightarrow> keep (Server_process_packet V mo H s buf)))"

definition server_reply_kex :: "('z, 'p) server_env \<Rightarrow> moment \<Rightarrow> 'z server_loop \<Rightarrow> bytes \<Rightarrow> (error, 'z server_loop) outcome" where
  "server_reply_kex V mo l buf =
    (case kex_of (s_common (sl_session l)) of
       Some (Init kexinit) \<Rightarrow> server_reply_init V mo l buf kexinit
     | Some (Dh kexdh) \<Rightarrow> server_reply_dh V mo l buf kexdh
     | Some (KexKeys newkeys) \<Rightarrow> server_reply_newkeys V mo l buf newkeys
     | _ \<Rightarrow> Ok l)"

definition server_reply ::
  "('z, 'p) server_env \<Rightarrow> moment \<Rightarrow> ('z, 'p) server_handler \<Rightarrow> 'z server_loop \<Rightarrow> bytes \<Rightarrow> (error, 'z server_loop) outcome" where
  "server_reply V mo H l buf =
    (let com = s_common (sl_session l); seqno = unat (seqn (sl_input l) - 1)
     in if buf \<noteq> [] \<and> common_strict_kex com \<and> encrypted_of com = None \<and> seqno < length SERVER_STRICT_KEX_MSG_ORDER
           \<and> hd buf \<noteq> SERVER_STRICT_KEX_MSG_ORDER ! seqno
        then Err (strict_kex_violation (hd buf) seqno)
        else if buf \<noteq> [] \<and> hd buf \<in> set ignored_messages then Ok l
        else if encrypted_of com \<noteq> None then server_read_encrypted V mo H l buf
        else server_reply_kex V mo l buf)"

section \<open>The loop\<close>

text \<open>
  A connection starts with the identifications of both sides and the server's KEXINIT, which the first turn writes to
  the socket. \<open>pieces\<close> is what arrives, as in \<open>Ssh_Ident\<close>.
\<close>

definition server_read_ssh_id ::
  "('z, 'p) server_env \<Rightarrow> moment \<Rightarrow> server_config \<Rightarrow> bytes \<Rightarrow> (error, 'z server_common) outcome" where
  "server_read_ssh_id V mo cfg sshid =
    (let kexinit = \<lparr>ki_algo = None, ki_exchange = Exchange_new\<lparr>client_id := sshid, server_id := as_kex_hash_bytes (sc_server_id cfg)\<rparr>,
           ki_session_id = None, ki_sent = False\<rparr>;
         (ps, kexinit') = KexInit_server_write (sv_codec V) (sc_preferred cfg) (cookie mo) (sc_keys cfg) kexinit
     in s_seal_packets V ps \<lparr>auth_user = [], remote_sshid = sshid, config = cfg, encrypted_of = None,
          auth_method = None, auth_attempts = 0, write_buffer = SSHBuffer_new, kex_of = Some (Init kexinit'),
          cipher = (ClearKey, ClearKey), common_wants_reply = False, disconnected = False, common_buffer = [],
          common_strict_kex = False, alive_timeouts = 0, received_data = False\<rparr>)"

definition run_stream :: "('z, 'p) server_env \<Rightarrow> moment \<Rightarrow> server_config \<Rightarrow> bytes list \<Rightarrow> (error, 'z server_loop) outcome" where
  "run_stream V mo cfg pieces =
    obind (read_ssh_id ReadSshIdBuffer_new pieces) (\<lambda>(ident, rest).
    obind (server_read_ssh_id V mo cfg (ReadSshIdBuffer_id ident)) (\<lambda>com.
    Ok \<lparr>sl_session = \<lparr>s_common = com, s_refs = Map.empty, s_next_ref = 0, s_target_window_size = sc_window_size cfg,
          s_pending_reads = [], s_pending_len = 0, s_open_global_requests = [], s_outbox = []\<rparr>,
        sl_input = SSHBuffer_new, sl_stream = unread_bytes \<lparr>read_id = Some ident, network = rest\<rparr>,
        sl_sent = buffer (send_ssh_id (sc_server_id cfg) SSHBuffer_new)\<rparr>))"

text \<open>What the application sends to its session: the messages of a \<open>Handle\<close>.\<close>

datatype server_msg =
  SmOpenSession nat | SmOpenDirectTcpIp tcp_channel_info nat | SmOpenForwardedTcpIp tcp_channel_info nat
| SmOpenX11 bytes u32 nat | SmTcpIpForward "nat option" bytes u32 | SmCancelTcpIpForward "nat option" bytes u32
| SmDisconnect disconnect bytes bytes | SmChannel channel_id channel_msg

definition s_open_ref ::
  "(error, channel_id \<times> 'z server_session) outcome \<Rightarrow> nat \<Rightarrow> (error, 'z server_session) outcome" where
  "s_open_ref r ref = obind r (\<lambda>(i, s). Ok (s\<lparr>s_refs := (s_refs s)(i \<mapsto> ref)\<rparr>))"

fun Server_channel_msg :: "codec \<Rightarrow> channel_id \<Rightarrow> channel_msg \<Rightarrow> 'z server_session \<Rightarrow> (error, 'z server_session) outcome" where
  "Server_channel_msg E i (Data d) s = Server_data E i d s"
| "Server_channel_msg E i (ExtendedData d ext) s = Server_extended_data E i ext d s"
| "Server_channel_msg E i Eof s = Ok (Server_eof E i s)"
| "Server_channel_msg E i Close s = Ok (Server_close E i s)"
| "Server_channel_msg E i Success s = Server_channel_success E i s"
| "Server_channel_msg E i Failure s = Server_channel_failure E i s"
| "Server_channel_msg E i (XonXoff b) s = xon_xoff_request E i b s"
| "Server_channel_msg E i (ExitStatus n) s = exit_status_request E i n s"
| "Server_channel_msg E i (ExitSignal sg core descr lang) s = exit_signal_request E i sg core descr lang s"
| "Server_channel_msg E i (WindowAdjusted _) s = Ok s"
| "Server_channel_msg E i _ s = Panic"

fun Server_handle_msg :: "codec \<Rightarrow> server_msg \<Rightarrow> 'z server_session \<Rightarrow> (error, 'z server_session) outcome" where
  "Server_handle_msg E (SmOpenSession ref) s = s_open_ref (Server_channel_open_session E s) ref"
| "Server_handle_msg E (SmOpenDirectTcpIp d ref) s = s_open_ref (Server_channel_open_direct_tcpip E d s) ref"
| "Server_handle_msg E (SmOpenForwardedTcpIp d ref) s = s_open_ref (Server_channel_open_forwarded_tcpip E d s) ref"
| "Server_handle_msg E (SmOpenX11 addr port ref) s = s_open_ref (Server_channel_open_x11 E addr port s) ref"
| "Server_handle_msg E (SmTcpIpForward awaited addr port) s = Ok (Server_tcpip_forward E awaited addr port s)"
| "Server_handle_msg E (SmCancelTcpIpForward awaited addr port) s = Ok (Server_cancel_tcpip_forward E awaited addr port s)"
| "Server_handle_msg E (SmDisconnect reason descr lang) s =
     Ok (s_set_common s (CommonSession_disconnect E (s_common s) reason descr lang))"
| "Server_handle_msg E (SmChannel i m) s = Server_channel_msg E i m s"

text \<open>
  The calls of the server's \<open>Handle\<close>: the messages sent and the result, given whether the session still takes messages and
  what comes back.
\<close>

definition sh_send :: "bool \<Rightarrow> server_msg \<Rightarrow> 'r \<Rightarrow> 'r \<Rightarrow> server_msg list \<times> 'r" where
  "sh_send alive m ok failed = (if alive then ([m], ok) else ([], failed))"

definition ServerHandle_data where
  "ServerHandle_data alive i d = sh_send alive (SmChannel i (Data d)) None (Some d)"

definition ServerHandle_extended_data where
  "ServerHandle_extended_data alive i ext d = sh_send alive (SmChannel i (ExtendedData d ext)) None (Some d)"

definition ServerHandle_eof where
  "ServerHandle_eof alive i = sh_send alive (SmChannel i Eof) True False"

definition ServerHandle_channel_success where
  "ServerHandle_channel_success alive i = sh_send alive (SmChannel i Success) True False"

definition ServerHandle_channel_failure where
  "ServerHandle_channel_failure alive i = sh_send alive (SmChannel i Failure) True False"

definition ServerHandle_close where
  "ServerHandle_close alive i = sh_send alive (SmChannel i Close) True False"

definition ServerHandle_xon_xoff_request where
  "ServerHandle_xon_xoff_request alive i client_can_do = sh_send alive (SmChannel i (XonXoff client_can_do)) True False"

definition ServerHandle_exit_status_request where
  "ServerHandle_exit_status_request alive i exit_status = sh_send alive (SmChannel i (ExitStatus exit_status)) True False"

definition ServerHandle_exit_signal_request where
  "ServerHandle_exit_signal_request alive i sg core_dumped error_message language_tag =
     sh_send alive (SmChannel i (ExitSignal sg core_dumped error_message language_tag)) True False"

definition ServerHandle_forward_tcpip where
  "ServerHandle_forward_tcpip alive w address port answer =
     sh_send alive (SmTcpIpForward (Some w) address port) (case answer of Some (Some p) \<Rightarrow> Some (p :: u32) | _ \<Rightarrow> None) None"

definition ServerHandle_cancel_forward_tcpip where
  "ServerHandle_cancel_forward_tcpip alive w address port answer =
     sh_send alive (SmCancelTcpIpForward (Some w) address port) (answer = Some True) False"

definition Server_wait_channel_confirmation :: "channel_msg list \<Rightarrow> (error, channel_id \<times> u32 \<times> u32) outcome" where
  "Server_wait_channel_confirmation ms = wait_channel_confirmation ms"

definition ServerHandle_channel_open_session where
  "ServerHandle_channel_open_session alive ref ms = sh_send alive (SmOpenSession ref) (Server_wait_channel_confirmation ms) (Err SendError)"

definition ServerHandle_channel_open_direct_tcpip where
  "ServerHandle_channel_open_direct_tcpip alive d ref ms =
     sh_send alive (SmOpenDirectTcpIp d ref) (Server_wait_channel_confirmation ms) (Err SendError)"

definition ServerHandle_channel_open_forwarded_tcpip where
  "ServerHandle_channel_open_forwarded_tcpip alive d ref ms =
     sh_send alive (SmOpenForwardedTcpIp d ref) (Server_wait_channel_confirmation ms) (Err SendError)"

definition ServerHandle_channel_open_x11 where
  "ServerHandle_channel_open_x11 alive addr port ref ms =
     sh_send alive (SmOpenX11 addr port ref) (Server_wait_channel_confirmation ms) (Err SendError)"

definition ServerHandle_disconnect :: "bool \<Rightarrow> disconnect \<Rightarrow> bytes \<Rightarrow> bytes \<Rightarrow> server_msg list \<times> (error, unit) outcome" where
  "ServerHandle_disconnect alive reason description language_tag =
     sh_send alive (SmDisconnect reason description language_tag) (Ok ()) (Err SendError)"

text \<open>The branches of \<open>select!\<close>; a message is received only while the session has its keys.\<close>

datatype server_event = SvRead | SvKeepaliveTimer | SvInactivityTimer | SvMsg server_msg

datatype 'z server_turn_end = SvContinue "'z server_loop" | SvBreak "'z server_loop"

definition s_set_received :: "bool \<Rightarrow> 'z server_loop \<Rightarrow> 'z server_loop" where
  "s_set_received b l = l\<lparr>sl_session := s_set_common (sl_session l) ((s_common (sl_session l))\<lparr>received_data := b\<rparr>)\<rparr>"

definition s_set_cipher :: "cipher_key \<Rightarrow> 'z server_loop \<Rightarrow> 'z server_loop" where
  "s_set_cipher c l = (let com = s_common (sl_session l)
     in l\<lparr>sl_session := s_set_common (sl_session l) (com\<lparr>cipher := (fst (cipher com), c)\<rparr>)\<rparr>)"

definition s_open_payload :: "('z, 'p) server_env \<Rightarrow> 'z server_session \<Rightarrow> bytes \<Rightarrow> (error, bytes \<times> 'z server_session) outcome" where
  "s_open_payload V s payload =
    (case s_enc s of
       None \<Rightarrow> Ok (payload, s)
     | Some enc \<Rightarrow>
         obind (Decompress_decompress (sv_unzlib V) (decompress enc) payload) (\<lambda>(out, z).
         Ok (out, s_set_enc (enc\<lparr>decompress := z\<rparr>) s)))"

definition server_read_turn ::
  "('z, 'p) server_env \<Rightarrow> moment \<Rightarrow> ('z, 'p) server_handler \<Rightarrow> 'z server_loop \<Rightarrow> (error, 'z server_turn_end) outcome" where
  "server_read_turn V mo H l =
    obind (start_reading (sv_codec V) (cipher_opening (sv_codec V) (sv_crypto V)) (snd (cipher (s_common (sl_session l))))
        (sl_stream l) (sl_input l)) (\<lambda>(_, stream, c, input).
    let l1 = s_set_cipher c (l\<lparr>sl_stream := stream, sl_input := input\<rparr>)
    in if length (buffer input) < 5 then Ok (SvBreak l1)
       else case s_open_payload V (sl_session l1) (drop 5 (buffer input)) of
         Ok (buf, s1) \<Rightarrow>
           if buf = [] then Ok (SvContinue (l1\<lparr>sl_session := s1\<rparr>))
           else if hd buf = DISCONNECT then Ok (SvBreak (l1\<lparr>sl_session := s1\<rparr>))
           else obind (server_reply V mo H (s_set_received True (l1\<lparr>sl_session := s1\<rparr>)) buf) (\<lambda>l2. Ok (SvContinue l2))
       | Err _ \<Rightarrow> Ok (SvBreak l1)
       | Panic \<Rightarrow> Panic
       | Diverge \<Rightarrow> Diverge)"

definition server_keepalive_turn :: "('z, 'p) server_env \<Rightarrow> 'z server_loop \<Rightarrow> (error, 'z server_turn_end) outcome" where
  "server_keepalive_turn V l =
    (let s = sl_session l; com = s_common s; limit = sc_keepalive_max (config com)
     in if limit \<noteq> 0 \<and> alive_timeouts com > limit then Err KeepaliveTimeout
        else Ok (SvContinue (l\<lparr>sl_session := keepalive_request (sv_codec V)
               (s_set_common s (com\<lparr>alive_timeouts := min (alive_timeouts com + 1) (2 ^ 64 - 1)\<rparr>))\<rparr>)))"

definition server_select ::
  "('z, 'p) server_env \<Rightarrow> moment \<Rightarrow> ('z, 'p) server_handler \<Rightarrow> server_event \<Rightarrow> 'z server_loop \<Rightarrow> (error, 'z server_turn_end) outcome" where
  "server_select V mo H ev l =
    (case ev of
       SvRead \<Rightarrow> server_read_turn V mo H l
     | SvKeepaliveTimer \<Rightarrow> server_keepalive_turn V l
     | SvInactivityTimer \<Rightarrow> Err InactivityTimeout
     | SvMsg m \<Rightarrow> obind (Server_handle_msg (sv_codec V) m (sl_session l)) (\<lambda>s. Ok (SvContinue (l\<lparr>sl_session := s\<rparr>))))"

definition server_enabled :: "server_event \<Rightarrow> 'z server_loop \<Rightarrow> bool" where
  "server_enabled ev l = (case ev of SvMsg _ \<Rightarrow> \<not> Server_is_rekeying (sl_session l) | _ \<Rightarrow> True)"

definition server_write_socket :: "('z, 'p) server_env \<Rightarrow> moment \<Rightarrow> 'z server_loop \<Rightarrow> (error, 'z server_loop) outcome" where
  "server_write_socket V mo l =
    obind (Server_flush V mo (sl_session l)) (\<lambda>s.
    let com = s_common s; wb = write_buffer com
    in Ok (l\<lparr>sl_session := s_set_common s (com\<lparr>write_buffer := wb\<lparr>buffer := []\<rparr>\<rparr>), sl_sent := sl_sent l @ buffer wb\<rparr>))"

definition server_end_turn :: "('z, 'p) server_env \<Rightarrow> moment \<Rightarrow> 'z server_loop \<Rightarrow> (error, 'z server_loop) outcome" where
  "server_end_turn V mo l =
    obind (server_write_socket V mo l) (\<lambda>l1.
    let s = sl_session l1; com = s_common s
    in Ok (l1\<lparr>sl_session := s_set_common s (com\<lparr>alive_timeouts := (if received_data com then 0 else alive_timeouts com)\<rparr>)\<rparr>))"

definition server_turn ::
  "('z, 'p) server_env \<Rightarrow> moment \<Rightarrow> ('z, 'p) server_handler \<Rightarrow> server_event \<Rightarrow> 'z server_loop \<Rightarrow> (error, 'z server_turn_end) outcome" where
  "server_turn V mo H ev l =
    obind (server_select V mo H ev (s_set_received False l)) (\<lambda>e.
    case e of
      SvBreak l1 \<Rightarrow> Ok (SvBreak l1)
    | SvContinue l1 \<Rightarrow> obind (server_end_turn V mo l1) (\<lambda>l2. Ok (SvContinue l2)))"

fun server_turns ::
  "('z, 'p) server_env \<Rightarrow> (moment \<times> ('z, 'p) server_handler \<times> server_event) list \<Rightarrow> 'z server_loop \<Rightarrow> (error, 'z server_turn_end) outcome" where
  "server_turns V [] l = Ok (SvContinue l)"
| "server_turns V ((mo, H, ev) # es) l =
     (if disconnected (s_common (sl_session l)) then Ok (SvBreak l)
      else if \<not> server_enabled ev l then server_turns V es l
      else obind (server_turn V mo H ev l) (\<lambda>e. case e of SvBreak l' \<Rightarrow> Ok (SvBreak l') | SvContinue l' \<Rightarrow> server_turns V es l'))"

definition Server_run ::
  "('z, 'p) server_env \<Rightarrow> moment \<Rightarrow> (moment \<times> ('z, 'p) server_handler \<times> server_event) list \<Rightarrow> 'z server_loop \<Rightarrow>
   (error, 'z server_turn_end) outcome" where
  "Server_run V mo es l = obind (server_write_socket V mo l) (server_turns V es)"

end
