(* ===== verification/Server_Invariant.thy ===== *)
theory Server_Invariant
  imports Server_Loop
begin

text \<open>
  Invariants of the server's loop. What an invariant is about is the \<open>s_view\<close> of a session, the state of its authentication and
  its channels; the locale \<open>server_invariant\<close> asks that packets and messages keep it, and shows that the whole loop does:
  key exchange and re-exchange, the packets kept back meanwhile, flushing, timers. It is interpreted for a session that stays
  unauthenticated and for the well-formedness of the channels. The locale \<open>server_application\<close> has what the latter asks of a handler.
\<close>

section \<open>What the loop leaves alone\<close>

definition s_view :: "'z server_session \<Rightarrow> (encrypted_state \<times> (channel_id \<rightharpoonup> channel_params)) option" where
  "s_view s = map_option (\<lambda>enc. (state enc, channels enc)) (s_enc s)"

abbreviation end_loop :: "'z server_turn_end \<Rightarrow> 'z server_loop" where
  "end_loop e \<equiv> (case e of SvContinue l \<Rightarrow> l | SvBreak l \<Rightarrow> l)"

lemma s_view_simps [simp]:
  "s_view (s_emit os s) = s_view s" "s_view (s\<lparr>s_refs := R\<rparr>) = s_view s" "s_view (s\<lparr>s_open_global_requests := q\<rparr>) = s_view s"
  "s_view (s\<lparr>s_next_ref := n\<rparr>) = s_view s" "s_view (s\<lparr>s_target_window_size := w\<rparr>) = s_view s"
  "s_view (s_set_enc enc s) = Some (state enc, channels enc)" "s_view (s\<lparr>s_pending_len := k, s_pending_reads := ps\<rparr>) = s_view s"
  "s_view (s\<lparr>s_pending_reads := ps, s_pending_len := k, s_common := com\<rparr>) = map_option (\<lambda>enc. (state enc, channels enc)) (encrypted_of com)"
  "s_view (s_set_common s com) = map_option (\<lambda>enc. (state enc, channels enc)) (encrypted_of com)"
  by (simp_all add: s_view_def s_enc_def s_emit_def s_set_enc_def)

lemma s_view_to_channel [simp]: "s_view (s_to_channel i m s) = s_view s"
  by (simp add: s_to_channel_def split: option.split)

lemma s_view_loop [simp]:
  "s_view (sl_session (s_set_received b l)) = s_view (sl_session l)" "s_view (sl_session (s_set_cipher c l)) = s_view (sl_session l)"
  by (simp_all add: s_set_received_def s_set_cipher_def s_view_def s_enc_def Let_def)

lemma seal_frame: "s_seal_packets V ps com = Ok com' \<Longrightarrow> \<exists>c wb. com' = com\<lparr>cipher := c, write_buffer := wb\<rparr>"
  by (auto simp: s_seal_packets_def outcome_simps)

lemma reset_seqn_enc [simp]: "encrypted_of (CommonSession_maybe_reset_seqn com) = encrypted_of com"
  by (simp add: CommonSession_maybe_reset_seqn_def)

lemma encrypted_flush_frame:
  "Encrypted_flush E zlib skip n lim K enc k wb = Ok (due, enc1, k1, wb1) \<Longrightarrow> state enc1 = state enc \<and> channels enc1 = channels enc"
  unfolding Encrypted_flush_def Let_def by (elim obind_OkE) (auto split: if_split_asm)

lemma flush_view:
  assumes "Server_flush V mo s = Ok s'"
  shows "s_view s' = s_view s"
proof (cases "encrypted_of (s_common s)")
  case None
  then show ?thesis using assms by (simp add: Server_flush_def)
next
  case (Some enc)
  let ?com = "s_common s"
  obtain due enc1 k wb where f: "Encrypted_flush (sv_codec V) (sv_zlib V) skip_exchange (now mo) (sc_limits (config ?com))
      (cipher_sealing (sv_codec V) (sv_crypto V)) enc (fst (cipher ?com)) (write_buffer ?com) = Ok (due, enc1, k, wb)"
    using assms Some by (auto simp: Server_flush_def Let_def outcome_simps)
  have "\<exists>enc2. s_enc s' = Some enc2 \<and> state enc2 = state enc1 \<and> channels enc2 = channels enc1"
    using assms Some f
    by (cases "due \<and> rekey enc1 = None"; cases "exchange_of enc1")
      (auto simp: Server_flush_def Let_def s_enc_def KexInit_server_write_def outcome_simps dest!: seal_frame)
  then show ?thesis using encrypted_flush_frame [OF f] Some by (auto simp: s_view_def s_enc_def)
qed

lemma keepalive_view [simp]: "s_view (keepalive_request E s) = s_view s" "s_view (s_global_request E a k p s) = s_view s"
  by (cases "s_enc s"; simp add: keepalive_request_def s_global_request_def s_with_enc_def s_view_def s_enc_def split: option.split)+

lemma rekey_init_view:
  assumes "server_rekey_init V mo s enc buf = Ok s'" "s_enc s = Some enc"
  shows "s_view s' = s_view s"
proof -
  obtain ki enc1 com1 where k: "server_rekey_kexinit V (config (s_common s)) buf enc = Ok (ki, enc1)"
    "(case ki of None \<Rightarrow> Ok ((s_common s)\<lparr>encrypted_of := Some enc1\<rparr>) | Some k \<Rightarrow> server_rekey_answer V mo (s_common s) enc1 buf k) = Ok com1"
    "Server_flush V mo (s_set_common s com1) = Ok s'"
    using assms(1) by (auto simp: server_rekey_init_def Let_def outcome_simps)
  have "state enc1 = state enc \<and> channels enc1 = channels enc"
    using k(1) by (auto simp: server_rekey_kexinit_def outcome_simps split: option.split_asm kex.split_asm)
  moreover have "\<exists>enc2. encrypted_of com1 = Some enc2 \<and> state enc2 = state enc1 \<and> channels enc2 = channels enc1"
    using k(2) by (auto simp: server_rekey_answer_def outcome_simps dest!: seal_frame split: option.split_asm)
  ultimately show ?thesis using flush_view [OF k(3)] assms(2) by (auto simp: s_view_def [of s])
qed

lemma rekey_dh_view:
  assumes "server_rekey_dh V mo s enc buf d = Ok s'" "s_enc s = Some enc"
  shows "s_view s' = s_view s"
proof -
  obtain kex com1 where k: "Server_flush V mo (s_set_common s (case kex of KexKeys _ \<Rightarrow> CommonSession_maybe_reset_seqn
      (com1\<lparr>encrypted_of := Some (enc\<lparr>rekey := Some kex\<rparr>)\<rparr>) | _ \<Rightarrow> com1\<lparr>encrypted_of := Some (enc\<lparr>rekey := Some kex\<rparr>)\<rparr>)) = Ok s'"
    using assms(1) unfolding server_rekey_dh_def Let_def by (elim obind_OkE) (auto elim!: obind_OkE)
  from flush_view [OF k] assms(2) show ?thesis by (cases kex) (simp_all add: s_view_def [of s])
qed

lemma open_payload_view: "s_open_payload V s p = Ok (buf, s1) \<Longrightarrow> s_view s1 = s_view s"
  by (cases "s_enc s") (auto simp: s_open_payload_def outcome_simps s_view_def)

lemma write_socket_view: "server_write_socket V mo l = Ok l' \<Longrightarrow> s_view (sl_session l') = s_view (sl_session l)"
  by (auto simp: server_write_socket_def outcome_simps Let_def s_view_def s_enc_def dest: flush_view [unfolded s_view_def s_enc_def])

lemma end_turn_view: "server_end_turn V mo l = Ok l' \<Longrightarrow> s_view (sl_session l') = s_view (sl_session l)"
  by (auto simp: server_end_turn_def outcome_simps Let_def s_view_def s_enc_def dest: write_socket_view [unfolded s_view_def s_enc_def])

section \<open>Invariants of the loop\<close>

locale server_invariant =
  fixes V :: "('z, 'p) server_env"
    and inv :: "(encrypted_state \<times> (channel_id \<rightharpoonup> channel_params)) option \<Rightarrow> bool"
    and ok :: "('z, 'p) server_handler \<Rightarrow> bool"
  assumes no_keys: "inv None"
    and fresh: "inv (Some (WaitingAuthServiceRequest False False, Map.empty))"
    and packet: "Server_process_packet V mo H s buf = Ok s' \<Longrightarrow> ok H \<Longrightarrow> inv (s_view s) \<Longrightarrow> inv (s_view s')"
    and message: "Server_handle_msg (sv_codec V) m s = Ok s' \<Longrightarrow> inv (s_view s) \<Longrightarrow> inv (s_view s')"
    and flush_all: "flush_all_pending (sv_codec V) order (enc :: 'z ssh_encrypted) = Ok enc' \<Longrightarrow> inv (Some (state enc, channels enc)) \<Longrightarrow>
      inv (Some (state enc', channels enc'))"
begin

lemma packets_inv: "Server_process_packets V mo H ps s = Ok s' \<Longrightarrow> ok H \<Longrightarrow> inv (s_view s) \<Longrightarrow> inv (s_view s')"
  by (induction ps arbitrary: s) (auto simp: outcome_simps dest: packet)

lemma newkeys_inv:
  assumes "server_rekey_newkeys V mo H l enc buf nk = Ok l'" "ok H" "s_enc (sl_session l) = Some enc" "inv (s_view (sl_session l))"
  shows "inv (s_view (sl_session l'))"
proof -
  let ?s = "sl_session l"
  obtain enc1 s1 s2 where k: "flush_all_pending (sv_codec V) (visit mo) (enc\<lparr>rekey := None, last_rekey := now mo\<rparr>) = Ok enc1"
    "Server_process_packets V mo H (s_pending_reads ?s) s1 = Ok s2"
    "s1 = ?s\<lparr>s_common := (s_common ?s)\<lparr>write_buffer := (write_buffer (s_common ?s))\<lparr>buf_bytes := 0\<rparr>, encrypted_of := Some enc1\<rparr>,
      s_pending_reads := []\<rparr>"
    "Server_flush V mo (s2\<lparr>s_pending_reads := [], s_pending_len := 0, s_common := CommonSession_newkeys (s_common s2) nk\<rparr>) = Ok (sl_session l')"
    using assms(1) by (auto simp: server_rekey_newkeys_def Let_def outcome_simps split: if_split_asm)
  have "inv (s_view s1)" using flush_all [OF k(1)] assms(3,4) k(3) by (simp add: s_view_def s_enc_def)
  from packets_inv [OF k(2) assms(2) this] have "inv (s_view s2)" .
  moreover have "map_option (\<lambda>enc. (state enc, channels enc)) (encrypted_of (CommonSession_newkeys (s_common s2) nk)) = s_view s2"
    by (simp add: CommonSession_newkeys_def s_view_def s_enc_def split: option.split)
  ultimately show ?thesis using flush_view [OF k(4)] by simp
qed

lemma read_encrypted_inv:
  assumes "server_read_encrypted V mo H l buf = Ok l'" "ok H" "inv (s_view (sl_session l))"
  shows "inv (s_view (sl_session l'))"
proof -
  obtain enc where enc: "s_enc (sl_session l) = Some enc"
    using assms(1) by (auto simp: server_read_encrypted_def Let_def split: option.split_asm)
  note p = packet [OF _ assms(2,3)]
  show ?thesis
  proof (cases "first_byte buf = Some KEXINIT")
    case True
    with assms enc show ?thesis by (auto simp: server_read_encrypted_def Let_def outcome_simps dest: rekey_init_view)
  next
    case False
    note r = assms(1) [unfolded server_read_encrypted_def Let_def enc option.case if_not_P [OF False]]
    show ?thesis
    proof (cases "rekey enc")
      case None
      with r p show ?thesis by (auto simp: outcome_simps)
    next
      case (Some k)
      with r p assms(2,3) enc show ?thesis
        by (cases k) (auto simp: outcome_simps server_rekey_pending_def Let_def dest: rekey_dh_view newkeys_inv split: if_split_asm)
    qed
  qed
qed

lemma reply_inv:
  assumes "server_reply V mo H l buf = Ok l'" "ok H" "inv (s_view (sl_session l))"
  shows "inv (s_view (sl_session l'))"
proof (cases "encrypted_of (s_common (sl_session l)) = None")
  case True
  have r: "l' = l \<or> server_reply_kex V mo l buf = Ok l'"
    using assms(1) True unfolding server_reply_def Let_def by (auto split: if_split_asm)
  consider "l' = l" | ki where "server_reply_init V mo l buf ki = Ok l'" | d where "server_reply_dh V mo l buf d = Ok l'"
    | nk where "server_reply_newkeys V mo l buf nk = Ok l'"
    using r unfolding server_reply_kex_def by (auto split: option.split_asm kex.split_asm)
  then show ?thesis
  proof cases
    case 1
    then show ?thesis using assms(3) by simp
  next
    case 2
    then have "s_enc (sl_session l') = None" using True unfolding server_reply_init_def Let_def
      by (auto elim!: obind_OkE dest!: seal_frame simp: s_enc_def split: if_split_asm)
    then show ?thesis using no_keys by (simp add: s_view_def)
  next
    case 3
    then obtain kex com1 ps where "s_seal_packets V ps (s_common (sl_session l)) = Ok com1" "sl_session l' = s_set_common (sl_session l) (case kex of
        KexKeys _ \<Rightarrow> CommonSession_maybe_reset_seqn (com1\<lparr>kex_of := Some kex\<rparr>) | _ \<Rightarrow> com1\<lparr>kex_of := Some kex\<rparr>)"
      unfolding server_reply_dh_def Let_def by (elim obind_OkE) (auto elim!: obind_OkE)
    moreover from this(1) True have "encrypted_of com1 = None" by (auto dest!: seal_frame)
    ultimately have "s_view (sl_session l') = None" by (cases kex) simp_all
    then show ?thesis using no_keys by simp
  next
    case 4
    then have "s_view (sl_session l') = Some (WaitingAuthServiceRequest False False, Map.empty)"
      by (auto simp: server_reply_newkeys_def maybe_send_ext_info_def s_view_def s_enc_def s_set_enc_def CommonSession_encrypted_def Let_def
          split: if_split_asm option.split)
    then show ?thesis using fresh by simp
  qed
next
  case False
  then show ?thesis using assms read_encrypted_inv [of mo H l buf l'] by (auto simp: server_reply_def Let_def split: if_split_asm)
qed

lemma read_turn_inv:
  assumes "server_read_turn V mo H l = Ok e" "ok H" "inv (s_view (sl_session l))"
  shows "inv (s_view (sl_session (end_loop e)))"
proof -
  obtain n stream k input where r: "start_reading (sv_codec V) (cipher_opening (sv_codec V) (sv_crypto V)) (snd (cipher (s_common (sl_session l))))
      (sl_stream l) (sl_input l) = Ok (n, stream, k, input)"
    using assms(1) unfolding server_read_turn_def by (elim obind_OkE) auto
  define l1 where "l1 = s_set_cipher k (l\<lparr>sl_stream := stream, sl_input := input\<rparr>)"
  have l1: "s_view (sl_session l1) = s_view (sl_session l)" by (simp add: l1_def)
  have c: "e = SvBreak l1 \<or> (\<exists>buf s1. s_open_payload V (sl_session l1) (drop 5 (buffer input)) = Ok (buf, s1)
      \<and> (end_loop e = l1\<lparr>sl_session := s1\<rparr> \<or> server_reply V mo H (s_set_received True (l1\<lparr>sl_session := s1\<rparr>)) buf = Ok (end_loop e)))"
    using assms(1) r unfolding server_read_turn_def
    by (auto simp: Let_def outcome_simps l1_def [symmetric] split: if_split_asm outcome.split_asm)
  from c show ?thesis
  proof (elim disjE exE conjE)
    fix buf s1
    assume "s_open_payload V (sl_session l1) (drop 5 (buffer input)) = Ok (buf, s1)"
      and r: "server_reply V mo H (s_set_received True (l1\<lparr>sl_session := s1\<rparr>)) buf = Ok (end_loop e)"
    then have "inv (s_view (sl_session (s_set_received True (l1\<lparr>sl_session := s1\<rparr>))))"
      using open_payload_view [of V "sl_session l1"] l1 assms(3) by simp
    from reply_inv [OF r assms(2) this] show ?thesis .
  qed (use assms(3) l1 in \<open>auto dest: open_payload_view\<close>)
qed

lemma select_inv:
  assumes "server_select V mo H ev l = Ok e" "ok H" "inv (s_view (sl_session l))"
  shows "inv (s_view (sl_session (end_loop e)))"
proof (cases ev)
  case SvRead
  then show ?thesis using assms read_turn_inv by (simp add: server_select_def)
next
  case SvKeepaliveTimer
  then have "s_view (sl_session (end_loop e)) = s_view (sl_session l)"
    using assms(1) by (auto simp: server_select_def server_keepalive_turn_def Let_def s_view_def [of "sl_session l"] s_enc_def split: if_split_asm)
  then show ?thesis using assms(3) by simp
next
  case (SvMsg m)
  then show ?thesis using assms by (auto simp: server_select_def outcome_simps dest: message)
qed (use assms in \<open>simp add: server_select_def\<close>)

lemma turn_inv:
  assumes "server_turn V mo H ev l = Ok e" "ok H" "inv (s_view (sl_session l))"
  shows "inv (s_view (sl_session (end_loop e)))"
proof -
  obtain e1 where e1: "server_select V mo H ev (s_set_received False l) = Ok e1"
    "(case e1 of SvBreak l1 \<Rightarrow> Ok (SvBreak l1) | SvContinue l1 \<Rightarrow> obind (server_end_turn V mo l1) (\<lambda>l2. Ok (SvContinue l2))) = Ok e"
    using assms(1) by (auto simp: server_turn_def outcome_simps)
  have "inv (s_view (sl_session (s_set_received False l)))" using assms(3) by simp
  from select_inv [OF e1(1) assms(2) this] e1(2) show ?thesis by (cases e1) (auto simp: outcome_simps dest: end_turn_view)
qed

lemma turns_inv:
  "server_turns V es l = Ok e \<Longrightarrow> \<forall>(mo, H, ev) \<in> set es. ok H \<Longrightarrow> inv (s_view (sl_session l)) \<Longrightarrow> inv (s_view (sl_session (end_loop e)))"
proof (induction es arbitrary: l)
  case (Cons x es)
  obtain mo H ev where x: "x = (mo, H, ev)" by (cases x)
  show ?case
  proof (cases "disconnected (s_common (sl_session l)) \<or> \<not> server_enabled ev l")
    case False
    then obtain e1 where e1: "server_turn V mo H ev l = Ok e1"
      "(case e1 of SvBreak l' \<Rightarrow> Ok (SvBreak l') | SvContinue l' \<Rightarrow> server_turns V es l') = Ok e"
      using Cons.prems(1) x by (auto simp: outcome_simps)
    have "inv (s_view (sl_session (end_loop e1)))" using turn_inv [OF e1(1)] Cons.prems(2,3) x by simp
    with e1(2) Cons.IH Cons.prems(2) show ?thesis by (cases e1) auto
  qed (use Cons x in \<open>auto split: if_split_asm\<close>)
qed auto

lemma run_inv:
  assumes "run_stream V mo cfg pieces = Ok l0" "Server_run V mo' es l0 = Ok e" "\<forall>(mo, H, ev) \<in> set es. ok H"
  shows "inv (s_view (sl_session (end_loop e)))"
proof -
  have "s_view (sl_session l0) = None"
    using assms(1) unfolding run_stream_def server_read_ssh_id_def Let_def
    by (auto elim!: obind_OkE dest!: seal_frame simp: KexInit_server_write_def Let_def s_view_def s_enc_def)
  moreover obtain l1 where l1: "server_write_socket V mo' l0 = Ok l1" "server_turns V es l1 = Ok e"
    using assms(2) by (auto simp: Server_run_def outcome_simps)
  ultimately have "inv (s_view (sl_session l1))" using write_socket_view no_keys by fastforce
  from turns_inv [OF l1(2) assms(3) this] show ?thesis .
qed

end

section \<open>Whom the server authenticates\<close>

definition s_phase :: "'z server_session \<Rightarrow> encrypted_state option" where
  "s_phase s = map_option state (s_enc s)"

definition unauthenticated :: "'z server_session \<Rightarrow> bool" where
  "unauthenticated s \<longleftrightarrow> (\<forall>st. s_phase s = Some st \<longrightarrow> waiting st)"

definition user_granted :: "('z, 'p) server_env \<Rightarrow> ('z, 'p) server_handler \<Rightarrow> bool" where
  "user_granted V H \<longleftrightarrow> (\<exists>sid buf. grants V sid H buf)"

lemma s_phase_simps [simp]:
  "s_phase (s_emit os s) = s_phase s" "s_phase (s\<lparr>s_refs := R\<rparr>) = s_phase s" "s_phase (s\<lparr>s_open_global_requests := q\<rparr>) = s_phase s"
  "s_phase (s_set_enc enc s) = Some (state enc)" "s_phase (s_set_common s com) = map_option state (encrypted_of com)"
  by (simp_all add: s_phase_def s_enc_def s_emit_def s_set_enc_def)

lemma s_phase_with [simp]: "(\<And>enc. state (f enc) = state enc) \<Longrightarrow> s_phase (s_with_enc f s) = s_phase s"
  by (cases "s_enc s") (simp_all add: s_phase_def s_with_enc_def s_enc_def)

lemma state_channel [simp]:
  "state (Encrypted_byte E enc i b) = state enc" "state (handle_flushed_channel E enc i r) = state enc"
  by (simp_all add: Encrypted_byte_def handle_flushed_channel_def Encrypted_eof_def Encrypted_close_def Let_def
      split: option.split channel_flush_result.split)

lemma state_Ok:
  "flush_pending E enc i = Ok (n, enc') \<Longrightarrow> state enc' = state enc"
  "Encrypted_data E enc i d = Ok enc' \<Longrightarrow> state enc' = state enc"
  "Encrypted_extended_data E enc i x d = Ok enc' \<Longrightarrow> state enc' = state enc"
  "Encrypted_new_channel enc w m = Ok (i, enc') \<Longrightarrow> state enc' = state enc"
  by (auto simp: flush_pending_def Encrypted_data_def Encrypted_extended_data_def Encrypted_new_channel_def
      outcome_simps Let_def split: option.splits if_splits)

lemma state_flush_all: "flush_all_pending E order enc = Ok enc' \<Longrightarrow> state enc' = state enc"
  by (induction E order enc rule: flush_all_pending.induct) (auto simp: outcome_simps split: option.splits)

lemma global_request_phase [simp]: "s_phase (s_global_request E a k p s) = s_phase s"
  by (simp add: s_global_request_def split: option.split)

lemma answer_phase: "channel_answer E b i s = Ok s' \<Longrightarrow> s_phase s' = s_phase s"
  "Server_channel_request E i kind p s = Ok s' \<Longrightarrow> s_phase s' = s_phase s"
  by (auto simp: channel_answer_def Server_channel_request_def split: option.split_asm if_split_asm)

lemma lift_phase:
  assumes "s_lift_enc f s = Ok s'" "\<And>enc enc'. f enc = Ok enc' \<Longrightarrow> state enc' = state enc"
  shows "s_phase s' = s_phase s"
  using assms by (auto simp: s_lift_enc_def s_phase_def outcome_simps split: option.split_asm)

lemma open_phase: "s_open_ref (Server_channel_open_generic E kind suffix s) ref = Ok s' \<Longrightarrow> s_phase s' = s_phase s"
  by (auto simp: s_open_ref_def Server_channel_open_generic_def s_phase_def [of s] outcome_simps Let_def
      dest: state_Ok(4) split: option.split_asm if_split_asm)

lemma channel_msg_phase: "Server_channel_msg E i m s = Ok s' \<Longrightarrow> s_phase s' = s_phase s"
  by (cases m) (auto simp: Server_data_def Server_extended_data_def Server_eof_def Server_close_def Server_byte_def
      Server_channel_success_def Server_channel_failure_def xon_xoff_request_def exit_status_request_def exit_signal_request_def
      elim!: lift_phase answer_phase dest: state_Ok)

lemma msg_phase: "Server_handle_msg E m s = Ok s' \<Longrightarrow> s_phase s' = s_phase s"
  by (cases m) (auto simp: Server_channel_open_session_def Server_channel_open_direct_tcpip_def Server_channel_open_forwarded_tcpip_def
      Server_channel_open_x11_def Server_tcpip_forward_def Server_cancel_tcpip_forward_def CommonSession_disconnect_def
      s_phase_def [of s] s_enc_def Let_def
      dest: open_phase channel_msg_phase split: option.split)

lemma process_unauthenticated:
  assumes "Server_process_packet V mo H s buf = Ok s'" "unauthenticated s"
  shows "unauthenticated s' \<or> user_granted V H"
proof -
  obtain enc where "s_enc s = Some enc" using assms(1) by (auto simp: Server_process_packet_def Let_def split: option.split_asm)
  with assms(2) have "still_waiting (session_id enc) s" by (simp add: still_waiting_def unauthenticated_def s_phase_def)
  from process_grants [OF assms(1) this] show ?thesis
    by (auto simp: still_waiting_def unauthenticated_def s_phase_def user_granted_def)
qed

definition view_waiting :: "(encrypted_state \<times> (channel_id \<rightharpoonup> channel_params)) option \<Rightarrow> bool" where
  "view_waiting v \<longleftrightarrow> (\<forall>st cs. v = Some (st, cs) \<longrightarrow> waiting st)"

lemma view_waiting [simp]: "view_waiting (s_view s) = unauthenticated s"
  by (auto simp: view_waiting_def s_view_def unauthenticated_def s_phase_def)

interpretation ungranted: server_invariant V view_waiting "\<lambda>H. \<not> user_granted V H" for V
proof
  fix order enc enc'
  assume "flush_all_pending (sv_codec V) order enc = Ok enc'" "view_waiting (Some (state enc, channels enc))"
  then show "view_waiting (Some (state enc', channels enc'))" by (simp add: view_waiting_def state_flush_all)
qed (auto simp: view_waiting_def [of None] view_waiting_def [of "Some _"] unauthenticated_def dest: process_unauthenticated [unfolded unauthenticated_def] msg_phase)

section \<open>Well-formed channels\<close>

text \<open>
  A session without authentication has no channel; every channel is filed under its own identifier, and nothing is
  queued on it before it is confirmed.
\<close>

definition view_wf :: "(encrypted_state \<times> (channel_id \<rightharpoonup> channel_params)) option \<Rightarrow> bool" where
  "view_wf v \<longleftrightarrow> (\<forall>st cs. v = Some (st, cs) \<longrightarrow> (\<forall>i c. cs i = Some c \<longrightarrow> chan_wf i c) \<and> (waiting st \<longrightarrow> cs = Map.empty))"

abbreviation server_wf :: "'z server_session \<Rightarrow> bool" where
  "server_wf s \<equiv> view_wf (s_view s)"

abbreviation enc_ok :: "('k, 'c, 'z) encrypted \<Rightarrow> bool" where
  "enc_ok enc \<equiv> view_wf (Some (state enc, channels enc))"

text \<open>What an operation on the channels of a session leaves alone: it opens none.\<close>

definition opens_none :: "('k, 'c, 'z) encrypted \<Rightarrow> ('k, 'c, 'z) encrypted \<Rightarrow> bool" where
  "opens_none enc enc' \<longleftrightarrow> state enc' = state enc \<and> dom (channels enc') \<subseteq> dom (channels enc)"

lemma enc_ok_wf: "enc_ok enc \<longleftrightarrow> enc_wf enc \<and> (waiting (state enc) \<longrightarrow> channels enc = Map.empty)"
  by (simp add: view_wf_def enc_wf_def)

lemma enc_ok_keep: "enc_ok enc \<Longrightarrow> enc_wf enc' \<Longrightarrow> opens_none enc enc' \<Longrightarrow> enc_ok enc'"
  unfolding enc_ok_wf opens_none_def by auto

lemma view_wf_None [simp]: "view_wf None"
  by (simp add: view_wf_def)

lemma server_wf_enc: "s_enc s = Some enc \<Longrightarrow> server_wf s \<longleftrightarrow> enc_ok enc"
  by (simp add: s_view_def)

lemma dom_byte [simp]: "channels (Encrypted_byte E enc i b) = channels enc"
  by (simp add: Encrypted_byte_def split: option.split)

lemma pending_mut_Some: "has_pending_data_mut enc i = Some c \<Longrightarrow> i \<in> dom (channels enc)"
  by (auto simp: has_pending_data_mut_def split: option.splits if_splits)

lemma dom_end:
  "dom (channels (Encrypted_eof E enc i)) \<subseteq> dom (channels enc)" "dom (channels (Encrypted_close E enc i)) \<subseteq> dom (channels enc)"
  using pending_mut_Some [of enc i] by (auto simp: Encrypted_eof_def Encrypted_close_def Let_def split: option.splits if_splits)

lemma dom_handled: "dom (channels (handle_flushed_channel E enc i r)) \<subseteq> dom (channels enc)"
  using dom_end(2) [of E "Encrypted_eof E enc i" i] dom_end [of E enc i]
  by (simp add: handle_flushed_channel_def Let_def split: channel_flush_result.split) blast

lemma dom_Ok:
  "flush_pending E enc i = Ok (n, enc') \<Longrightarrow> dom (channels enc') \<subseteq> dom (channels enc)"
  "Encrypted_data E enc i d = Ok enc' \<Longrightarrow> dom (channels enc') = dom (channels enc)"
  "Encrypted_extended_data E enc i x d = Ok enc' \<Longrightarrow> dom (channels enc') = dom (channels enc)"
proof -
  show "dom (channels enc') \<subseteq> dom (channels enc)" if flush: "flush_pending E enc i = Ok (n, enc')"
  proof (cases "channels enc i")
    case (Some c)
    then obtain res wr c' where "enc' = handle_flushed_channel E (enc\<lparr>write := wr, channels := (channels enc)(i \<mapsto> c')\<rparr>) i res"
      using flush by (auto simp: flush_pending_def outcome_simps)
    with dom_handled [of E "enc\<lparr>write := wr, channels := (channels enc)(i \<mapsto> c')\<rparr>" i res] Some show ?thesis by auto
  qed (use flush in \<open>simp add: flush_pending_def\<close>)
qed (auto simp: Encrypted_data_def Encrypted_extended_data_def outcome_simps Let_def split: option.splits if_splits)

lemma dom_adjust: "dom (channels (snd (adjust_window_size E enc i d w))) = dom (channels enc)" "state (snd (adjust_window_size E enc i d w)) = state enc"
  by (auto simp: adjust_window_size_def Let_def split: option.splits)

lemma ok_channel_ops:
  "flush_pending E enc i = Ok (n, enc') \<Longrightarrow> enc_ok enc \<Longrightarrow> enc_ok enc'"
  "Encrypted_data E enc i d = Ok enc' \<Longrightarrow> enc_ok enc \<Longrightarrow> enc_ok enc'"
  "Encrypted_extended_data E enc i x d = Ok enc' \<Longrightarrow> enc_ok enc \<Longrightarrow> enc_ok enc'"
  "enc_ok enc \<Longrightarrow> enc_ok (snd (adjust_window_size E enc i d w))"
  by (rule enc_ok_keep, assumption, (auto simp: enc_ok_wf opens_none_def state_Ok dom_Ok dom_adjust intro: wf_flush_pending wf_data wf_adjust)[2])+

lemma ok_flush_all:
  assumes "flush_all_pending E order enc = Ok enc'" "enc_ok enc"
  shows "enc_ok enc'"
proof -
  have "enc_wf enc' \<and> dom (channels enc') = dom (channels enc)" if "enc_wf enc"
    using assms(1) that
  proof (induction E order enc rule: flush_all_pending.induct)
    case (2 E i order enc)
    show ?case
    proof (cases "channels enc i")
      case (Some c)
      with 2(3) obtain res wr c' where c: "flush_channel E (write enc) c = Ok (res, wr, c')"
        "flush_all_pending E order (enc\<lparr>write := wr, channels := (channels enc)(i \<mapsto> c')\<rparr>) = Ok enc'"
        by (auto simp: outcome_simps)
      have "enc_wf (enc\<lparr>write := wr, channels := (channels enc)(i \<mapsto> c')\<rparr>)"
        by (rule wf_write_upd [OF 2(4) wf_flush_channel [OF wf_get [OF 2(4) Some] c(1)]])
      moreover have "dom (\<lambda>a. if a = i then Some c' else channels enc a) = dom (channels enc)" using Some by (auto split: if_splits)
      ultimately show ?thesis using 2(2) [OF Some _ _ _ c(2)] c(1) by simp
    qed (use 2 in simp)
  qed simp
  with assms(2) state_flush_all [OF assms(1)] show ?thesis unfolding enc_ok_wf by auto
qed

subsection \<open>Messages of the application\<close>

lemma ok_with_enc:
  assumes "server_wf s" "\<And>enc. enc_ok enc \<Longrightarrow> enc_ok (f enc)"
  shows "server_wf (s_with_enc f s)"
  using assms by (cases "s_enc s") (simp_all add: s_view_def s_with_enc_def s_enc_def)

lemma ok_push [simp]: "server_wf (s_with_enc (s_push E p) s) = server_wf s"
  by (cases "s_enc s") (simp_all add: s_view_def s_with_enc_def s_enc_def)

lemma ok_lift:
  assumes "s_lift_enc f s = Ok s'" "server_wf s" "\<And>enc enc'. f enc = Ok enc' \<Longrightarrow> enc_ok enc \<Longrightarrow> enc_ok enc'"
  shows "server_wf s'"
  using assms by (cases "s_enc s") (auto simp: s_lift_enc_def outcome_simps s_view_def [of s])

lemma ok_answer:
  assumes "channel_answer E b i s = Ok s'" "server_wf s"
  shows "server_wf s'"
proof (cases "s_channel i s")
  case (Some c)
  then obtain enc where enc: "s_enc s = Some enc" "channels enc i = Some c" by (auto simp: s_channel_def split: option.split_asm)
  with assms show ?thesis
    by (auto simp: channel_answer_def s_channel_def s_with_enc_def s_enc_def s_view_def view_wf_def chan_wf_def split: if_split_asm)
qed (use assms in \<open>simp add: channel_answer_def\<close>)

lemma ok_channel_request: "Server_channel_request E i kind p s = Ok s' \<Longrightarrow> server_wf s \<Longrightarrow> server_wf s'"
  by (auto simp: Server_channel_request_def split: option.split_asm if_split_asm)

lemma ok_open:
  assumes "s_open_ref (Server_channel_open_generic E kind suffix s) ref = Ok s'" "server_wf s"
  shows "server_wf s'"
proof -
  obtain enc where enc: "s_enc s = Some enc" "state enc = Authenticated \<or> state enc = InitCompression"
    using assms(1) by (auto simp: s_open_ref_def Server_channel_open_generic_def split: option.split_asm if_split_asm)
  then obtain i w m where v: "s_view s' = Some (state enc, (channels enc)(i \<mapsto> fresh_channel i w m))"
    using assms(1) by (auto simp: s_open_ref_def Server_channel_open_generic_def Encrypted_new_channel_def fresh_channel_def outcome_simps Let_def
        split: option.split_asm if_split_asm)
  from assms(2) have "enc_ok enc" by (simp add: server_wf_enc [OF enc(1)])
  with enc(2) show ?thesis unfolding v view_wf_def by (auto simp: wf_fresh)
qed

lemma ok_channel_msg: "Server_channel_msg E i m s = Ok s' \<Longrightarrow> server_wf s \<Longrightarrow> server_wf s'"
  by (cases m) (auto simp: Server_data_def Server_extended_data_def Server_eof_def Server_close_def Server_byte_def
      Server_channel_success_def Server_channel_failure_def xon_xoff_request_def exit_status_request_def exit_signal_request_def
      elim!: ok_lift ok_answer ok_channel_request dest: ok_channel_ops intro!: ok_with_enc)

lemma ok_message: "Server_handle_msg E m s = Ok s' \<Longrightarrow> server_wf s \<Longrightarrow> server_wf s'"
  by (cases m) (auto simp: Server_channel_open_session_def Server_channel_open_direct_tcpip_def Server_channel_open_forwarded_tcpip_def
      Server_channel_open_x11_def Server_tcpip_forward_def Server_cancel_tcpip_forward_def CommonSession_disconnect_def
      s_view_def [of s] s_enc_def Let_def
      dest: ok_open ok_channel_msg split: option.split)

subsection \<open>Packets of the client\<close>

lemma auth_request_channels:
  assumes "server_read_auth_request E K H enc req known buf = Ok (enc', user)"
  shows "channels enc' = channels enc"
proof -
  have reject: "channels (s_reject E enc r) = channels enc" for r by (simp add: s_reject_def reject_auth_request_def)
  have accept: "channels (s_accept E enc) = channels enc" by (simp add: s_accept_def)
  have verify: "channels e = channels enc" if "s_verify_signature E K H enc req u ini sg pk v k = Ok (e, k')" for u ini sg pk v k k' e
    using that reject accept by (auto simp: s_verify_signature_def outcome_simps split: if_split_asm)
  have signed: "channels e = channels enc" if "s_signed_request E K H enc req kn u ini r pk = Ok (e, k')" for kn u ini r pk k' e
    using that verify by (auto simp: s_signed_request_def outcome_simps Let_def)
  have offer: "channels e = channels enc" if "s_offered_request E H enc req u a k pk = Ok (e, k')" for u a k pk k' e
    using that reject by (auto simp: s_offered_request_def outcome_simps split: if_split_asm)
  have pk: "channels e = channels enc" if "server_read_auth_request_pk E K H enc req b kn u r = Ok (e, k')" for b kn u r k' e
    using that unfolding server_read_auth_request_pk_def
    by (elim obind_OkE) (auto simp: outcome_simps reject split: key_parse.split_asm if_split_asm, metis key_parse.exhaust signed offer)
  have simple: "channels e = channels enc" if "simple_answer E enc req m u a = (e, k')" for m u a e k'
    using that by (auto simp: simple_answer_def reject accept split: if_split_asm)
  show ?thesis
    using assms pk reject unfolding server_read_auth_request_def
    by (auto simp: outcome_simps dest: simple split: if_split_asm)
qed

lemma no_channels: "enc_ok enc \<Longrightarrow> waiting (state enc) \<Longrightarrow> channels enc = Map.empty"
  by (simp add: view_wf_def)

lemma ok_empty [simp]: "view_wf (Some (st, Map.empty))"
  by (simp add: view_wf_def)

lemma ok_mark_reply: "server_wf s \<Longrightarrow> server_wf (s_mark_reply i b s)"
  unfolding s_mark_reply_def by (rule ok_with_enc) (auto simp: view_wf_def chan_wf_def split: option.split)

lemma ok_requests [simp]: "server_wf (request_success E s) = server_wf s" "server_wf (request_failure E s) = server_wf s"
  by (cases "s_enc s"; simp add: request_success_def request_failure_def s_with_enc_def s_view_def s_enc_def)+

lemma ok_wants_reply [simp]: "s_view (s\<lparr>s_common := (s_common s)\<lparr>common_wants_reply := b\<rparr>\<rparr>) = s_view s"
  by (simp add: s_view_def s_enc_def)

lemma ok_replies: "server_wf s \<Longrightarrow> server_wf (Server_read_request_success E s r)" "server_wf s \<Longrightarrow> server_wf (Server_read_request_failure s)"
  by (simp_all add: Server_read_request_success_def Server_read_request_failure_def s_pop_request_def split: list.split global_request_response.split)

lemma ok_delete: "server_wf s \<Longrightarrow> server_wf (s_with_enc (\<lambda>enc. enc\<lparr>channels := (channels enc)(i := None)\<rparr>) s)"
  by (rule ok_with_enc) (auto simp: view_wf_def)

lemma ok_receive_window: "server_wf s \<Longrightarrow> server_wf (s_receive_window E H i d s)"
proof (cases "s_enc s")
  case (Some enc)
  assume "server_wf s"
  with ok_channel_ops(4) [of enc E i d "s_target_window_size s"] Some show ?thesis
    by (simp add: s_receive_window_def server_wf_enc Let_def split_beta)
qed (simp add: s_receive_window_def)

lemma ok_open_failure: "Server_read_open_failure E H s r = Ok s' \<Longrightarrow> server_wf s \<Longrightarrow> server_wf s'"
  using ok_delete by (auto simp: Server_read_open_failure_def outcome_simps Let_def split: option.split_asm if_split_asm)

lemma ok_finalize:
  assumes "server_wf s" "s_phase s = Some Authenticated"
  shows "server_wf (finalize_channel_open E m (client_channel cfg m i) allowed s)"
proof -
  obtain enc where enc: "s_enc s = Some enc" "state enc = Authenticated" using assms(2) by (auto simp: s_phase_def)
  with assms(1) show ?thesis
    by (auto simp: finalize_channel_open_def s_with_enc_def s_enc_def s_view_def view_wf_def client_channel_def chan_wf_def)
qed

text \<open>What is asked of an application: its callbacks keep the channels well-formed, and no answer to a question changes the authentication.\<close>

locale server_application =
  fixes H :: "('z, 'p) server_handler"
  assumes call_ok: "sh_call H cb s = Ok t \<Longrightarrow> server_wf s \<Longrightarrow> server_wf t"
    and ask_ok: "sh_ask H q s = Ok (b, t) \<Longrightarrow> server_wf s \<Longrightarrow> server_wf t"
    and ask_phase: "sh_ask H q s = Ok (b, t) \<Longrightarrow> s_phase t = s_phase s"
    and forward_ok: "sh_tcpip_forward H address port s = Ok (b, p, t) \<Longrightarrow> server_wf s \<Longrightarrow> server_wf t"
begin

lemma told: "sh_call H cb (s_to_channel i m s) = Ok t \<Longrightarrow> server_wf s \<Longrightarrow> server_wf t"
  by (erule call_ok) simp

lemma ok_channel_open:
  assumes "server_handle_channel_open E H s r = Ok s'" "server_wf s" "s_phase s = Some Authenticated"
  shows "server_wf s'"
proof -
  obtain m r' enc i enc' where o: "OpenChannelMessage_parse E r = Ok (m, r')" "s_enc s = Some enc" "Encrypted_new_channel_id enc = Ok (i, enc')"
    using assms(1) by (auto simp: server_handle_channel_open_def outcome_simps split: option.split_asm)
  define s1 where "s1 = s_set_enc enc' (s\<lparr>s_next_ref := s_next_ref s + 1\<rparr>)"
  have e: "state enc' = state enc" "channels enc' = channels enc"
    using o(3) by (auto simp: Encrypted_new_channel_id_def split: option.split_asm)
  then have s1: "server_wf s1" "s_phase s1 = Some Authenticated"
    using assms(2,3) o(2) by (simp_all add: s1_def s_view_def s_phase_def)
  show ?thesis
  proof (cases "open_question (s_next_ref s) (oc_typ m)")
    case None
    then have "s' = s_with_enc (\<lambda>enc. enc\<lparr>write := (if oc_typ m = AgentForwardChannel
        then OpenChannelMessage_fail E m (write enc) SSH_OPEN_ADMINISTRATIVELY_PROHIBITED (bs ''Unsupported channel type'')
        else OpenChannelMessage_unknown_type E m (write enc))\<rparr>) s1"
      using assms(1) o by (simp add: server_handle_channel_open_def s1_def)
    with s1(1) show ?thesis by (auto intro!: ok_with_enc)
  next
    case (Some q)
    then obtain allowed s2 where q: "sh_ask H q (s_emit [NewChannel (s_next_ref s) i (recipient_maximum_packet_size (client_channel (config (s_common s)) m i))
        (recipient_window_size (client_channel (config (s_common s)) m i))] s1) = Ok (allowed, s2)"
      "s' = finalize_channel_open E m (client_channel (config (s_common s)) m i) allowed (s2\<lparr>s_refs := (s_refs s2)(i \<mapsto> s_next_ref s)\<rparr>)"
      using assms(1) o by (auto simp: server_handle_channel_open_def s1_def outcome_simps Let_def)
    have "server_wf s2" "s_phase s2 = Some Authenticated" using ask_ok [OF q(1)] ask_phase [OF q(1)] s1 by simp_all
    then show ?thesis unfolding q(2) by (intro ok_finalize) simp_all
  qed
qed

lemma ok_requested:
  "read_pty_req E H s i r = Ok s' \<Longrightarrow> server_wf s \<Longrightarrow> server_wf s'" "read_x11_req E H s i r = Ok s' \<Longrightarrow> server_wf s \<Longrightarrow> server_wf s'"
  "read_env_req E H s i r = Ok s' \<Longrightarrow> server_wf s \<Longrightarrow> server_wf s'" "read_window_change E H s i r = Ok s' \<Longrightarrow> server_wf s \<Longrightarrow> server_wf s'"
  by (auto simp: read_pty_req_def read_x11_req_def read_env_req_def read_window_change_def outcome_simps Let_def dest: told split: if_split_asm)

lemma ok_agent_request: "read_agent_req E H s i = Ok s' \<Longrightarrow> server_wf s \<Longrightarrow> server_wf s'"
  by (auto simp: read_agent_req_def outcome_simps dest: ask_ok)

lemma ok_read_channel_request:
  assumes "Server_read_channel_request E H s r = Ok s'" "server_wf s"
  shows "server_wf s'"
proof -
  have f: "server_wf t" if "Server_channel_failure E i u = Ok t" "server_wf u" for i u t
    using that ok_answer by (simp add: Server_channel_failure_def)
  note m = ok_mark_reply [OF assms(2)]
  show ?thesis
    using assms(1) unfolding Server_read_channel_request_def Let_def
    by (elim obind_OkE) (auto dest: ok_requested [OF _ m] ok_agent_request [OF _ m] told [OF _ m] f [OF _ m] elim!: obind_OkE split: if_split_asm)
qed

lemma ok_forward_request:
  "read_tcpip_forward E H s r = Ok s' \<Longrightarrow> server_wf s \<Longrightarrow> server_wf s'" "read_cancel_tcpip_forward E H s r = Ok s' \<Longrightarrow> server_wf s \<Longrightarrow> server_wf s'"
  unfolding read_tcpip_forward_def read_cancel_tcpip_forward_def by (auto simp: outcome_simps dest: ask_ok forward_ok)

lemma ok_read_global_request:
  assumes "Server_read_global_request E H s r = Ok s'" "server_wf s"
  shows "server_wf s'"
proof -
  have w: "server_wf (s\<lparr>s_common := (s_common s)\<lparr>common_wants_reply := b\<rparr>\<rparr>)" for b
    using assms(2) by (simp add: s_view_def s_enc_def)
  show ?thesis
    using assms(1) w [unfolded s_view_def s_enc_def] unfolding Server_read_global_request_def Let_def
    by (elim obind_OkE) (auto dest: ok_forward_request [OF _ w] elim!: obind_OkE split: if_split_asm)
qed

lemma told_flushed:
  assumes "sh_call H cb (s_to_channel i m t) = Ok s'" "Server_flush V mo (s_receive_window E H j d s) = Ok t" "server_wf s"
  shows "server_wf s'"
proof -
  have "server_wf t" using ok_receive_window [OF assms(3)] flush_view [OF assms(2)] by simp
  with told [OF assms(1)] show ?thesis .
qed

lemma ok_read_data: "Server_read_data V mo H ext s r = Ok s' \<Longrightarrow> server_wf s \<Longrightarrow> server_wf s'"
  unfolding Server_read_data_def Let_def
  by (auto simp: outcome_simps dest: told_flushed split: option.split_asm if_split_asm)

lemma ok_read_window_adjust:
  assumes "Server_read_window_adjust E H s r = Ok s'" "server_wf s"
  shows "server_wf s'"
proof (cases "s_enc s")
  case (Some enc)
  have ok: "enc_ok enc" using assms(2) by (simp only: server_wf_enc [OF Some])
  have upd: "enc_ok (enc\<lparr>channels := (channels enc)(i \<mapsto> c\<lparr>recipient_window_size := w\<rparr>)\<rparr>)" if "channels enc i = Some c" for i c w
    using ok that by (auto simp: view_wf_def chan_wf_def)
  have flushed: "enc_ok enc'" if "flush_pending E (enc\<lparr>channels := (channels enc)(i \<mapsto> c\<lparr>recipient_window_size := w\<rparr>)\<rparr>) i = Ok (n, enc')"
    "channels enc i = Some c" for i c w n enc'
    using ok_channel_ops(1) [OF that(1) upd [OF that(2)]] .
  show ?thesis
    using assms Some
    by (auto simp: Server_read_window_adjust_def outcome_simps Let_def split: option.split_asm dest!: call_ok) (erule (1) flushed)+
qed (use assms in \<open>auto simp: Server_read_window_adjust_def outcome_simps dest!: call_ok split: option.split_asm\<close>)

lemma ok_read_confirmation:
  assumes "Server_read_open_confirmation E H s r = Ok s'" "server_wf s"
  shows "server_wf s'"
proof (cases "s_enc s")
  case (Some enc)
  have ok: "enc_ok enc" using assms(2) by (simp only: server_wf_enc [OF Some])
  have "enc_ok (enc\<lparr>channels := (channels enc)(i \<mapsto> ChannelParams_confirm c m)\<rparr>)" if "channels enc i = Some c" for i c m
    using ok that by (auto simp: view_wf_def chan_wf_def ChannelParams_confirm_def)
  then show ?thesis
    using assms Some by (auto simp: Server_read_open_confirmation_def outcome_simps Let_def split: option.split_asm dest!: call_ok)
qed (use assms in \<open>auto simp: Server_read_open_confirmation_def outcome_simps Let_def\<close>)

lemma ok_read_authenticated:
  assumes "server_read_authenticated V mo H s buf = Ok s'" "server_wf s" "s_phase s = Some Authenticated"
  shows "server_wf s'"
  using assms ok_delete [of s] unfolding server_read_authenticated_def Let_def
  by (auto simp: Server_read_channel_close_def Server_read_channel_eof_def outcome_simps Let_def
      dest: ok_channel_open ok_read_channel_request ok_read_global_request ok_read_data ok_read_window_adjust ok_read_confirmation ok_open_failure
      dest!: call_ok intro: ok_replies split: list.split_asm if_split_asm)

lemma ok_packet:
  assumes "Server_process_packet V mo H s buf = Ok s'" "server_wf s"
  shows "server_wf s'"
proof -
  obtain enc where enc: "s_enc s = Some enc" using assms(1) by (auto simp: Server_process_packet_def Let_def split: option.split_asm)
  note r = assms(1) [unfolded Server_process_packet_def Let_def enc option.case]
  have ok: "enc_ok enc" using assms(2) enc by (simp add: server_wf_enc)
  show ?thesis
  proof (cases "state enc")
    case (WaitingAuthServiceRequest a b)
    with no_channels [OF ok] have "channels enc = Map.empty" by simp
    with r WaitingAuthServiceRequest assms(2) show ?thesis by (auto simp: outcome_simps server_accept_service_def Let_def ok_empty split: if_split_asm)
  next
    case (WaitingAuthRequest req)
    with no_channels [OF ok] have empty: "channels enc = Map.empty" by simp
    have auth: "server_wf t" if "s_authenticated V H u = Ok t" "server_wf u" for u t
      using that(1) [unfolded s_authenticated_def] by (rule call_ok) (rule ok_with_enc [OF that(2)], simp)
    show ?thesis
      using r WaitingAuthRequest empty assms(2)
      by (auto simp: outcome_simps Let_def s_set_enc_def dest!: auth_request_channels elim!: auth split: if_split_asm)
  next
    case InitCompression
    have "view_wf (Some (Authenticated, channels enc))" using ok by (auto simp: view_wf_def)
    with r InitCompression show ?thesis by (auto elim!: ok_read_authenticated)
  next
    case Authenticated
    with r assms(2) enc show ?thesis by (auto simp: s_phase_def elim!: ok_read_authenticated)
  qed
qed

end

interpretation default_application: server_application default_server_handler
  by unfold_locales (auto simp: default_server_handler_def)

interpretation well_formed: server_invariant V view_wf server_application for V
  by unfold_locales (auto simp: ok_empty view_wf_def [of "Some (_, Map.empty)"] intro: server_application.ok_packet ok_message ok_flush_all)


end
