(* ===== verification/Server_Handshake.thy ===== *)
theory Server_Handshake
  imports Server_Invariant
begin

text \<open>
  The handshake of the server over its loop, and the theorems that join it with the client of \<open>Client_Handshake\<close>: the bytes of either side
  are those that the other reads, and both reach the same encrypted session.
\<close>

section \<open>The handshake of the server\<close>

definition sv_clear :: "crypto \<Rightarrow> server_config \<Rightarrow> (kex_alg, cipher_key \<times> cipher_key) kex \<Rightarrow> bool \<Rightarrow> u32 \<Rightarrow> bytes \<Rightarrow> 'z server_loop \<Rightarrow> bool" where
  "sv_clear X cfg st strict n written l \<longleftrightarrow>
    (let com = s_common (sl_session l)
     in encrypted_of com = None \<and> cipher com = (ClearKey, ClearKey) \<and> kex_of com = Some st \<and> config com = cfg
        \<and> \<not> disconnected com \<and> common_strict_kex com = strict \<and> sl_sent l @ buffer (write_buffer com) = written
        \<and> seqn (sl_input l) = n \<and> buf_len (sl_input l) = 0)"

lemma s_seal_clear:
  assumes "sv_codec V = rfc4251" "cipher com = (ClearKey, ClearKey)" "\<forall>p \<in> set ps. length p \<le> 261000"
  shows "\<exists>wb. s_seal_packets V ps com = Ok (com\<lparr>write_buffer := wb\<rparr>)
    \<and> buffer wb = buffer (write_buffer com) @ concat (map (clear_packet (sv_crypto V)) ps)"
proof -
  obtain wb where wb: "write_packets rfc4251 (cipher_sealing rfc4251 (sv_crypto V)) ClearKey ps (write_buffer com) = Ok (ClearKey, wb)"
    "buffer wb = buffer (write_buffer com) @ concat (map (clear_packet (sv_crypto V)) ps)"
    using clear_packets_write [OF assms(3)] by blast
  have "com\<lparr>cipher := (ClearKey, ClearKey)\<rparr> = com" using assms(2) by (metis common_session.surjective common_session.update_convs(9))
  with wb assms(1,2) show ?thesis by (intro exI [of _ wb]) (simp add: s_seal_packets_def)
qed

lemma s_set_cipher_id: "snd (cipher (s_common (sl_session l))) = c \<Longrightarrow> s_set_cipher c l = l"
  by (auto simp: s_set_cipher_def Let_def)

lemma sv_read_turn_clear:
  assumes V: "sv_codec V = rfc4251" "crypto_ok (sv_crypto V)" and l: "sv_clear (sv_crypto V) cfg st strict n w l"
    and p: "length p \<le> 261000" "p \<noteq> []" "hd p \<noteq> DISCONNECT" "sl_stream l = clear_packet (sv_crypto V) p @ rest"
  shows "\<exists>l1. sv_clear (sv_crypto V) cfg st strict (n + 1) w l1 \<and> sl_stream l1 = rest \<and>
    server_read_turn V mo H l = obind (server_reply V mo H l1 p) (\<lambda>l2. Ok (SvContinue l2))"
proof -
  have c: "encrypted_of (s_common (sl_session l)) = None" "cipher (s_common (sl_session l)) = (ClearKey, ClearKey)"
    "seqn (sl_input l) = n" "buf_len (sl_input l) = 0" using l by (simp_all add: sv_clear_def Let_def)
  let ?sb = "SSHBuffer_new\<lparr>seqn := n\<rparr>"
  obtain rb where rb: "start_reading rfc4251 (cipher_opening rfc4251 (sv_crypto V)) ClearKey (clear_packet (sv_crypto V) p @ rest) (sl_input l)
      = Ok (5 + length p, rest, ClearKey, rb)" "drop 5 (buffer rb) = p" "seqn rb = n + 1" "buf_len rb = 0"
    using read_clear [OF V(2) clear_packet_write [OF p(1), of "sv_crypto V" ?sb], of "clear_packet (sv_crypto V) p" "sl_input l" rest] c(3,4) p(1)
    by auto
  let ?l1 = "l\<lparr>sl_stream := rest, sl_input := rb\<rparr>"
  have "s_set_cipher ClearKey ?l1 = ?l1" by (rule s_set_cipher_id) (simp add: c(2))
  moreover have "\<not> length (buffer rb) < 5" using rb(2) p(2) by (cases "length (buffer rb) < 5") auto
  ultimately have "server_read_turn V mo H l = obind (server_reply V mo H (s_set_received True ?l1) p) (\<lambda>l2. Ok (SvContinue l2))"
    using rb p(2-4) V(1) c(1,2) by (simp add: server_read_turn_def s_open_payload_def s_enc_def)
  moreover have "sv_clear (sv_crypto V) cfg st strict (n + 1) w (s_set_received True ?l1)"
    using l rb by (simp add: sv_clear_def s_set_received_def Let_def)
  moreover have "sl_stream (s_set_received True ?l1) = rest" by (simp add: s_set_received_def)
  ultimately show ?thesis by blast
qed

lemma sv_end_turn_clear:
  assumes "sv_clear X cfg st strict n w l"
  shows "\<exists>l'. server_end_turn V mo l = Ok l' \<and> sv_clear X cfg st strict n w l' \<and> sl_stream l' = sl_stream l \<and> sl_sent l' = w"
  using assms by (auto simp: server_end_turn_def server_write_socket_def Server_flush_def sv_clear_def Let_def)

lemma sv_turn_clear:
  assumes V: "sv_codec V = rfc4251" "crypto_ok (sv_crypto V)" and l: "sv_clear (sv_crypto V) cfg st strict n w l"
    and p: "length p \<le> 261000" "p \<noteq> []" "hd p \<noteq> DISCONNECT" "sl_stream l = clear_packet (sv_crypto V) p @ rest"
    and reply: "\<And>l1. sv_clear (sv_crypto V) cfg st strict (n + 1) w l1 \<Longrightarrow>
      \<exists>l2. server_reply V mo H l1 p = Ok l2 \<and> sv_clear (sv_crypto V) cfg st' strict' (n + 1) w' l2 \<and> sl_stream l2 = sl_stream l1"
  shows "\<exists>l3. server_turn V mo H SvRead l = Ok (SvContinue l3) \<and> sv_clear (sv_crypto V) cfg st' strict' (n + 1) w' l3
    \<and> sl_stream l3 = rest \<and> sl_sent l3 = w'"
proof -
  have l0: "sv_clear (sv_crypto V) cfg st strict n w (s_set_received False l)" "sl_stream (s_set_received False l) = clear_packet (sv_crypto V) p @ rest"
    using l p(4) by (simp_all add: sv_clear_def s_set_received_def Let_def)
  obtain l1 where l1: "sv_clear (sv_crypto V) cfg st strict (n + 1) w l1" "sl_stream l1 = rest"
    "server_read_turn V mo H (s_set_received False l) = obind (server_reply V mo H l1 p) (\<lambda>l2. Ok (SvContinue l2))"
    using sv_read_turn_clear [OF V l0(1) p(1-3) l0(2)] by blast
  obtain l2 where l2: "server_reply V mo H l1 p = Ok l2" "sv_clear (sv_crypto V) cfg st' strict' (n + 1) w' l2" "sl_stream l2 = rest"
    using reply [OF l1(1)] l1(2) by auto
  obtain l3 where "server_end_turn V mo l2 = Ok l3" "sv_clear (sv_crypto V) cfg st' strict' (n + 1) w' l3" "sl_stream l3 = rest" "sl_sent l3 = w'"
    using sv_end_turn_clear [OF l2(2)] l2(3) by auto
  with l1(3) l2(1) show ?thesis by (simp add: server_turn_def server_select_def)
qed

lemma sv_reply_init:
  assumes "sv_codec V = rfc4251" "sv_clear X cfg (Init ki) False 1 w l" "ki_sent ki" "hd buf = KEXINIT" "buf \<noteq> []"
    and "KexInit_server_parse rfc4251 (sc_preferred cfg) ck (sc_keys cfg) buf ki = Ok (out, Dh ds)"
  shows "\<exists>l2. server_reply V mo H l buf = Ok l2 \<and> sv_clear X cfg (Dh ds) (strict_kex (dh_names ds)) 1 w l2 \<and> sl_stream l2 = sl_stream l"
proof -
  let ?s = "sl_session l"
  have c: "encrypted_of (s_common ?s) = None" "cipher (s_common ?s) = (ClearKey, ClearKey)" "kex_of (s_common ?s) = Some (Init ki)"
    "config (s_common ?s) = cfg" "\<not> common_strict_kex (s_common ?s)" "seqn (sl_input l) = 1"
    using assms(2) by (simp_all add: sv_clear_def Let_def)
  have parse: "KexInit_server_parse rfc4251 (sc_preferred cfg) (cookie mo) (sc_keys cfg) buf ki = Ok ([], Dh ds)"
    using assms(3,6) by (auto simp: KexInit_server_parse_def outcome_simps Let_def split: if_split_asm)
  obtain wb where wb: "s_seal_packets V [] (s_common ?s) = Ok ((s_common ?s)\<lparr>write_buffer := wb\<rparr>)" "buffer wb = buffer (write_buffer (s_common ?s))"
    using s_seal_clear [OF assms(1) c(2), of "[]"] by auto
  have "first_byte buf = Some KEXINIT" using assms(4,5) by (cases buf) simp_all
  then have r: "server_reply V mo H l buf = Ok (l\<lparr>sl_session := s_set_common ?s ((s_common ?s)\<lparr>write_buffer := wb, kex_of := Some (Dh ds),
      common_strict_kex := strict_kex (dh_names ds)\<rparr>)\<rparr>)"
    using c assms(1,4,5) parse wb(1) by (simp add: server_reply_def server_reply_kex_def server_reply_init_def ignored_messages_def Let_def)
  show ?thesis unfolding r using assms(2) wb(2) by (simp add: sv_clear_def Let_def)
qed

lemma sv_reply_dh:
  assumes "sv_codec V = rfc4251" "sv_clear (sv_crypto V) cfg (Dh ds) strict 2 w l" "hd buf = KEX_ECDH_INIT" "buf \<noteq> []"
    and "KexDh_parse rfc4251 (sv_kex V) (entropy.truncate mo) (sc_keys cfg) buf ds = Ok (replies, KexKeys ns)" "\<forall>p \<in> set replies. length p \<le> 261000"
  shows "\<exists>l2. server_reply V mo H l buf = Ok l2
    \<and> sv_clear (sv_crypto V) cfg (KexKeys ns) strict 2 (w @ concat (map (clear_packet (sv_crypto V)) replies)) l2 \<and> sl_stream l2 = sl_stream l"
proof -
  let ?s = "sl_session l"
  have c: "encrypted_of (s_common ?s) = None" "cipher (s_common ?s) = (ClearKey, ClearKey)" "kex_of (s_common ?s) = Some (Dh ds)"
    "config (s_common ?s) = cfg" "seqn (sl_input l) = 2"
    using assms(2) by (simp_all add: sv_clear_def Let_def)
  obtain wb where wb: "s_seal_packets V replies (s_common ?s) = Ok ((s_common ?s)\<lparr>write_buffer := wb\<rparr>)"
    "buffer wb = buffer (write_buffer (s_common ?s)) @ concat (map (clear_packet (sv_crypto V)) replies)"
    using s_seal_clear [OF assms(1) c(2) assms(6)] by auto
  have r: "server_reply V mo H l buf = Ok (l\<lparr>sl_session := s_set_common ?s
      (CommonSession_maybe_reset_seqn ((s_common ?s)\<lparr>write_buffer := wb, kex_of := Some (KexKeys ns)\<rparr>))\<rparr>)"
    using c assms(1,3-5) wb(1)
    by (simp add: server_reply_def server_reply_kex_def server_reply_dh_def ignored_messages_def SERVER_STRICT_KEX_MSG_ORDER_def Let_def)
  show ?thesis unfolding r using assms(2) wb(2) by (auto simp: sv_clear_def CommonSession_maybe_reset_seqn_def Let_def)
qed

definition sv_encrypted :: "(kex_alg, cipher_key \<times> cipher_key) new_keys \<Rightarrow> 'z server_loop \<Rightarrow> bool" where
  "sv_encrypted nk l \<longleftrightarrow>
    (let com = s_common (sl_session l)
     in \<exists>enc. encrypted_of com = Some enc \<and> session_id enc = nk_session_id nk \<and> state enc = WaitingAuthServiceRequest False False
        \<and> kex_alg enc = nk_kex nk \<and> rekey enc = None \<and> channels enc = Map.empty \<and> cipher com = nk_cipher nk
        \<and> common_strict_kex com = strict_kex (nk_names nk) \<and> (strict_kex (nk_names nk) \<longrightarrow> seqn (sl_input l) = 0))"

lemma sv_reply_newkeys:
  assumes "sv_clear X cfg (KexKeys ns) strict 3 w l"
  shows "\<exists>l2. server_reply V mo H l [NEWKEYS] = Ok l2 \<and> sv_encrypted ns l2 \<and> sl_stream l2 = sl_stream l"
proof -
  have c: "encrypted_of (s_common (sl_session l)) = None" "kex_of (s_common (sl_session l)) = Some (KexKeys ns)" "seqn (sl_input l) = 3"
    using assms by (simp_all add: sv_clear_def Let_def)
  then have "server_reply V mo H l [NEWKEYS] = server_reply_newkeys V mo l [NEWKEYS] ns"
    by (simp add: server_reply_def server_reply_kex_def ignored_messages_def SERVER_STRICT_KEX_MSG_ORDER_def Let_def)
  moreover have "\<exists>l2. server_reply_newkeys V mo l [NEWKEYS] ns = Ok l2 \<and> sv_encrypted ns l2 \<and> sl_stream l2 = sl_stream l"
    by (simp add: server_reply_newkeys_def maybe_send_ext_info_def s_enc_def s_set_enc_def CommonSession_encrypted_def sv_encrypted_def Let_def
        split: option.split)
  ultimately show ?thesis by simp
qed

lemma sv_start_clear:
  assumes V: "sv_codec V = rfc4251" and cfg: "sc_server_id cfg = Standard sid"
    and id: "concat pieces = bs ''SSH-2.0-'' @ v @ [13, 10] @ stream" "10 \<notin> set v" "length v \<le> 246" "[] \<notin> set pieces"
    and small: "length (write_kex rfc4251 (sc_preferred cfg) [] (cookie mo) (Some (map sk_name (sc_keys cfg)))) \<le> 261000"
  shows "\<exists>l0 l1. run_stream V mo cfg pieces = Ok l0 \<and> server_write_socket V mo' l0 = Ok l1
    \<and> sv_clear (sv_crypto V) cfg (Init (snd (KexInit_server_write rfc4251 (sc_preferred cfg) (cookie mo) (sc_keys cfg)
          (kex_start (bs ''SSH-2.0-'' @ v) sid None)))) False 0
        (sid @ [13, 10] @ clear_packet (sv_crypto V) (write_kex rfc4251 (sc_preferred cfg) [] (cookie mo) (Some (map sk_name (sc_keys cfg))))) l1
    \<and> sl_stream l1 = stream
    \<and> sl_sent l1 = sid @ [13, 10] @ clear_packet (sv_crypto V) (write_kex rfc4251 (sc_preferred cfg) [] (cookie mo) (Some (map sk_name (sc_keys cfg))))"
proof -
  obtain ident ps where ident: "read_ssh_id ReadSshIdBuffer_new pieces = Ok (ident, ps)"
    "ReadSshIdBuffer_id ident = bs ''SSH-2.0-'' @ v" "unread_bytes \<lparr>read_id = Some ident, network = ps\<rparr> = stream"
    using ssh_id_read [OF id] by blast
  let ?si = "write_kex rfc4251 (sc_preferred cfg) [] (cookie mo) (Some (map sk_name (sc_keys cfg)))"
  let ?ki = "snd (KexInit_server_write rfc4251 (sc_preferred cfg) (cookie mo) (sc_keys cfg) (kex_start (bs ''SSH-2.0-'' @ v) sid None))"
  let ?com = "\<lparr>auth_user = [], remote_sshid = bs ''SSH-2.0-'' @ v, config = cfg, encrypted_of = None,
          auth_method = None, auth_attempts = 0, write_buffer = SSHBuffer_new, kex_of = Some (Init ?ki),
          cipher = (ClearKey, ClearKey), common_wants_reply = False, disconnected = False, common_buffer = [],
          common_strict_kex = False, alive_timeouts = 0, received_data = False\<rparr> :: 'a server_common"
  obtain wb where wb: "s_seal_packets V [?si] ?com = Ok (?com\<lparr>write_buffer := wb\<rparr>)" "buffer wb = clear_packet (sv_crypto V) ?si"
    using s_seal_clear [OF V, of ?com "[?si]"] small by (auto simp: SSHBuffer_new_def)
  have start: "server_read_ssh_id V mo cfg (bs ''SSH-2.0-'' @ v) = Ok (?com\<lparr>write_buffer := wb\<rparr>)"
    using wb(1) V cfg by (simp add: server_read_ssh_id_def KexInit_server_write_def kex_start_def Let_def)
  have "buffer (send_ssh_id (Standard sid) SSHBuffer_new) = sid @ [13, 10]" by (simp add: send_ssh_id_def SSHBuffer_new_def)
  with ident start wb(2) cfg show ?thesis
    by (simp add: run_stream_def server_write_socket_def Server_flush_def sv_clear_def SSHBuffer_new_def Let_def)
qed

lemma kex_run_server:
  assumes "kex_run L Rc Rs pc ps cookie_c cookie_s keys (kex_start cid sid None) (kex_start cid sid None) = Ok (dc, replies, ns)"
    and "KexInit_client_parse rfc4251 L Rc pc cookie_c (write_kex rfc4251 ps [] cookie_s (Some (map sk_name keys)))
       (snd (KexInit_client_write rfc4251 pc cookie_c (kex_start cid sid None))) = Ok ([pkt], dc')"
  obtains out ds where "KexInit_server_parse rfc4251 ps cookie_s keys (write_kex rfc4251 pc [] cookie_c None)
      (snd (KexInit_server_write rfc4251 ps cookie_s keys (kex_start cid sid None))) = Ok (out, Dh ds)"
    "KexDh_parse rfc4251 L Rs keys pkt ds = Ok (replies, KexKeys ns)"
  using assms by (auto simp: kex_run_def obind_Ok_iff Let_def KexInit_client_write_def KexInit_server_write_def kex_case_Ok)

lemma replies_small:
  assumes "kex_lib_ok L" "keys_small keys" "KexDh_parse rfc4251 L R keys buf ds = Ok (replies, KexKeys ns)" "names_kex (nk_names ns) \<noteq> ''none''"
  shows "hd buf = KEX_ECDH_INIT \<and> buf \<noteq> [] \<and> (\<forall>p \<in> set replies. length p \<le> 261000)"
proof -
  have names: "nk_names ns = dh_names ds" and hd: "buf \<noteq> []" "hd buf = KEX_ECDH_INIT"
    using assms(3) by (auto simp: KexDh_parse_def obind_Ok_iff Let_def KexDhDone_compute_keys_def split: if_splits)
  obtain kx where kx: "KEXES (names_kex (dh_names ds)) = Some kx"
    using assms(3) by (auto simp: KexDh_parse_def outcome_simps Let_def split: if_split_asm)
  have ns: "\<not> skip_exchange kx" using kex_none [OF kx] names assms(4) by simp
  obtain pkt where r: "replies = [pkt, [NEWKEYS]]"
    using assms(3) by (auto simp: KexDh_parse_def outcome_simps Let_def split: if_split_asm)
  from reply_small [OF assms(1) kx ns assms(2) assms(3) [unfolded r]] hd r show ?thesis by simp
qed

definition sv_env_ok :: "('z, 'p) server_env \<Rightarrow> bool" where
  "sv_env_ok V \<longleftrightarrow> sv_codec V = rfc4251 \<and> kex_lib_ok (sv_kex V) \<and> crypto_ok (sv_crypto V)"

lemma server_handshake:
  assumes env: "sv_env_ok V" and cfg: "sc_server_id cfg = Standard sid" "keys_small (sc_keys cfg)"
    and run: "kex_run (sv_kex V) Rc (entropy.truncate mo2) pc (sc_preferred cfg) cookie_c (cookie mo) (sc_keys cfg)
        (kex_start (bs ''SSH-2.0-'' @ v) sid None) (kex_start (bs ''SSH-2.0-'' @ v) sid None) = Ok (dc, replies, ns)"
      "names_kex (nk_names ns) \<noteq> ''none''"
    and client: "KexInit_client_parse rfc4251 (sv_kex V) Rc pc cookie_c
        (write_kex rfc4251 (sc_preferred cfg) [] (cookie mo) (Some (map sk_name (sc_keys cfg))))
        (snd (KexInit_client_write rfc4251 pc cookie_c (kex_start (bs ''SSH-2.0-'' @ v) sid None))) = Ok ([pkt], dc)"
      "length (write_kex rfc4251 pc [] cookie_c None) \<le> 261000" "length pkt \<le> 261000"
      "length (write_kex rfc4251 (sc_preferred cfg) [] (cookie mo) (Some (map sk_name (sc_keys cfg)))) \<le> 261000"
    and id: "concat pieces = bs ''SSH-2.0-'' @ v @ [13, 10]
        @ concat (map (clear_packet (sv_crypto V)) [write_kex rfc4251 pc [] cookie_c None, pkt, [NEWKEYS]]) @ rest"
      "10 \<notin> set v" "length v \<le> 246" "[] \<notin> set pieces"
  shows "\<exists>l0 l1 l2 l3. run_stream V mo cfg pieces = Ok l0 \<and> Server_run V mo0 [] l0 = Ok (SvContinue l1)
    \<and> sl_sent l1 = sid @ [13, 10] @ clear_packet (sv_crypto V) (write_kex rfc4251 (sc_preferred cfg) [] (cookie mo) (Some (map sk_name (sc_keys cfg))))
    \<and> server_turns V [(mo1, H, SvRead), (mo2, H, SvRead)] l1 = Ok (SvContinue l2)
    \<and> Server_run V mo0 [(mo1, H, SvRead), (mo2, H, SvRead)] l0 = Ok (SvContinue l2) \<and> sl_stream l2 = clear_packet (sv_crypto V) [NEWKEYS] @ rest
    \<and> sl_sent l2 = sid @ [13, 10] @ concat (map (clear_packet (sv_crypto V))
        (write_kex rfc4251 (sc_preferred cfg) [] (cookie mo) (Some (map sk_name (sc_keys cfg))) # replies))
    \<and> server_read_turn V mo3 H l2 = Ok (SvContinue l3) \<and> sv_encrypted ns l3 \<and> sl_stream l3 = rest"
proof -
  note V = env [unfolded sv_env_ok_def]
  let ?X = "sv_crypto V" and ?ps = "sc_preferred cfg"
  let ?ci = "write_kex rfc4251 pc [] cookie_c None" and ?si = "write_kex rfc4251 ?ps [] (cookie mo) (Some (map sk_name (sc_keys cfg)))"
  let ?ki = "snd (KexInit_server_write rfc4251 ?ps (cookie mo) (sc_keys cfg) (kex_start (bs ''SSH-2.0-'' @ v) sid None))"
  obtain out ds where d: "KexInit_server_parse rfc4251 ?ps (cookie mo) (sc_keys cfg) ?ci ?ki = Ok (out, Dh ds)"
    "KexDh_parse rfc4251 (sv_kex V) (entropy.truncate mo2) (sc_keys cfg) pkt ds = Ok (replies, KexKeys ns)"
    by (rule kex_run_server [OF run(1) client(1)])
  have rs: "hd pkt = KEX_ECDH_INIT" "pkt \<noteq> []" "\<forall>p \<in> set replies. length p \<le> 261000"
    using replies_small [OF _ cfg(2) d(2) run(2)] V by auto
  have id': "concat pieces = bs ''SSH-2.0-'' @ v @ [13, 10] @ clear_packet ?X ?ci @ clear_packet ?X pkt @ clear_packet ?X [NEWKEYS] @ rest"
    using id(1) by simp
  obtain l0 l1 where l1: "run_stream V mo cfg pieces = Ok l0" "server_write_socket V mo0 l0 = Ok l1"
    "sv_clear ?X cfg (Init ?ki) False 0 (sid @ [13, 10] @ clear_packet ?X ?si) l1"
    "sl_stream l1 = clear_packet ?X ?ci @ clear_packet ?X pkt @ clear_packet ?X [NEWKEYS] @ rest" "sl_sent l1 = sid @ [13, 10] @ clear_packet ?X ?si"
    using sv_start_clear [OF conjunct1 [OF V] cfg(1) id' id(2-4) client(4)] by blast
  have ci: "hd ?ci = KEXINIT" "?ci \<noteq> []" "hd ?ci \<noteq> DISCONNECT" using write_kex_head [of rfc4251 pc cookie_c None] by simp_all
  have sent: "ki_sent ?ki" by (simp add: KexInit_server_write_def Let_def)
  note turn = sv_turn_clear [OF conjunct1 [OF V] conjunct2 [OF conjunct2 [OF V]]]
  obtain l2 where l2: "server_turn V mo1 H SvRead l1 = Ok (SvContinue l2)" "sl_stream l2 = clear_packet ?X pkt @ clear_packet ?X [NEWKEYS] @ rest"
    "sv_clear ?X cfg (Dh ds) (strict_kex (dh_names ds)) 1 (sid @ [13, 10] @ clear_packet ?X ?si) l2"
    using turn [OF l1(3) client(2) ci(2,3) l1(4), of mo1 H "Dh ds" "strict_kex (dh_names ds)"]
      sv_reply_init [OF conjunct1 [OF V] _ sent ci(1,2) d(1)] by (metis add_0)
  have two: "(1 :: u32) + 1 = 2" "(2 :: u32) + 1 = 3" by simp_all
  have hd2: "hd pkt \<noteq> DISCONNECT" using rs(1) by simp
  let ?w = "(sid @ [13, 10] @ clear_packet ?X ?si) @ concat (map (clear_packet ?X) replies)"
  obtain l3 where l3: "server_turn V mo2 H SvRead l2 = Ok (SvContinue l3)" "sl_stream l3 = clear_packet ?X [NEWKEYS] @ rest"
    "sv_clear ?X cfg (KexKeys ns) (strict_kex (dh_names ds)) 2 ?w l3" "sl_sent l3 = ?w"
    using turn [OF l2(3) client(3) rs(2) hd2 l2(2), of mo2 H "KexKeys ns" "strict_kex (dh_names ds)" ?w]
      sv_reply_dh [OF conjunct1 [OF V] _ rs(1,2) d(2) rs(3)] unfolding two by blast
  obtain l3' where l3': "sv_clear ?X cfg (KexKeys ns) (strict_kex (dh_names ds)) 3 ?w l3'" "sl_stream l3' = rest"
    "server_read_turn V mo3 H l3 = obind (server_reply V mo3 H l3' [NEWKEYS]) (\<lambda>l. Ok (SvContinue l))"
    using sv_read_turn_clear [OF conjunct1 [OF V] conjunct2 [OF conjunct2 [OF V]] l3(3) _ _ _ l3(2), of mo3 H] unfolding two by auto
  obtain l4 where "server_read_turn V mo3 H l3 = Ok (SvContinue l4)" "sv_encrypted ns l4" "sl_stream l4 = rest"
    using sv_reply_newkeys [OF l3'(1), of V mo3 H] l3'(2,3) by auto
  moreover have "\<not> disconnected (s_common (sl_session l1))" "\<not> disconnected (s_common (sl_session l2))"
    using l1(3) l2(3) by (simp_all add: sv_clear_def Let_def)
  ultimately show ?thesis using l1(1,2,5) l2(1) l3(1,2,4) by (simp add: Server_run_def server_enabled_def)
qed

text \<open>The packet with which a client begins the exchange.\<close>

lemma client_packet:
  assumes "kex_lib_ok L" "pref_ok pc" "pref_ok ps" "length cookie_c = 16" "length cookie_s = 16" "set (algos pc) \<inter> set (pref_kex ps) \<noteq> {}"
    "kex_run L Rc Rs pc ps cookie_c cookie_s keys (kex_start cid sid None) (kex_start cid sid None) = Ok (dc, replies, ns)"
    "names_kex (nk_names ns) \<noteq> ''none''"
  obtains pkt where "KexInit_client_parse rfc4251 L Rc pc cookie_c (write_kex rfc4251 ps [] cookie_s (Some (map sk_name keys)))
      (snd (KexInit_client_write rfc4251 pc cookie_c (kex_start cid sid None))) = Ok ([pkt], dc)" "length pkt \<le> 261000"
proof -
  obtain n :: names and kx pub where r: "KEXES (names_kex n) = Some kx" "\<not> skip_exchange kx"
    "client_dh rfc4251 L Rc kx [] (write_kex rfc4251 pc [] cookie_c None)
       = Ok (pub, write_kex rfc4251 pc [] cookie_c None @ init_packet rfc4251 pub, done_kex dc)"
    "KexInit_client_parse rfc4251 L Rc pc cookie_c (write_kex rfc4251 ps [] cookie_s (Some (map sk_name keys)))
      (snd (KexInit_client_write rfc4251 pc cookie_c (kex_start cid sid None))) = Ok ([init_packet rfc4251 pub], dc)"
    by (rule kex_run_Ok [OF assms]) blast
  have "length (init_packet rfc4251 pub) \<le> 261000"
    using client_pub_small [OF assms(1) KEXES_fresh [OF r(1)] r(2,3)] by (simp add: init_packet_def rfc.length_ssh_string)
  with that r(4) show thesis by blast
qed

lemma handshakes_meet:
  assumes env: "env_ok C" "sv_env_ok V" "env_kex C = sv_kex V" "env_crypto C = sv_crypto V"
    and cfg: "cfg_client_id ccfg = Standard (bs ''SSH-2.0-'' @ vc)" "limits_ok ccfg" "sc_server_id cfg = Standard (bs ''SSH-2.0-'' @ vs)"
      "keys_small (sc_keys cfg)"
    and prefs: "pref_ok (cfg_preferred ccfg)" "pref_ok (sc_preferred cfg)" "set (algos (cfg_preferred ccfg)) \<inter> set (pref_kex (sc_preferred cfg)) \<noteq> {}"
      "length (cookie cm) = 16" "length (cookie sm) = 16"
    and run: "kex_run (sv_kex V) (entropy.truncate cm1) (entropy.truncate sm2) (cfg_preferred ccfg) (sc_preferred cfg) (cookie cm) (cookie sm)
        (sc_keys cfg) (kex_start (bs ''SSH-2.0-'' @ vc) (bs ''SSH-2.0-'' @ vs) None) (kex_start (bs ''SSH-2.0-'' @ vc) (bs ''SSH-2.0-'' @ vs) None)
        = Ok (dc, replies, ns)" "names_kex (nk_names ns) \<noteq> ''none''"
    and packets: "ci = write_kex rfc4251 (cfg_preferred ccfg) [] (cookie cm) None" "length ci \<le> 261000"
      "si = write_kex rfc4251 (sc_preferred cfg) [] (cookie sm) (Some (map sk_name (sc_keys cfg)))" "length si \<le> 261000"
      "KexInit_client_parse rfc4251 (sv_kex V) (entropy.truncate cm1) (cfg_preferred ccfg) (cookie cm) si
        (snd (KexInit_client_write rfc4251 (cfg_preferred ccfg) (cookie cm) (kex_start (bs ''SSH-2.0-'' @ vc) (bs ''SSH-2.0-'' @ vs) None))) = Ok ([pkt], dc)"
      "length pkt \<le> 261000"
    and host: "\<And>k. k \<in> set (sc_keys cfg) \<Longrightarrow> \<exists>p. host_key_ok (env_host C) k p \<and> env_check C p = Ok True"
    and to_client: "concat cpieces = bs ''SSH-2.0-'' @ vs @ [13, 10] @ concat (map (clear_packet (sv_crypto V)) (si # replies)) @ crest"
      "10 \<notin> set vs" "length vs \<le> 246" "[] \<notin> set cpieces"
    and to_server: "concat spieces = bs ''SSH-2.0-'' @ vc @ [13, 10] @ concat (map (clear_packet (sv_crypto V)) [ci, pkt, [NEWKEYS]]) @ srest"
      "10 \<notin> set vc" "length vc \<le> 246" "[] \<notin> set spieces"
  shows "\<exists>c0 c1 cl nc s0 s1 s2 sl. connect_stream C cm ccfg q cpieces = Ok c0 \<and> run_inner C cm0 CH [(cm1, ReadReady)] c0 = Ok (Continue c1)
    \<and> run_turns C CH [(cm2, ReadReady), (cm3, ReadReady)] c1 = Ok (Continue cl) \<and> encrypted_loop nc cl
    \<and> run_stream V sm cfg spieces = Ok s0 \<and> Server_run V sm0 [] s0 = Ok (SvContinue s1)
    \<and> server_turns V [(sm1, SH, SvRead), (sm2, SH, SvRead)] s1 = Ok (SvContinue s2)
    \<and> server_read_turn V sm3 SH s2 = Ok (SvContinue sl) \<and> sv_encrypted ns sl
    \<and> concat cpieces = sl_sent s1 @ lp_stream c1 \<and> concat spieces = lp_sent c1 @ sl_stream s2
    \<and> concat cpieces = sl_sent s2 @ lp_stream cl \<and> concat spieces = lp_sent cl @ sl_stream sl
    \<and> lp_stream cl = crest \<and> sl_stream sl = srest \<and> same_result nc ns
    \<and> carries (sv_crypto V) (fst (nk_cipher nc)) (snd (nk_cipher ns)) \<and> carries (sv_crypto V) (fst (nk_cipher ns)) (snd (nk_cipher nc))"
proof -
  let ?X = "sv_crypto V" and ?cid = "bs ''SSH-2.0-'' @ vc" and ?sid = "bs ''SSH-2.0-'' @ vs"
  have lib: "kex_lib_ok (sv_kex V)" using env(2) by (simp add: sv_env_ok_def)
  obtain ds where d: "KexDh_parse rfc4251 (sv_kex V) (entropy.truncate sm2) (sc_keys cfg) pkt ds = Ok (replies, KexKeys ns)"
    by (rule kex_run_server [OF run(1) packets(5) [unfolded packets(3)]])
  have "\<forall>p \<in> set (si # replies). length p \<le> 261000" using replies_small [OF lib cfg(4) d run(2)] packets(4) by simp
  then obtain sb where sb: "write_packets rfc4251 (cipher_sealing rfc4251 ?X) ClearKey (si # replies) SSHBuffer_new = Ok (ClearKey, sb)"
    "buffer sb = concat (map (clear_packet ?X) (si # replies))"
    using clear_packets_write [of "si # replies" ?X SSHBuffer_new] by (auto simp: SSHBuffer_new_def)
  have seal: "write_packets rfc4251 (env_seal C) ClearKey (write_kex rfc4251 (sc_preferred cfg) [] (cookie sm) (Some (map sk_name (sc_keys cfg))) # replies)
      SSHBuffer_new = Ok (ClearKey, sb)" using env(1,4) sb(1) packets(3) by (simp add: env_ok_def)
  have pieces: "concat cpieces = bs ''SSH-2.0-'' @ vs @ [13, 10] @ buffer sb @ crest" using to_client(1) sb(2) by simp
  obtain c0 c1 cl nc p where c: "connect_stream C cm ccfg q cpieces = Ok c0" "run_inner C cm0 CH [(cm1, ReadReady)] c0 = Ok (Continue c1)"
    "run_turns C CH [(cm2, ReadReady), (cm3, ReadReady)] c1 = Ok (Continue cl)" "encrypted_loop nc cl" "same_result nc ns"
    "lp_stream cl = crest" "carries (env_crypto C) (fst (nk_cipher nc)) (snd (nk_cipher ns))" "carries (env_crypto C) (fst (nk_cipher ns)) (snd (nk_cipher nc))"
    and p: "KexInit_client_parse rfc4251 (env_kex C) (entropy.truncate cm1) (cfg_preferred ccfg) (cookie cm)
        (write_kex rfc4251 (sc_preferred cfg) [] (cookie sm) (Some (map sk_name (sc_keys cfg))))
        (snd (KexInit_client_write rfc4251 (cfg_preferred ccfg) (cookie cm) (kex_start ?cid ?sid None))) = Ok ([p], dc)"
    and io: "buffer sb @ crest = clear_packet (env_crypto C) (write_kex rfc4251 (sc_preferred cfg) [] (cookie sm) (Some (map sk_name (sc_keys cfg)))) @ lp_stream c1"
      "lp_sent c1 = ?cid @ [13, 10] @ clear_packet (env_crypto C) (write_kex rfc4251 (cfg_preferred ccfg) [] (cookie cm) None) @ clear_packet (env_crypto C) p"
      "lp_sent cl = lp_sent c1 @ clear_packet (env_crypto C) [NEWKEYS]"
    using client_handshake [OF env(1) cfg(1,2) prefs run(1) [folded env(3)] run(2) host seal packets(2) [unfolded packets(1)]
        packets(4) [unfolded packets(3)] cfg(4) pieces to_client(2-4), where q = q and ?mo0.0 = cm0 and H = CH and ?mo2.0 = cm2 and ?mo3.0 = cm3] by blast
  have "p = pkt" using p packets(3,5) env(3) by simp
  obtain s0 s1 s2 sl where s: "run_stream V sm cfg spieces = Ok s0" "Server_run V sm0 [] s0 = Ok (SvContinue s1)"
    "server_turns V [(sm1, SH, SvRead), (sm2, SH, SvRead)] s1 = Ok (SvContinue s2)"
    "server_read_turn V sm3 SH s2 = Ok (SvContinue sl)" "sv_encrypted ns sl" "sl_stream sl = srest" "sl_stream s2 = clear_packet ?X [NEWKEYS] @ srest"
    "sl_sent s1 = ?sid @ [13, 10] @ clear_packet ?X si" "sl_sent s2 = ?sid @ [13, 10] @ concat (map (clear_packet ?X) (si # replies))"
    using server_handshake [OF env(2) cfg(3,4) run packets(5) [unfolded packets(3)] packets(2) [unfolded packets(1)] packets(6)
        packets(4) [unfolded packets(3)] to_server(1) [unfolded packets(1)] to_server(2-4)] packets(3) by metis
  have "concat cpieces = sl_sent s1 @ lp_stream c1" using io(1) pieces s(8) env(4) packets(3) by simp
  moreover have "concat spieces = lp_sent c1 @ sl_stream s2" using to_server(1) io(2) s(7) env(4) packets(1) \<open>p = pkt\<close> by simp
  moreover have "concat cpieces = sl_sent s2 @ lp_stream cl" using to_client(1) s(9) c(6) by simp
  moreover have "concat spieces = lp_sent cl @ sl_stream sl" using to_server(1) io(2,3) s(6) env(4) packets(1) \<open>p = pkt\<close> by simp
  ultimately show ?thesis using c s(1-6) env(4) by metis
qed

section \<open>Concrete connections\<close>

definition demo_ssh_config :: client_config where
  "demo_ssh_config = demo_kex_config\<lparr>cfg_client_id := Standard demo_sid\<rparr>"

definition demo_server_moment :: moment where
  "demo_server_moment = demo_moment\<lparr>cookie := replicate 16 7\<rparr>"

lemma demo_sshd_ok:
  "sv_env_ok demo_server_env" "sv_kex demo_server_env = demo_kex_lib" "sv_crypto demo_server_env = null_crypto"
  "cfg_client_id demo_ssh_config = Standard (bs ''SSH-2.0-'' @ [120])" "limits_ok demo_ssh_config" "cfg_preferred demo_ssh_config = demo_pref"
  "sc_server_id demo_server_config = Standard (bs ''SSH-2.0-'' @ [120])" "sc_keys demo_server_config = [demo_server_key]"
  "sc_preferred demo_server_config = demo_pref" "cookie demo_server_moment = replicate 16 7" "entropy.truncate demo_server_moment = demo_entropy"
  using demo_kex_ok
  by (simp_all add: sv_env_ok_def demo_server_env_def demo_ok null_crypto_ok demo_ssh_config_def limits_ok_def demo_server_config_def
      demo_server_moment_def entropy.defs)

lemma demo_pieces:
  obtains dc replies ns pkt where "kex_run demo_kex_lib demo_entropy demo_entropy demo_pref demo_pref (replicate 16 9) (replicate 16 7)
      [demo_server_key] (kex_start demo_sid demo_sid None) (kex_start demo_sid demo_sid None) = Ok (dc, replies, ns)"
    "names_kex (nk_names ns) \<noteq> ''none''"
    "KexInit_client_parse rfc4251 demo_kex_lib demo_entropy demo_pref (replicate 16 9)
      (write_kex rfc4251 demo_pref [] (replicate 16 7) (Some (map sk_name [demo_server_key])))
      (snd (KexInit_client_write rfc4251 demo_pref (replicate 16 9) (kex_start demo_sid demo_sid None))) = Ok ([pkt], dc)" "length pkt \<le> 261000"
proof -
  obtain dc replies ns where run: "kex_run demo_kex_lib demo_entropy demo_entropy demo_pref demo_pref (replicate 16 9) (replicate 16 7)
      [demo_server_key] (kex_start demo_sid demo_sid None) (kex_start demo_sid demo_sid None) = Ok (dc, replies, ns)" "names_kex (nk_names ns) = CURVE25519"
    using demo_kex_run [of demo_entropy demo_entropy demo_sid demo_sid None] by blast
  have nn: "names_kex (nk_names ns) \<noteq> ''none''" using run(2) by (simp add: kex_name_defs)
  have c16: "length (replicate 16 (9 :: u8)) = 16" "length (replicate 16 (7 :: u8)) = 16" by simp_all
  show thesis by (rule client_packet [OF demo_ok(1,3,3) c16 demo_ok(4) run(1) nn]) (rule that [OF run(1) nn])
qed

definition demo_sshd_loop :: "unit server_loop" where
  "demo_sshd_loop = \<lparr>sl_session = s_set_common demo_server_start (CommonSession_encrypted demo_server_common Authenticated demo_server_keys 0),
     sl_input = SSHBuffer_new, sl_stream = [], sl_sent = []\<rparr>"

lemma next_free_empty: "next_free_id Map.empty i = Some i"
  by (simp add: next_free_id.simps)

lemma flush_one:
  assumes "length p \<le> 261000"
  shows "\<exists>wb'. flush_packets rfc4251 zlib (cipher_sealing rfc4251 X) (push_packet rfc4251 [] p) 0 None ClearKey wb
    = Ok (length (push_packet rfc4251 [] p), None, ClearKey, wb')"
proof -
  obtain wb' where wb: "seal_all rfc4251 zlib (cipher_sealing rfc4251 X) [p] None ClearKey wb = Ok (None, ClearKey, wb')"
    using assms by (simp add: clear_packet_write Compress_compress_def)
  show ?thesis
    using rfc.flush_packets_framed [where ps = "[p]" and pre = "[]", of zlib "cipher_sealing rfc4251 X" None ClearKey wb, unfolded wb] assms
    by (simp add: push_packet_framed)
qed

lemma demo_sshd_opens:
  "\<exists>l enc. server_turns demo_server_env [(demo_moment, default_server_handler, SvMsg (SmOpenSession 7))] demo_sshd_loop = Ok (SvContinue l)
    \<and> s_enc (sl_session l) = Some enc \<and> channels enc = [2 \<mapsto> fresh_channel 2 2097152 32768]"
proof -
  let ?p = "open_body rfc4251 (bs ''session'') 2 2097152 32768 []"
  have "length ?p \<le> 261000" by (simp add: open_body_def rfc4251_def rfc_string_def)
  from flush_one [OF this, of "\<lambda>(z :: unit) d. Ok (d, ())" null_crypto SSHBuffer_new] show ?thesis
    by (auto simp: Server_channel_open_session_def Server_channel_open_generic_def s_open_ref_def demo_sshd_loop_def s_set_received_def
        s_enc_def CommonSession_encrypted_def Encrypted_new_channel_def demo_server_keys_def next_free_empty demo_server_common_def
        demo_server_config_def Let_def server_enabled_def Server_is_rekeying_def server_turn_def server_select_def demo_server_env_def
        demo_server_start_def server_end_turn_def server_write_socket_def Server_flush_def s_set_enc_def Encrypted_flush_def fresh_channel_def)
qed

lemma default_not_granted: "\<not> user_granted V default_server_handler"
  by (simp add: user_granted_def grants_def default_server_handler_def)

section \<open>Properties\<close>

text \<open>
  C2: A client and a server of the library whose offers negotiate an elliptic-curve exchange, with a cipher and codes that are in the tables,
  reach an encrypted session with each other. The bytes of either side may arrive in any pieces and be followed by more. Each side reads exactly what the other
  has sent, in the order of the protocol: the client answers the identification and KEXINIT that the server has sent before reading any packet; the server
  replies to what the client has sent by then; the client finishes with that reply and the server's NEWKEYS, and the server with the client's NEWKEYS, the last
  thing that the client has sent. Neither has consumed more. Both end with the same session identifier and mirrored keys, so
  that each reads what the other writes from then on, and the server waits for a request to authenticate. The hypotheses are on the configurations and the packages: identifications
  of one line, offers and host keys that fit into packets, limits that ask for no new exchange at once, host keys that sign and that the client accepts, packages that
  keep their promises and are the same on both sides.
\<close>

theorem handshake_both_sides:
  assumes env: "env_ok C" "sv_env_ok V" "env_kex C = sv_kex V" "env_crypto C = sv_crypto V"
    and cfg: "cfg_client_id ccfg = Standard (bs ''SSH-2.0-'' @ vc)" "limits_ok ccfg" "sc_server_id cfg = Standard (bs ''SSH-2.0-'' @ vs)"
      "keys_small (sc_keys cfg)"
    and ids: "10 \<notin> set vc" "length vc \<le> 246" "10 \<notin> set vs" "length vs \<le> 246"
    and prefs: "pref_ok (cfg_preferred ccfg)" "pref_ok (sc_preferred cfg)" "set (algos (cfg_preferred ccfg)) \<inter> set (pref_kex (sc_preferred cfg)) \<noteq> {}"
      "length (cookie cm) = 16" "length (cookie sm) = 16"
      "length (write_kex rfc4251 (cfg_preferred ccfg) [] (cookie cm) None) \<le> 261000"
      "length (write_kex rfc4251 (sc_preferred cfg) [] (cookie sm) (Some (map sk_name (sc_keys cfg)))) \<le> 261000"
    and negotiated: "read_kex rfc4251 True (write_kex rfc4251 (cfg_preferred ccfg) [] (cookie cm) None) (sc_preferred cfg)
        (Some (map sk_name (sc_keys cfg))) = Ok n"
      "names_kex n \<in> set curve_kexes" "CIPHERS (names_cipher n) \<noteq> None" "MACS (client_mac n) \<noteq> None" "MACS (server_mac n) \<noteq> None"
    and host: "\<And>k h. k \<in> set (sc_keys cfg) \<Longrightarrow> \<exists>s. sk_sign k h = Ok s"
      "\<And>k. k \<in> set (sc_keys cfg) \<Longrightarrow> \<exists>p. host_key_ok (env_host C) k p \<and> env_check C p = Ok True"
  shows "\<exists>from_server from_client ns. nk_names ns = n \<and> (\<forall>cpieces spieces crest srest.
      concat cpieces = from_server @ crest \<and> [] \<notin> set cpieces \<and> concat spieces = from_client @ srest \<and> [] \<notin> set spieces \<longrightarrow>
      (\<exists>c0 c1 cl nc s0 s1 s2 sl. connect_stream C cm ccfg q cpieces = Ok c0 \<and> run_inner C cm0 CH [(cm1, ReadReady)] c0 = Ok (Continue c1)
        \<and> run_turns C CH [(cm2, ReadReady), (cm3, ReadReady)] c1 = Ok (Continue cl) \<and> encrypted_loop nc cl
        \<and> run_stream V sm cfg spieces = Ok s0 \<and> Server_run V sm0 [] s0 = Ok (SvContinue s1)
        \<and> server_turns V [(sm1, SH, SvRead), (sm2, SH, SvRead)] s1 = Ok (SvContinue s2)
        \<and> server_read_turn V sm3 SH s2 = Ok (SvContinue sl) \<and> sv_encrypted ns sl
        \<and> concat cpieces = sl_sent s1 @ lp_stream c1 \<and> concat spieces = lp_sent c1 @ sl_stream s2
        \<and> concat cpieces = sl_sent s2 @ lp_stream cl \<and> concat spieces = lp_sent cl @ sl_stream sl
        \<and> lp_stream cl = crest \<and> sl_stream sl = srest \<and> same_result nc ns
        \<and> carries (sv_crypto V) (fst (nk_cipher nc)) (snd (nk_cipher ns)) \<and> carries (sv_crypto V) (fst (nk_cipher ns)) (snd (nk_cipher nc))))"
proof -
  let ?ci = "write_kex rfc4251 (cfg_preferred ccfg) [] (cookie cm) None"
    and ?si = "write_kex rfc4251 (sc_preferred cfg) [] (cookie sm) (Some (map sk_name (sc_keys cfg)))"
  let ?cid = "bs ''SSH-2.0-'' @ vc" and ?sid = "bs ''SSH-2.0-'' @ vs" and ?X = "sv_crypto V"
  have lib: "kex_lib_ok (sv_kex V)" using env(2) by (simp add: sv_env_ok_def)
  obtain dc replies ns where run: "kex_run (sv_kex V) (entropy.truncate cm1) (entropy.truncate sm2) (cfg_preferred ccfg) (sc_preferred cfg)
      (cookie cm) (cookie sm) (sc_keys cfg) (kex_start ?cid ?sid None) (kex_start ?cid ?sid None) = Ok (dc, replies, ns)" "nk_names ns = n"
    using kex_run_returns [OF lib prefs(1,2,4,5,3) negotiated host(1)] by blast
  have nn: "names_kex (nk_names ns) \<noteq> ''none''" using curve_kexes_known [OF negotiated(2)] run(2) by auto
  obtain pkt where pkt: "KexInit_client_parse rfc4251 (sv_kex V) (entropy.truncate cm1) (cfg_preferred ccfg) (cookie cm) ?si
      (snd (KexInit_client_write rfc4251 (cfg_preferred ccfg) (cookie cm) (kex_start ?cid ?sid None))) = Ok ([pkt], dc)" "length pkt \<le> 261000"
    by (rule client_packet [OF lib prefs(1,2,4,5,3) run(1) nn])
  show ?thesis
  proof (rule exI [of _ "bs ''SSH-2.0-'' @ vs @ [13, 10] @ concat (map (clear_packet ?X) (?si # replies))"],
      rule exI [of _ "bs ''SSH-2.0-'' @ vc @ [13, 10] @ concat (map (clear_packet ?X) [?ci, pkt, [NEWKEYS]])"],
      rule exI [of _ ns], intro conjI allI impI, goal_cases)
    case (2 cpieces spieces crest srest)
    show ?case
      by (rule handshakes_meet [OF env cfg prefs(1-5) run(1) nn refl prefs(6) refl prefs(7) pkt host(2) _ ids(3,4) _ _ ids(1,2)])
        (use 2 in simp_all)
  qed (rule run(2))
qed

text \<open>
  C14: The server never authenticates a user whom its application has not accepted: from the first byte of a
  connection, whatever the client sends, whatever the application commands and whenever timers fire, as long as no
  handler grants a request (with a password, an interactive answer, a key whose signature is verified, or without a method), the
  session is either not encrypted or still waits for authentication.
\<close>

theorem no_grant_no_authentication:
  assumes "run_stream V mo cfg pieces = Ok l0" "Server_run V mo' es l0 = Ok e" "\<And>m H ev. (m, H, ev) \<in> set es \<Longrightarrow> \<not> user_granted V H"
  shows "unauthenticated (sl_session (end_loop e))"
  using ungranted.run_inv [OF assms(1,2)] assms(3) by auto

text \<open>
  C15: The channels of a server's session stay well-formed through its loop. For every sequence of reads, timers and commands of the
  application, key exchanges included: each channel is filed under its own identifier, nothing is queued on a channel that
  is not confirmed, and there is no channel before the authentication. The callbacks of the application are
  asked to keep the same of the session that they are handed, and not to change its state of authentication when they answer a
  question. A session that is not yet encrypted, as \<open>run_stream\<close> starts it, is well-formed.
\<close>

theorem server_session_wf:
  assumes "server_turns V es l = Ok e" "\<And>m H ev. (m, H, ev) \<in> set es \<Longrightarrow> server_application H" "server_wf (sl_session l)"
  shows "server_wf (sl_session (end_loop e))"
  using well_formed.turns_inv [OF assms(1) _ assms(3)] assms(2) by auto

theorem handshake_both_sides_witness:
  "\<exists>cpieces spieces c0 c1 cl nc ns s0 s1 s2 sl. connect_stream demo_client_env demo_moment demo_ssh_config demo_queues cpieces = Ok c0
    \<and> run_inner demo_client_env demo_moment default_handler [(demo_moment, ReadReady)] c0 = Ok (Continue c1)
    \<and> run_turns demo_client_env default_handler [(demo_moment, ReadReady), (demo_moment, ReadReady)] c1 = Ok (Continue cl)
    \<and> run_stream demo_server_env demo_server_moment demo_server_config spieces = Ok s0
    \<and> Server_run demo_server_env demo_server_moment [] s0 = Ok (SvContinue s1)
    \<and> server_turns demo_server_env [(demo_server_moment, demo_server_handler, SvRead), (demo_server_moment, demo_server_handler, SvRead)] s1
        = Ok (SvContinue s2)
    \<and> server_read_turn demo_server_env demo_server_moment demo_server_handler s2 = Ok (SvContinue sl)
    \<and> concat cpieces = sl_sent s2 @ [5] \<and> concat spieces = lp_sent cl @ [5] \<and> encrypted_loop nc cl \<and> sv_encrypted ns sl \<and> same_result nc ns"
proof -
  have names: "read_kex rfc4251 True (write_kex rfc4251 (cfg_preferred demo_ssh_config) [] (cookie demo_moment) None)
      (sc_preferred demo_server_config) (Some (map sk_name (sc_keys demo_server_config))) = Ok demo_negotiated"
    using demo_names by (simp add: demo_sshd_ok demo_kex_ok demo_server_key_def)
  have lib: "env_kex demo_client_env = sv_kex demo_server_env" "env_crypto demo_client_env = sv_crypto demo_server_env"
    by (simp_all add: demo_sshd_ok demo_kex_ok)
  have cfg: "keys_small (sc_keys demo_server_config)" "pref_ok (cfg_preferred demo_ssh_config)" "pref_ok (sc_preferred demo_server_config)"
    "set (algos (cfg_preferred demo_ssh_config)) \<inter> set (pref_kex (sc_preferred demo_server_config)) \<noteq> {}"
    "length (cookie demo_moment) = 16" "length (cookie demo_server_moment) = 16"
    "length (write_kex rfc4251 (cfg_preferred demo_ssh_config) [] (cookie demo_moment) None) \<le> 261000"
    "length (write_kex rfc4251 (sc_preferred demo_server_config) [] (cookie demo_server_moment) (Some (map sk_name (sc_keys demo_server_config)))) \<le> 261000"
    using demo_ok demo_kex_ok by (simp_all add: demo_sshd_ok demo_kex_ok)
  have known: "names_kex demo_negotiated \<in> set curve_kexes" "CIPHERS (names_cipher demo_negotiated) \<noteq> None"
    "MACS (client_mac demo_negotiated) \<noteq> None" "MACS (server_mac demo_negotiated) \<noteq> None"
    by (simp_all add: demo_negotiated_def curve_kexes_def CIPHERS_def MACS_def)
  have host: "\<exists>s. sk_sign k h = Ok s" "\<exists>p. host_key_ok (env_host demo_client_env) k p \<and> env_check demo_client_env p = Ok True"
    if "k \<in> set (sc_keys demo_server_config)" for k h
    using that demo_ok(2) by (auto simp: demo_sshd_ok demo_kex_ok demo_server_key_def)
  have ids: "10 \<notin> set [120 :: u8]" "length [120 :: u8] \<le> 246" by simp_all
  show ?thesis
    apply (rule exE [OF handshake_both_sides [OF demo_kex_ok(1) demo_sshd_ok(1) lib demo_sshd_ok(4,5,7) cfg(1) ids ids cfg(2-8) names known host,
        where q = demo_queues and ?cm0.0 = demo_moment and CH = default_handler and ?cm1.0 = demo_moment and ?cm2.0 = demo_moment
          and ?cm3.0 = demo_moment and ?sm0.0 = demo_server_moment and SH = demo_server_handler and ?sm1.0 = demo_server_moment
          and ?sm2.0 = demo_server_moment and ?sm3.0 = demo_server_moment]], assumption, assumption)
    apply (elim exE conjE)
    subgoal premises h for from_server from_client ns
    proof -
      let ?c = "[from_server @ [5]]" and ?s = "[from_client @ [5]]"
      have pieces: "concat ?c = from_server @ [5] \<and> [] \<notin> set ?c \<and> concat ?s = from_client @ [5] \<and> [] \<notin> set ?s" by simp
      show ?thesis
        using h(2) [rule_format, OF pieces]
        by (intro exI [of _ ?c] exI [of _ ?s]) (elim exE conjE, intro exI conjI, assumption+, simp only:, simp only:, assumption+)
    qed
    done
qed

theorem no_grant_no_authentication_witness:
  "\<exists>pieces l0 l. run_stream demo_server_env demo_server_moment demo_server_config pieces = Ok l0
    \<and> Server_run demo_server_env demo_server_moment
        [(demo_server_moment, default_server_handler, SvRead), (demo_server_moment, default_server_handler, SvRead)] l0 = Ok (SvContinue l)
    \<and> unauthenticated (sl_session l)"
proof -
  obtain dc replies ns pkt where r: "kex_run demo_kex_lib demo_entropy demo_entropy demo_pref demo_pref (replicate 16 9) (replicate 16 7)
      [demo_server_key] (kex_start demo_sid demo_sid None) (kex_start demo_sid demo_sid None) = Ok (dc, replies, ns)"
    "names_kex (nk_names ns) \<noteq> ''none''"
    "KexInit_client_parse rfc4251 demo_kex_lib demo_entropy demo_pref (replicate 16 9)
      (write_kex rfc4251 demo_pref [] (replicate 16 7) (Some (map sk_name [demo_server_key])))
      (snd (KexInit_client_write rfc4251 demo_pref (replicate 16 9) (kex_start demo_sid demo_sid None))) = Ok ([pkt], dc)" "length pkt \<le> 261000"
    by (rule demo_pieces)
  let ?ci = "write_kex rfc4251 demo_pref [] (replicate 16 9) None"
  obtain l0 l where l: "run_stream demo_server_env demo_server_moment demo_server_config
      [demo_sid @ [13, 10] @ concat (map (clear_packet null_crypto) [?ci, pkt, [NEWKEYS]])] = Ok l0"
    "Server_run demo_server_env demo_server_moment
      [(demo_server_moment, default_server_handler, SvRead), (demo_server_moment, default_server_handler, SvRead)] l0 = Ok (SvContinue l)"
    using server_handshake [OF demo_sshd_ok(1,7), where dc = dc and pkt = pkt and replies = replies and pc = demo_pref and v = "[120]"
        and ?Rc = demo_entropy and mo = demo_server_moment and ?mo2.0 = demo_server_moment and cookie_c = "replicate 16 9" and rest = "[]"
        and pieces = "[demo_sid @ [13, 10] @ concat (map (clear_packet null_crypto) [?ci, pkt, [NEWKEYS]])]" and ns = ns
        and ?mo0.0 = demo_server_moment and ?mo1.0 = demo_server_moment and ?mo3.0 = demo_server_moment and H = default_server_handler]
      r demo_kex_ok(8-10) by (auto simp: demo_sshd_ok)
  have "\<not> user_granted demo_server_env H" if "(m, H, ev) \<in> set [(demo_server_moment, default_server_handler, SvRead),
      (demo_server_moment, default_server_handler, SvRead)]" for m H ev
    using that default_not_granted by auto
  from no_grant_no_authentication [OF l this] have "unauthenticated (sl_session l)" by simp
  with l show ?thesis by blast
qed

theorem server_session_wf_witness:
  "\<exists>l enc. server_turns demo_server_env [(demo_moment, default_server_handler, SvMsg (SmOpenSession 7))] demo_sshd_loop = Ok (SvContinue l)
    \<and> s_enc (sl_session l) = Some enc \<and> channels enc = [2 \<mapsto> fresh_channel 2 2097152 32768] \<and> server_wf (sl_session l)"
proof -
  obtain l enc where l: "server_turns demo_server_env [(demo_moment, default_server_handler, SvMsg (SmOpenSession 7))] demo_sshd_loop = Ok (SvContinue l)"
    "s_enc (sl_session l) = Some enc" "channels enc = [2 \<mapsto> fresh_channel 2 2097152 32768]"
    using demo_sshd_opens by blast
  have "server_application H" if "(m, H, ev) \<in> set [(demo_moment, default_server_handler, SvMsg (SmOpenSession 7))]"
    for m ev and H :: "(unit, bytes) server_handler"
    using that default_application.server_application_axioms by simp
  moreover have "server_wf (sl_session demo_sshd_loop)"
    by (simp add: demo_sshd_loop_def s_view_def s_enc_def CommonSession_encrypted_def)
  ultimately have "server_wf (sl_session l)" using server_session_wf [OF l(1)] by simp
  with l show ?thesis by blast
qed

end
