(* ===== verification/Server_Socket.thy ===== *)
theory Server_Socket
  imports Server_Loop
begin

text \<open>
  The end of a server's session (\<open>Session::run\<close> after its loop) and the server of a listening socket (\<open>Server::run_on_socket\<close> of
  \<open>server/mod.rs\<close>). Proved: the shutdown of a session ends, and always with an error; the accept loop reports
  the errors of its connections in their order and ends with the first failed accept.
\<close>

section \<open>Shutdown\<close>

text \<open>
  After its loop a session closes the write half of its stream, which nothing here depends on, and reads on until a read gives no bytes, dropping
  what it reads. What the peer still sends is a finite list of bytes: a peer that keeps the connection open without sending keeps the session reading.
\<close>

definition drain_read ::
  "('z, 'p) server_env \<Rightarrow> 'z server_loop \<Rightarrow> (error, nat \<times> 'z server_loop) outcome" where
  "drain_read V l =
    obind (start_reading (sv_codec V) (cipher_opening (sv_codec V) (sv_crypto V)) (snd (cipher (s_common (sl_session l))))
        (sl_stream l) (sl_input l)) (\<lambda>(n, stream, c, input).
    Ok (n, s_set_cipher c (l\<lparr>sl_stream := stream, sl_input := input\<rparr>)))"

partial_function (option) drain :: "('z, 'p) server_env \<Rightarrow> 'z server_loop \<Rightarrow> (error, unit) outcome option" where
  "drain V l =
    (case drain_read V l of
       Ok (n, l1) \<Rightarrow> if n = 0 then Some (Ok ()) else drain V l1
     | Err e \<Rightarrow> Some (Err e)
     | Panic \<Rightarrow> Some Panic
     | Diverge \<Rightarrow> Some Diverge)"

text \<open>The whole of \<open>run\<close>: no result while the loop goes on.\<close>

definition session_result ::
  "('z, 'p) server_env \<Rightarrow> moment \<Rightarrow> (moment \<times> ('z, 'p) server_handler \<times> server_event) list \<Rightarrow> 'z server_loop \<Rightarrow>
   (error, unit) outcome option" where
  "session_result V mo es l =
    (case Server_run V mo es l of
       Ok (SvContinue _) \<Rightarrow> None
     | Ok (SvBreak l1) \<Rightarrow> (case drain V l1 of Some r \<Rightarrow> Some r | None \<Rightarrow> Some Diverge)
     | Err e \<Rightarrow> Some (Err e)
     | Panic \<Rightarrow> Some Panic
     | Diverge \<Rightarrow> Some Diverge)"

section \<open>The listening socket\<close>

text \<open>The task of one connection, from its identification to the result of its session.\<close>

definition connection_task ::
  "('z, 'p) server_env \<Rightarrow> server_config \<Rightarrow> moment \<Rightarrow> bytes list \<Rightarrow> moment \<Rightarrow> (moment \<times> ('z, 'p) server_handler \<times> server_event) list \<Rightarrow>
   (error, unit) outcome option" where
  "connection_task V cfg m0 pieces mo es =
    (case run_stream V m0 cfg pieces of
       Ok l \<Rightarrow> session_result V mo es l
     | Err e \<Rightarrow> Some (Err e)
     | Panic \<Rightarrow> Some Panic
     | Diverge \<Rightarrow> Some Diverge)"

text \<open>
  What happens to the accept loop: a connection, for which the application makes a handler, or a failed accept; a task
  ends and queues its error; the loop takes an error from the queue and hands it to the application.
\<close>

datatype 'c socket_event = SocketAccept 'c | SocketAcceptFails | TaskEnds "(error, unit) outcome" | SocketReport

record 'c socket_state =
  sk_clients :: "'c list"
  sk_errors :: "error list"
  sk_reported :: "error list"

definition send_error :: "(error, unit) outcome \<Rightarrow> 'c socket_state \<Rightarrow> 'c socket_state" where
  "send_error r s = (case r of Err e \<Rightarrow> s\<lparr>sk_errors := sk_errors s @ [e]\<rparr> | _ \<Rightarrow> s)"

definition handle_session_error :: "'c socket_state \<Rightarrow> 'c socket_state" where
  "handle_session_error s =
    (case sk_errors s of [] \<Rightarrow> s | e # q \<Rightarrow> s\<lparr>sk_errors := q, sk_reported := sk_reported s @ [e]\<rparr>)"

fun run_on_socket :: "'c socket_event list \<Rightarrow> 'c socket_state \<Rightarrow> bool \<times> 'c socket_state" where
  "run_on_socket [] s = (False, s)"
| "run_on_socket (SocketAccept c # es) s = run_on_socket es (s\<lparr>sk_clients := sk_clients s @ [c]\<rparr>)"
| "run_on_socket (SocketAcceptFails # es) s = (True, s)"
| "run_on_socket (TaskEnds r # es) s = run_on_socket es (send_error r s)"
| "run_on_socket (SocketReport # es) s = run_on_socket es (handle_session_error s)"

section \<open>Every read is of a packet\<close>

lemma cipher_read_progress:
  assumes "cipher_read E C c stream b = Ok (n, stream', c', b')"
  shows "4 \<le> n" "buf_len b' = 0" "length stream' < length stream \<or> buf_len b \<noteq> 0 \<and> length stream' \<le> length stream"
proof -
  obtain s1 b1 where len: "cipher_read_len E C c stream b = Ok (s1, b1)"
    using assms by (auto simp: cipher_read_def outcome_simps split: prod.splits)
  let ?k = "packet_length_to_read_for_block_length C c" and ?w = "resize (buf_len b1 + 4) (buffer b1)"
  obtain body s2 where body: "?k \<le> length ?w" "read_exact (length ?w - ?k) s1 = Ok (body, s2)"
    "cipher_open C c (take ?k ?w @ body) s2 b1 = Ok (n, stream', c', b')"
    using assms len by (auto simp: cipher_read_def outcome_simps Let_def split: prod.splits if_splits)
  have o: "4 \<le> n" "buf_len b' = 0" "stream' = s2"
    using body(3) by (auto simp: cipher_open_def outcome_simps Let_def split: prod.splits if_splits)
  then show "4 \<le> n" "buf_len b' = 0" by simp_all
  have r: "length stream' = length s1 - (buf_len b1 + 4 - ?k)" "buf_len b1 + 4 - ?k \<le> length s1"
    using body(1,2) o(3) by (auto simp: read_exact_def split: if_splits)
  show "length stream' < length stream \<or> buf_len b \<noteq> 0 \<and> length stream' \<le> length stream"
  proof (cases "buf_len b = 0")
    case True
    with len have "length s1 = length stream - ?k" "?k \<le> length stream"
      by (auto simp: cipher_read_len_def read_exact_def outcome_simps Let_def split: if_splits)
    then have "length stream' < length stream" using r body(1) by (simp only: length_resize)
    then show ?thesis by simp
  next
    case False
    with len have "s1 = stream" by (simp add: cipher_read_len_def)
    with False r show ?thesis by simp
  qed
qed

lemma drain_read_progress:
  assumes "drain_read V l = Ok (n, l1)"
  shows "n \<noteq> 0" "buf_len (sl_input l1) = 0"
    "length (sl_stream l1) < length (sl_stream l) \<or> buf_len (sl_input l) \<noteq> 0 \<and> length (sl_stream l1) \<le> length (sl_stream l)"
proof -
  obtain stream c input where "start_reading (sv_codec V) (cipher_opening (sv_codec V) (sv_crypto V)) (snd (cipher (s_common (sl_session l))))
        (sl_stream l) (sl_input l) = Ok (n, stream, c, input)" "sl_stream l1 = stream" "sl_input l1 = input"
    using assms by (auto simp: drain_read_def outcome_simps s_set_cipher_def Let_def)
  from cipher_read_progress [OF this(1) [unfolded start_reading_def]] this(2,3)
  show "n \<noteq> 0" "buf_len (sl_input l1) = 0"
    "length (sl_stream l1) < length (sl_stream l) \<or> buf_len (sl_input l) \<noteq> 0 \<and> length (sl_stream l1) \<le> length (sl_stream l)"
    by simp_all
qed

lemma drain_ends: "\<exists>r. drain V l = Some r \<and> r \<noteq> Ok ()"
proof (induction "2 * length (sl_stream l) + (if buf_len (sl_input l) = 0 then 0 else 1)" arbitrary: l rule: less_induct)
  case less
  show ?case
  proof (cases "drain_read V l")
    case (Ok x)
    obtain n l1 where x: "x = (n, l1)" by (cases x)
    note p = drain_read_progress [OF Ok [unfolded x]]
    from p(2,3) have "2 * length (sl_stream l1) + (if buf_len (sl_input l1) = 0 then 0 else 1)
        < 2 * length (sl_stream l) + (if buf_len (sl_input l) = 0 then 0 else 1)" by auto
    from less [OF this] show ?thesis using Ok x p(1) by (subst drain.simps) simp
  qed (subst drain.simps, simp)+
qed

lemma session_never_Ok: "session_result V mo es l \<noteq> Some (Ok ())"
proof (cases "Server_run V mo es l")
  case (Ok e)
  show ?thesis
  proof (cases e)
    case (SvBreak l1)
    with Ok drain_ends [of V l1] show ?thesis by (auto simp: session_result_def)
  qed (simp add: session_result_def Ok)
qed (simp_all add: session_result_def)

lemma connection_never_Ok: "connection_task V cfg m0 pieces mo es \<noteq> Some (Ok ())"
  using session_never_Ok by (cases "run_stream V m0 cfg pieces") (simp_all add: connection_task_def)

section \<open>What the accept loop reports\<close>

definition task_errors :: "'c socket_event list \<Rightarrow> error list" where
  "task_errors es = concat (map (\<lambda>ev. case ev of TaskEnds (Err e) \<Rightarrow> [e] | _ \<Rightarrow> []) es)"

definition accepted_clients :: "'c socket_event list \<Rightarrow> 'c list" where
  "accepted_clients es = concat (map (\<lambda>ev. case ev of SocketAccept c \<Rightarrow> [c] | _ \<Rightarrow> []) es)"

lemma task_errors_Cons [simp]: "task_errors [] = []"
  "task_errors (ev # es) = (case ev of TaskEnds (Err e) \<Rightarrow> [e] | _ \<Rightarrow> []) @ task_errors es"
  by (simp_all add: task_errors_def)

lemma accepted_clients_Cons [simp]: "accepted_clients [] = []"
  "accepted_clients (ev # es) = (case ev of SocketAccept c \<Rightarrow> [c] | _ \<Rightarrow> []) @ accepted_clients es"
  by (simp_all add: accepted_clients_def)

lemma handle_session_error_queue [simp]:
  "sk_reported (handle_session_error s) @ sk_errors (handle_session_error s) = sk_reported s @ sk_errors s"
  "sk_clients (handle_session_error s) = sk_clients s"
  by (simp_all add: handle_session_error_def split: list.split)

lemma send_error_queue [simp]:
  "sk_reported (send_error r s) = sk_reported s" "sk_clients (send_error r s) = sk_clients s"
  "sk_errors (send_error r s) = sk_errors s @ (case r of Err e \<Rightarrow> [e] | _ \<Rightarrow> [])"
  by (simp_all add: send_error_def split: outcome.split)

lemma run_on_socket_serves:
  "run_on_socket es s = (ended, s') \<Longrightarrow> (let served = takeWhile (\<lambda>ev. ev \<noteq> SocketAcceptFails) es
     in sk_reported s' @ sk_errors s' = sk_reported s @ sk_errors s @ task_errors served
        \<and> sk_clients s' = sk_clients s @ accepted_clients served \<and> (ended \<longleftrightarrow> SocketAcceptFails \<in> set es))"
proof (induction es s rule: run_on_socket.induct)
  case (4 r es s)
  then show ?case by (cases r) (simp_all add: Let_def)
next
  case (5 es s)
  then show ?case by (simp add: Let_def)
qed (simp_all add: Let_def)

section \<open>Properties\<close>

text \<open>
  C40: The shutdown of a session ends for every stream, and never without an error: a read that succeeds gives at
  least four bytes and consumes some, and the end of the stream is an error. So no session and no connection of a
  server ends with success, however its client leaves.
\<close>

theorem shutdown_ends_with_error:
  "(\<exists>r. drain V l = Some r \<and> r \<noteq> Ok ()) \<and> session_result V mo es l \<noteq> Some (Ok ()) \<and> connection_task V cfg m0 pieces mo es \<noteq> Some (Ok ())"
  using drain_ends session_never_Ok connection_never_Ok by blast

text \<open>
  The server of a listening socket serves every connection up to the first failed accept, with which it ends;
  the errors of the tasks reach the application in the order in which the tasks ended, none twice, and those not
  yet reported are still queued.
\<close>

theorem accept_loop_reports:
  assumes "run_on_socket es s = (ended, s')"
  shows "let served = takeWhile (\<lambda>ev. ev \<noteq> SocketAcceptFails) es
    in sk_reported s' @ sk_errors s' = sk_reported s @ sk_errors s @ task_errors served
       \<and> sk_clients s' = sk_clients s @ accepted_clients served \<and> (ended \<longleftrightarrow> SocketAcceptFails \<in> set es)"
  by (rule run_on_socket_serves [OF assms])

theorem accept_loop_reports_witness:
  "sk_reported (snd (run_on_socket [SocketAccept (1 :: nat), TaskEnds (Err IO), SocketAccept 2, SocketReport, SocketAcceptFails, SocketAccept 3]
      \<lparr>sk_clients = [], sk_errors = [], sk_reported = []\<rparr>)) = [IO]"
proof -
  have run: "run_on_socket [SocketAccept (1 :: nat), TaskEnds (Err IO), SocketAccept 2, SocketReport, SocketAcceptFails, SocketAccept 3]
      \<lparr>sk_clients = [], sk_errors = [], sk_reported = []\<rparr> = (True, \<lparr>sk_clients = [1, 2], sk_errors = [], sk_reported = [IO]\<rparr>)"
    by (simp add: send_error_def handle_session_error_def)
  from accept_loop_reports [OF run] have "sk_reported \<lparr>sk_clients = [1 :: nat, 2], sk_errors = [], sk_reported = [IO]\<rparr> = [IO]" by simp
  with run show ?thesis by simp
qed

end
