(* ===== verification/Ssh_Keys.thy ===== *)
theory Ssh_Keys
  imports Server_Auth
begin

text \<open>
  How keys and certificates are written (\<open>key.rs\<close>, \<open>cert.rs\<close>) and named (\<open>negotiation.rs\<close>). The keys themselves, their parts and names and the wrapped string of
  the encoding belong to other packages and are fields of \<open>key_package\<close> and \<open>certificate_package\<close>. Proved: every kind of key, and
  the public half of every key pair, is written as one string that holds the key as RFC 4253 and RFC 5656 lay
  it out, which is what both sides of the authentication rely on.
\<close>

section \<open>Keys\<close>

datatype ('r, 'e) PublicKey = PublicEd25519 bytes | PublicRSA 'r | PublicEC 'e

datatype ('ed, 'rk, 'ek) KeyPair = PairEd25519 'ed | PairRSA 'rk | PairEC 'ek

record ('ed, 'rk, 'ek, 'r, 'e) key_package =
  ED25519_name :: bytes
  SSH_RSA_name :: bytes
  verifying_key :: "'ed \<Rightarrow> bytes"
  pair_hash_name :: "'rk \<Rightarrow> bytes"
  public_hash_name :: "'r \<Rightarrow> bytes"
  RsaPublicKey_from :: "'rk \<Rightarrow> 'r"
  to_public_key :: "'ek \<Rightarrow> 'e"
  extend_rsa :: "'r \<Rightarrow> bytes"
  ec_algorithm :: "'e \<Rightarrow> bytes"
  ec_ident :: "'e \<Rightarrow> bytes"
  to_sec1_bytes :: "'e \<Rightarrow> bytes"
  extend_wrapped :: "bytes \<Rightarrow> bytes"

definition write_ec_public_key :: "codec \<Rightarrow> ('ed, 'rk, 'ek, 'r, 'e) key_package \<Rightarrow> bytes \<Rightarrow> 'e \<Rightarrow> bytes" where
  "write_ec_public_key E P buf key =
    (let algorithm = ec_algorithm P key; ident = ec_ident P key; q = to_sec1_bytes P key
     in buf @ push_u32_be E (of_nat (length algorithm + length ident + length q + 12))
          @ extend_ssh_string E algorithm @ extend_ssh_string E ident @ extend_ssh_string E q)"

fun PublicKey_push_to :: "codec \<Rightarrow> ('ed, 'rk, 'ek, 'r, 'e) key_package \<Rightarrow> ('r, 'e) PublicKey \<Rightarrow> bytes \<Rightarrow> bytes" where
  "PublicKey_push_to E P (PublicEd25519 public) buf =
     buf @ push_u32_be E (of_nat (length (ED25519_name P) + length public + 8))
         @ extend_ssh_string E (ED25519_name P) @ extend_ssh_string E public"
| "PublicKey_push_to E P (PublicRSA key) buf = buf @ extend_wrapped P (extend_ssh_string E (SSH_RSA_name P) @ extend_rsa P key)"
| "PublicKey_push_to E P (PublicEC key) buf = write_ec_public_key E P buf key"

fun KeyPair_push_to :: "codec \<Rightarrow> ('ed, 'rk, 'ek, 'r, 'e) key_package \<Rightarrow> ('ed, 'rk, 'ek) KeyPair \<Rightarrow> bytes \<Rightarrow> bytes" where
  "KeyPair_push_to E P (PairEd25519 key) buf =
    (let public = verifying_key P key
     in buf @ push_u32_be E (of_nat (length (ED25519_name P) + length public + 8))
          @ extend_ssh_string E (ED25519_name P) @ extend_ssh_string E public)"
| "KeyPair_push_to E P (PairRSA key) buf =
     buf @ extend_wrapped P (extend_ssh_string E (SSH_RSA_name P) @ extend_rsa P (RsaPublicKey_from P key))"
| "KeyPair_push_to E P (PairEC key) buf = write_ec_public_key E P buf (to_public_key P key)"

text \<open>The names under which keys are offered: an RSA key has the name of its signature hash, which is not the one that its blob begins with.\<close>

fun PublicKey_name :: "('ed, 'rk, 'ek, 'r, 'e) key_package \<Rightarrow> ('r, 'e) PublicKey \<Rightarrow> bytes" where
  "PublicKey_name P (PublicEd25519 _) = ED25519_name P"
| "PublicKey_name P (PublicRSA key) = public_hash_name P key"
| "PublicKey_name P (PublicEC key) = ec_algorithm P key"

fun KeyPair_name :: "('ed, 'rk, 'ek, 'r, 'e) key_package \<Rightarrow> ('ed, 'rk, 'ek) KeyPair \<Rightarrow> bytes" where
  "KeyPair_name P (PairEd25519 _) = ED25519_name P"
| "KeyPair_name P (PairRSA key) = pair_hash_name P key"
| "KeyPair_name P (PairEC key) = ec_algorithm P (to_public_key P key)"

section \<open>Certificates\<close>

datatype ecdsa_curve = NistP256 | NistP384 | NistP521

datatype certificate_algorithm =
  CertDsa | CertEcdsa ecdsa_curve | CertEd25519 | CertRsa | CertSkEcdsaSha2NistP256 | CertSkEd25519 | CertOther

record 'c certificate_package =
  certificate_algorithm_of :: "'c \<Rightarrow> certificate_algorithm"
  certificate_encode :: "'c \<Rightarrow> bytes"

definition Certificate_push_to :: "codec \<Rightarrow> 'c certificate_package \<Rightarrow> 'c \<Rightarrow> bytes \<Rightarrow> bytes" where
  "Certificate_push_to E C cert buf = buf @ extend_ssh_string E (certificate_encode C cert)"

fun certificate_name :: "certificate_algorithm \<Rightarrow> string" where
  "certificate_name CertDsa = ''ssh-dss-cert-v01@openssh.com''"
| "certificate_name (CertEcdsa NistP256) = ''ecdsa-sha2-nistp256-cert-v01@openssh.com''"
| "certificate_name (CertEcdsa NistP384) = ''ecdsa-sha2-nistp384-cert-v01@openssh.com''"
| "certificate_name (CertEcdsa NistP521) = ''ecdsa-sha2-nistp521-cert-v01@openssh.com''"
| "certificate_name CertEd25519 = ''ssh-ed25519-cert-v01@openssh.com''"
| "certificate_name CertRsa = ''ssh-rsa-cert-v01@openssh.com''"
| "certificate_name CertSkEcdsaSha2NistP256 = ''sk-ecdsa-sha2-nistp256-cert-v01@openssh.com''"
| "certificate_name CertSkEd25519 = ''sk-ssh-ed25519-cert-v01@openssh.com''"
| "certificate_name CertOther = ''none''"

definition Certificate_name :: "'c certificate_package \<Rightarrow> 'c \<Rightarrow> string" where
  "Certificate_name C cert = certificate_name (certificate_algorithm_of C cert)"

section \<open>One string\<close>

text \<open>The layout of a public key: its name and then its parts (RFC 8709, RFC 4253, RFC 5656).\<close>

fun rfc_key :: "('ed, 'rk, 'ek, 'r, 'e) key_package \<Rightarrow> ('r, 'e) PublicKey \<Rightarrow> bytes" where
  "rfc_key P (PublicEd25519 public) = rfc_string (ED25519_name P) @ rfc_string public"
| "rfc_key P (PublicRSA key) = rfc_string (SSH_RSA_name P) @ extend_rsa P key"
| "rfc_key P (PublicEC key) = rfc_string (ec_algorithm P key) @ rfc_string (ec_ident P key) @ rfc_string (to_sec1_bytes P key)"

fun public_half :: "('ed, 'rk, 'ek, 'r, 'e) key_package \<Rightarrow> ('ed, 'rk, 'ek) KeyPair \<Rightarrow> ('r, 'e) PublicKey" where
  "public_half P (PairEd25519 key) = PublicEd25519 (verifying_key P key)"
| "public_half P (PairRSA key) = PublicRSA (RsaPublicKey_from P key)"
| "public_half P (PairEC key) = PublicEC (to_public_key P key)"

definition key_algorithm :: "('ed, 'rk, 'ek, 'r, 'e) key_package \<Rightarrow> ('r, 'e) PublicKey \<Rightarrow> bytes" where
  "key_algorithm P k = (case k of PublicEd25519 _ \<Rightarrow> ED25519_name P | PublicRSA _ \<Rightarrow> SSH_RSA_name P | PublicEC key \<Rightarrow> ec_algorithm P key)"

text \<open>The documented behaviour of \<open>extend_wrapped\<close>: what is written inside becomes a string.\<close>

definition wraps :: "('ed, 'rk, 'ek, 'r, 'e) key_package \<Rightarrow> bool" where
  "wraps P \<longleftrightarrow> (\<forall>x. extend_wrapped P x = rfc_string x)"

lemma length_rfc_string: "length (rfc_string x) = length x + 4"
  by (simp add: rfc_string_def)

lemma rfc_push: "push_u32_be rfc4251 = be32"
  by (simp add: rfc4251_def)

lemma PublicKey_push_rfc:
  assumes "wraps P"
  shows "PublicKey_push_to rfc4251 P k buf = buf @ rfc_string (rfc_key P k)"
proof (cases k)
  case (PublicEd25519 public)
  have "length (rfc_key P k) = length (ED25519_name P) + length public + 8" by (simp add: PublicEd25519 length_rfc_string)
  then show ?thesis by (simp add: PublicEd25519 rfc_push rfc_codec rfc_string_def [of "_ @ _"])
next
  case (PublicRSA key)
  with assms show ?thesis by (simp add: wraps_def rfc_codec)
next
  case (PublicEC key)
  have "length (rfc_key P k) = length (ec_algorithm P key) + length (ec_ident P key) + length (to_sec1_bytes P key) + 12"
    by (simp add: PublicEC length_rfc_string)
  then show ?thesis by (simp add: PublicEC write_ec_public_key_def Let_def rfc_push rfc_codec rfc_string_def [of "_ @ _"])
qed

lemma KeyPair_push_public: "KeyPair_push_to E P k buf = PublicKey_push_to E P (public_half P k) buf"
  by (cases k) (simp_all add: Let_def)

lemma certificate_name_inj: "certificate_name a = certificate_name b \<Longrightarrow> a = b"
  by (cases a rule: certificate_name.cases; cases b rule: certificate_name.cases) simp_all

lemma key_read_back:
  assumes "wraps P" "length (rfc_key P k) < 2 ^ 32" "length (key_algorithm P k) < 2 ^ 32"
  shows "read_string rfc4251 (PublicKey_push_to rfc4251 P k [] @ r) = Some (rfc_key P k, r)"
    "\<exists>rest. read_string rfc4251 (rfc_key P k) = Some (key_algorithm P k, rest)"
proof -
  show "read_string rfc4251 (PublicKey_push_to rfc4251 P k [] @ r) = Some (rfc_key P k, r)"
    using rfc_reads(1) [OF assms(2)] by (simp add: PublicKey_push_rfc [OF assms(1)])
  show "\<exists>rest. read_string rfc4251 (rfc_key P k) = Some (key_algorithm P k, rest)"
    using rfc_reads(1) [OF assms(3)] by (cases k) (simp_all add: key_algorithm_def)
qed

text \<open>The key of a client as \<open>Client_Auth\<close> takes it, of a key pair and what signs with it.\<close>

definition key_of_pair :: "('ed, 'rk, 'ek, 'r, 'e) key_package \<Rightarrow> ('ed, 'rk, 'ek) KeyPair \<Rightarrow> (bytes \<Rightarrow> (error, bytes) outcome) \<Rightarrow> key_pair" where
  "key_of_pair P k sign = \<lparr>key_name = KeyPair_name P k, key_blob = KeyPair_push_to rfc4251 P k [],
     add_self_signature = sign\<rparr>"

lemma written_key_matches:
  assumes "wraps P" "length (rfc_key P (public_half P k)) < 2 ^ 32" "length (KeyPair_name P k) < 2 ^ 32"
    and "parse_client_key K (KeyPair_name P k) (rfc_key P (public_half P k)) = KeyParsed pk"
    and "sign d = Ok (rfc_string (rfc_string algo @ rfc_string sg))" "length (rfc_string algo @ rfc_string sg) < 2 ^ 32"
    and "verify_client_auth K (set_signature_hash K algo pk) d sg"
  shows "keys_match K (key_of_pair P k sign) pk algo (set_signature_hash K algo pk) d"
  unfolding keys_match_def
  by (rule exI [of _ "rfc_key P (public_half P k)"], rule exI [of _ sg])
    (use assms in \<open>simp add: key_of_pair_def KeyPair_push_public PublicKey_push_rfc\<close>)

section \<open>A concrete package\<close>

definition demo_key_package :: "(bytes, bytes, bytes, bytes, bytes) key_package" where
  "demo_key_package = \<lparr>ED25519_name = bs ''ssh-ed25519'', SSH_RSA_name = bs ''ssh-rsa'', verifying_key = (\<lambda>k. k),
     pair_hash_name = (\<lambda>_. bs ''rsa-sha2-256''), public_hash_name = (\<lambda>_. bs ''rsa-sha2-256''), RsaPublicKey_from = (\<lambda>k. k), to_public_key = (\<lambda>k. k), extend_rsa = rfc_string,
     ec_algorithm = (\<lambda>_. bs ''ecdsa-sha2-nistp256''), ec_ident = (\<lambda>_. bs ''nistp256''), to_sec1_bytes = (\<lambda>k. k),
     extend_wrapped = rfc_string\<rparr>"

section \<open>Properties\<close>

text \<open>
  C39: A key pair of every kind is written as its public half is, as one string whose announced length is that of its parts:
  who reads it gets the key as the RFCs lay it out, beginning with the name of its algorithm. A client that
  offers such a key under its name (for RSA that of the signature hash) and a server whose package parses that layout and verifies the client's signatures therefore meet the
  conditions under which their authentication succeeds.
\<close>

theorem key_pair_wire_form:
  assumes "wraps P" "length (rfc_key P (public_half P k)) < 2 ^ 32" "length (key_algorithm P (public_half P k)) < 2 ^ 32"
    "length (KeyPair_name P k) < 2 ^ 32"
  shows "read_string rfc4251 (KeyPair_push_to rfc4251 P k [] @ r) = Some (rfc_key P (public_half P k), r)
    \<and> PublicKey_push_to rfc4251 P (public_half P k) buf = KeyPair_push_to rfc4251 P k buf
    \<and> (\<exists>rest. read_string rfc4251 (rfc_key P (public_half P k)) = Some (key_algorithm P (public_half P k), rest))
    \<and> (parse_client_key K (KeyPair_name P k) (rfc_key P (public_half P k)) = KeyParsed pk
       \<longrightarrow> sign d = Ok (rfc_string (rfc_string algo @ rfc_string sg)) \<longrightarrow> length (rfc_string algo @ rfc_string sg) < 2 ^ 32
       \<longrightarrow> verify_client_auth K (set_signature_hash K algo pk) d sg
       \<longrightarrow> keys_match K (key_of_pair P k sign) pk algo (set_signature_hash K algo pk) d)"
  unfolding KeyPair_push_public
  by (intro conjI impI key_read_back [OF assms(1-3)] written_key_matches [OF assms(1,2,4)] refl; assumption)

theorem key_pair_wire_form_witness:
  "read_string rfc4251 (KeyPair_push_to rfc4251 demo_key_package (PairEC [4, 7]) [] @ [8]) =
     Some (rfc_string (bs ''ecdsa-sha2-nistp256'') @ rfc_string (bs ''nistp256'') @ rfc_string [4, 7], [8])
   \<and> keys_match demo_client_keys (key_of_pair demo_key_package (PairEC [4, 7]) (\<lambda>d. Ok (rfc_string (rfc_string [] @ rfc_string
       (rfc_key demo_key_package (PublicEC [4, 7]) @ be32 (of_nat (length d))))))) (rfc_key demo_key_package (PublicEC [4, 7])) []
       (rfc_key demo_key_package (PublicEC [4, 7])) [5]"
  using key_pair_wire_form [of demo_key_package "PairEC [4, 7]" "[8]" "[]" demo_client_keys "rfc_key demo_key_package (PublicEC [4, 7])"
      "\<lambda>d. Ok (rfc_string (rfc_string [] @ rfc_string (rfc_key demo_key_package (PublicEC [4, 7]) @ be32 (of_nat (length d)))))" "[5]" "[]"
      "rfc_key demo_key_package (PublicEC [4, 7]) @ be32 (of_nat (length [5 :: u8]))"]
  by (simp add: demo_key_package_def wraps_def key_algorithm_def length_rfc_string demo_client_keys_def)

text \<open>The name of a certificate tells which algorithm it is for: no two algorithms share one.\<close>

theorem certificate_names_distinct: "Certificate_name C a = Certificate_name C b \<longleftrightarrow> certificate_algorithm_of C a = certificate_algorithm_of C b"
  unfolding Certificate_name_def using certificate_name_inj by auto

end
