(* ===== verification/Spec2Isabelle.thy ===== *)
theory Spec2Isabelle
  imports Supervisor Channel_Stream Server_Handshake Server_Socket Ssh_Keys
begin

text \<open>
  A verification development for \<^verbatim>\<open>sshtun\<close>, a program that keeps an SSH connection with its tunnels alive, and
  for \<^verbatim>\<open>russh\<close>, the SSH library it carries in \<^verbatim>\<open>src/crates/russh\<close>. Paths below are relative to \<^verbatim>\<open>src/src\<close> for
  the program and to \<^verbatim>\<open>src/crates/russh/src\<close> for the library.

  \<^bold>\<open>The parts and how they interact.\<close>
  \<^verbatim>\<open>main.rs\<close> resolves the command line and the user's SSH configuration (\<^verbatim>\<open>config.rs\<close>) and then loops:
  it connects through the jump hosts and authenticates (\<^verbatim>\<open>ssh.rs\<close>), starts the tunnels (\<^verbatim>\<open>tunnels/\<close>), runs the
  hooks (\<^verbatim>\<open>hooks.rs\<close>), watches the link (\<^verbatim>\<open>monitor.rs\<close>), and starts over when the link dies. A connection is a
  client session of the library. The client sends and reads an identification line (\<^verbatim>\<open>sshbuffer.rs\<close>,
  \<^verbatim>\<open>ssh_read.rs\<close>); both sides offer algorithms (\<^verbatim>\<open>negotiation.rs\<close>) and agree on keys (\<^verbatim>\<open>kex/\<close>,
  \<^verbatim>\<open>client/kex.rs\<close>, \<^verbatim>\<open>server/kex.rs\<close>); every packet is framed, padded and sealed (\<^verbatim>\<open>cipher/\<close>, \<^verbatim>\<open>mac/\<close>);
  the session's loop (\<^verbatim>\<open>client/mod.rs\<close>) hands the packets to \<^verbatim>\<open>client/encrypted.rs\<close> and the commands of the
  program to \<^verbatim>\<open>client/session.rs\<close>; the channels and their flow control are in \<^verbatim>\<open>session.rs\<close>. The program holds
  a \<open>Handle\<close> of the session and a \<open>Channel\<close> for every channel, which it uses as a stream (\<^verbatim>\<open>channels/\<close>). The server side of
  the library (\<^verbatim>\<open>server/\<close>) mirrors the client over the same session core.

  \<^bold>\<open>Foundations.\<close>
  \<^item> \<open>Ssh_Prelude\<close>: words for Rust's integers; \<open>outcome\<close>, the result of a computation: \<open>Ok\<close>, \<open>Err\<close>, \<open>Panic\<close> or
    \<open>Diverge\<close>; big-endian bytes; lemmas on lists.
  \<^item> \<open>Ssh_Codec\<close>: the encodings of the package \<^verbatim>\<open>russh_keys\<close> as the record \<open>codec\<close> with the locale \<open>ssh_encoding\<close> of
    their laws, interpreted on the encoding \<open>rfc4251\<close>.
  \<^item> \<open>Transition\<close>: runs of labelled step relations; the locales \<open>step_invariant\<close> and \<open>forward_simulation\<close>.
  \<^item> \<open>Rust_Str\<close>: Rust's \<open>str\<close> as the program uses it, on the code points below 256.

  \<^bold>\<open>The library.\<close>
  \<^item> \<open>Russh_Lib\<close> (\<^verbatim>\<open>lib.rs\<close>, \<^verbatim>\<open>msg.rs\<close>): errors, limits, disconnect reasons, signals, channel parameters.
  \<^item> \<open>Negotiation\<close> (\<^verbatim>\<open>negotiation.rs\<close>): KEXINIT, written and read; the choice of a common algorithm as the locale
    \<open>algo_choice\<close>, interpreted on the select loop of each side. Both sides read the same names.
  \<^item> \<open>Packet_Cipher\<close> (\<^verbatim>\<open>cipher/mod.rs\<close>, \<^verbatim>\<open>cipher/clear.rs\<close>, \<^verbatim>\<open>sshbuffer.rs\<close>): sealing and reading packets against a pair of
    keys; the locale \<open>packet_cipher\<close> has the contract between the two halves.
  \<^item> \<open>Ciphers\<close> (the other files of \<^verbatim>\<open>cipher/\<close>, \<^verbatim>\<open>mac/\<close>): AES-GCM, ChaCha20-Poly1305, counter and block chaining modes, the
    MACs before and after encryption, and the tables of both. Every pair of keys made of the same bytes
    satisfies the contract, so what one side seals the other reads; the padding is what the RFC asks for.
  \<^item> \<open>Ssh_Ident\<close> (\<^verbatim>\<open>sshbuffer.rs\<close>, \<^verbatim>\<open>ssh_read.rs\<close>): the identification line, read from any pieces.
  \<^item> \<open>Channel_Session\<close> (\<^verbatim>\<open>session.rs\<close>): the encrypted session, its channels, queues and windows, and the states of a
    key exchange. Bytes are sent in order and within the window; a deferred EOF or CLOSE follows the last byte.
  \<^item> \<open>Key_Exchange\<close> (\<^verbatim>\<open>kex/\<close>, \<^verbatim>\<open>client/kex.rs\<close>, \<^verbatim>\<open>server/kex.rs\<close>, \<open>server_key_check\<close> of \<^verbatim>\<open>client/mod.rs\<close>): Curve25519, the
    curves of NIST, the groups of \<^verbatim>\<open>kex/dh/groups.rs\<close>, no exchange; the hash, the derivation of the keys, and the
    messages of both sides. Both sides reach the same session identifier and mirrored keys.
  \<^item> \<open>Ssh_Messages\<close> (\<^verbatim>\<open>parsing.rs\<close>): the messages that open channels.
  \<^item> \<open>Client_Session\<close>, \<open>Client_Flow\<close>, \<open>Client_Protocol\<close> (\<^verbatim>\<open>client/mod.rs\<close>, \<^verbatim>\<open>client/session.rs\<close>, \<^verbatim>\<open>client/encrypted.rs\<close>): the
    state of a client, its requests and commands and every message of an authenticated server; the channel as a
    refinement of an abstract flow control; opening handshakes, isolation of channels, replies in order. The locale
    \<open>client_handler\<close> has what is asked of the application's handler.
  \<^item> \<open>Client_Auth\<close> (\<^verbatim>\<open>auth.rs\<close>, \<^verbatim>\<open>client/encrypted.rs\<close>): authentication, and the invariants of a client's runs.
  \<^item> \<open>Client_Kex\<close>, \<open>Client_Handshake\<close> (\<^verbatim>\<open>client/mod.rs\<close>, \<^verbatim>\<open>client/encrypted.rs\<close>): the connection, the event loop with its
    branches, the packets before encryption and the key re-exchange; an encrypted session has a session
    identifier that an accepted host key has signed, and the handshake runs to its end.
  \<^item> \<open>Client_Handle\<close> (\<open>Handle\<close> of \<^verbatim>\<open>client/mod.rs\<close>): the calls of an application with the command that each sends and the
    reply that it waits for.
  \<^item> \<open>Channel_Stream\<close> (\<^verbatim>\<open>channels/\<close>): the requests of a channel, its polled writer and reader, and data copied into it. What is
    written at one end is read at the other, over every interleaving of the polls of both ends, the changes of the window and the deliveries of the
    sessions between them (\<open>pipe_step\<close>). The locale \<open>polled_reader\<close> has the contract of a reader, kept
    by the reader of a channel and by its stream.
  \<^item> \<open>Server_Session\<close>, \<open>Server_Auth\<close>, \<open>Server_Channels\<close> (\<^verbatim>\<open>server/session.rs\<close>, \<^verbatim>\<open>server/encrypted.rs\<close>, \<^verbatim>\<open>pty.rs\<close>): the state of a
    server, its requests, every message of a client, and authentication. Nobody is authenticated without a grant of the application;
    the client's key authentication succeeds with the server; a terminal request arrives with its modes.
  \<^item> \<open>Server_Loop\<close>, \<open>Server_Handshake\<close> (\<^verbatim>\<open>server/mod.rs\<close>, \<^verbatim>\<open>server/session.rs\<close>, \<^verbatim>\<open>server/encrypted.rs\<close>): the server's connection, its event
    loop, key exchange and re-exchange, the calls of its \<open>Handle\<close>. The loops of the two sides, each run on what the other has
    sent by then, in both directions, reach the same encrypted session, for the elliptic-curve exchanges.
  \<^item> \<open>Server_Invariant\<close>: what the whole loop of the server keeps. The locale \<open>server_invariant\<close> carries an invariant of packets and messages
    over key exchange, flushing and timers; it is interpreted for a session that nobody was granted, which stays
    unauthenticated, and for well-formed channels. The locale \<open>server_application\<close> has what the latter asks of an application.
  \<^item> \<open>Server_Socket\<close> (\<^verbatim>\<open>server/session.rs\<close>, \<open>run_on_socket\<close> of \<^verbatim>\<open>server/mod.rs\<close>): the shutdown of a session, which always ends with
    an error, and the accept loop.
  \<^item> \<open>Ssh_Keys\<close> (\<^verbatim>\<open>key.rs\<close>, \<^verbatim>\<open>cert.rs\<close>, the names of \<^verbatim>\<open>negotiation.rs\<close>): how keys and certificates are written and named.

  \<^bold>\<open>The program.\<close>
  \<^item> \<open>Forward_Specs\<close>, \<open>Tun_Auto\<close>, \<open>Ssh_Config\<close>, \<open>Resolved_Config\<close> (\<^verbatim>\<open>config.rs\<close>): the arguments and their round trips,
    automatic TUN identifiers and addresses, the configuration file with Include, Host and Match, and the
    precedence of command line, file and defaults.
  \<^item> \<open>Tunnels\<close> (\<^verbatim>\<open>tunnels/\<close>): TUN, local, remote and dynamic forwarding, and which tasks run.
  \<^item> \<open>Connection\<close> (\<^verbatim>\<open>ssh.rs\<close>, \<^verbatim>\<open>monitor.rs\<close>): authentication over the calls of a \<open>Handle\<close> (\<open>authenticate_publickey\<close>, \<open>authenticate_future\<close>), with
    what the session takes and answers and what the agent signs as explicit sequences (\<open>handle_io\<close>): a call returns or waits for the next of them; the marked TCP
    connection; the chain of jump hosts with what each session runs over; the link monitor.
  \<^item> \<open>Hooks\<close> (\<^verbatim>\<open>hooks.rs\<close>): the remote scripts statement by statement, and what the clean-up script covers of the set-up script.
  \<^item> \<open>Supervisor\<close> (\<^verbatim>\<open>main.rs\<close>): the main loop as a step relation with its invariant. The branches of a select are polled in any order; a future of
    \<open>ctrl_c\<close> installs the handler and listens only when it is polled.

  \<^bold>\<open>Conventions.\<close>
  A struct is a record, an enum a datatype, a method a definition of the same name (prefixed with its type where two
  share one). Release builds are modelled: 32-bit sums wrap. An awaited future is its result, except in the polled streams of a channel, in the calls of \<open>Connection\<close> on a handle, which may
  wait, and in the step relation of the main loop; a stream is the
  list of the pieces that arrive; the random values, the clock and the order of a hash map's iteration at
  one turn of a loop are its \<open>moment\<close>. Code of other packages is a parameter: \<open>codec\<close>, \<open>crypto\<close>, \<open>kex_lib\<close>, \<open>host_lib\<close>, \<open>client_key_lib\<close>, \<open>key_package\<close>, the
  zlib streams, the machine (\<open>host_env\<close>); \<open>crypto_ok\<close>, \<open>kex_lib_ok\<close>, \<open>host_key_ok\<close>, \<open>keys_match\<close> and \<open>wraps\<close> state what their documentation
  promises, and the witnesses instantiate them.

  \<^bold>\<open>Bounds and fuel.\<close>
  Loops that may not end are partial functions or have fuel: the files of a configuration plus one (each file is
  read once on a path of Includes), the length of a list of announced keys plus one (each key takes at least a
  byte), the length of a key (a hash is not empty); the lemmas show that this is enough. Packets of up to 261000
  bytes fit the maximum of 262144 with their padding; the identification line has 256 bytes; the flow
  control is shown where its 32-bit sums are exact and the peer's packet size is not 0 (\<open>flow_ok\<close>), and counterexamples show a panic and a
  loop without end outside.

  \<^bold>\<open>Not modelled.\<close>
  What only calls the runtime: binding and connecting sockets by name in the library (\<open>connect\<close>, \<open>run_on_address\<close>), awaiting the task of a
  session (\<open>Future\<close> of \<open>Handle\<close> and \<open>RunningSession\<close>), the time that a rejected authentication is delayed, and the timers, whose expiry is
  an event that may happen at any turn; closing the write half of a socket at the shutdown of a server, and a peer that
  keeps its connection open for ever, since a stream is finite. The implementation of \<open>Signer\<close> for the agent client of another package (\<^verbatim>\<open>auth.rs\<close>), which passes
  the call on; logging and the texts of errors; tests and examples; and the packages outside of \<^verbatim>\<open>src\<close>.
\<close>

end
